(* ===== verification/Prelude.thy ===== *)
theory Prelude
  imports Main "HOL-Library.AList" "HOL-Library.Sublist"
begin

text \<open>
  What the component theories share.

  A Python dict is an association list with distinct keys: \<^const>\<open>map_of\<close> looks a key up,
  \<^const>\<open>AList.update\<close> stores in place or appends at the end (the insertion order Python
  keeps), \<^const>\<open>AList.delete\<close> removes. The facts about them live in the collection
  \<open>dict_simps\<close>. An operation that can raise returns a sum: \<open>Inl\<close> the error, \<open>Inr\<close> the result.

  An ORM query that scans a table is a \<^const>\<open>filter\<close> or \<^const>\<open>find\<close> over the list of rows;
  \<open>upd_where\<close> is the UPDATE of the rows that satisfy a condition. Their facts are in
  \<open>query_simps\<close>.
\<close>

named_theorems dict_simps \<open>lookups in Python dicts\<close>
named_theorems query_simps \<open>queries and updates over lists of rows\<close>

subsection \<open>Dicts\<close>

type_synonym ('k, 'v) dict = "('k \<times> 'v) list"

definition dget :: "('k, 'v) dict \<Rightarrow> 'k \<Rightarrow> 'v option" where
  "dget d k = map_of d k"

definition dset :: "'k \<Rightarrow> 'v \<Rightarrow> ('k, 'v) dict \<Rightarrow> ('k, 'v) dict" where
  "dset k v d = AList.update k v d"

definition ddel :: "'k \<Rightarrow> ('k, 'v) dict \<Rightarrow> ('k, 'v) dict" where
  "ddel k d = AList.delete k d"

definition dkeys :: "('k, 'v) dict \<Rightarrow> 'k list" where
  "dkeys d = map fst d"

definition dhas :: "('k, 'v) dict \<Rightarrow> 'k \<Rightarrow> bool" where
  "dhas d k = (k \<in> set (dkeys d))"

text \<open>\<open>d.update(e)\<close> and \<open>{**d, **e}\<close>: the pairs of \<open>e\<close> stored one after the other.\<close>

definition dupdate :: "('k, 'v) dict \<Rightarrow> ('k, 'v) dict \<Rightarrow> ('k, 'v) dict" where
  "dupdate d e = fold (\<lambda>(k, v) acc. dset k v acc) e d"

definition wf_dict :: "('k, 'v) dict \<Rightarrow> bool" where
  "wf_dict d = distinct (dkeys d)"

lemma dget_Nil [simp, dict_simps]: "dget [] k = None"
  by (simp add: dget_def)

lemma dget_Cons [dict_simps]: "dget ((k', v) # d) k = (if k' = k then Some v else dget d k)"
  by (simp add: dget_def)

lemma dget_dset [simp, dict_simps]: "dget (dset k v d) j = (if j = k then Some v else dget d j)"
  by (simp add: dget_def dset_def update_conv)

lemma dget_ddel [simp, dict_simps]: "dget (ddel k d) j = (if j = k then None else dget d j)"
  by (simp add: dget_def ddel_def delete_conv)

lemma dhas_iff [dict_simps]: "dhas d k \<longleftrightarrow> dget d k \<noteq> None"
  by (simp add: dhas_def dkeys_def dget_def map_of_eq_None_iff)

lemma dkeys_dset [simp]: "set (dkeys (dset k v d)) = insert k (set (dkeys d))"
  by (simp add: dkeys_def dset_def dom_update)

lemma dkeys_ddel [simp]: "set (dkeys (ddel k d)) = set (dkeys d) - {k}"
  by (auto simp: dkeys_def ddel_def delete_keys)

lemma wf_dict_Nil [simp]: "wf_dict []"
  by (simp add: wf_dict_def dkeys_def)

lemma wf_dict_dset [simp]: "wf_dict (dset k v d) = wf_dict d"
proof -
  have "distinct (map fst (AList.update k v d)) = distinct (map fst d)"
    by (induction d) (auto simp: dom_update split: if_splits)
  then show ?thesis by (simp add: wf_dict_def dkeys_def dset_def)
qed

lemma wf_dict_ddel [simp]: "wf_dict d \<Longrightarrow> wf_dict (ddel k d)"
  by (simp add: wf_dict_def dkeys_def ddel_def distinct_delete)

lemma dupdate_Nil [simp]: "dupdate d [] = d"
  by (simp add: dupdate_def)

lemma dupdate_Cons [simp]: "dupdate d ((k, v) # e) = dupdate (dset k v d) e"
  by (simp add: dupdate_def)

lemma dget_dupdate [dict_simps]:
  "wf_dict e \<Longrightarrow> dget (dupdate d e) k = (case dget e k of None \<Rightarrow> dget d k | Some v \<Rightarrow> Some v)"
proof (induction e arbitrary: d)
  case Nil
  then show ?case by simp
next
  case (Cons p e)
  obtain j v where p: "p = (j, v)" by (cases p)
  have "wf_dict e" and "j \<notin> set (dkeys e)"
    using Cons.prems by (simp_all add: p wf_dict_def dkeys_def)
  then have "dget e j = None"
    by (simp add: dget_def dkeys_def map_of_eq_None_iff)
  with Cons.IH [OF \<open>wf_dict e\<close>, of "dset j v d"] show ?case
    by (auto simp: p dget_Cons split: option.splits)
qed

lemma wf_dict_dupdate [simp]: "wf_dict (dupdate d e) = wf_dict d"
proof (induction e arbitrary: d)
  case (Cons p e)
  then show ?case by (cases p) simp
qed simp

lemma wf_dict_filter [simp]: "wf_dict d \<Longrightarrow> wf_dict (filter P d)"
  by (induction d) (auto simp: wf_dict_def dkeys_def)

lemma dget_filter_key [dict_simps]:
  "dget (filter (\<lambda>(k, v). P k) d) j = (if P j then dget d j else None)"
  by (induction d) (auto simp: dget_def)

subsection \<open>Rows of an ORM table\<close>

definition upd_where :: "('r \<Rightarrow> bool) \<Rightarrow> ('r \<Rightarrow> 'r) \<Rightarrow> 'r list \<Rightarrow> 'r list" where
  "upd_where P f rs = map (\<lambda>r. if P r then f r else r) rs"

text \<open>The key the database assigns to a new row of a table with an auto-increment id.\<close>

definition next_id :: "('r \<Rightarrow> int) \<Rightarrow> 'r list \<Rightarrow> int" where
  "next_id key rs = fold (\<lambda>r m. max m (key r)) rs 0 + 1"

lemma length_upd_where [simp, query_simps]: "length (upd_where P f rs) = length rs"
  by (simp add: upd_where_def)

lemma upd_where_Nil [simp, query_simps]: "upd_where P f [] = []"
  by (simp add: upd_where_def)

lemma upd_where_Cons [query_simps]:
  "upd_where P f (r # rs) = (if P r then f r else r) # upd_where P f rs"
  by (simp add: upd_where_def)

lemma set_upd_where [query_simps]:
  "set (upd_where P f rs) = {f r |r. r \<in> set rs \<and> P r} \<union> {r \<in> set rs. \<not> P r}"
  by (auto simp: upd_where_def)

lemma map_upd_where [query_simps]:
  "(\<And>r. g (f r) = g r) \<Longrightarrow> map g (upd_where P f rs) = map g rs"
  by (simp add: upd_where_def)

lemma upd_where_none [query_simps]:
  "(\<And>r. r \<in> set rs \<Longrightarrow> \<not> P r) \<Longrightarrow> upd_where P f rs = rs"
  by (induction rs) (auto simp: upd_where_def)

lemma find_upd_where_same:
  "(\<And>r. P (f r) = P r) \<Longrightarrow> find P (upd_where P f rs) = map_option f (find P rs)"
  by (induction rs) (auto simp: upd_where_def)

lemma find_upd_where_other:
  "(\<And>r. P r \<Longrightarrow> Q (f r) = Q r) \<Longrightarrow> (\<And>r. Q r \<Longrightarrow> \<not> P r) \<Longrightarrow>
    find Q (upd_where P f rs) = find Q rs"
  by (induction rs) (auto simp: upd_where_def)

lemma fold_max_ge:
  fixes a :: int
  shows "a \<le> fold (\<lambda>r m. max m (key r)) rs a"
    and "r \<in> set rs \<Longrightarrow> key r \<le> fold (\<lambda>r m. max m (key r)) rs a"
proof (induction rs arbitrary: a)
  case (Cons x xs)
  { case 1 show ?case using Cons.IH(1) [of "max a (key x)"] by simp }
  { case 2
    show ?case
    proof (cases "r = x")
      case True
      then show ?thesis using Cons.IH(1) [of "max a (key x)"] by simp
    next
      case False
      then show ?thesis using 2 Cons.IH(2) [of "max a (key x)"] by simp
    qed }
qed auto

lemma next_id_fresh [query_simps]: "r \<in> set rs \<Longrightarrow> key r < next_id key rs"
  using fold_max_ge(2) [of r rs key 0] by (simp add: next_id_def)

lemma next_id_pos [simp]: "0 < next_id key rs"
  using fold_max_ge(1) [of 0 key rs] by (simp add: next_id_def)

subsection \<open>Options and sums\<close>

definition is_some :: "'a option \<Rightarrow> bool" where
  "is_some x = (x \<noteq> None)"

text \<open>The first \<open>Some\<close> a function gives along a list, as a loop that returns early does.\<close>

fun first_some :: "('a \<Rightarrow> 'b option) \<Rightarrow> 'a list \<Rightarrow> 'b option" where
  "first_some f [] = None"
| "first_some f (x # xs) = (case f x of None \<Rightarrow> first_some f xs | Some y \<Rightarrow> Some y)"

lemma first_some_None: "first_some f xs = None \<longleftrightarrow> (\<forall>x\<in>set xs. f x = None)"
  by (induction xs) (auto split: option.splits)

lemma first_some_SomeD: "first_some f xs = Some y \<Longrightarrow> \<exists>x\<in>set xs. f x = Some y"
  by (induction xs) (auto split: option.splits)

lemma find_Some_set: "find P xs = Some x \<Longrightarrow> x \<in> set xs \<and> P x"
  by (induction xs) (auto split: if_splits)

lemma find_unique:
  "x \<in> set xs \<Longrightarrow> P x \<Longrightarrow> (\<And>y. y \<in> set xs \<Longrightarrow> P y \<Longrightarrow> y = x) \<Longrightarrow> find P xs = Some x"
proof (induction xs)
  case (Cons a xs)
  show ?case
  proof (cases "P a")
    case True
    with Cons.prems(3) [of a] show ?thesis by simp
  next
    case False
    with Cons show ?thesis by (metis find.simps(2) list.set_intros(2) set_ConsD)
  qed
qed simp

lemma find_append: "find P (xs @ ys) = (case find P xs of None \<Rightarrow> find P ys | Some x \<Rightarrow> Some x)"
  by (induction xs) auto

subsection \<open>Dicts built from rows\<close>

lemma in_dkeys: "k \<in> set (dkeys d) \<longleftrightarrow> dget d k \<noteq> None"
  using dhas_iff [of d k] by (simp add: dhas_def)

lemma fold_dset_dget:
  "dget (fold (\<lambda>w d. dset (k w) w d) ws d0) i =
     (case find (\<lambda>w. k w = i) (rev ws) of Some w \<Rightarrow> Some w | None \<Rightarrow> dget d0 i)"
proof (induction ws arbitrary: d0)
  case (Cons w ws)
  show ?case
    by (cases "find (\<lambda>w. k w = i) (rev ws)") (simp_all add: Cons.IH find_append)
qed simp

lemma wf_dict_fold_dset: "wf_dict d0 \<Longrightarrow> wf_dict (fold (\<lambda>w d. dset (k w) w d) ws d0)"
  by (induction ws arbitrary: d0) simp_all

end
