(* ===== verification/PyStr.thy ===== *)
theory PyStr
  imports Prelude "HOL-Library.Char_ord" "HOL-Library.List_Lexorder"
begin

text \<open>
  The Python string operations the program uses. A Python string is a list of characters,
  one \<^typ>\<open>char\<close> per code point, so the model covers the strings over the code points
  0 to 255; on them \<open>lower\<close>, \<open>strip\<close>, \<open>isdigit\<close> and \<open>isalpha\<close> are exactly Python's
  (which is why the superscript digits, for which \<open>isdigit\<close> holds and \<open>int\<close> raises,
  are digits here as well).
\<close>

type_synonym pystr = string

subsection \<open>Characters\<close>

definition code :: "char \<Rightarrow> int" where
  "code c = of_char c"

definition is_space :: "char \<Rightarrow> bool" where
  "is_space c = (let n = code c in
     (9 \<le> n \<and> n \<le> 13) \<or> (28 \<le> n \<and> n \<le> 32) \<or> n = 133 \<or> n = 160)"

definition is_dec :: "char \<Rightarrow> bool" where
  "is_dec c = (48 \<le> code c \<and> code c \<le> 57)"

definition is_digit :: "char \<Rightarrow> bool" where
  "is_digit c = (is_dec c \<or> code c = 178 \<or> code c = 179 \<or> code c = 185)"

definition is_upper_char :: "char \<Rightarrow> bool" where
  "is_upper_char c = (let n = code c in
     (65 \<le> n \<and> n \<le> 90) \<or> (192 \<le> n \<and> n \<le> 222 \<and> n \<noteq> 215))"

definition is_lower_ascii :: "char \<Rightarrow> bool" where
  "is_lower_ascii c = (97 \<le> code c \<and> code c \<le> 122)"

definition is_alpha :: "char \<Rightarrow> bool" where
  "is_alpha c = (let n = code c in
     (65 \<le> n \<and> n \<le> 90) \<or> (97 \<le> n \<and> n \<le> 122) \<or> n = 170 \<or> n = 181 \<or> n = 186
     \<or> (192 \<le> n \<and> n \<noteq> 215 \<and> n \<noteq> 247))"

definition lower_char :: "char \<Rightarrow> char" where
  "lower_char c = (if is_upper_char c then char_of (code c + 32) else c)"

definition upper_ascii_char :: "char \<Rightarrow> char" where
  "upper_ascii_char c = (if is_lower_ascii c then char_of (code c - 32) else c)"

subsection \<open>Strings\<close>

definition py_lower :: "pystr \<Rightarrow> pystr" where
  "py_lower s = map lower_char s"

text \<open>\<open>upper()\<close>, used on keywords only: letters outside ASCII are left alone.\<close>

definition py_upper :: "pystr \<Rightarrow> pystr" where
  "py_upper s = map upper_ascii_char s"

definition lstrip_by :: "(char \<Rightarrow> bool) \<Rightarrow> pystr \<Rightarrow> pystr" where
  "lstrip_by P s = dropWhile P s"

definition rstrip_by :: "(char \<Rightarrow> bool) \<Rightarrow> pystr \<Rightarrow> pystr" where
  "rstrip_by P s = rev (dropWhile P (rev s))"

definition strip_by :: "(char \<Rightarrow> bool) \<Rightarrow> pystr \<Rightarrow> pystr" where
  "strip_by P s = rstrip_by P (lstrip_by P s)"

definition py_strip :: "pystr \<Rightarrow> pystr" where
  "py_strip s = strip_by is_space s"

definition py_isdigit :: "pystr \<Rightarrow> bool" where
  "py_isdigit s = (s \<noteq> [] \<and> list_all is_digit s)"

fun split_on :: "char \<Rightarrow> pystr \<Rightarrow> pystr list" where
  "split_on c [] = [[]]"
| "split_on c (x # xs) =
     (if x = c then [] # split_on c xs
      else (case split_on c xs of [] \<Rightarrow> [[x]] | w # ws \<Rightarrow> (x # w) # ws))"

fun py_contains :: "pystr \<Rightarrow> pystr \<Rightarrow> bool" where
  "py_contains t [] = (t = [])"
| "py_contains t (c # s) = (prefix t (c # s) \<or> py_contains t s)"

fun join_with :: "pystr \<Rightarrow> pystr list \<Rightarrow> pystr" where
  "join_with sep [] = []"
| "join_with sep [w] = w"
| "join_with sep (w # v # ws) = w @ sep @ join_with sep (v # ws)"

lemma py_contains_sublist: "py_contains t s = sublist t s"
  by (induction s) (auto simp: sublist_Cons_right)

subsection \<open>Decimal integers\<close>

definition dec_val :: "char \<Rightarrow> int" where
  "dec_val c = code c - 48"

definition dec_char :: "int \<Rightarrow> char" where
  "dec_char d = char_of (48 + d)"

text \<open>The digits of an integer that is not negative.\<close>

function show_nat :: "int \<Rightarrow> pystr" where
  "show_nat n = (if n < 10 then [dec_char n] else show_nat (n div 10) @ [dec_char (n mod 10)])"
  by pat_completeness auto
termination
  by (relation "measure nat") auto

declare show_nat.simps [simp del]

text \<open>\<open>str(i)\<close> of an integer.\<close>

definition str_int :: "int \<Rightarrow> pystr" where
  "str_int i = (if i < 0 then CHR ''-'' # show_nat (- i) else show_nat i)"

definition digits_val :: "pystr \<Rightarrow> int" where
  "digits_val s = foldl (\<lambda>a c. 10 * a + dec_val c) 0 s"

text \<open>Digits with single underscores between them, as in \<open>int("1_000")\<close>.\<close>

fun digits_us :: "pystr \<Rightarrow> bool" where
  "digits_us [] = False"
| "digits_us [c] = is_dec c"
| "digits_us (c # d # s) =
     (is_dec c \<and> (if d = CHR ''_'' then digits_us s else digits_us (d # s)))"

definition parse_nat :: "pystr \<Rightarrow> int option" where
  "parse_nat s = (if digits_us s then Some (digits_val (filter (\<lambda>c. c \<noteq> CHR ''_'') s)) else None)"

text \<open>\<open>int(s)\<close>: \<^const>\<open>None\<close> where Python raises \<open>ValueError\<close>.\<close>

definition parse_int :: "pystr \<Rightarrow> int option" where
  "parse_int s = (case py_strip s of
       [] \<Rightarrow> None
     | c # r \<Rightarrow>
        (if c = CHR ''-'' then map_option uminus (parse_nat r)
         else if c = CHR ''+'' then parse_nat r
         else parse_nat (c # r)))"

definition zfill :: "nat \<Rightarrow> pystr \<Rightarrow> pystr" where
  "zfill w s = (if length s \<ge> w then s
     else (case s of
         c # r \<Rightarrow> if c = CHR ''-'' \<or> c = CHR ''+'' then c # replicate (w - length s) (CHR ''0'') @ r
                 else replicate (w - length s) (CHR ''0'') @ s
       | [] \<Rightarrow> replicate w (CHR ''0'')))"

subsection \<open>Facts\<close>

lemma code_lt_256: "0 \<le> code c \<and> code c < 256"
proof -
  have "(of_char c :: int) = int (of_char c)"
    by (simp only: of_nat_of_char)
  then show ?thesis
    unfolding code_def using nat_of_char_less_256 [of c] by (simp del: of_nat_of_char)
qed

lemma code_inj: "code c = code d \<Longrightarrow> c = d"
  by (metis char_of_char code_def)

lemma code_char_of [simp]: "0 \<le> n \<Longrightarrow> n < 256 \<Longrightarrow> code (char_of n) = n"
  by (simp add: code_def)

lemma lower_char_idem [simp]: "lower_char (lower_char c) = lower_char c"
  using code_lt_256 [of c] by (auto simp: lower_char_def is_upper_char_def Let_def)

lemma py_lower_idem [simp]: "py_lower (py_lower s) = py_lower s"
  by (simp add: py_lower_def)

lemma length_py_lower [simp]: "length (py_lower s) = length s"
  by (simp add: py_lower_def)

lemma is_space_lower [simp]: "is_space (lower_char c) = is_space c"
  using code_lt_256 [of c] by (auto simp: lower_char_def is_upper_char_def is_space_def Let_def)

lemma dropWhile_map_lower:
  "(\<And>c. P (lower_char c) = P c) \<Longrightarrow> dropWhile P (map lower_char s) = map lower_char (dropWhile P s)"
  by (induction s) auto

lemma strip_lower: "py_strip (py_lower s) = py_lower (py_strip s)"
  by (simp add: py_strip_def strip_by_def rstrip_by_def lstrip_by_def py_lower_def
      dropWhile_map_lower rev_map)

lemma lstrip_by_idem [simp]: "lstrip_by P (lstrip_by P s) = lstrip_by P s"
  by (induction s) (auto simp: lstrip_by_def)

lemma rstrip_by_idem [simp]: "rstrip_by P (rstrip_by P s) = rstrip_by P s"
  by (induction s rule: rev_induct) (auto simp: rstrip_by_def)

lemma rstrip_by_snoc: "rstrip_by P (s @ [c]) = (if P c then rstrip_by P s else s @ [c])"
  by (simp add: rstrip_by_def)

lemma rstrip_by_prefix: "\<exists>t. s = rstrip_by P s @ t \<and> list_all P t"
proof -
  have "rev s = takeWhile P (rev s) @ dropWhile P (rev s)" by simp
  then have "s = rev (dropWhile P (rev s)) @ rev (takeWhile P (rev s))"
    by (metis rev_append rev_rev_ident)
  moreover have "list_all P (rev (takeWhile P (rev s)))"
    by (auto simp: list_all_iff dest: set_takeWhileD)
  ultimately show ?thesis unfolding rstrip_by_def by blast
qed

lemma hd_rstrip_by: "rstrip_by P s \<noteq> [] \<Longrightarrow> hd (rstrip_by P s) = hd s"
  by (metis hd_append2 rstrip_by_prefix)

lemma lstrip_hd: "lstrip_by P s \<noteq> [] \<Longrightarrow> \<not> P (hd (lstrip_by P s))"
  by (simp add: lstrip_by_def hd_dropWhile)

lemma rstrip_last: "rstrip_by P s \<noteq> [] \<Longrightarrow> \<not> P (last (rstrip_by P s))"
  by (simp add: rstrip_by_def last_rev hd_dropWhile)

lemma lstrip_by_id: "s = [] \<or> \<not> P (hd s) \<Longrightarrow> lstrip_by P s = s"
  by (cases s) (auto simp: lstrip_by_def)

lemma rstrip_by_id: "s = [] \<or> \<not> P (last s) \<Longrightarrow> rstrip_by P s = s"
  by (cases s rule: rev_cases) (auto simp: rstrip_by_def)

lemma strip_by_id: "s = [] \<or> \<not> P (hd s) \<and> \<not> P (last s) \<Longrightarrow> strip_by P s = s"
  by (auto simp: strip_by_def lstrip_by_id rstrip_by_id)

lemma strip_by_ends:
  "strip_by P s \<noteq> [] \<Longrightarrow> \<not> P (hd (strip_by P s)) \<and> \<not> P (last (strip_by P s))"
  by (metis hd_rstrip_by lstrip_hd rstrip_last rstrip_by_def rev.simps(1) dropWhile.simps(1)
      strip_by_def)

lemma strip_by_idem [simp]: "strip_by P (strip_by P s) = strip_by P s"
  by (metis strip_by_ends strip_by_id)

lemma py_strip_idem [simp]: "py_strip (py_strip s) = py_strip s"
  by (simp add: py_strip_def)

lemma set_strip_by: "set (strip_by P s) \<subseteq> set s"
  by (auto simp: strip_by_def rstrip_by_def lstrip_by_def dest!: set_dropWhileD)

lemma length_strip_by: "length (strip_by P s) \<le> length s"
  by (metis (no_types, lifting) length_dropWhile_le length_rev lstrip_by_def order_trans
      rstrip_by_def strip_by_def)

lemma dec_val_char [simp]: "0 \<le> d \<Longrightarrow> d < 10 \<Longrightarrow> dec_val (dec_char d) = d"
  by (simp add: dec_val_def dec_char_def)

lemma is_dec_dec_char [simp]: "0 \<le> d \<Longrightarrow> d < 10 \<Longrightarrow> is_dec (dec_char d)"
  by (simp add: is_dec_def dec_char_def)

lemma is_dec_not:
  "is_dec c \<Longrightarrow> c \<noteq> CHR ''-'' \<and> c \<noteq> CHR ''+'' \<and> c \<noteq> CHR ''_'' \<and> \<not> is_space c"
  by (auto simp: is_dec_def is_space_def code_def Let_def)

lemma show_nat_nonempty [simp]: "show_nat n \<noteq> []"
  by (subst show_nat.simps) simp

lemma show_nat_dec: "0 \<le> n \<Longrightarrow> list_all is_dec (show_nat n)"
proof (induction n rule: show_nat.induct)
  case (1 n)
  then show ?case by (subst show_nat.simps) auto
qed

lemma digits_val_snoc [simp]: "digits_val (s @ [c]) = 10 * digits_val s + dec_val c"
  by (simp add: digits_val_def)

lemma digits_val_show_nat [simp]: "0 \<le> n \<Longrightarrow> digits_val (show_nat n) = n"
proof (induction n rule: show_nat.induct)
  case (1 n)
  show ?case
  proof (cases "n < 10")
    case True
    with 1 show ?thesis by (subst show_nat.simps) (simp add: digits_val_def)
  next
    case False
    with 1 show ?thesis by (subst show_nat.simps) simp
  qed
qed

lemma digits_us_dec: "list_all is_dec s \<Longrightarrow> s \<noteq> [] \<Longrightarrow> digits_us s"
  by (induction s rule: digits_us.induct) (auto dest: is_dec_not)

lemma filter_dec: "list_all is_dec s \<Longrightarrow> filter (\<lambda>c. c \<noteq> CHR ''_'') s = s"
  by (induction s) (auto dest: is_dec_not)

lemma parse_nat_show [simp]: "0 \<le> n \<Longrightarrow> parse_nat (show_nat n) = Some n"
  using show_nat_dec [of n] by (simp add: parse_nat_def digits_us_dec filter_dec)

lemma strip_dec: "list_all is_dec s \<Longrightarrow> py_strip s = s"
  unfolding py_strip_def
  by (rule strip_by_id) (metis is_dec_not hd_in_set last_in_set list_all_iff)

lemma parse_int_str_int [simp]: "parse_int (str_int i) = Some i"
proof (cases "i < 0")
  case True
  let ?s = "show_nat (- i)"
  have dec: "list_all is_dec ?s" "?s \<noteq> []" using True show_nat_dec by auto
  then have "\<not> is_space (last ?s)"
    by (meson is_dec_not last_in_set list_all_iff)
  with dec have "py_strip (CHR ''-'' # ?s) = CHR ''-'' # ?s"
    by (auto simp: py_strip_def is_space_def code_def Let_def intro!: strip_by_id)
  with True show ?thesis by (simp add: parse_int_def str_int_def)
next
  case False
  let ?s = "show_nat i"
  have dec: "list_all is_dec ?s" "?s \<noteq> []" using False show_nat_dec by auto
  then obtain c r where s: "?s = c # r" by (cases ?s) auto
  with dec have "c \<noteq> CHR ''-''" "c \<noteq> CHR ''+''" using is_dec_not by auto
  moreover have "parse_nat (c # r) = Some i" using False parse_nat_show [of i] s by simp
  ultimately show ?thesis using False dec s by (simp add: parse_int_def str_int_def strip_dec)
qed

lemma str_int_inj [simp]: "str_int i = str_int j \<longleftrightarrow> i = j"
  by (metis option.inject parse_int_str_int)

lemma str_int_nonempty [simp]: "str_int i \<noteq> []"
  by (simp add: str_int_def)

end
