(* ===== verification/PyNum.thy ===== *)
theory PyNum
  imports PyStr
begin

text \<open>
  The numbers of the Python program other than \<open>int\<close>: \<open>float\<close> (IEEE binary64, rounding to
  nearest, ties to even) and \<open>decimal.Decimal\<close> (a signed coefficient and a power of ten),
  their literals, their comparison and their text.

  A finite float \<open>FFin s m e\<close> is \<open>(-1)^s * m * 2^e\<close> with \<open>m < 2^53\<close> and \<open>e \<ge> -1074\<close>, and
  \<open>m \<ge> 2^52\<close> unless \<open>e = -1074\<close>, so a value other than zero has one representation. A finite
  decimal \<open>DFin s c e\<close> is \<open>(-1)^s * c * 10^e\<close>. Python compares an int, a float and a
  decimal by their exact values; \<open>num_le\<close> does so by cross-multiplication.
\<close>

datatype pyfloat = FNan | FInf bool | FFin bool int int

datatype decimal = DNan | DInf bool | DFin bool int int

subsection \<open>Exact values\<close>

text \<open>A numerator and a positive denominator, or an infinity; \<^const>\<open>None\<close> for NaN.\<close>

datatype exact = Ratio int int | PosInf | NegInf

definition signed :: "bool \<Rightarrow> int \<Rightarrow> int" where
  "signed s m = (if s then - m else m)"

definition scaled :: "int \<Rightarrow> int \<Rightarrow> int \<Rightarrow> exact" where
  "scaled b m e = (if 0 \<le> e then Ratio (m * b ^ nat e) 1 else Ratio m (b ^ nat (- e)))"

fun exact_float :: "pyfloat \<Rightarrow> exact option" where
  "exact_float FNan = None"
| "exact_float (FInf s) = Some (if s then NegInf else PosInf)"
| "exact_float (FFin s m e) = Some (scaled 2 (signed s m) e)"

fun exact_dec :: "decimal \<Rightarrow> exact option" where
  "exact_dec DNan = None"
| "exact_dec (DInf s) = Some (if s then NegInf else PosInf)"
| "exact_dec (DFin s c e) = Some (scaled 10 (signed s c) e)"

fun exact_le :: "exact \<Rightarrow> exact \<Rightarrow> bool" where
  "exact_le NegInf y = True"
| "exact_le x PosInf = True"
| "exact_le (Ratio a b) (Ratio c d) = (a * d \<le> c * b)"
| "exact_le x y = False"

definition exact_lt :: "exact \<Rightarrow> exact \<Rightarrow> bool" where
  "exact_lt x y = (\<not> exact_le y x)"

definition exact_eq :: "exact \<Rightarrow> exact \<Rightarrow> bool" where
  "exact_eq x y = (exact_le x y \<and> exact_le y x)"

text \<open>A comparison with a NaN is false.\<close>

definition num_rel :: "(exact \<Rightarrow> exact \<Rightarrow> bool) \<Rightarrow> exact option \<Rightarrow> exact option \<Rightarrow> bool" where
  "num_rel R x y = (case (x, y) of (Some a, Some b) \<Rightarrow> R a b | _ \<Rightarrow> False)"

subsection \<open>Rounding to binary64\<close>

function bitlen :: "int \<Rightarrow> int" where
  "bitlen n = (if n \<le> 0 then 0 else 1 + bitlen (n div 2))"
  by pat_completeness auto
termination
  by (relation "measure nat") auto

declare bitlen.simps [simp del]

definition div_half_even :: "int \<Rightarrow> int \<Rightarrow> int" where
  "div_half_even n d = (let q = n div d; r = n mod d in
     if 2 * r > d \<or> (2 * r = d \<and> odd q) then q + 1 else q)"

text \<open>The float nearest to \<open>n / d\<close>: infinite when it is too large.\<close>

definition round_float :: "bool \<Rightarrow> int \<Rightarrow> int \<Rightarrow> pyfloat" where
  "round_float s n d =
     (if n = 0 then FFin s 0 (-1074)
      else
        let k = bitlen n - bitlen d;
            e0 = max (k - 53) (-1074);
            sc = (\<lambda>e. if 0 \<le> e then (n, d * 2 ^ nat e) else (n * 2 ^ nat (- e), d));
            e1 = (case sc e0 of (a, b) \<Rightarrow> if 2 ^ 53 \<le> a div b then e0 + 1 else e0);
            q = (case sc e1 of (a, b) \<Rightarrow> div_half_even a b);
            (m, e) = (if q = 2 ^ 53 then (2 ^ 52, e1 + 1) else (q, e1))
        in if e > 971 then FInf s else FFin s m e)"

definition float_of_scaled :: "bool \<Rightarrow> int \<Rightarrow> int \<Rightarrow> pyfloat" where
  "float_of_scaled s c e =
     (if 0 \<le> e then round_float s (c * 10 ^ nat e) 1 else round_float s c (10 ^ nat (- e)))"

fun float_of_dec :: "decimal \<Rightarrow> pyfloat" where
  "float_of_dec DNan = FNan"
| "float_of_dec (DInf s) = FInf s"
| "float_of_dec (DFin s c e) = float_of_scaled s c e"

subsection \<open>Literals\<close>

definition split_sign :: "pystr \<Rightarrow> bool \<times> pystr" where
  "split_sign s = (case s of [] \<Rightarrow> (False, [])
     | c # r \<Rightarrow> if c = CHR ''-'' then (True, r) else if c = CHR ''+'' then (False, r) else (False, s))"

text \<open>
  \<open>digits [. digits] [e [sign] digits]\<close> with a digit before or after the point. \<open>ok\<close> says
  which digit strings count: underscores are allowed between digits by \<open>float\<close>, and removed
  beforehand by \<open>Decimal\<close>.
\<close>

definition digits_or_empty :: "pystr \<Rightarrow> bool" where
  "digits_or_empty s = (s = [] \<or> digits_us s)"

definition undersc :: "pystr \<Rightarrow> pystr" where
  "undersc s = filter (\<lambda>c. c \<noteq> CHR ''_'') s"

definition parse_exp :: "pystr \<Rightarrow> int option" where
  "parse_exp s = (case split_sign s of (neg, r) \<Rightarrow>
     map_option (\<lambda>n. if neg then - n else n) (parse_nat r))"

definition break_at :: "(char \<Rightarrow> bool) \<Rightarrow> pystr \<Rightarrow> pystr \<times> pystr" where
  "break_at P s = (takeWhile (\<lambda>c. \<not> P c) s, dropWhile (\<lambda>c. \<not> P c) s)"

definition parse_unsigned :: "pystr \<Rightarrow> (int \<times> int) option" where
  "parse_unsigned s =
     (case break_at (\<lambda>c. c = CHR ''e'' \<or> c = CHR ''E'') s of (man, er) \<Rightarrow>
      (case break_at (\<lambda>c. c = CHR ''.'') man of (ip, fr) \<Rightarrow>
        let fp = tl fr; ex = (case er of [] \<Rightarrow> Some 0 | _ # b \<Rightarrow> parse_exp b)
        in if (ip = [] \<and> fp = []) \<or> \<not> digits_or_empty ip \<or> \<not> digits_or_empty fp then None
           else map_option (\<lambda>e. (digits_val (undersc ip @ undersc fp), e - int (length (undersc fp)))) ex))"

text \<open>\<open>float(s)\<close>; \<^const>\<open>None\<close> where Python raises \<open>ValueError\<close>.\<close>

definition parse_float :: "pystr \<Rightarrow> pyfloat option" where
  "parse_float s = (case split_sign (py_strip s) of (neg, r) \<Rightarrow>
     let l = py_lower r in
     if l = ''inf'' \<or> l = ''infinity'' then Some (FInf neg)
     else if l = ''nan'' then Some FNan
     else map_option (\<lambda>(c, e). float_of_scaled neg c e) (parse_unsigned r))"

text \<open>\<open>Decimal(s)\<close>; \<^const>\<open>None\<close> where Python raises \<open>InvalidOperation\<close>. The value is exact.\<close>

definition parse_dec :: "pystr \<Rightarrow> decimal option" where
  "parse_dec s = (case split_sign (undersc (py_strip s)) of (neg, r) \<Rightarrow>
     let l = py_lower r in
     if l = ''inf'' \<or> l = ''infinity'' then Some (DInf neg)
     else if prefix ''nan'' l \<and> list_all is_dec (drop 3 l)
             \<or> prefix ''snan'' l \<and> list_all is_dec (drop 4 l) then Some DNan
     else map_option (\<lambda>(c, e). DFin neg c e) (parse_unsigned r))"

subsection \<open>Text\<close>

definition zeros :: "nat \<Rightarrow> pystr" where
  "zeros n = replicate n (CHR ''0'')"

definition minus_sign :: "bool \<Rightarrow> pystr" where
  "minus_sign s = (if s then ''-'' else [])"

text \<open>\<open>str\<close> of a decimal: the scientific string of the decimal arithmetic specification.\<close>

fun str_dec :: "decimal \<Rightarrow> pystr" where
  "str_dec DNan = ''NaN''"
| "str_dec (DInf s) = minus_sign s @ ''Infinity''"
| "str_dec (DFin s c e) =
     (let ds = show_nat c; n = int (length ds); left = e + n;
          dot = (if e \<le> 0 \<and> -6 < left then left else 1);
          body = (if dot \<le> 0 then ''0.'' @ zeros (nat (- dot)) @ ds
                  else if n \<le> dot then ds @ zeros (nat (dot - n))
                  else take (nat dot) ds @ ''.'' @ drop (nat dot) ds);
          x = left - dot
      in minus_sign s @ body @ (if x = 0 then [] else ''E'' @ (if x < 0 then [] else ''+'') @ str_int x))"

function lead_zeros :: "int \<Rightarrow> int \<Rightarrow> int" where
  "lead_zeros n d = (if n \<le> 0 \<or> d \<le> n then 0 else 1 + lead_zeros (10 * n) d)"
  by pat_completeness auto
termination
  by (relation "measure (\<lambda>(n, d). nat (d - n))") auto

declare lead_zeros.simps [simp del]

text \<open>
  The shortest digit string that rounds back to the float, and the position of its point:
  for each number of digits the two neighbours of the exact value are tried, the closer one
  first; seventeen digits always suffice.
\<close>

definition float_ratio :: "int \<Rightarrow> int \<Rightarrow> int \<times> int" where
  "float_ratio m e = (if 0 \<le> e then (m * 2 ^ nat e, 1) else (m, 2 ^ nat (- e)))"

definition try_digits :: "int \<Rightarrow> int \<Rightarrow> int \<Rightarrow> int \<Rightarrow> (int \<times> int) option" where
  "try_digits m e p k =
     (case float_ratio m e of (n, d) \<Rightarrow>
       let x = k - p;
           (a, b) = (if 0 \<le> x then (n * 10 ^ nat x, d) else (n, d * 10 ^ nat (- x)));
           lo = a div b;
           cands = (if 2 * (a mod b) \<le> b then [lo, lo + 1] else [lo + 1, lo])
       in map_option (\<lambda>c. (c, p - k))
            (find (\<lambda>c. float_of_scaled False c (p - k) = FFin False m e) cands))"

definition shortest_digits :: "int \<Rightarrow> int \<Rightarrow> (int \<times> int) option" where
  "shortest_digits m e =
     (case float_ratio m e of (n, d) \<Rightarrow>
       let p = (if d \<le> n then int (length (show_nat (n div d))) else 1 - lead_zeros n d)
       in first_some (try_digits m e p) [1..17])"

fun str_float :: "pyfloat \<Rightarrow> pystr" where
  "str_float FNan = ''nan''"
| "str_float (FInf s) = minus_sign s @ ''inf''"
| "str_float (FFin s m e) =
     (if m = 0 then minus_sign s @ ''0.0''
      else case shortest_digits m e of None \<Rightarrow> []
      | Some (c, x) \<Rightarrow>
        let ds0 = show_nat c; pt = int (length ds0) + x;
            ds = rstrip_by (\<lambda>c. c = CHR ''0'') ds0; n = int (length ds)
        in minus_sign s @
           (if -4 < pt \<and> pt \<le> 16 then
              (if pt \<le> 0 then ''0.'' @ zeros (nat (- pt)) @ ds
               else if n \<le> pt then ds @ zeros (nat (pt - n)) @ ''.0''
               else take (nat pt) ds @ ''.'' @ drop (nat pt) ds)
            else (take 1 ds @ (if n = 1 then [] else ''.'' @ drop 1 ds) @ ''e'' @
                  (if pt - 1 < 0 then ''-'' else ''+'') @ zfill 2 (show_nat \<bar>pt - 1\<bar>))))"

subsection \<open>Facts\<close>

lemma exact_le_refl: "exact_le x x"
  by (cases x) auto

lemma exact_eq_refl [simp]: "exact_eq x x"
  by (simp add: exact_eq_def exact_le_refl)

lemma exact_lt_irrefl [simp]: "\<not> exact_lt x x"
  by (simp add: exact_lt_def exact_le_refl)

lemma num_rel_None [simp]: "\<not> num_rel R None y" "\<not> num_rel R x None"
  by (auto simp: num_rel_def split: option.splits)

lemma num_rel_Some [simp]: "num_rel R (Some x) (Some y) = R x y"
  by (simp add: num_rel_def)

end
