(* ===== verification/PyVal.thy ===== *)
theory PyVal
  imports PyNum
begin

text \<open>
  The dynamic values of the program: what a database row, a form or a JSON document holds.
  A date is its ordinal (day 1 is 0001-01-01), a datetime the microseconds since the
  start of day 0 (\<open>day * 86400000000 + time\<close>), a time the microseconds since midnight.
  Every timestamp of the model (\<open>now\<close>, \<open>due_at\<close>, \<open>last_run_at\<close>) is such an integer.

  The errors are the exceptions the program raises or lets pass; texts of messages are not
  modelled, their arguments are.
\<close>

datatype pyval =
    VNone
  | VBool bool
  | VInt int
  | VFloat pyfloat
  | VDec decimal
  | VStr pystr
  | VDate int
  | VDateTime int
  | VTime int
  | VList "pyval list"
  | VDict "(pystr \<times> pyval) list"

datatype exn =
    ValueErr pystr
  | TypeErr
  | KeyErr pystr
  | OverflowErr
  | DBErr pystr
  | NotFound
  | RegexErr
  | ArithErr
  | FormulaErr
  | Abort int

type_synonym row = "(pystr, pyval) dict"

abbreviation usec :: int where "usec \<equiv> 1000000"
abbreviation usec_per_min :: int where "usec_per_min \<equiv> 60000000"
abbreviation usec_per_day :: int where "usec_per_day \<equiv> 86400000000"

subsection \<open>Truth, absence, numbers\<close>

fun num_zero :: "exact option \<Rightarrow> bool" where
  "num_zero (Some (Ratio a b)) = (a = 0)"
| "num_zero _ = False"

fun truthy :: "pyval \<Rightarrow> bool" where
  "truthy VNone = False"
| "truthy (VBool b) = b"
| "truthy (VInt i) = (i \<noteq> 0)"
| "truthy (VFloat x) = (\<not> num_zero (exact_float x))"
| "truthy (VDec x) = (\<not> num_zero (exact_dec x))"
| "truthy (VStr s) = (s \<noteq> [])"
| "truthy (VList xs) = (xs \<noteq> [])"
| "truthy (VDict d) = (d \<noteq> [])"
| "truthy _ = True"

text \<open>\<open>v in (None, "")\<close>.\<close>

definition blank :: "pyval \<Rightarrow> bool" where
  "blank v = (v = VNone \<or> v = VStr [])"

text \<open>\<open>row.get(col)\<close>: a missing key reads as \<open>None\<close>.\<close>

definition rget :: "row \<Rightarrow> pystr \<Rightarrow> pyval" where
  "rget r k = (case dget r k of None \<Rightarrow> VNone | Some v \<Rightarrow> v)"

fun exact_val :: "pyval \<Rightarrow> exact option option" where
  "exact_val (VBool b) = Some (Some (Ratio (if b then 1 else 0) 1))"
| "exact_val (VInt i) = Some (Some (Ratio i 1))"
| "exact_val (VFloat x) = Some (exact_float x)"
| "exact_val (VDec x) = Some (exact_dec x)"
| "exact_val _ = None"

subsection \<open>Equality\<close>

text \<open>
  Python's \<open>==\<close>: numbers by value across the number types, a list by its elements, a dict
  by its pairs in any order, a date and a datetime never.
\<close>

definition num_eq :: "pyval \<Rightarrow> pyval \<Rightarrow> bool" where
  "num_eq v w = (case (exact_val v, exact_val w) of
       (Some a, Some b) \<Rightarrow> num_rel exact_eq a b | _ \<Rightarrow> False)"

function py_eq :: "pyval \<Rightarrow> pyval \<Rightarrow> bool" where
  "py_eq v w = (case v of
       VList xs \<Rightarrow> (case w of VList ys \<Rightarrow> list_all2 py_eq xs ys | _ \<Rightarrow> False)
     | VDict d \<Rightarrow> (case w of
          VDict e \<Rightarrow> length d = length e \<and>
            (\<forall>p\<in>set d. case map_of e (fst p) of None \<Rightarrow> False | Some u \<Rightarrow> py_eq (snd p) u)
        | _ \<Rightarrow> False)
     | VStr s \<Rightarrow> (case w of VStr t \<Rightarrow> s = t | _ \<Rightarrow> False)
     | VDate x \<Rightarrow> (case w of VDate y \<Rightarrow> x = y | _ \<Rightarrow> False)
     | VDateTime x \<Rightarrow> (case w of VDateTime y \<Rightarrow> x = y | _ \<Rightarrow> False)
     | VTime x \<Rightarrow> (case w of VTime y \<Rightarrow> x = y | _ \<Rightarrow> False)
     | VNone \<Rightarrow> (case w of VNone \<Rightarrow> True | _ \<Rightarrow> False)
     | _ \<Rightarrow> num_eq v w)"
  by pat_completeness auto
termination
proof (relation "measure (\<lambda>(v, w). size v)")
  fix v w d e and p :: "pystr \<times> pyval" and u
  assume "p \<in> set d" and v: "v = VDict d"
  then have "size_prod (\<lambda>_. 0) size p \<le> size_list (size_prod (\<lambda>_. 0) size) d"
    by (intro size_list_estimation') auto
  then show "((snd p, u), v, w) \<in> measure (\<lambda>(v, w). size v)"
    by (cases p) (simp add: v)
qed (auto dest: size_list_estimation' [where f = size, OF _ order_refl])

declare py_eq.simps [simp del]

subsection \<open>Conversion to numbers\<close>

text \<open>\<open>float(v)\<close>: an integer beyond the range of a float overflows.\<close>

fun to_float :: "pyval \<Rightarrow> exn + pyfloat" where
  "to_float (VBool b) = Inr (round_float False (if b then 1 else 0) 1)"
| "to_float (VInt i) = (case round_float (i < 0) \<bar>i\<bar> 1 of FInf _ \<Rightarrow> Inl OverflowErr | f \<Rightarrow> Inr f)"
| "to_float (VFloat f) = Inr f"
| "to_float (VDec d) = Inr (float_of_dec d)"
| "to_float (VStr s) = (case parse_float s of None \<Rightarrow> Inl (ValueErr s) | Some f \<Rightarrow> Inr f)"
| "to_float _ = Inl TypeErr"

definition float_lt :: "pyfloat \<Rightarrow> pyfloat \<Rightarrow> bool" where
  "float_lt x y = num_rel exact_lt (exact_float x) (exact_float y)"

definition float_le :: "pyfloat \<Rightarrow> pyfloat \<Rightarrow> bool" where
  "float_le x y = num_rel exact_le (exact_float x) (exact_float y)"

subsection \<open>Calendar\<close>

text \<open>The proleptic Gregorian calendar, as \<open>date.fromordinal\<close> and \<open>date.toordinal\<close>.\<close>

definition civil :: "int \<Rightarrow> int \<times> int \<times> int" where
  "civil n = (let z = n + 305; era = z div 146097; doe = z mod 146097;
      yoe = (doe - doe div 1460 + doe div 36524 - doe div 146096) div 365;
      doy = doe - (365 * yoe + yoe div 4 - yoe div 100);
      mp = (5 * doy + 2) div 153;
      d = doy - (153 * mp + 2) div 5 + 1;
      m = (if mp < 10 then mp + 3 else mp - 9)
    in (yoe + era * 400 + (if m \<le> 2 then 1 else 0), m, d))"

definition ordinal :: "int \<Rightarrow> int \<Rightarrow> int \<Rightarrow> int" where
  "ordinal y m d = (let y' = (if m \<le> 2 then y - 1 else y); era = y' div 400; yoe = y' mod 400;
      mp = (if m > 2 then m - 3 else m + 9);
      doy = (153 * mp + 2) div 5 + d - 1;
      doe = yoe * 365 + yoe div 4 - yoe div 100 + doy
    in era * 146097 + doe - 305)"

definition pad :: "nat \<Rightarrow> int \<Rightarrow> pystr" where
  "pad w n = zfill w (str_int n)"

definition iso_date :: "int \<Rightarrow> pystr" where
  "iso_date n = (case civil n of (y, m, d) \<Rightarrow> pad 4 y @ ''-'' @ pad 2 m @ ''-'' @ pad 2 d)"

definition iso_time :: "int \<Rightarrow> pystr" where
  "iso_time t = (let s = t div usec; u = t mod usec in
     pad 2 (s div 3600) @ '':'' @ pad 2 (s div 60 mod 60) @ '':'' @ pad 2 (s mod 60)
     @ (if u = 0 then [] else ''.'' @ pad 6 u))"

definition iso_datetime :: "pystr \<Rightarrow> int \<Rightarrow> pystr" where
  "iso_datetime sep t = iso_date (t div usec_per_day) @ sep @ iso_time (t mod usec_per_day)"

subsection \<open>Text\<close>

definition hex_digit :: "int \<Rightarrow> char" where
  "hex_digit n = (if n < 10 then dec_char n else char_of (87 + n))"

definition repr_char :: "char \<Rightarrow> char \<Rightarrow> pystr" where
  "repr_char q c = (let n = code c in
     if c = q \<or> n = 92 then [CHR 0x5C, c]
     else if n = 10 then [CHR 0x5C, CHR ''n'']
     else if n = 13 then [CHR 0x5C, CHR ''r'']
     else if n = 9 then [CHR 0x5C, CHR ''t'']
     else if n < 32 \<or> (127 \<le> n \<and> n \<le> 160) \<or> n = 173
       then [CHR 0x5C, CHR ''x'', hex_digit (n div 16), hex_digit (n mod 16)]
     else [c])"

definition repr_str :: "pystr \<Rightarrow> pystr" where
  "repr_str s = (let q = (if CHR 0x27 \<in> set s \<and> CHR 0x22 \<notin> set s then CHR 0x22 else CHR 0x27)
     in [q] @ concat (map (repr_char q) s) @ [q])"

text \<open>
  \<open>repr(v)\<close>. Dates do not occur inside lists and dicts, which come from JSON; their \<open>repr\<close>
  is given by their text.
\<close>

fun py_repr :: "pyval \<Rightarrow> pystr" where
  "py_repr VNone = ''None''"
| "py_repr (VBool b) = (if b then ''True'' else ''False'')"
| "py_repr (VInt i) = str_int i"
| "py_repr (VFloat x) = str_float x"
| "py_repr (VDec x) = str_dec x"
| "py_repr (VStr s) = repr_str s"
| "py_repr (VDate x) = iso_date x"
| "py_repr (VDateTime x) = iso_datetime '' '' x"
| "py_repr (VTime x) = iso_time x"
| "py_repr (VList xs) = ''['' @ join_with '', '' (map py_repr xs) @ '']''"
| "py_repr (VDict d) = ''{'' @ join_with '', '' (map (\<lambda>(k, v). repr_str k @ '': '' @ py_repr v) d) @ ''}''"

definition py_str :: "pyval \<Rightarrow> pystr" where
  "py_str v = (case v of VStr s \<Rightarrow> s | _ \<Rightarrow> py_repr v)"

text \<open>\<open>int(pk)\<close> where a failure is turned into \<open>None\<close>.\<close>

fun int_or_none :: "pyval \<Rightarrow> int option" where
  "int_or_none (VInt i) = Some i"
| "int_or_none (VBool b) = Some (if b then 1 else 0)"
| "int_or_none (VStr s) = parse_int s"
| "int_or_none (VDec (DFin s c e)) =
     Some (let m = (if 0 \<le> e then c * 10 ^ nat e else c div 10 ^ nat (- e)) in if s then - m else m)"
| "int_or_none (VFloat (FFin s m e)) =
     Some (let n = (if 0 \<le> e then m * 2 ^ nat e else m div 2 ^ nat (- e)) in if s then - n else n)"
| "int_or_none _ = None"

subsection \<open>JSON columns\<close>

text \<open>
  A text column that holds JSON is represented by what \<open>json.loads\<close> makes of it: no text
  (NULL or the empty string), text that \<open>json.loads\<close> rejects, or a document.
  \<open>loads_or d c\<close> is \<open>json.loads(c or d)\<close>.
\<close>

datatype jcol = JEmpty | JBad | JDoc pyval

fun loads_or :: "pyval \<Rightarrow> jcol \<Rightarrow> pyval option" where
  "loads_or d JEmpty = Some d"
| "loads_or d JBad = None"
| "loads_or d (JDoc v) = Some v"

definition as_list :: "pyval \<Rightarrow> pyval list" where
  "as_list v = (case v of VList xs \<Rightarrow> xs | _ \<Rightarrow> [])"

subsection \<open>Expressions that may raise\<close>

definition bindE :: "'e + 'a \<Rightarrow> ('a \<Rightarrow> 'e + 'b) \<Rightarrow> 'e + 'b" where
  "bindE m f = (case m of Inl e \<Rightarrow> Inl e | Inr x \<Rightarrow> f x)"

fun mapE :: "('a \<Rightarrow> 'e + 'b) \<Rightarrow> 'a list \<Rightarrow> 'e + 'b list" where
  "mapE f [] = Inr []"
| "mapE f (x # xs) = bindE (f x) (\<lambda>y. bindE (mapE f xs) (\<lambda>ys. Inr (y # ys)))"

fun filterE :: "('a \<Rightarrow> 'e + bool) \<Rightarrow> 'a list \<Rightarrow> 'e + 'a list" where
  "filterE f [] = Inr []"
| "filterE f (x # xs) = bindE (f x) (\<lambda>b. bindE (filterE f xs) (\<lambda>ys. Inr (if b then x # ys else ys)))"

text \<open>\<open>v.get(k)\<close> and \<open>v or {}\<close>; the elements a \<open>for\<close> loop takes from a JSON value.\<close>

definition vget :: "pyval \<Rightarrow> pystr \<Rightarrow> exn + pyval" where
  "vget v k = (case v of VDict d \<Rightarrow> Inr (rget d k) | _ \<Rightarrow> Inl TypeErr)"

definition or_dict :: "pyval \<Rightarrow> pyval" where
  "or_dict v = (if truthy v then v else VDict [])"

definition py_iter :: "pyval \<Rightarrow> exn + pyval list" where
  "py_iter v = (case v of
     VList xs \<Rightarrow> Inr xs
   | VDict d \<Rightarrow> Inr (map (\<lambda>k. VStr k) (dkeys d))
   | VStr s \<Rightarrow> Inr (map (\<lambda>c. VStr [c]) s)
   | _ \<Rightarrow> Inl TypeErr)"

text \<open>A value by a dotted path (\<open>_dig\<close> of \<open>app/pull.py\<close> and of \<open>app/hooks/routes.py\<close>).\<close>

fun dig_parts :: "pyval \<Rightarrow> pystr list \<Rightarrow> pyval" where
  "dig_parts cur [] = cur"
| "dig_parts cur (p # ps) = (case cur of
     VDict d \<Rightarrow> (case dget d p of None \<Rightarrow> VNone | Some v \<Rightarrow> dig_parts v ps)
   | _ \<Rightarrow> VNone)"

definition dig :: "pyval \<Rightarrow> pyval \<Rightarrow> pyval" where
  "dig r path = dig_parts r (split_on CHR ''.'' (if truthy path then py_str path else []))"

subsection \<open>Facts\<close>

lemma bindE_simps [simp]: "bindE (Inr x) f = f x" "bindE (Inl e) f = Inl e"
  by (simp_all add: bindE_def)

lemma bindE_InrE:
  assumes "bindE m f = Inr y"
  obtains x where "m = Inr x" "f x = Inr y"
  using assms by (cases m) auto

lemma filterE_sub: "filterE f xs = Inr ys \<Longrightarrow> ys = filter (\<lambda>x. f x = Inr True) xs \<and> list_all (\<lambda>x. \<not> isl (f x)) xs"
  by (induction xs arbitrary: ys) (auto elim!: bindE_InrE)

lemma blank_simps [simp]:
  "blank VNone" "blank (VStr [])" "\<not> blank (VInt i)" "\<not> blank (VBool b)" "\<not> blank (VStr (c # s))"
  by (simp_all add: blank_def)

lemma rget_simps [simp, dict_simps]:
  "rget [] k = VNone"
  "rget (dset j v r) k = (if k = j then v else rget r k)"
  "rget (ddel j r) k = (if k = j then VNone else rget r k)"
  by (simp_all add: rget_def)

lemma rget_Cons [dict_simps]: "rget ((j, v) # r) k = (if j = k then v else rget r k)"
  by (simp add: rget_def dget_Cons)

lemma py_str_VStr [simp]: "py_str (VStr s) = s"
  by (simp add: py_str_def)

lemma py_str_VInt [simp]: "py_str (VInt i) = str_int i"
  by (simp add: py_str_def)

lemma num_eq_sym: "num_eq v w \<Longrightarrow> num_eq w v"
  by (auto simp: num_eq_def num_rel_def exact_eq_def split: option.splits)

lemma py_eq_VStr [simp]: "py_eq (VStr s) v \<longleftrightarrow> v = VStr s" "py_eq v (VStr s) \<longleftrightarrow> v = VStr s"
  by (cases v; auto simp: py_eq.simps num_eq_def)+

lemma py_eq_VNone [simp]: "py_eq VNone v \<longleftrightarrow> v = VNone" "py_eq v VNone \<longleftrightarrow> v = VNone"
  by (cases v; auto simp: py_eq.simps num_eq_def)+

lemma py_eq_VInt [simp]: "py_eq (VInt i) (VInt j) \<longleftrightarrow> i = j"
  by (auto simp: py_eq.simps num_eq_def exact_eq_def)

end
