(* ===== verification/Models.thy ===== *)
theory Models
  imports PyVal
begin

text \<open>
  The data model of \<open>app/metadata/models.py\<close>: one record per ORM class, one field per column
  (the prefix of a field says its record), with a nullable column as an option, a JSON text
  column as a \<^typ>\<open>jcol\<close> and a timestamp as an integer (see \<open>PyVal\<close>). Left out are the
  \<open>created_at\<close> stamps the database fills in, which no modelled code reads. The fields of a
  table, an ordered relationship, are a list in the table's record.

  The state \<open>db\<close> is the home database: the rows of each ORM table, the physical user tables,
  and the outbox of the mail and HTTP deliveries.
\<close>

subsection \<open>Accounts and access\<close>

abbreviation role_designer :: pystr where "role_designer \<equiv> ''designer''"
abbreviation role_user :: pystr where "role_user \<equiv> ''user''"
abbreviation role_portal :: pystr where "role_portal \<equiv> ''portal''"

abbreviation access_none :: pystr where "access_none \<equiv> ''none''"
abbreviation access_read :: pystr where "access_read \<equiv> ''read''"
abbreviation access_write :: pystr where "access_write \<equiv> ''write''"

record app_user =
  u_id :: int
  u_username :: pystr
  u_password_hash :: pystr
  u_role :: pystr
  u_is_active_flag :: bool
  u_company_id :: "int option"
  u_email :: "pystr option"
  u_notify_email :: bool
  u_totp_secret :: "pystr option"
  u_mfa_enabled :: bool
  u_mfa_backup_codes :: jcol
  u_oidc_subject :: "pystr option"

definition is_active :: "app_user \<Rightarrow> bool" where
  "is_active u = u_is_active_flag u"

definition is_designer :: "app_user \<Rightarrow> bool" where
  "is_designer u = (u_role u = role_designer)"

definition is_portal :: "app_user \<Rightarrow> bool" where
  "is_portal u = (u_role u = role_portal)"

record role =
  ro_id :: int
  ro_name :: pystr
  ro_label :: pystr
  ro_builtin :: bool

record meta_permission =
  pm_id :: int
  pm_role :: pystr
  pm_form_id :: int
  pm_access :: pystr

record meta_field_permission =
  fp_id :: int
  fp_role :: pystr
  fp_field_id :: int
  fp_access :: pystr

record api_token =
  at_id :: int
  at_user_id :: int
  at_name :: pystr
  at_token_hash :: pystr
  at_prefix :: pystr
  at_revoked :: bool
  at_last_used_at :: "int option"

subsection \<open>Schema and forms\<close>

record meta_field =
  f_id :: int
  f_table_id :: int
  f_phys_name :: pystr
  f_label :: pystr
  f_data_type :: pystr
  f_length :: "int option"
  f_precision :: "int option"
  f_scale :: "int option"
  f_nullable :: bool
  f_default_value :: "pystr option"
  f_is_unique :: bool
  f_position :: int
  f_enum_options :: jcol
  f_enum_colors :: jcol
  f_related_table_id :: "int option"
  f_on_delete :: "pystr option"
  f_min_length :: "int option"
  f_max_length :: "int option"
  f_min_value :: "pystr option"
  f_max_value :: "pystr option"
  f_pattern :: "pystr option"
  f_formula :: "pystr option"
  f_result_type :: "pystr option"

record meta_table =
  t_id :: int
  t_phys_name :: pystr
  t_label :: pystr
  t_description :: "pystr option"
  t_display_field_id :: "int option"
  t_track_audit :: bool
  t_soft_delete :: bool
  t_row_owned :: bool
  t_managed :: bool
  t_source_id :: "int option"
  t_pk_col :: pystr
  t_fields :: "meta_field list"

record meta_relation =
  r_id :: int
  r_name :: pystr
  r_kind :: pystr
  r_from_table_id :: int
  r_to_table_id :: int
  r_from_field_id :: "int option"
  r_junction_phys_name :: "pystr option"
  r_on_delete :: "pystr option"
  r_to_display_field_ids :: jcol
  r_from_display_field_ids :: jcol

record meta_form_field =
  ff_id :: int
  ff_form_id :: int
  ff_kind :: pystr
  ff_field_id :: "int option"
  ff_relation_id :: "int option"
  ff_rules_json :: jcol
  ff_parent_field_id :: "int option"
  ff_filter_field_id :: "int option"
  ff_label_override :: "pystr option"
  ff_widget :: "pystr option"
  ff_required :: bool
  ff_readonly :: bool
  ff_help_text :: "pystr option"
  ff_position :: int

record meta_form =
  fm_id :: int
  fm_table_id :: int
  fm_name :: pystr
  fm_title :: pystr
  fm_description :: "pystr option"
  fm_purpose :: pystr
  fm_in_catalog :: bool
  fm_catalog_group :: "pystr option"
  fm_portal_close_state :: "pystr option"
  fm_default_sort :: "pystr option"
  fm_default_order :: "pystr option"
  fm_default_per_page :: "int option"
  fm_items :: "meta_form_field list"

record workflow =
  wf_id :: int
  wf_table_id :: int
  wf_field_id :: int
  wf_initial_state :: "pystr option"
  wf_transitions :: jcol
  wf_layout :: jcol

record sequence =
  sq_id :: int
  sq_field_id :: int
  sq_next :: int

subsection \<open>Automation\<close>

record trigger_rule =
  tr_id :: int
  tr_table_id :: int
  tr_name :: pystr
  tr_active :: bool
  tr_event :: pystr
  tr_field_id :: "int option"
  tr_from_state :: "pystr option"
  tr_to_state :: "pystr option"
  tr_cond_field_id :: "int option"
  tr_cond_op :: "pystr option"
  tr_cond_value :: "pystr option"
  tr_in_app :: bool
  tr_notify_target :: "pystr option"
  tr_notify_user_id :: "int option"
  tr_message :: "pystr option"
  tr_email_to :: "pystr option"
  tr_email_subject :: "pystr option"
  tr_email_body :: "pystr option"
  tr_webhook_url :: "pystr option"
  tr_set_field_id :: "int option"
  tr_set_value :: "pystr option"
  tr_create_table_id :: "int option"
  tr_create_field_map :: jcol
  tr_webhook_format :: "pystr option"
  tr_schedule_minutes :: "int option"
  tr_last_run_at :: "int option"

text \<open>A recipient is the value found in the row (\<open>created_by\<close>) or an account id, so \<open>n_user_id\<close> and \<open>n_row_pk\<close> are values.\<close>

record notification =
  n_id :: int
  n_rule_id :: "int option"
  n_table_phys :: "pystr option"
  n_row_pk :: pyval
  n_event :: "pystr option"
  n_channel :: pystr
  n_user_id :: pyval
  n_subject :: "pystr option"
  n_body :: "pystr option"
  n_target :: "pystr option"
  n_status :: pystr
  n_detail :: "pystr option"

record connection =
  cn_id :: int
  cn_name :: pystr
  cn_base_url :: pystr
  cn_token :: "pystr option"
  cn_active :: bool
  cn_last_check_at :: "int option"
  cn_last_status :: "pystr option"

record feed =
  fd_id :: int
  fd_name :: pystr
  fd_active :: bool
  fd_source_table_id :: int
  fd_connection_id :: int
  fd_target_table :: pystr
  fd_mode :: pystr
  fd_match_target_field :: "pystr option"
  fd_field_map :: jcol
  fd_event :: "pystr option"
  fd_field_id :: "int option"
  fd_from_state :: "pystr option"
  fd_to_state :: "pystr option"
  fd_cond_field_id :: "int option"
  fd_cond_op :: "pystr option"
  fd_cond_value :: "pystr option"
  fd_schedule_minutes :: "int option"
  fd_allow_manual :: bool
  fd_skip_api_writes :: bool
  fd_last_run_at :: "int option"
  fd_watermark :: int

record sla_policy =
  sp_id :: int
  sp_table_id :: int
  sp_name :: pystr
  sp_active :: bool
  sp_target_minutes :: int
  sp_warn_minutes :: "int option"
  sp_status_field_id :: "int option"
  sp_start_on_create :: bool
  sp_start_states :: "pystr option"
  sp_pause_states :: "pystr option"
  sp_stop_states :: "pystr option"
  sp_cond_field_id :: "int option"
  sp_cond_op :: "pystr option"
  sp_cond_value :: "pystr option"
  sp_state_field_id :: "int option"
  sp_due_field_id :: "int option"
  sp_breach_in_app :: bool
  sp_breach_notify_target :: "pystr option"
  sp_breach_notify_user_id :: "int option"
  sp_breach_message :: "pystr option"
  sp_breach_email_to :: "pystr option"
  sp_breach_email_subject :: "pystr option"
  sp_breach_email_body :: "pystr option"
  sp_breach_set_field_id :: "int option"
  sp_breach_set_value :: "pystr option"
  sp_escalations :: jcol

record sla_clock =
  ck_id :: int
  ck_policy_id :: int
  ck_table_phys :: pystr
  ck_row_pk :: pystr
  ck_state :: pystr
  ck_started_at :: "int option"
  ck_due_at :: "int option"
  ck_remaining_seconds :: "int option"
  ck_breached_at :: "int option"
  ck_breach_notified :: bool
  ck_escalation_level :: int
  ck_updated_at :: int

record approval_step =
  st_id :: int
  st_workflow_id :: int
  st_from_state :: pystr
  st_to_state :: pystr
  st_position :: int
  st_name :: "pystr option"
  st_approver_role :: "pystr option"
  st_approver_user_id :: "int option"

text \<open>The states of a request come from the record, so they are values.\<close>

record approval_request =
  rq_id :: int
  rq_workflow_id :: int
  rq_table_phys :: pystr
  rq_row_pk :: pystr
  rq_from_state :: pyval
  rq_to_state :: pyval
  rq_state :: pystr
  rq_current_position :: int
  rq_requested_by :: "int option"
  rq_decided_at :: "int option"

record approval_action =
  ac_id :: int
  ac_request_id :: int
  ac_step_id :: "int option"
  ac_position :: int
  ac_user_id :: "int option"
  ac_decision :: pystr
  ac_comment :: "pystr option"
  ac_at :: int

subsection \<open>Runtime rows\<close>

record audit_log =
  al_id :: int
  al_table_phys :: pystr
  al_row_pk :: pyval
  al_action :: pystr
  al_user_id :: "int option"
  al_changes :: "(pystr \<times> pyval \<times> pyval) list option"

record attachment =
  am_id :: int
  am_field_id :: int
  am_row_pk :: pyval
  am_stored_name :: pystr
  am_original_name :: pystr
  am_content_type :: "pystr option"
  am_size :: "int option"
  am_uploaded_by :: "int option"

record rate_hit =
  rh_id :: int
  rh_key :: pystr
  rh_at :: int

record app_setting =
  se_id :: int
  se_key :: pystr
  se_value :: "pystr option"

record company =
  co_id :: int
  co_name :: pystr
  co_parent_id :: "int option"

record maintenance_window =
  mw_id :: int
  mw_name :: pystr
  mw_starts_at :: int
  mw_ends_at :: int
  mw_table_id :: "int option"
  mw_record_table_id :: "int option"
  mw_record_pk :: "pystr option"

record watch =
  wa_id :: int
  wa_user_id :: int
  wa_table_phys :: pystr
  wa_row_pk :: pystr

record comment =
  cm_id :: int
  cm_table_phys :: pystr
  cm_row_pk :: pystr
  cm_user_id :: "int option"
  cm_body :: pystr
  cm_internal :: bool

subsection \<open>Jobs and inbound connectors\<close>

record pull_source =
  pu_id :: int
  pu_name :: pystr
  pu_active :: bool
  pu_target_table_id :: int
  pu_kind :: pystr
  pu_connection_id :: "int option"
  pu_remote_table :: "pystr option"
  pu_url :: "pystr option"
  pu_headers :: jcol
  pu_records_path :: "pystr option"
  pu_config :: jcol
  pu_auth_secret :: "pystr option"
  pu_field_map :: jcol
  pu_mode :: pystr
  pu_match_field :: "pystr option"
  pu_cursor_field :: "pystr option"
  pu_watermark :: "pystr option"
  pu_page_size :: "int option"
  pu_schedule_minutes :: "int option"
  pu_user_id :: "int option"
  pu_last_run_at :: "int option"
  pu_last_status :: "pystr option"

record webhook =
  wh_id :: int
  wh_name :: pystr
  wh_target_table_id :: int
  wh_token_hash :: pystr
  wh_prefix :: pystr
  wh_secret :: "pystr option"
  wh_active :: bool
  wh_mode :: pystr
  wh_match_field :: "pystr option"
  wh_field_map :: jcol
  wh_user_id :: "int option"
  wh_max_body_bytes :: "int option"
  wh_rate_limit :: "int option"
  wh_rate_window :: "int option"
  wh_last_received_at :: "int option"
  wh_last_status :: "pystr option"

record report_def =
  rd_id :: int
  rd_user_id :: int
  rd_table_id :: int
  rd_name :: pystr
  rd_query :: "pystr option"
  rd_pinned :: bool
  rd_schedule_minutes :: "int option"
  rd_recipients :: "pystr option"
  rd_last_run_at :: "int option"

record mailbox =
  mb_id :: int
  mb_name :: pystr
  mb_active :: bool
  mb_host :: pystr
  mb_port :: "int option"
  mb_use_ssl :: bool
  mb_username :: "pystr option"
  mb_password :: "pystr option"
  mb_folder :: "pystr option"
  mb_aliases :: jcol
  mb_create_form_id :: "int option"
  mb_schedule_minutes :: int
  mb_last_run_at :: "int option"

record recurring_record =
  rr_id :: int
  rr_name :: pystr
  rr_table_id :: int
  rr_field_values :: jcol
  rr_schedule_minutes :: int
  rr_active :: bool
  rr_last_run_at :: "int option"

subsection \<open>Navigation and form design\<close>

record meta_menu =
  mm_id :: int
  mm_parent_id :: "int option"
  mm_label :: pystr
  mm_kind :: pystr
  mm_target_form_id :: "int option"
  mm_target_table_id :: "int option"
  mm_target_dashboard_id :: "int option"
  mm_position :: int
  mm_icon :: "pystr option"

record dashboard_widget =
  dw_id :: int
  dw_dashboard_id :: int
  dw_title :: "pystr option"
  dw_kind :: pystr
  dw_table_id :: "int option"
  dw_query :: "pystr option"
  dw_chart_type :: pystr
  dw_content :: "pystr option"
  dw_width :: int
  dw_limit :: int
  dw_position :: int

record dashboard =
  da_id :: int
  da_name :: pystr
  da_description :: "pystr option"
  da_owner_user_id :: "int option"
  da_columns :: int
  da_position :: int
  da_widgets :: "dashboard_widget list"

record saved_view =
  vw_id :: int
  vw_user_id :: int
  vw_form_id :: int
  vw_name :: pystr
  vw_query :: "pystr option"

record composite_unique =
  cu_id :: int
  cu_table_id :: int
  cu_name :: pystr
  cu_field_ids :: jcol

record form_draft =
  dr_id :: int
  dr_form_id :: int
  dr_config_json :: jcol
  dr_base_hash :: pystr
  dr_version :: int
  dr_tested_hash :: "pystr option"
  dr_updated_by :: "int option"

record form_revision =
  rv_id :: int
  rv_form_id :: int
  rv_config_json :: jcol
  rv_published_by :: "int option"
  rv_description :: pystr

record form_template =
  tp_id :: int
  tp_name :: pystr
  tp_description :: "pystr option"
  tp_config_json :: jcol
  tp_created_by :: "int option"

record data_source =
  ds_id :: int
  ds_name :: pystr
  ds_driver :: pystr
  ds_host :: "pystr option"
  ds_port :: "int option"
  ds_username :: "pystr option"
  ds_password :: "pystr option"
  ds_database :: "pystr option"
  ds_active :: bool
  ds_last_check_at :: "int option"
  ds_last_status :: "pystr option"

record security_event =
  sv_id :: int
  sv_actor :: pystr
  sv_event :: pystr
  sv_target :: pystr
  sv_details :: pyval

subsection \<open>Physical tables\<close>

text \<open>
  A user table in its data source: its columns with the Python type of the column
  (\<open>python_type\<close> of the SQLAlchemy type, as far as the code asks for it) and nullability,
  its primary key, its rows, the UNIQUE constraints (each a list of columns) and the next generated
  key. Foreign keys are not enforced by the model's database, as by SQLite's.
\<close>

datatype ctype = CInt | CStr | COther

record phys =
  ph_cols :: "(pystr \<times> ctype \<times> bool) list"
  ph_pk :: pystr
  ph_rows :: "row list"
  ph_uniq :: "pystr list list"
  ph_next :: int

text \<open>What leaves the process: a mail to an address, a call of a webhook or of a peer.\<close>

datatype delivery = Mail pystr pystr pystr | Hook pystr pyval

subsection \<open>The database\<close>

record db =
  d_users :: "app_user list"
  d_roles :: "role list"
  d_perms :: "meta_permission list"
  d_fperms :: "meta_field_permission list"
  d_tokens :: "api_token list"
  d_tables :: "meta_table list"
  d_rels :: "meta_relation list"
  d_forms :: "meta_form list"
  d_workflows :: "workflow list"
  d_seqs :: "sequence list"
  d_triggers :: "trigger_rule list"
  d_notifs :: "notification list"
  d_conns :: "connection list"
  d_feeds :: "feed list"
  d_policies :: "sla_policy list"
  d_clocks :: "sla_clock list"
  d_steps :: "approval_step list"
  d_reqs :: "approval_request list"
  d_actions :: "approval_action list"
  d_audit :: "audit_log list"
  d_attachments :: "attachment list"
  d_hits :: "rate_hit list"
  d_settings :: "app_setting list"
  d_companies :: "company list"
  d_windows :: "maintenance_window list"
  d_watches :: "watch list"
  d_comments :: "comment list"
  d_pulls :: "pull_source list"
  d_webhooks :: "webhook list"
  d_reports :: "report_def list"
  d_mailboxes :: "mailbox list"
  d_recurring :: "recurring_record list"
  d_menus :: "meta_menu list"
  d_dashboards :: "dashboard list"
  d_uniques :: "composite_unique list"
  d_drafts :: "form_draft list"
  d_revisions :: "form_revision list"
  d_events :: "security_event list"
  d_views :: "saved_view list"
  d_templates :: "form_template list"
  d_sources :: "data_source list"
  d_phys :: "(pystr, phys) dict"
  d_outbox :: "delivery list"

definition empty_db :: db where
  "empty_db = \<lparr>d_users = [], d_roles = [], d_perms = [], d_fperms = [], d_tokens = [],
     d_tables = [], d_rels = [], d_forms = [], d_workflows = [], d_seqs = [], d_triggers = [],
     d_notifs = [], d_conns = [], d_feeds = [], d_policies = [], d_clocks = [], d_steps = [],
     d_reqs = [], d_actions = [], d_audit = [], d_attachments = [], d_hits = [], d_settings = [],
     d_companies = [], d_windows = [], d_watches = [], d_comments = [], d_pulls = [], d_webhooks = [],
     d_reports = [], d_mailboxes = [], d_recurring = [], d_menus = [], d_dashboards = [], d_uniques = [],
     d_drafts = [], d_revisions = [], d_events = [], d_views = [], d_templates = [], d_sources = [], d_phys = [], d_outbox = []\<rparr>"

subsection \<open>Queries by key\<close>

definition get_user :: "db \<Rightarrow> int \<Rightarrow> app_user option" where
  "get_user s i = find (\<lambda>u. u_id u = i) (d_users s)"

definition get_table :: "db \<Rightarrow> int \<Rightarrow> meta_table option" where
  "get_table s i = find (\<lambda>t. t_id t = i) (d_tables s)"

definition table_by_phys :: "db \<Rightarrow> pystr \<Rightarrow> meta_table option" where
  "table_by_phys s p = find (\<lambda>t. t_phys_name t = p) (d_tables s)"

definition all_fields :: "db \<Rightarrow> meta_field list" where
  "all_fields s = concat (map t_fields (d_tables s))"

definition get_field :: "db \<Rightarrow> int \<Rightarrow> meta_field option" where
  "get_field s i = find (\<lambda>f. f_id f = i) (all_fields s)"

definition field_by_id :: "meta_table \<Rightarrow> int \<Rightarrow> meta_field option" where
  "field_by_id t i = find (\<lambda>f. f_id f = i) (rev (t_fields t))"

text \<open>
  A new row of the notification table: the columns the caller does not give are NULL. The
  database assigns the id.
\<close>

definition new_notif :: "pystr \<Rightarrow> pystr \<Rightarrow> notification" where
  "new_notif chan stat = \<lparr>n_id = 0, n_rule_id = None, n_table_phys = None, n_row_pk = VNone,
     n_event = None, n_channel = chan, n_user_id = VNone, n_subject = None, n_body = None,
     n_target = None, n_status = stat, n_detail = None\<rparr>"

definition add_notif :: "notification \<Rightarrow> db \<Rightarrow> db" where
  "add_notif n s = s\<lparr>d_notifs := d_notifs s @ [n\<lparr>n_id := next_id n_id (d_notifs s)\<rparr>]\<rparr>"

definition opt_int :: "int option \<Rightarrow> pyval" where
  "opt_int x = (case x of None \<Rightarrow> VNone | Some i \<Rightarrow> VInt i)"

definition opt_str :: "pystr option \<Rightarrow> pyval" where
  "opt_str x = (case x of None \<Rightarrow> VNone | Some t \<Rightarrow> VStr t)"

text \<open>A nullable text column that is neither NULL nor empty (its truth in Python), and \<open>x or d\<close>.\<close>

definition filled :: "pystr option \<Rightarrow> bool" where
  "filled x = (x \<noteq> None \<and> x \<noteq> Some [])"

definition text_or :: "pystr option \<Rightarrow> pystr \<Rightarrow> pystr" where
  "text_or x d = (case x of None \<Rightarrow> d | Some t \<Rightarrow> if t = [] then d else t)"

text \<open>A nullable id column that is neither NULL nor zero.\<close>

definition some_id :: "int option \<Rightarrow> int option" where
  "some_id x = (case x of None \<Rightarrow> None | Some i \<Rightarrow> if i = 0 then None else Some i)"

lemma get_user_add_notif [simp]: "get_user (add_notif n s) i = get_user s i"
  by (simp add: get_user_def add_notif_def)

lemma d_notifs_add_notif:
  "d_notifs (add_notif n s) = d_notifs s @ [n\<lparr>n_id := next_id n_id (d_notifs s)\<rparr>]"
  by (simp add: add_notif_def)

lemma filled_simps [simp]: "\<not> filled None" "\<not> filled (Some [])" "filled (Some (c # t))"
  by (simp_all add: filled_def)

lemma some_id_simps [simp]: "some_id None = None" "i \<noteq> 0 \<Longrightarrow> some_id (Some i) = Some i"
  by (simp_all add: some_id_def)

lemma opt_int_inject [simp]: "opt_int x = opt_int y \<longleftrightarrow> x = y"
  by (auto simp: opt_int_def split: option.splits)

end
