(* ===== verification/Effects.thy ===== *)
theory Effects
  imports Models
begin

text \<open>
  Computations over the database, and what surrounds the program.

  A function that can raise and changes the state is a \<open>comp\<close>: from the state to a result or
  the exception, and the state as left behind. \<open>bindC\<close> is sequencing, \<open>tryC\<close> a
  \<open>try ... except Exception\<close>.

  The record \<open>env\<close> holds what the source calls and this repository does not contain: the clock (\<open>e_today\<close>
  is the local date),
  the configuration, the SMTP server, \<open>urlopen\<close> for a webhook (address, headers, body), the
  transport of \<open>app/connectors.py\<close> (method, address, headers, body; the status and the text of the answer), the Fernet cipher, the \<open>re\<close> module's search,
  the parser of the \<open>ast\<close> module, \<open>urlencode\<close>, \<open>json.loads\<close>, the parsers of
  \<open>datetime\<close> (\<open>e_iso\<close>, by the kind of value; \<open>e_stamp\<close>, the POSIX time of an ISO text), the power operator of \<open>decimal\<close>, the
  database's SUM and AVG, and the text of an exception's message. A function of \<open>env\<close> is
  arbitrary: nothing is assumed about any of them.

  The locale \<open>frame\<close> is the interface for statements of the form ``this computation relates
  the state before to the state after by R'': it holds for a composition when it holds
  for the parts. Its interpretations name what computations leave alone.
\<close>

named_theorems comp_simps \<open>unfolding computations\<close>

subsection \<open>The surroundings\<close>

text \<open>What \<open>ast.parse(..., mode="eval")\<close> returns, as far as \<open>app/formula.py\<close> tells nodes apart.\<close>

datatype binop = OpAdd | OpSub | OpMult | OpDiv | OpFloorDiv | OpMod | OpPow | OpBitAnd | OtherBin
datatype unop = OpUAdd | OpUSub | OpNot | OpInvert
datatype boolop = OpAnd | OpOr
datatype cmpop = OpEq | OpNotEq | OpLt | OpLtE | OpGt | OpGtE | OtherCmp

datatype expr =
    Constant pyval
  | Name pystr
  | UnaryOp unop expr
  | BinOp binop expr expr
  | BoolOp boolop "expr list"
  | Compare expr "(cmpop \<times> expr) list"
  | IfExp expr expr expr
  | Call expr "expr list" bool
  | OtherExpr

record env =
  e_now :: int
  e_today :: int
  e_testing :: bool
  e_via_api :: bool
  e_config :: "pystr \<Rightarrow> pyval"
  e_encrypt :: "pystr \<Rightarrow> pystr"
  e_decrypt :: "pystr \<Rightarrow> pystr option"
  e_smtp :: "pystr \<Rightarrow> pystr \<Rightarrow> pystr \<Rightarrow> pystr option"
  e_urlopen :: "pystr \<Rightarrow> row \<Rightarrow> pystr \<Rightarrow> pystr + int"
  e_http :: "pystr \<Rightarrow> pystr \<Rightarrow> row \<Rightarrow> pystr option \<Rightarrow> pystr + (int \<times> pystr)"
  e_urlencode :: "(pystr \<times> pystr) list \<Rightarrow> pystr"
  e_search :: "pystr \<Rightarrow> pystr \<Rightarrow> bool option"
  e_parse :: "pystr \<Rightarrow> expr option"
  e_loads :: "pystr \<Rightarrow> jcol"
  e_agg :: "pystr \<Rightarrow> pyval list \<Rightarrow> pyval"
  e_stamp :: "pystr \<Rightarrow> pyfloat option"
  e_iso :: "pystr \<Rightarrow> pystr \<Rightarrow> pyval option"
  e_pow :: "decimal \<Rightarrow> decimal \<Rightarrow> pyval"
  e_msg :: "exn \<Rightarrow> pystr"

text \<open>Surroundings in which nothing is configured, for evaluating the model.\<close>

definition plain_env :: env where
  "plain_env = \<lparr>e_now = 0, e_today = 1, e_testing = True, e_via_api = False, e_config = (\<lambda>_. VNone),
     e_encrypt = (\<lambda>x. x), e_decrypt = Some, e_smtp = (\<lambda>_ _ _. None),
     e_urlopen = (\<lambda>_ _ _. Inl ''unreachable''), e_http = (\<lambda>_ _ _ _. Inl ''unreachable''), e_urlencode = (\<lambda>_. []),
     e_search = (\<lambda>_ _. None), e_parse = (\<lambda>_. None),
     e_loads = (\<lambda>_. JBad), e_agg = (\<lambda>_ _. VNone),
     e_stamp = (\<lambda>_. None), e_iso = (\<lambda>_ _. None), e_pow = (\<lambda>_ _. VNone), e_msg = (\<lambda>_. ''error'')\<rparr>"

subsection \<open>Computations\<close>

type_synonym 'a comp = "db \<Rightarrow> (exn + 'a) \<times> db"

definition retC :: "'a \<Rightarrow> 'a comp" where
  "retC x s = (Inr x, s)"

definition failC :: "exn \<Rightarrow> 'a comp" where
  "failC e s = (Inl e, s)"

definition bindC :: "'a comp \<Rightarrow> ('a \<Rightarrow> 'b comp) \<Rightarrow> 'b comp" where
  "bindC m f s = (case m s of (Inl e, s') \<Rightarrow> (Inl e, s') | (Inr x, s') \<Rightarrow> f x s')"

definition tryC :: "'a comp \<Rightarrow> (exn \<Rightarrow> 'a comp) \<Rightarrow> 'a comp" where
  "tryC m h s = (case m s of (Inl e, s') \<Rightarrow> h e s' | (Inr x, s') \<Rightarrow> (Inr x, s'))"

definition liftC :: "exn + 'a \<Rightarrow> 'a comp" where
  "liftC r s = (r, s)"

definition getC :: "(db \<Rightarrow> 'a) \<Rightarrow> 'a comp" where
  "getC f s = (Inr (f s), s)"

definition modC :: "(db \<Rightarrow> db) \<Rightarrow> unit comp" where
  "modC f s = (Inr (), f s)"

definition whenC :: "bool \<Rightarrow> unit comp \<Rightarrow> unit comp" where
  "whenC b m = (if b then m else retC ())"

fun eachC :: "('a \<Rightarrow> unit comp) \<Rightarrow> 'a list \<Rightarrow> unit comp" where
  "eachC f [] = retC ()"
| "eachC f (x # xs) = bindC (f x) (\<lambda>_. eachC f xs)"

text \<open>A loop that threads a value through.\<close>

fun foldC :: "('a \<Rightarrow> 'b \<Rightarrow> 'b comp) \<Rightarrow> 'a list \<Rightarrow> 'b \<Rightarrow> 'b comp" where
  "foldC f [] y = retC y"
| "foldC f (x # xs) y = bindC (f x y) (foldC f xs)"

text \<open>
  \<open>session.rollback()\<close> back to the state \<open>old\<close> of the last commit: the rows of the ORM return to
  it; physical tables, written over connections of their own, and what was delivered stay.
\<close>

definition rollback_to :: "db \<Rightarrow> db \<Rightarrow> db" where
  "rollback_to old s = old\<lparr>d_phys := d_phys s, d_outbox := d_outbox s\<rparr>"

lemmas comp_defs = retC_def failC_def bindC_def tryC_def liftC_def getC_def modC_def whenC_def

lemma comp_run [comp_simps]:
  "retC x s = (Inr x, s)" "failC e s = (Inl e, s)" "liftC r s = (r, s)"
  "getC f s = (Inr (f s), s)" "modC g s = (Inr (), g s)"
  by (simp_all add: comp_defs)

lemma bindC_Inr: "m s = (Inr x, s') \<Longrightarrow> bindC m f s = f x s'"
  by (simp add: bindC_def)

lemma bindC_Inl: "m s = (Inl e, s') \<Longrightarrow> bindC m f s = (Inl e, s')"
  by (simp add: bindC_def)

lemma bindC_ret [simp]: "bindC (retC x) f = f x" "bindC (failC e) f = failC e"
  by (auto simp: comp_defs)

lemma bindC_get [comp_simps]: "bindC (getC g) f s = f (g s) s" "bindC (modC h) k s = k () (h s)"
  by (auto simp: comp_defs)

lemma bindC_InrE:
  assumes "bindC m f s = (Inr y, t)"
  obtains x s' where "m s = (Inr x, s')" "f x s' = (Inr y, t)"
  using assms by (auto simp: bindC_def split: prod.splits sum.splits)

lemma tryC_raise_free: "(\<And>e s. isl (fst (h e s)) = False) \<Longrightarrow> isl (fst (tryC m h s)) = False"
  by (auto simp: tryC_def split: prod.splits sum.splits)

text \<open>Computations that do not raise.\<close>

definition raise_free :: "'a comp \<Rightarrow> bool" where
  "raise_free m = (\<forall>s. \<not> isl (fst (m s)))"

lemma raise_free_intros [intro, simp]:
  "raise_free (retC x)" "raise_free (getC f)" "raise_free (modC g)"
  by (simp_all add: raise_free_def comp_defs)

lemma raise_free_bind [intro]: "raise_free m \<Longrightarrow> (\<And>x. raise_free (f x)) \<Longrightarrow> raise_free (bindC m f)"
  unfolding raise_free_def bindC_def
  by (smt (verit) case_prod_unfold sum.case_eq_if)

lemma raise_free_try [intro]: "(\<And>e. raise_free (h e)) \<Longrightarrow> raise_free (tryC m h)"
  by (auto simp: raise_free_def tryC_def split: prod.splits sum.splits)

lemma raise_free_when [intro]: "(b \<Longrightarrow> raise_free m) \<Longrightarrow> raise_free (whenC b m)"
  by (simp add: whenC_def)

lemma raise_free_each [intro]: "(\<And>x. x \<in> set xs \<Longrightarrow> raise_free (f x)) \<Longrightarrow> raise_free (eachC f xs)"
  by (induction xs) (auto simp: raise_free_bind)

lemma raise_freeE: "raise_free m \<Longrightarrow> \<exists>x s'. m s = (Inr x, s')"
  unfolding raise_free_def by (metis isl_def prod.collapse sum.exhaust_sel)

subsection \<open>Frames\<close>

definition keeps :: "(db \<Rightarrow> db \<Rightarrow> bool) \<Rightarrow> 'a comp \<Rightarrow> bool" where
  "keeps R m = (\<forall>s. R s (snd (m s)))"

lemma keepsD: "keeps R m \<Longrightarrow> m s = (r, s') \<Longrightarrow> R s s'"
  unfolding keeps_def by (metis snd_conv)

lemma keeps_dep: "(\<And>s. R s (snd (f (g s) s))) \<Longrightarrow> keeps R (bindC (getC g) f)"
  by (simp add: keeps_def comp_simps)

locale frame =
  fixes R :: "db \<Rightarrow> db \<Rightarrow> bool"
  assumes refl: "R s s"
    and trans: "R s t \<Longrightarrow> R t u \<Longrightarrow> R s u"
begin

lemma keeps_pure: "keeps R (retC x)" "keeps R (failC e)" "keeps R (getC f)" "keeps R (liftC r)"
  by (simp_all add: keeps_def comp_defs refl)

lemma keeps_mod: "(\<And>s. R s (g s)) \<Longrightarrow> keeps R (modC g)"
  by (simp add: keeps_def comp_defs)

lemma keeps_bind:
  assumes "keeps R m" "\<And>x. keeps R (f x)" shows "keeps R (bindC m f)"
  unfolding keeps_def
proof
  fix s
  show "R s (snd (bindC m f s))"
  proof (cases "m s")
    case (Pair r s')
    have st: "R s s'" using assms(1) Pair by (rule keepsD)
    show ?thesis
    proof (cases r)
      case (Inl e)
      with Pair st show ?thesis by (simp add: bindC_def)
    next
      case (Inr x)
      have "R s' (snd (f x s'))" using assms(2) by (simp add: keeps_def)
      with Pair Inr st show ?thesis by (simp add: bindC_def trans [OF st])
    qed
  qed
qed

lemma keeps_try:
  assumes "keeps R m" "\<And>e. keeps R (h e)" shows "keeps R (tryC m h)"
  unfolding keeps_def
proof
  fix s
  show "R s (snd (tryC m h s))"
  proof (cases "m s")
    case (Pair r s')
    have st: "R s s'" using assms(1) Pair by (rule keepsD)
    show ?thesis
    proof (cases r)
      case (Inl e)
      have "R s' (snd (h e s'))" using assms(2) by (simp add: keeps_def)
      with Pair Inl st show ?thesis by (simp add: tryC_def trans [OF st])
    next
      case (Inr x)
      with Pair st show ?thesis by (simp add: tryC_def)
    qed
  qed
qed

lemma keeps_when: "(b \<Longrightarrow> keeps R m) \<Longrightarrow> keeps R (whenC b m)"
  by (simp add: whenC_def keeps_pure)

lemma keeps_each: "(\<And>x. x \<in> set xs \<Longrightarrow> keeps R (f x)) \<Longrightarrow> keeps R (eachC f xs)"
  by (induction xs) (simp_all add: keeps_pure keeps_bind)

lemma keeps_fold: "(\<And>x y. keeps R (f x y)) \<Longrightarrow> keeps R (foldC f xs y)"
proof (induction xs arbitrary: y)
  case (Cons x xs)
  then show ?case by (simp add: keeps_bind)
qed (simp add: keeps_pure)

lemma keeps_option: "keeps R m \<Longrightarrow> (\<And>x. keeps R (f x)) \<Longrightarrow> keeps R (case v of None \<Rightarrow> m | Some x \<Rightarrow> f x)"
  by (cases v) simp_all

lemma keeps_if: "(b \<Longrightarrow> keeps R m) \<Longrightarrow> (\<not> b \<Longrightarrow> keeps R n) \<Longrightarrow> keeps R (if b then m else n)"
  by simp

lemma keeps_let: "keeps R (f v) \<Longrightarrow> keeps R (Let v f)"
  by simp

lemma keeps_prod: "(\<And>x y. keeps R (f x y)) \<Longrightarrow> keeps R (case p of (x, y) \<Rightarrow> f x y)"
  by (cases p) simp

lemmas keeps = keeps_pure keeps_mod keeps_bind keeps_try keeps_when keeps_each keeps_fold
  keeps_option keeps_if keeps_let keeps_prod

end

text \<open>The accounts are not touched.\<close>

definition same_users :: "db \<Rightarrow> db \<Rightarrow> bool" where
  "same_users s s' \<longleftrightarrow> d_users s' = d_users s"

text \<open>The application's design (tables, relations, rules, workflows, steps) is not touched.\<close>

definition same_design :: "db \<Rightarrow> db \<Rightarrow> bool" where
  "same_design s s' \<longleftrightarrow> d_tables s' = d_tables s \<and> d_rels s' = d_rels s \<and>
     d_triggers s' = d_triggers s \<and> d_feeds s' = d_feeds s \<and> d_policies s' = d_policies s \<and>
     d_workflows s' = d_workflows s \<and> d_steps s' = d_steps s"

text \<open>The approval requests and the actions on them are not touched.\<close>

definition same_approvals :: "db \<Rightarrow> db \<Rightarrow> bool" where
  "same_approvals s s' \<longleftrightarrow> d_reqs s' = d_reqs s \<and> d_actions s' = d_actions s"

text \<open>No notification and no entry of the audit log is removed or changed.\<close>

definition grows :: "db \<Rightarrow> db \<Rightarrow> bool" where
  "grows s s' \<longleftrightarrow> prefix (d_notifs s) (d_notifs s') \<and> prefix (d_audit s) (d_audit s')"

interpretation users: frame same_users
  by unfold_locales (simp_all add: same_users_def)

interpretation design: frame same_design
  by unfold_locales (simp_all add: same_design_def)

interpretation approvals: frame same_approvals
  by unfold_locales (simp_all add: same_approvals_def)

interpretation grow: frame grows
  by unfold_locales (auto simp: grows_def intro: prefix_order.trans)

lemma add_notif_frames [simp]:
  "same_users s (add_notif n s)" "same_design s (add_notif n s)" "same_approvals s (add_notif n s)"
  "grows s (add_notif n s)"
  by (simp_all add: add_notif_def same_users_def same_design_def same_approvals_def grows_def)

subsection \<open>JSON text\<close>

definition json_char :: "char \<Rightarrow> pystr" where
  "json_char c = (let n = code c in
     if n = 34 \<or> n = 92 then [CHR 0x5C, c]
     else if n = 10 then [CHR 0x5C, CHR ''n'']
     else if n = 13 then [CHR 0x5C, CHR ''r'']
     else if n = 9 then [CHR 0x5C, CHR ''t'']
     else if n = 8 then [CHR 0x5C, CHR ''b'']
     else if n = 12 then [CHR 0x5C, CHR ''f'']
     else if n < 32 \<or> 127 \<le> n
       then (if n = 127 then [c]
             else [CHR 0x5C, CHR ''u'', CHR ''0'', CHR ''0'', hex_digit (n div 16), hex_digit (n mod 16)])
     else [c])"

definition json_str :: "pystr \<Rightarrow> pystr" where
  "json_str s = [CHR 0x22] @ concat (map json_char s) @ [CHR 0x22]"

text \<open>\<open>json.dumps(v, default=str)\<close>.\<close>

fun json_dumps :: "pyval \<Rightarrow> pystr" where
  "json_dumps VNone = ''null''"
| "json_dumps (VBool b) = (if b then ''true'' else ''false'')"
| "json_dumps (VInt i) = str_int i"
| "json_dumps (VFloat x) = (case x of FNan \<Rightarrow> ''NaN'' | FInf n \<Rightarrow> (if n then ''-Infinity'' else ''Infinity'')
     | _ \<Rightarrow> str_float x)"
| "json_dumps (VStr s) = json_str s"
| "json_dumps (VList xs) = ''['' @ join_with '', '' (map json_dumps xs) @ '']''"
| "json_dumps (VDict d) = ''{'' @ join_with '', '' (map (\<lambda>(k, v). json_str k @ '': '' @ json_dumps v) d) @ ''}''"
| "json_dumps (VDec x) = json_str (str_dec x)"
| "json_dumps (VDate x) = json_str (iso_date x)"
| "json_dumps (VDateTime x) = json_str (iso_datetime '' '' x)"
| "json_dumps (VTime x) = json_str (iso_time x)"

end
