(* ===== verification/Filters.thy ===== *)
theory Filters
  imports Effects
begin

text \<open>
  \<open>app/filters.py\<close>: the operators of a list view's conditions and the WHERE clause of each,
  and the SQL semantics the clauses have. A clause is a function from the value of the column
  to a truth value of SQL's three-valued logic, with \<^const>\<open>None\<close> for unknown; a row is kept
  when the clause is true.

  A comparison is by binary collation. A text parameter is converted by the database to the
  type of the column: to a number against a number, to the ISO text against a date or time.
\<close>

subsection \<open>SQL comparison\<close>

datatype ord3 = Lower | Same | Higher

fun text_cmp :: "pystr \<Rightarrow> pystr \<Rightarrow> ord3" where
  "text_cmp [] [] = Same"
| "text_cmp [] (c # t) = Lower"
| "text_cmp (c # s) [] = Higher"
| "text_cmp (c # s) (d # t) =
     (if c = d then text_cmp s t else if code c < code d then Lower else Higher)"

definition num_cmp :: "exact \<Rightarrow> exact \<Rightarrow> ord3" where
  "num_cmp x y = (if exact_eq x y then Same else if exact_lt x y then Lower else Higher)"

text \<open>The number a column value or parameter is compared as.\<close>

definition sql_number :: "pyval \<Rightarrow> exact option" where
  "sql_number v = (case v of
     VStr s \<Rightarrow> (case parse_dec s of None \<Rightarrow> None | Some d \<Rightarrow> exact_dec d)
   | _ \<Rightarrow> (case exact_val v of None \<Rightarrow> None | Some x \<Rightarrow> x))"

fun sql_text :: "pyval \<Rightarrow> pystr option" where
  "sql_text (VStr s) = Some s"
| "sql_text (VDate d) = Some (iso_date d)"
| "sql_text (VDateTime d) = Some (iso_datetime '' '' d)"
| "sql_text (VTime t) = Some (iso_time t)"
| "sql_text _ = None"

definition sql_cmp :: "pyval \<Rightarrow> pyval \<Rightarrow> ord3 option" where
  "sql_cmp a b = (case (sql_text a, sql_text b) of
     (Some s, Some t) \<Rightarrow> Some (text_cmp s t)
   | _ \<Rightarrow> (case (sql_number a, sql_number b) of
            (Some x, Some y) \<Rightarrow> Some (num_cmp x y)
          | _ \<Rightarrow> None))"

definition sql_eq :: "pyval \<Rightarrow> pyval \<Rightarrow> bool" where
  "sql_eq a b = (sql_cmp a b = Some Same)"

definition cmp3 :: "(ord3 \<Rightarrow> bool) \<Rightarrow> pyval \<Rightarrow> pyval \<Rightarrow> bool option" where
  "cmp3 P a b = map_option P (sql_cmp a b)"

definition not3 :: "bool option \<Rightarrow> bool option" where
  "not3 b = map_option (\<lambda>x. \<not> x) b"

subsection \<open>The operators\<close>

abbreviation RELATION_TYPE :: pystr where "RELATION_TYPE \<equiv> ''relation''"

definition NO_VALUE_OPS :: "pystr list" where
  "NO_VALUE_OPS = [''empty'', ''not_empty'', ''is_true'', ''is_false'']"

definition text_ops :: "pystr list" where
  "text_ops = [''contains'', ''not_contains'', ''starts_with'', ''ends_with'', ''eq'', ''ne'',
     ''empty'', ''not_empty'']"

definition number_ops :: "pystr list" where
  "number_ops = [''eq'', ''ne'', ''gt'', ''gte'', ''lt'', ''lte'', ''empty'', ''not_empty'']"

definition date_ops :: "pystr list" where
  "date_ops = [''eq'', ''gt'', ''lt'', ''gte'', ''lte'', ''empty'', ''not_empty'']"

definition enum_ops :: "pystr list" where
  "enum_ops = [''eq'', ''ne'', ''empty'', ''not_empty'']"

definition bool_ops :: "pystr list" where
  "bool_ops = [''is_true'', ''is_false'', ''empty'']"

definition relation_ops :: "pystr list" where
  "relation_ops = [''eq'', ''ne'', ''empty'', ''not_empty'']"

definition OPS_BY_KIND :: "(pystr, pystr list) dict" where
  "OPS_BY_KIND = [(''text'', text_ops), (''number'', number_ops), (''date'', date_ops),
     (''enum'', enum_ops), (''boolean'', bool_ops), (''relation'', relation_ops),
     (''user'', relation_ops), (''company'', relation_ops)]"

definition KIND_BY_TYPE :: "(pystr, pystr) dict" where
  "KIND_BY_TYPE = [(''string'', ''text''), (''text'', ''text''), (''email'', ''text''),
     (''url'', ''text''), (''phone'', ''text''), (''json'', ''text''), (''autonumber'', ''text''),
     (''tags'', ''text''), (''integer'', ''number''), (''bigint'', ''number''),
     (''decimal'', ''number''), (''float'', ''number''), (''currency'', ''number''),
     (''percent'', ''number''), (''date'', ''date''), (''datetime'', ''date''), (''time'', ''date''),
     (''enum'', ''enum''), (''boolean'', ''boolean''), (''user'', ''user''),
     (''company'', ''company'')]"

definition KIND_BY_RESULT :: "(pystr, pystr) dict" where
  "KIND_BY_RESULT = [(''number'', ''number''), (''date'', ''date''), (''datetime'', ''date''),
     (''boolean'', ''boolean'')]"

definition dget_or :: "('k, 'v) dict \<Rightarrow> 'k \<Rightarrow> 'v \<Rightarrow> 'v" where
  "dget_or d k v = (case dget d k of None \<Rightarrow> v | Some w \<Rightarrow> w)"

definition filter_kind :: "meta_field \<Rightarrow> pystr" where
  "filter_kind f =
     (if f_data_type f = RELATION_TYPE then ''relation''
      else if f_data_type f = ''formula''
      then (case f_result_type f of None \<Rightarrow> ''text'' | Some rt \<Rightarrow> dget_or KIND_BY_RESULT rt ''text'')
      else dget_or KIND_BY_TYPE (f_data_type f) ''text'')"

definition valid_op :: "pystr \<Rightarrow> pystr \<Rightarrow> bool" where
  "valid_op kind op = (op \<in> set (dget_or OPS_BY_KIND kind []))"

subsection \<open>Clauses\<close>

text \<open>The text a LIKE pattern is matched against, and its parameter's text.\<close>

definition like_text :: "pyval \<Rightarrow> pystr option" where
  "like_text v = (if v = VNone then None else Some (py_str v))"

definition like3 :: "(pystr \<Rightarrow> pystr \<Rightarrow> bool) \<Rightarrow> pyval \<Rightarrow> pyval \<Rightarrow> bool option" where
  "like3 P col v = map_option (\<lambda>s. P (py_str v) s) (like_text col)"

type_synonym clause = "pyval \<Rightarrow> bool option"

definition build_clause :: "pystr \<Rightarrow> pyval \<Rightarrow> bool \<Rightarrow> clause option" where
  "build_clause op v is_text =
     (if op = ''contains'' then Some (\<lambda>c. like3 py_contains c v)
      else if op = ''not_contains'' then Some (\<lambda>c. not3 (like3 py_contains c v))
      else if op = ''starts_with'' then Some (\<lambda>c. like3 prefix c v)
      else if op = ''ends_with'' then Some (\<lambda>c. like3 suffix c v)
      else if op = ''eq'' then Some (if v = VNone then \<lambda>c. Some (c = VNone) else cmp3 (\<lambda>r. r = Same) v)
      else if op = ''ne'' then Some (if v = VNone then \<lambda>c. Some (c \<noteq> VNone) else cmp3 (\<lambda>r. r \<noteq> Same) v)
      else if op = ''in'' then
        Some (\<lambda>c. if c = VNone then None else Some (list_ex (sql_eq c) (as_list v)))
      else if op = ''gt'' then Some (\<lambda>c. cmp3 (\<lambda>r. r = Higher) c v)
      else if op = ''gte'' then Some (\<lambda>c. cmp3 (\<lambda>r. r \<noteq> Lower) c v)
      else if op = ''lt'' then Some (\<lambda>c. cmp3 (\<lambda>r. r = Lower) c v)
      else if op = ''lte'' then Some (\<lambda>c. cmp3 (\<lambda>r. r \<noteq> Higher) c v)
      else if op = ''is_true'' then Some (\<lambda>c. cmp3 (\<lambda>r. r = Same) c (VBool True))
      else if op = ''is_false'' then Some (\<lambda>c. cmp3 (\<lambda>r. r = Same) c (VBool False))
      else if op = ''empty'' then Some (\<lambda>c. Some (c = VNone \<or> is_text \<and> c = VStr []))
      else if op = ''not_empty'' then Some (\<lambda>c. Some (c \<noteq> VNone \<and> \<not> (is_text \<and> c = VStr [])))
      else None)"

definition clause_true :: "clause \<Rightarrow> pyval \<Rightarrow> bool" where
  "clause_true cl v = (cl v = Some True)"

subsection \<open>Facts\<close>

lemma text_cmp_Same: "text_cmp s t = Same \<longleftrightarrow> s = t"
  by (induction s t rule: text_cmp.induct) auto

lemma text_cmp_swap: "text_cmp s t = Higher \<longleftrightarrow> text_cmp t s = Lower"
proof (induction s t rule: text_cmp.induct)
  case (4 c s d t)
  then show ?case using code_inj [of c d] by (cases "c = d") auto
qed auto

lemma sql_eq_str [simp]: "sql_eq (VStr s) (VStr t) \<longleftrightarrow> s = t"
  by (simp add: sql_eq_def sql_cmp_def text_cmp_Same)

lemma sql_eq_int [simp]: "sql_eq (VInt i) (VInt j) \<longleftrightarrow> i = j"
  by (auto simp: sql_eq_def sql_cmp_def sql_number_def num_cmp_def exact_eq_def)

lemma sql_cmp_None [simp]: "sql_cmp VNone v = None" "sql_cmp v VNone = None"
  by (auto simp: sql_cmp_def sql_number_def split: option.splits)

lemma sql_eq_None [simp]: "\<not> sql_eq VNone v" "\<not> sql_eq v VNone"
  by (simp_all add: sql_eq_def)

lemma sql_number_str_eq: "sql_number (VStr s) = (case parse_dec s of None \<Rightarrow> None | Some d \<Rightarrow> exact_dec d)"
  by (simp add: sql_number_def)

lemma dget_or_range: "dget_or d k v = v \<or> dget_or d k v \<in> snd ` set d"
proof (cases "dget d k")
  case None
  then show ?thesis by (simp add: dget_or_def)
next
  case (Some w)
  then have "(k, w) \<in> set d" by (simp add: dget_def map_of_SomeD)
  then show ?thesis using Some by (force simp: dget_or_def)
qed

lemma filter_kinds: "filter_kind f \<in> set (dkeys OPS_BY_KIND)"
proof -
  have "filter_kind f = ''relation'' \<or> filter_kind f = ''text'' \<or>
      filter_kind f \<in> snd ` set KIND_BY_RESULT \<or> filter_kind f \<in> snd ` set KIND_BY_TYPE"
    using dget_or_range [of KIND_BY_RESULT _ "''text''"]
      dget_or_range [of KIND_BY_TYPE "f_data_type f" "''text''"]
    by (auto simp: filter_kind_def split: option.splits)
  then show ?thesis
    by (elim disjE) (simp_all add: OPS_BY_KIND_def dkeys_def KIND_BY_RESULT_def KIND_BY_TYPE_def, blast+)
qed

lemma ops_build_all:
  "list_all (\<lambda>(k, ops). dget_or OPS_BY_KIND k [] = ops \<and>
     list_all (\<lambda>op. build_clause op v is_text \<noteq> None) ops) OPS_BY_KIND"
  by (simp add: OPS_BY_KIND_def dget_or_def dget_Cons text_ops_def number_ops_def date_ops_def
      enum_ops_def bool_ops_def relation_ops_def build_clause_def)

text \<open>
  The kind of every field has its list of operators, and each of them is valid for the
  kind and builds a clause.
\<close>

theorem registry_ops_build:
  "dhas OPS_BY_KIND (filter_kind f) \<and>
     list_all (\<lambda>op. valid_op (filter_kind f) op \<and> build_clause op v is_text \<noteq> None)
       (dget_or OPS_BY_KIND (filter_kind f) [])"
proof -
  obtain ops where ops: "(filter_kind f, ops) \<in> set OPS_BY_KIND"
    using filter_kinds by (force simp: dkeys_def)
  with ops_build_all [of v is_text] have "dget_or OPS_BY_KIND (filter_kind f) [] = ops"
    and "list_all (\<lambda>op. build_clause op v is_text \<noteq> None) ops"
    by (auto simp: list_all_iff)
  then show ?thesis using filter_kinds by (simp add: dhas_def valid_op_def list_all_iff)
qed

end
