(* ===== verification/Data_Service.thy ===== *)
theory Data_Service
  imports Filters
begin

text \<open>
  \<open>app/data_service.py\<close>: reading and writing the rows of physical tables.

  A table of the model is \<^typ>\<open>phys\<close>. The database runs a statement when the table it yields
  meets the constraints \<open>phys_ok\<close> (columns, NOT NULL, primary key, UNIQUE) and raises
  otherwise. An UPDATE without assignments is not SQL, so it raises. Rows without an ORDER BY
  come in the order of insertion. The engine argument names the database a table lives in;
  the physical name of a table is unique over all of them, so the model looks tables up by it.

  Shown: the writes keep the constraints, and the laws of a store (\<open>row_store\<close>): a row written
  is read back, other rows and other tables are left alone. The pages of a list are the list.
\<close>

subsection \<open>Tables\<close>

definition columns :: "phys \<Rightarrow> pystr list" where
  "columns p = map (\<lambda>(c, _, _). c) (ph_cols p)"

definition has_col :: "phys \<Rightarrow> pystr \<Rightarrow> bool" where
  "has_col p c = (c \<in> set (columns p))"

definition col_type :: "phys \<Rightarrow> pystr \<Rightarrow> ctype" where
  "col_type p c = (case map_of (ph_cols p) c of None \<Rightarrow> COther | Some (t, _) \<Rightarrow> t)"

definition col_nullable :: "phys \<Rightarrow> pystr \<Rightarrow> bool" where
  "col_nullable p c = (case map_of (ph_cols p) c of None \<Rightarrow> True | Some (_, n) \<Rightarrow> n)"

text \<open>Two rows that one UNIQUE constraint or the primary key does not admit together.\<close>

definition clash :: "phys \<Rightarrow> row \<Rightarrow> row \<Rightarrow> bool" where
  "clash p r r' = list_ex (list_all (\<lambda>c. sql_eq (rget r c) (rget r' c))) ([ph_pk p] # ph_uniq p)"

definition row_ok :: "phys \<Rightarrow> row \<Rightarrow> bool" where
  "row_ok p r = (dkeys r = columns p \<and>
     list_all (\<lambda>c. (col_nullable p c \<and> c \<noteq> ph_pk p) \<or> rget r c \<noteq> VNone) (columns p))"

definition phys_ok :: "phys \<Rightarrow> bool" where
  "phys_ok p = (list_all (row_ok p) (ph_rows p) \<and>
     sorted_wrt (\<lambda>r r'. \<not> clash p r r') (ph_rows p))"

definition reflect :: "db \<Rightarrow> pystr \<Rightarrow> exn + phys" where
  "reflect s t = (case dget (d_phys s) t of None \<Rightarrow> Inl (DBErr t) | Some p \<Rightarrow> Inr p)"

definition put_phys :: "pystr \<Rightarrow> phys \<Rightarrow> db \<Rightarrow> db" where
  "put_phys t p s = s\<lparr>d_phys := dset t p (d_phys s)\<rparr>"

text \<open>\<open>int(value)\<close> or \<open>str(value)\<close> by the column's type, the value itself where that fails.\<close>

definition coerce_col :: "ctype \<Rightarrow> pyval \<Rightarrow> pyval" where
  "coerce_col t v = (case t of
     COther \<Rightarrow> v
   | CStr \<Rightarrow> VStr (py_str v)
   | CInt \<Rightarrow> (case v of VBool _ \<Rightarrow> v
              | _ \<Rightarrow> (case int_or_none v of None \<Rightarrow> v | Some i \<Rightarrow> VInt i)))"

definition pk_value :: "phys \<Rightarrow> pyval \<Rightarrow> pyval" where
  "pk_value p v = (if v = VNone then VNone else coerce_col (col_type p (ph_pk p)) v)"

definition clean_values :: "phys \<Rightarrow> row \<Rightarrow> row" where
  "clean_values p vs = filter (\<lambda>(k, v). has_col p k) vs"

subsection \<open>Statements\<close>

text \<open>INSERT of one row: a missing column is NULL, a missing integer key is generated.\<close>

definition new_row :: "phys \<Rightarrow> row \<Rightarrow> row" where
  "new_row p vs = map (\<lambda>c. (c,
     if c = ph_pk p \<and> rget vs c = VNone \<and> col_type p c = CInt then VInt (ph_next p) else rget vs c))
     (columns p)"

definition bump_next :: "phys \<Rightarrow> pyval \<Rightarrow> int" where
  "bump_next p v = (case v of VInt i \<Rightarrow> max (ph_next p) (i + 1) | _ \<Rightarrow> ph_next p)"

definition db_insert :: "pystr \<Rightarrow> phys \<Rightarrow> row \<Rightarrow> exn + phys" where
  "db_insert t p vs =
     (let r = new_row p vs;
          p' = p\<lparr>ph_rows := ph_rows p @ [r], ph_next := bump_next p (rget r (ph_pk p))\<rparr>
      in if phys_ok p' then Inr p' else Inl (DBErr t))"

definition db_update :: "pystr \<Rightarrow> phys \<Rightarrow> (row \<Rightarrow> bool) \<Rightarrow> row \<Rightarrow> exn + phys" where
  "db_update t p P vs =
     (if vs = [] then Inl (DBErr t)
      else let p' = p\<lparr>ph_rows := upd_where P (\<lambda>r. dupdate r vs) (ph_rows p)\<rparr>
           in if phys_ok p' then Inr p' else Inl (DBErr t))"

definition db_delete :: "phys \<Rightarrow> (row \<Rightarrow> bool) \<Rightarrow> phys" where
  "db_delete p P = p\<lparr>ph_rows := filter (\<lambda>r. \<not> P r) (ph_rows p)\<rparr>"

definition with_phys :: "pystr \<Rightarrow> (phys \<Rightarrow> exn + 'a \<times> phys) \<Rightarrow> 'a comp" where
  "with_phys t f s = (case reflect s t of
     Inl e \<Rightarrow> (Inl e, s)
   | Inr p \<Rightarrow> (case f p of Inl e \<Rightarrow> (Inl e, s) | Inr (x, p') \<Rightarrow> (Inr x, put_phys t p' s)))"

definition read_phys :: "pystr \<Rightarrow> (phys \<Rightarrow> exn + 'a) \<Rightarrow> 'a comp" where
  "read_phys t f s = (case reflect s t of Inl e \<Rightarrow> (Inl e, s) | Inr p \<Rightarrow> (f p, s))"

definition is_row :: "phys \<Rightarrow> pyval \<Rightarrow> row \<Rightarrow> bool" where
  "is_row p pk r = sql_eq (rget r (ph_pk p)) (pk_value p pk)"

text \<open>\<open>column == value\<close>, which is \<open>IS NULL\<close> for \<open>None\<close>.\<close>

definition col_eq :: "pystr \<Rightarrow> pyval \<Rightarrow> row \<Rightarrow> bool" where
  "col_eq c v r = (if v = VNone then rget r c = VNone else sql_eq (rget r c) v)"

subsection \<open>Row operations\<close>

definition insert_row :: "pystr \<Rightarrow> row \<Rightarrow> pyval comp" where
  "insert_row t vs = with_phys t (\<lambda>p.
     let clean = clean_values p vs in
     case db_insert t p clean of
       Inl e \<Rightarrow> Inl e
     | Inr p' \<Rightarrow> Inr (case dget clean (ph_pk p) of
                       Some v \<Rightarrow> v
                     | None \<Rightarrow> rget (last (ph_rows p')) (ph_pk p), p'))"

fun insert_all :: "pystr \<Rightarrow> row list \<Rightarrow> phys \<Rightarrow> exn + phys" where
  "insert_all t [] p = Inr p"
| "insert_all t (vs # r) p = (case db_insert t p vs of Inl e \<Rightarrow> Inl e | Inr p' \<Rightarrow> insert_all t r p')"

definition insert_many :: "pystr \<Rightarrow> row list \<Rightarrow> int comp" where
  "insert_many t rows = with_phys t (\<lambda>p.
     let cleaned = map (clean_values p) rows in
     if cleaned = [] then Inr (0, p)
     else case insert_all t cleaned p of Inl e \<Rightarrow> Inl e | Inr p' \<Rightarrow> Inr (int (length cleaned), p'))"

definition update_row :: "pystr \<Rightarrow> pyval \<Rightarrow> row \<Rightarrow> unit comp" where
  "update_row t pk vs = with_phys t (\<lambda>p.
     let clean = filter (\<lambda>(k, v). k \<noteq> ph_pk p) (clean_values p vs) in
     case db_update t p (is_row p pk) clean of Inl e \<Rightarrow> Inl e | Inr p' \<Rightarrow> Inr ((), p'))"

definition delete_row :: "pystr \<Rightarrow> pyval \<Rightarrow> unit comp" where
  "delete_row t pk = with_phys t (\<lambda>p. Inr ((), db_delete p (is_row p pk)))"

definition get_row :: "pystr \<Rightarrow> pyval \<Rightarrow> row option comp" where
  "get_row t pk = read_phys t (\<lambda>p. Inr (find (is_row p pk) (ph_rows p)))"

text \<open>\<open>get_row(...) or {}\<close>.\<close>

definition row_or_empty :: "pystr \<Rightarrow> pyval \<Rightarrow> row comp" where
  "row_or_empty t pk = bindC (get_row t pk) (\<lambda>r. retC (case r of None \<Rightarrow> [] | Some x \<Rightarrow> x))"

definition count_rows :: "pystr \<Rightarrow> pystr \<Rightarrow> pyval \<Rightarrow> int comp" where
  "count_rows t col v = read_phys t (\<lambda>p.
     if \<not> has_col p col then Inr 0
     else Inr (int (length (filter (col_eq col v) (ph_rows p)))))"

definition column_nullable :: "pystr \<Rightarrow> pystr \<Rightarrow> bool comp" where
  "column_nullable t col = read_phys t (\<lambda>p. Inr (if has_col p col then col_nullable p col else True))"

definition clear_fk :: "pystr \<Rightarrow> pystr \<Rightarrow> pyval \<Rightarrow> unit comp" where
  "clear_fk t col v = with_phys t (\<lambda>p.
     if \<not> has_col p col then Inr ((), p)
     else case db_update t p (col_eq col v) [(col, VNone)] of
            Inl e \<Rightarrow> Inl e | Inr p' \<Rightarrow> Inr ((), p'))"

definition repoint_fk :: "pystr \<Rightarrow> pystr \<Rightarrow> pyval \<Rightarrow> pyval \<Rightarrow> int comp" where
  "repoint_fk t col old new = with_phys t (\<lambda>p.
     if \<not> has_col p col then Inr (0, p)
     else case db_update t p (col_eq col old) [(col, new)] of
            Inl e \<Rightarrow> Inl e
          | Inr p' \<Rightarrow> Inr (int (length (filter (col_eq col old) (ph_rows p))), p'))"

definition delete_where :: "pystr \<Rightarrow> pystr \<Rightarrow> pyval \<Rightarrow> unit comp" where
  "delete_where t col v = with_phys t (\<lambda>p.
     if \<not> has_col p col then Inr ((), p)
     else Inr ((), db_delete p (col_eq col v)))"


subsection \<open>Lists\<close>

text \<open>A condition of a list, or an OR-group of conditions.\<close>

datatype filt =
    FCond (fc_col: pystr) (fc_op: "pystr option") (fc_value: pyval) (fc_text: bool)
  | FAny "filt list"

definition clause_for :: "phys \<Rightarrow> filt \<Rightarrow> (row \<Rightarrow> bool) option" where
  "clause_for p f = (case f of
     FAny _ \<Rightarrow> None
   | FCond col op v is_text \<Rightarrow>
       if \<not> has_col p col then None
       else
         let op' = text_or op ''contains'' in
         if op' \<notin> set NO_VALUE_OPS \<and> blank v then None
         else map_option (\<lambda>cl r. clause_true cl (rget r col)) (build_clause op' v is_text))"

text \<open>What one entry of the filter list adds to the WHERE, if anything.\<close>

definition filter_test :: "phys \<Rightarrow> filt \<Rightarrow> (row \<Rightarrow> bool) option" where
  "filter_test p f = (case f of
     FAny subs \<Rightarrow> (let cs = List.map_filter (clause_for p) subs in
        if cs = [] then None else Some (\<lambda>r. list_ex (\<lambda>c. c r) cs))
   | FCond _ _ _ _ \<Rightarrow> clause_for p f)"

definition apply_filters :: "phys \<Rightarrow> filt list \<Rightarrow> row list \<Rightarrow> row list" where
  "apply_filters p fs rows =
     filter (\<lambda>r. list_all (\<lambda>c. c r) (List.map_filter (filter_test p) fs)) rows"

text \<open>ORDER BY: NULLs first, ties in the order of the rows.\<close>

definition sql_le :: "pyval \<Rightarrow> pyval \<Rightarrow> bool" where
  "sql_le a b = (a = VNone \<or> sql_cmp a b = Some Lower \<or> sql_cmp a b = Some Same)"

fun insert_by :: "('a \<Rightarrow> 'a \<Rightarrow> bool) \<Rightarrow> 'a \<Rightarrow> 'a list \<Rightarrow> 'a list" where
  "insert_by le x [] = [x]"
| "insert_by le x (y # ys) = (if le x y then x # y # ys else y # insert_by le x ys)"

definition sort_by :: "('a \<Rightarrow> 'a \<Rightarrow> bool) \<Rightarrow> 'a list \<Rightarrow> 'a list" where
  "sort_by le xs = foldr (insert_by le) xs []"

definition order_by :: "pystr \<Rightarrow> bool \<Rightarrow> row list \<Rightarrow> row list" where
  "order_by col desc rows =
     sort_by (\<lambda>r r'. if desc then sql_le (rget r' col) (rget r col) else sql_le (rget r col) (rget r' col)) rows"

definition page_of :: "int \<Rightarrow> int option \<Rightarrow> 'a list \<Rightarrow> 'a list" where
  "page_of page per_page rows = (case per_page of
     None \<Rightarrow> rows
   | Some n \<Rightarrow> take (nat n) (drop (nat ((max 1 page - 1) * n)) rows))"

definition list_rows ::
  "pystr \<Rightarrow> filt list \<Rightarrow> pystr option \<Rightarrow> pystr \<Rightarrow> int \<Rightarrow> int option \<Rightarrow> (row list \<times> int) comp" where
  "list_rows t filters sort_col order page per_page = read_phys t (\<lambda>p.
     let found = apply_filters p filters (ph_rows p);
         ordered = (case sort_col of
            Some c \<Rightarrow> if c \<noteq> [] \<and> has_col p c then order_by c (order = ''desc'') found
                      else order_by (ph_pk p) False found
          | None \<Rightarrow> order_by (ph_pk p) False found)
     in Inr (page_of page per_page ordered, int (length found)))"

definition list_rows_after :: "pystr \<Rightarrow> pyval \<Rightarrow> nat \<Rightarrow> row list comp" where
  "list_rows_after t after limit = read_phys t (\<lambda>p.
     Inr (take limit (order_by (ph_pk p) False
       (filter (\<lambda>r. sql_cmp (rget r (ph_pk p)) (pk_value p after) = Some Higher) (ph_rows p)))))"

definition rows_by_ids :: "pystr \<Rightarrow> pyval list \<Rightarrow> row list comp" where
  "rows_by_ids t ids =
     (if ids = [] then retC []
      else read_phys t (\<lambda>p. Inr (order_by (ph_pk p) False
             (filter (\<lambda>r. list_ex (\<lambda>i. is_row p i r) ids) (ph_rows p)))))"

subsection \<open>Lookup by a key\<close>

text \<open>SQL's \<open>trim\<close> removes spaces only.\<close>

definition match_clause :: "pystr \<Rightarrow> pyval \<Rightarrow> bool \<Rightarrow> row \<Rightarrow> bool" where
  "match_clause col v normalize_it r = (case v of
     VStr x \<Rightarrow>
       if normalize_it
       then (case like_text (rget r col) of
               None \<Rightarrow> False
             | Some c \<Rightarrow> py_lower (strip_by (\<lambda>ch. ch = CHR '' '') c) = py_lower (py_strip x))
       else col_eq col v r
   | _ \<Rightarrow> col_eq col v r)"

definition find_id_by :: "pystr \<Rightarrow> pystr list \<Rightarrow> pyval list \<Rightarrow> bool \<Rightarrow> pyval option comp" where
  "find_id_by t cols vs normalize_it = read_phys t (\<lambda>p.
     case find (\<lambda>c. \<not> has_col p c) cols of
       Some c \<Rightarrow> Inl (ValueErr c)
     | None \<Rightarrow>
       (case filter (\<lambda>r. list_all (\<lambda>(c, v). match_clause c v normalize_it r) (zip cols vs)) (ph_rows p) of
          [] \<Rightarrow> Inr None
        | [r] \<Rightarrow> Inr (Some (rget r (ph_pk p)))
        | _ \<Rightarrow> Inl (ValueErr ''ambiguous'')))"

definition key_parts :: "pystr \<Rightarrow> pystr list" where
  "key_parts spec = filter (\<lambda>k. k \<noteq> []) (map py_strip (split_on CHR '','' spec))"

definition find_id_by_key :: "pystr \<Rightarrow> pystr option \<Rightarrow> row \<Rightarrow> bool \<Rightarrow> pyval option comp" where
  "find_id_by_key t spec vs normalize_it =
     (let keys = key_parts (text_or spec []) in
      if keys = [] \<or> list_ex (\<lambda>k. blank (rget vs k)) keys then retC None
      else find_id_by t keys (map (rget vs) keys) normalize_it)"

subsection \<open>Labels and links\<close>

definition as_columns :: "phys \<Rightarrow> pystr list \<Rightarrow> pystr list" where
  "as_columns p cols = (let cs = filter (has_col p) cols in if cs = [] then [ph_pk p] else cs)"

definition LABEL_SEP :: pystr where
  "LABEL_SEP = '' - ''"

definition compose_label :: "pyval \<Rightarrow> pyval list \<Rightarrow> pystr" where
  "compose_label pk vs =
     (let parts = map py_str (filter (\<lambda>v. \<not> blank v) vs) in
      if parts = [] then ''#'' @ py_str pk else join_with LABEL_SEP parts)"

definition load_options ::
  "pystr \<Rightarrow> pystr list \<Rightarrow> (pystr \<times> pyval list) option \<Rightarrow> (pyval \<times> pystr) list comp" where
  "load_options t cols where_in = read_phys t (\<lambda>p.
     let cs = as_columns p cols;
         keep = (case where_in of
            Some (c, vs) \<Rightarrow> (\<lambda>r. has_col p c \<longrightarrow> list_ex (sql_eq (rget r c)) vs)
          | None \<Rightarrow> (\<lambda>r. True))
     in Inr (map (\<lambda>r. (rget r (ph_pk p), compose_label (rget r (ph_pk p)) (map (rget r) cs)))
              (order_by (hd cs) False (filter keep (ph_rows p)))))"

definition sample_labels :: "pystr \<Rightarrow> pystr \<Rightarrow> pyval \<Rightarrow> pystr list \<Rightarrow> nat \<Rightarrow> pystr list comp" where
  "sample_labels t col v cols limit = read_phys t (\<lambda>p.
     if \<not> has_col p col then Inr []
     else Inr (map (\<lambda>r. compose_label (rget r (ph_pk p)) (map (rget r) (as_columns p cols)))
            (take limit (order_by (ph_pk p) False (filter (col_eq col v) (ph_rows p))))))"

definition labels_for :: "pystr \<Rightarrow> pyval list \<Rightarrow> pystr list \<Rightarrow> pystr list comp" where
  "labels_for t ids cols =
     (if ids = [] then retC []
      else read_phys t (\<lambda>p. Inr (List.map_filter
        (\<lambda>i. map_option (\<lambda>r. compose_label (rget r (ph_pk p)) (map (rget r) (as_columns p cols)))
               (find (\<lambda>r. sql_eq (rget r (ph_pk p)) i) (ph_rows p))) ids)))"

definition get_links :: "pystr \<Rightarrow> pystr \<Rightarrow> pyval \<Rightarrow> pystr \<Rightarrow> pyval list comp" where
  "get_links j this_col this other_col = read_phys j (\<lambda>p.
     if \<not> has_col p other_col then Inl (KeyErr other_col)
     else if \<not> has_col p this_col then Inl (KeyErr this_col)
     else Inr (map (\<lambda>r. rget r other_col) (filter (col_eq this_col this) (ph_rows p))))"

definition val_in :: "pyval \<Rightarrow> pyval list \<Rightarrow> bool" where
  "val_in v vs = list_ex (py_eq v) vs"

fun dedup :: "pyval list \<Rightarrow> pyval list" where
  "dedup [] = []"
| "dedup (v # vs) = v # filter (\<lambda>w. \<not> py_eq v w) (dedup vs)"

text \<open>The sets of the source are lists without repetition, in the order of their elements.\<close>

definition set_links :: "pystr \<Rightarrow> pystr \<Rightarrow> pyval \<Rightarrow> pystr \<Rightarrow> pyval list \<Rightarrow> unit comp" where
  "set_links j this_col this other_col others = with_phys j (\<lambda>p.
     if \<not> has_col p other_col then Inl (KeyErr other_col)
     else if \<not> has_col p this_col then Inl (KeyErr this_col)
     else
       let wanted = dedup (map (coerce_col (col_type p other_col)) others);
           existing = map (\<lambda>r. rget r other_col) (filter (col_eq this_col this) (ph_rows p));
           to_add = filter (\<lambda>v. \<not> val_in v existing) wanted;
           to_remove = filter (\<lambda>v. \<not> val_in v wanted) existing
       in case insert_all j (map (\<lambda>v. dupdate [(this_col, this)] [(other_col, v)]) to_add) p of
            Inl e \<Rightarrow> Inl e
          | Inr p' \<Rightarrow> Inr ((), if to_remove = [] then p'
                else db_delete p' (\<lambda>r. col_eq this_col this r \<and> list_ex (sql_eq (rget r other_col)) to_remove)))"

subsection \<open>One aggregate\<close>

definition fold_best :: "(pyval \<Rightarrow> pyval \<Rightarrow> bool) \<Rightarrow> pyval list \<Rightarrow> pyval" where
  "fold_best better vs = (case vs of [] \<Rightarrow> VNone
     | v # r \<Rightarrow> fold (\<lambda>x m. if better x m then x else m) r v)"

definition aggregate_value ::
  "env \<Rightarrow> pystr \<Rightarrow> pystr \<Rightarrow> pystr option \<Rightarrow> pystr option \<Rightarrow> pyval \<Rightarrow> pyval comp" where
  "aggregate_value env t op col where_col where_val = read_phys t (\<lambda>p.
     let rows = (case where_col of
            Some c \<Rightarrow> if c \<noteq> [] \<and> has_col p c then filter (col_eq c where_val) (ph_rows p) else ph_rows p
          | None \<Rightarrow> ph_rows p);
         vals = (\<lambda>c. filter (\<lambda>v. v \<noteq> VNone) (map (\<lambda>r. rget r c) rows));
         known = (case col of Some c \<Rightarrow> has_col p c | None \<Rightarrow> False)
     in if op \<in> {''sum'', ''avg'', ''min'', ''max''} \<and> col = None then Inl TypeErr
        else Inr (if op = ''count'' then
               (if known \<and> filled col then VInt (int (length (vals (the col))))
                else VInt (int (length rows)))
             else if op \<notin> {''sum'', ''avg'', ''min'', ''max''} \<or> \<not> known then VNone
             else if op = ''min'' then fold_best (\<lambda>x m. sql_cmp x m = Some Lower) (vals (the col))
             else if op = ''max'' then fold_best (\<lambda>x m. sql_cmp x m = Some Higher) (vals (the col))
             else if vals (the col) = [] then VNone
             else e_agg env op (vals (the col))))"


subsection \<open>Constraints\<close>

text \<open>Every physical table meets its constraints.\<close>

definition db_ok :: "db \<Rightarrow> bool" where
  "db_ok s = list_all (\<lambda>(t, p). phys_ok p) (d_phys s)"

lemma db_ok_dget: "db_ok s \<Longrightarrow> dget (d_phys s) t = Some p \<Longrightarrow> phys_ok p"
  by (auto simp: db_ok_def list_all_iff dget_def dest: map_of_SomeD)

lemma set_dset: "set (dset k v d) \<subseteq> insert (k, v) (set d)"
  unfolding dset_def by (induction d) auto

lemma db_ok_put: "db_ok s \<Longrightarrow> phys_ok p \<Longrightarrow> db_ok (put_phys t p s)"
  using set_dset [of t p "d_phys s"] by (auto simp: db_ok_def list_all_iff put_phys_def)

definition ok_after :: "db \<Rightarrow> db \<Rightarrow> bool" where
  "ok_after s s' \<longleftrightarrow> (db_ok s \<longrightarrow> db_ok s')"

interpretation constraints: frame ok_after
  by unfold_locales (simp_all add: ok_after_def)

text \<open>A read changes nothing at all.\<close>

lemma read_phys_state [simp]: "snd (read_phys t f s) = s"
  by (simp add: read_phys_def split: sum.splits)

context frame
begin

lemma keeps_read: "keeps R (read_phys t f)"
  by (simp add: keeps_def refl)

lemma keeps_with:
  assumes "\<And>s p. R s (put_phys t p s)" shows "keeps R (with_phys t f)"
  by (auto simp: keeps_def with_phys_def refl assms split: sum.splits prod.splits)

end

lemma put_phys_frames [simp]:
  "same_users s (put_phys t p s)" "same_design s (put_phys t p s)"
  "same_approvals s (put_phys t p s)" "grows s (put_phys t p s)"
  by (simp_all add: put_phys_def same_users_def same_design_def same_approvals_def grows_def)

lemmas write_defs = insert_row_def insert_many_def update_row_def delete_row_def clear_fk_def
  repoint_fk_def delete_where_def set_links_def

lemma db_insert_ok: "db_insert t p vs = Inr p' \<Longrightarrow> phys_ok p'"
  by (auto simp: db_insert_def Let_def split: if_splits)

lemma db_update_ok: "db_update t p P vs = Inr p' \<Longrightarrow> phys_ok p'"
  by (auto simp: db_update_def Let_def split: if_splits)

lemma insert_all_ok: "insert_all t rs p = Inr p' \<Longrightarrow> phys_ok p \<Longrightarrow> phys_ok p'"
  by (induction rs arbitrary: p) (auto dest: db_insert_ok split: sum.splits)

lemma phys_ok_delete: "phys_ok p \<Longrightarrow> phys_ok (db_delete p P)"
proof -
  have "row_ok (db_delete p P) = row_ok p" "clash (db_delete p P) = clash p"
    by (auto simp: fun_eq_iff row_ok_def clash_def db_delete_def columns_def col_nullable_def)
  moreover assume "phys_ok p"
  ultimately show ?thesis
    by (auto simp: phys_ok_def db_delete_def list_all_iff intro: sorted_wrt_filter)
qed

lemma keeps_ok_with:
  assumes "\<And>p x p'. phys_ok p \<Longrightarrow> f p = Inr (x, p') \<Longrightarrow> phys_ok p'"
  shows "keeps ok_after (with_phys t f)"
proof -
  have "db_ok (snd (with_phys t f s))" if ok: "db_ok s" for s
  proof (cases "dget (d_phys s) t")
    case None
    with ok show ?thesis by (simp add: with_phys_def reflect_def)
  next
    case (Some p)
    show ?thesis
    proof (cases "f p")
      case (Inl e)
      with Some ok show ?thesis by (simp add: with_phys_def reflect_def)
    next
      case (Inr xp)
      then have "phys_ok (snd xp)" using assms db_ok_dget [OF ok Some] by (metis prod.collapse)
      with Some Inr ok show ?thesis
        by (cases xp) (simp add: with_phys_def reflect_def db_ok_put)
    qed
  qed
  then show ?thesis by (simp add: keeps_def ok_after_def)
qed


subsection \<open>The laws of a store\<close>

text \<open>
  What the rest of the program relies on when it reads back what it wrote. \<open>pk\<close> is the name of
  a table's key column.
\<close>

locale row_store =
  fixes pk :: "db \<Rightarrow> pystr \<Rightarrow> pystr"
    and row_at :: "db \<Rightarrow> pystr \<Rightarrow> pyval \<Rightarrow> row option"
    and wr :: "pystr \<Rightarrow> pyval \<Rightarrow> row \<Rightarrow> unit comp"
    and rm :: "pystr \<Rightarrow> pyval \<Rightarrow> unit comp"
  assumes wr_same: "wr t k vs s = (Inr (), s') \<Longrightarrow> wf_dict vs \<Longrightarrow> row_at s t k = Some r \<Longrightarrow>
      \<exists>r'. row_at s' t k = Some r' \<and>
        (\<forall>c\<in>set (dkeys r) - {pk s t}. rget r' c = (if dhas vs c then rget vs c else rget r c)) \<and>
        set (dkeys r) \<subseteq> set (dkeys r')"
    and wr_pk: "wr t k vs s = (x, s') \<Longrightarrow> pk s' t' = pk s t'"
    and wr_table: "t' \<noteq> t \<Longrightarrow> wr t k vs s = (x, s') \<Longrightarrow> row_at s' t' k' = row_at s t' k'"
    and wr_missing: "wr t k vs s = (x, s') \<Longrightarrow> row_at s t k = None \<Longrightarrow> row_at s' t k = None"
    and rm_same: "rm t k s = (Inr (), s') \<Longrightarrow> row_at s' t k = None"
    and rm_table: "t' \<noteq> t \<Longrightarrow> rm t k s = (x, s') \<Longrightarrow> row_at s' t' k' = row_at s t' k'"
begin

lemma written_column:
  assumes "wr t k vs s = (Inr (), s')" "wf_dict vs" "row_at s t k = Some r"
    and "c \<in> set (dkeys r)" "c \<noteq> pk s t" "dget vs c = Some v"
  shows "\<exists>r'. row_at s' t k = Some r' \<and> rget r' c = v"
  using wr_same [OF assms(1-3)] assms(4-6) by (force simp: dhas_iff rget_def)

lemma unwritten_column:
  assumes "wr t k vs s = (Inr (), s')" "wf_dict vs" "row_at s t k = Some r"
    and "c \<in> set (dkeys r)" "c \<noteq> pk s t" "dget vs c = None"
  shows "\<exists>r'. row_at s' t k = Some r' \<and> rget r' c = rget r c"
  using wr_same [OF assms(1-3)] assms(4-6) by (force simp: dhas_iff)

text \<open>Of two writes of a column the last one is seen.\<close>

lemma last_write_wins:
  assumes "wr t k vs s = (Inr (), s1)" "wr t k ws s1 = (Inr (), s2)" "wf_dict vs" "wf_dict ws"
    and "row_at s t k = Some r" "c \<in> set (dkeys r)" "c \<noteq> pk s t" "dget ws c = Some w"
  shows "\<exists>r'. row_at s2 t k = Some r' \<and> rget r' c = w"
proof -
  obtain r1 where "row_at s1 t k = Some r1" "set (dkeys r) \<subseteq> set (dkeys r1)"
    using wr_same [OF assms(1,3,5)] by blast
  with assms(6-8) show ?thesis
    by (intro written_column [OF assms(2,4), of r1]) (auto simp: wr_pk [OF assms(1)])
qed

lemma removed_stays: "rm t k s = (Inr (), s1) \<Longrightarrow> wr t k vs s1 = (x, s2) \<Longrightarrow> row_at s2 t k = None"
  by (rule wr_missing) (auto intro: rm_same)

end

definition pk_of :: "db \<Rightarrow> pystr \<Rightarrow> pystr" where
  "pk_of s t = (case dget (d_phys s) t of None \<Rightarrow> [] | Some p \<Rightarrow> ph_pk p)"

definition row_at :: "db \<Rightarrow> pystr \<Rightarrow> pyval \<Rightarrow> row option" where
  "row_at s t k = (case dget (d_phys s) t of None \<Rightarrow> None | Some p \<Rightarrow> find (is_row p k) (ph_rows p))"

lemma get_row_row_at: "dget (d_phys s) t \<noteq> None \<Longrightarrow> get_row t k s = (Inr (row_at s t k), s)"
  by (auto simp: get_row_def read_phys_def reflect_def row_at_def)

lemma get_row_missing: "dget (d_phys s) t = None \<Longrightarrow> get_row t k s = (Inl (DBErr t), s)"
  by (simp add: get_row_def read_phys_def reflect_def)

lemma with_physD:
  assumes "with_phys t f s = (x, s')"
  shows "s' = s \<and> isl x \<or>
    (\<exists>p y p'. dget (d_phys s) t = Some p \<and> f p = Inr (y, p') \<and> x = Inr y \<and> s' = put_phys t p' s)"
  using assms by (auto simp: with_phys_def reflect_def split: option.splits sum.splits prod.splits)

lemma put_other: "t' \<noteq> t \<Longrightarrow> dget (d_phys (put_phys t p s)) t' = dget (d_phys s) t'"
  by (simp add: put_phys_def)

lemma put_same [simp]: "dget (d_phys (put_phys t p s)) t = Some p"
  by (simp add: put_phys_def)

lemma dget_dupdate_other: "k \<notin> set (dkeys e) \<Longrightarrow> dget (dupdate d e) k = dget d k"
  by (induction e arbitrary: d) (auto simp: dkeys_def)

definition key_kept :: "phys \<Rightarrow> phys \<Rightarrow> bool" where
  "key_kept p p' \<longleftrightarrow> ph_pk p' = ph_pk p \<and> ph_cols p' = ph_cols p"

lemma is_row_kept: "key_kept p p' \<Longrightarrow> is_row p' k = is_row p k"
  by (simp add: key_kept_def is_row_def pk_value_def col_type_def fun_eq_iff)

lemma dkeys_Cons [simp]: "dkeys (x # d) = fst x # dkeys d" "dkeys [] = []"
  by (simp_all add: dkeys_def)

lemma dkeys_dupdate: "set (dkeys (dupdate d e)) = set (dkeys d) \<union> set (dkeys e)"
  by (induction e arbitrary: d) auto

definition assigned :: "phys \<Rightarrow> row \<Rightarrow> row" where
  "assigned p vs = filter (\<lambda>(k, v). k \<noteq> ph_pk p) (clean_values p vs)"

lemma assigned_dget:
  "dget (assigned p vs) c = (if has_col p c \<and> c \<noteq> ph_pk p then dget vs c else None)"
  unfolding assigned_def clean_values_def dget_filter_key by simp

lemma wf_assigned: "wf_dict vs \<Longrightarrow> wf_dict (assigned p vs)"
  by (simp add: assigned_def clean_values_def)

lemma update_rowD:
  assumes "update_row t k vs s = (x, s')"
  shows "s' = s \<and> isl x \<or> (\<exists>p. dget (d_phys s) t = Some p \<and> x = Inr () \<and>
      (let p' = p\<lparr>ph_rows := upd_where (is_row p k) (\<lambda>r. dupdate r (assigned p vs)) (ph_rows p)\<rparr>
       in phys_ok p' \<and> s' = put_phys t p' s))"
  using with_physD [OF assms [unfolded update_row_def]]
  by (auto simp: assigned_def db_update_def Let_def split: sum.splits if_splits)

lemma row_at_update:
  assumes "dget (d_phys s) t = Some p"
    and "p' = p\<lparr>ph_rows := upd_where (is_row p k) (\<lambda>r. dupdate r (assigned p vs)) (ph_rows p)\<rparr>"
  shows "row_at (put_phys t p' s) t k = map_option (\<lambda>r. dupdate r (assigned p vs)) (row_at s t k)"
proof -
  have "is_row p' k = is_row p k" using assms(2) by (intro is_row_kept) (simp add: key_kept_def)
  moreover have "is_row p k (dupdate r (assigned p vs)) = is_row p k r" for r
  proof -
    have "ph_pk p \<notin> set (dkeys (assigned p vs))"
      by (auto simp: assigned_def dkeys_def)
    then show ?thesis by (simp add: is_row_def rget_def dget_dupdate_other)
  qed
  ultimately show ?thesis
    using assms by (simp add: row_at_def find_upd_where_same)
qed

lemma row_at_other: "t' \<noteq> t \<Longrightarrow> row_at (put_phys t p s) t' k = row_at s t' k"
  by (simp add: row_at_def put_other)

lemma pk_of_put: "dget (d_phys s) t = Some p \<Longrightarrow> ph_pk p' = ph_pk p \<Longrightarrow> pk_of (put_phys t p' s) t' = pk_of s t'"
  by (cases "t' = t") (simp_all add: pk_of_def put_other)

lemma update_row_same:
  assumes "update_row t k vs s = (Inr (), s')" "wf_dict vs" "row_at s t k = Some r"
  shows "\<exists>r'. row_at s' t k = Some r' \<and>
      (\<forall>c\<in>set (dkeys r) - {pk_of s t}. rget r' c = (if dhas vs c then rget vs c else rget r c)) \<and>
      set (dkeys r) \<subseteq> set (dkeys r')"
proof -
  obtain p p' where p: "dget (d_phys s) t = Some p"
    and p': "p' = p\<lparr>ph_rows := upd_where (is_row p k) (\<lambda>r. dupdate r (assigned p vs)) (ph_rows p)\<rparr>"
    and ok: "phys_ok p'" and s': "s' = put_phys t p' s"
    using update_rowD [OF assms(1)] by (auto simp: Let_def)
  let ?r' = "dupdate r (assigned p vs)"
  have r': "row_at s' t k = Some ?r'" using row_at_update [OF p p'] assms(3) s' by simp
  then have "?r' \<in> set (ph_rows p')" by (auto simp: row_at_def s' dest: find_Some_set)
  with ok have cols: "dkeys ?r' = columns p'" by (auto simp: phys_ok_def row_ok_def list_all_iff)
  have sub: "set (dkeys r) \<subseteq> set (dkeys ?r')" by (auto simp: dkeys_dupdate)
  have "rget ?r' c = (if dhas vs c then rget vs c else rget r c)"
    if c: "c \<in> set (dkeys r)" "c \<noteq> pk_of s t" for c
  proof -
    have "has_col p c" using c(1) sub cols by (auto simp: has_col_def columns_def p')
    moreover have "c \<noteq> ph_pk p" using c(2) p by (simp add: pk_of_def)
    ultimately show ?thesis
      by (auto simp: rget_def dget_dupdate [OF wf_assigned [OF assms(2)]] assigned_dget dhas_iff
          split: option.splits)
  qed
  with r' sub show ?thesis by blast
qed

interpretation store: row_store pk_of row_at update_row delete_row
proof
  fix t k vs s s' x t' k' r
  show "\<exists>r'. row_at s' t k = Some r' \<and>
      (\<forall>c\<in>set (dkeys r) - {pk_of s t}. rget r' c = (if dhas vs c then rget vs c else rget r c)) \<and>
      set (dkeys r) \<subseteq> set (dkeys r')"
    if "update_row t k vs s = (Inr (), s')" "wf_dict vs" "row_at s t k = Some r"
    using that by (rule update_row_same)
  show "pk_of s' t' = pk_of s t'" if "update_row t k vs s = (x, s')"
    using update_rowD [OF that] by (auto simp: Let_def intro: pk_of_put)
  show "row_at s' t' k' = row_at s t' k'" if "t' \<noteq> t" "update_row t k vs s = (x, s')"
    using update_rowD [OF that(2)] that(1) by (auto simp: Let_def row_at_other)
  show "row_at s' t k = None" if "update_row t k vs s = (x, s')" "row_at s t k = None"
    using update_rowD [OF that(1)] that(2) by (auto simp: Let_def row_at_update)
  show "row_at s' t k = None" if del: "delete_row t k s = (Inr (), s')"
  proof -
    obtain p where p: "dget (d_phys s) t = Some p"
      and s': "s' = put_phys t (db_delete p (is_row p k)) s"
      using with_physD [OF del [unfolded delete_row_def]] by auto
    have "is_row (db_delete p (is_row p k)) k = is_row p k"
      by (rule is_row_kept) (simp add: key_kept_def db_delete_def)
    then show ?thesis by (simp add: row_at_def s' find_None_iff) (simp add: db_delete_def)
  qed
  show "row_at s' t' k' = row_at s t' k'" if "t' \<noteq> t" "delete_row t k s = (x, s')"
    using with_physD [OF that(2) [unfolded delete_row_def]] that(1) by (auto simp: row_at_other)
qed

subsection \<open>Pages\<close>

text \<open>
  The pages of a list, one after the other, are the list: no row is lost or shown twice.
\<close>

theorem pages_partition:
  assumes "0 < n"
  shows "concat (map (\<lambda>k. page_of (int k) (Some n) rows) [1 ..< Suc m]) = take (m * nat n) rows"
proof (induction m)
  case (Suc m)
  have page: "page_of (int (Suc m)) (Some n) rows = take (nat n) (drop (m * nat n) rows)"
    using assms by (simp add: page_of_def nat_mult_distrib)
  have "[1 ..< Suc (Suc m)] = [1 ..< Suc m] @ [Suc m]" by simp
  with Suc page show ?case by (simp add: take_add add.commute [of "nat n"])
qed simp

theorem pages_partition_witness:
  "concat (map (\<lambda>k. page_of (int k) (Some 2) ''abcde'') [1 ..< Suc 3]) = ''abcde''"
  by (subst pages_partition) simp_all

text \<open>
  What \<open>update_row\<close> writes is what the next read returns: of two successful writes of a
  column of an existing row, the row then holds the value of the second.
\<close>

theorem update_row_last_wins:
  assumes "update_row t k vs s = (Inr (), s1)" "update_row t k ws s1 = (Inr (), s2)"
    and "wf_dict vs" "wf_dict ws" "row_at s t k = Some r"
    and "c \<in> set (dkeys r)" "c \<noteq> pk_of s t" "dget ws c = Some w"
  shows "\<exists>r'. row_at s2 t k = Some r' \<and> rget r' c = w"
  by (rule store.last_write_wins [OF assms])

definition sample_phys :: phys where
  "sample_phys = \<lparr>ph_cols = [(''id'', CInt, False), (''state'', CStr, True)], ph_pk = ''id'',
     ph_rows = [[(''id'', VInt 1), (''state'', VStr ''new'')]], ph_uniq = [], ph_next = 2\<rparr>"

definition sample_db :: db where
  "sample_db = empty_db\<lparr>d_phys := [(''tickets'', sample_phys)]\<rparr>"

theorem update_row_last_wins_witness:
  "\<exists>r'. row_at (snd (update_row ''tickets'' (VInt 1) [(''state'', VStr ''b'')]
      (snd (update_row ''tickets'' (VInt 1) [(''state'', VStr ''a'')] sample_db)))) ''tickets'' (VInt 1)
      = Some r' \<and> rget r' ''state'' = VStr ''b''"
proof (rule update_row_last_wins)
  show "row_at sample_db ''tickets'' (VInt 1) = Some [(''id'', VInt 1), (''state'', VStr ''new'')]"
    by code_simp
  show "update_row ''tickets'' (VInt 1) [(''state'', VStr ''a'')] sample_db =
      (Inr (), snd (update_row ''tickets'' (VInt 1) [(''state'', VStr ''a'')] sample_db))"
    by code_simp
  show "update_row ''tickets'' (VInt 1) [(''state'', VStr ''b'')]
      (snd (update_row ''tickets'' (VInt 1) [(''state'', VStr ''a'')] sample_db)) =
      (Inr (), snd (update_row ''tickets'' (VInt 1) [(''state'', VStr ''b'')]
      (snd (update_row ''tickets'' (VInt 1) [(''state'', VStr ''a'')] sample_db))))"
    by code_simp
qed (simp_all add: wf_dict_def dget_Cons, code_simp+)

end
