(* ===== verification/PyArith.thy ===== *)
theory PyArith
  imports PyVal
begin

text \<open>
  Arithmetic of \<open>decimal.Decimal\<close> in the default context (28 digits, ties to even, exponents up
  to 999999; \<open>InvalidOperation\<close>, \<open>DivisionByZero\<close> and \<open>Overflow\<close> raise, here \<^const>\<open>ArithErr\<close>),
  of binary64 floats, and Python's order of values. Nothing of the repository is in this theory; it
  is what \<open>app/formula.py\<close> calls.

  Shown: every decimal result has at most 28 digits, a sum and a product that fit are exact, and
  addition commutes.
\<close>

subsection \<open>Decimals\<close>

function dec_digits :: "int \<Rightarrow> int" where
  "dec_digits c = (if c < 10 then 1 else 1 + dec_digits (c div 10))"
  by pat_completeness auto
termination by (relation "measure nat") auto

declare dec_digits.simps [simp del]

abbreviation e_tiny :: int where "e_tiny \<equiv> - 1000026"
abbreviation e_max :: int where "e_max \<equiv> 999999"

text \<open>Rounding to the context.\<close>

definition dec_round_to :: "int \<Rightarrow> int \<Rightarrow> int \<Rightarrow> int" where
  "dec_round_to e e1 c = (if e < e1 then div_half_even c (10 ^ nat (e1 - e)) else c * 10 ^ nat (e - e1))"

definition dec_fix :: "bool \<Rightarrow> int \<Rightarrow> int \<Rightarrow> exn + decimal" where
  "dec_fix s c e =
     (if c = 0 then Inr (DFin s 0 (max e_tiny (min e e_max)))
      else
        let e1 = max (max e (e + dec_digits c - 28)) e_tiny;
            c1 = dec_round_to e e1 c;
            (c2, e2) = (if c1 = 10 ^ 28 then (10 ^ 27, e1 + 1) else (c1, e1))
        in if c2 \<noteq> 0 \<and> e2 + dec_digits c2 - 1 > e_max then Inl ArithErr else Inr (DFin s c2 e2))"

fun dec_negate :: "decimal \<Rightarrow> decimal" where
  "dec_negate DNan = DNan"
| "dec_negate (DInf s) = DInf (\<not> s)"
| "dec_negate (DFin s c e) = DFin (\<not> s) c e"

fun dec_add :: "decimal \<Rightarrow> decimal \<Rightarrow> exn + decimal" where
  "dec_add DNan y = Inr DNan"
| "dec_add x DNan = Inr DNan"
| "dec_add (DInf s) (DInf t) = (if s = t then Inr (DInf s) else Inl ArithErr)"
| "dec_add (DInf s) (DFin t d f) = Inr (DInf s)"
| "dec_add (DFin s c e) (DInf t) = Inr (DInf t)"
| "dec_add (DFin s c e) (DFin t d f) =
     (let m = min e f; v = signed s c * 10 ^ nat (e - m) + signed t d * 10 ^ nat (f - m)
      in dec_fix (if v = 0 then s \<and> t else v < 0) \<bar>v\<bar> m)"

definition dec_sub :: "decimal \<Rightarrow> decimal \<Rightarrow> exn + decimal" where
  "dec_sub x y = dec_add x (dec_negate y)"

fun dec_is_zero :: "decimal \<Rightarrow> bool" where
  "dec_is_zero (DFin s c e) = (c = 0)"
| "dec_is_zero _ = False"

fun dec_sign :: "decimal \<Rightarrow> bool" where
  "dec_sign DNan = False"
| "dec_sign (DInf s) = s"
| "dec_sign (DFin s c e) = s"

fun dec_mul :: "decimal \<Rightarrow> decimal \<Rightarrow> exn + decimal" where
  "dec_mul DNan y = Inr DNan"
| "dec_mul x DNan = Inr DNan"
| "dec_mul (DFin s c e) (DFin t d f) = dec_fix (s \<noteq> t) (c * d) (e + f)"
| "dec_mul x y = (if dec_is_zero x \<or> dec_is_zero y then Inl ArithErr else Inr (DInf (dec_sign x \<noteq> dec_sign y)))"

function strip_zeros :: "int \<Rightarrow> int \<Rightarrow> int \<Rightarrow> int \<times> int" where
  "strip_zeros ideal c e =
     (if e < ideal \<and> c mod 10 = 0 then strip_zeros ideal (c div 10) (e + 1) else (c, e))"
  by pat_completeness auto
termination by (relation "measure (\<lambda>(i, c, e). nat (i - e))") auto

declare strip_zeros.simps [simp del]

fun dec_div :: "decimal \<Rightarrow> decimal \<Rightarrow> exn + decimal" where
  "dec_div DNan y = Inr DNan"
| "dec_div x DNan = Inr DNan"
| "dec_div (DInf s) (DInf t) = Inl ArithErr"
| "dec_div (DInf s) (DFin t d f) = Inr (DInf (s \<noteq> t))"
| "dec_div (DFin s c e) (DInf t) = Inr (DFin (s \<noteq> t) 0 e_tiny)"
| "dec_div (DFin s c e) (DFin t d f) =
     (if d = 0 then Inl ArithErr
      else if c = 0 then dec_fix (s \<noteq> t) 0 (e - f)
      else
        let shift = dec_digits d - dec_digits c + 29;
            n = (if 0 \<le> shift then c * 10 ^ nat shift else c);
            k = (if 0 \<le> shift then d else d * 10 ^ nat (- shift));
            q = n div k
        in if n mod k \<noteq> 0 then dec_fix (s \<noteq> t) (if q mod 5 = 0 then q + 1 else q) (e - f - shift)
           else case strip_zeros (e - f) q (e - f - shift) of (q', e') \<Rightarrow> dec_fix (s \<noteq> t) q' e')"

text \<open>Quotient and remainder of finite decimals; the divisor may be infinite.\<close>

definition dec_divmod :: "bool \<Rightarrow> int \<Rightarrow> int \<Rightarrow> decimal \<Rightarrow> exn + (decimal \<times> decimal)" where
  "dec_divmod s c e y = (case y of
     DFin t d f \<Rightarrow>
       (let ideal = min e f; diff = (e + dec_digits c) - (f + dec_digits d) in
        if c = 0 \<or> diff \<le> - 2 then Inr (DFin (s \<noteq> t) 0 0, DFin s (c * 10 ^ nat (e - ideal)) ideal)
        else if diff \<le> 28 then
          (let a = c * 10 ^ nat (e - ideal); b = d * 10 ^ nat (f - ideal); q = a div b in
           if q < 10 ^ 28 then Inr (DFin (s \<noteq> t) q 0, DFin s (a mod b) ideal) else Inl ArithErr)
        else Inl ArithErr)
   | DInf t \<Rightarrow> Inr (DFin (s \<noteq> t) 0 0, DFin s c e)
   | DNan \<Rightarrow> Inr (DNan, DNan))"

fun dec_floordiv :: "decimal \<Rightarrow> decimal \<Rightarrow> exn + decimal" where
  "dec_floordiv DNan y = Inr DNan"
| "dec_floordiv x DNan = Inr DNan"
| "dec_floordiv (DInf s) (DInf t) = Inl ArithErr"
| "dec_floordiv (DInf s) (DFin t d f) = Inr (DInf (s \<noteq> t))"
| "dec_floordiv (DFin s c e) y =
     (if dec_is_zero y then Inl ArithErr
      else case dec_divmod s c e y of Inl x \<Rightarrow> Inl x | Inr (q, r) \<Rightarrow> Inr q)"

fun dec_fixed :: "decimal \<Rightarrow> exn + decimal" where
  "dec_fixed (DFin s c e) = dec_fix s c e"
| "dec_fixed x = Inr x"

fun dec_mod :: "decimal \<Rightarrow> decimal \<Rightarrow> exn + decimal" where
  "dec_mod DNan y = Inr DNan"
| "dec_mod x DNan = Inr DNan"
| "dec_mod (DInf s) y = Inl ArithErr"
| "dec_mod (DFin s c e) y =
     (if dec_is_zero y then Inl ArithErr
      else case dec_divmod s c e y of Inl x \<Rightarrow> Inl x | Inr (q, r) \<Rightarrow> dec_fixed r)"

definition dec_pos :: "decimal \<Rightarrow> exn + decimal" where
  "dec_pos x = (case x of DFin s c e \<Rightarrow> dec_fix (if c = 0 then False else s) c e | _ \<Rightarrow> Inr x)"

definition dec_neg :: "decimal \<Rightarrow> exn + decimal" where
  "dec_neg x = (case x of DFin s c e \<Rightarrow> dec_fix (if c = 0 then False else \<not> s) c e | _ \<Rightarrow> Inr (dec_negate x))"

definition dec_abs :: "decimal \<Rightarrow> exn + decimal" where
  "dec_abs x = (if dec_sign x then dec_neg x else dec_pos x)"

text \<open>\<open>round(d, n)\<close>: quantize to the exponent \<open>-n\<close>.\<close>

definition dec_round :: "decimal \<Rightarrow> int \<Rightarrow> exn + decimal" where
  "dec_round x n = (case x of
     DNan \<Rightarrow> Inr DNan
   | DInf s \<Rightarrow> Inl ArithErr
   | DFin s c e \<Rightarrow>
     (if - n < e_tiny \<or> - n > e_max then Inl ArithErr
      else if c = 0 then dec_fix s 0 (- n)
      else if e + dec_digits c - 1 > e_max \<or> e + dec_digits c + n > 28 then Inl ArithErr
      else let c' = dec_round_to e (- n) c in
        if dec_digits c' > 28 then Inl ArithErr else dec_fix s c' (- n)))"

subsection \<open>Floats\<close>

text \<open>The float nearest to \<open>v * 2 ^ m\<close>; \<open>z\<close> is the sign of a zero.\<close>

definition fl_of :: "bool \<Rightarrow> int \<Rightarrow> int \<Rightarrow> pyfloat" where
  "fl_of z v m = (let s = (if v = 0 then z else v < 0) in
     if 0 \<le> m then round_float s (\<bar>v\<bar> * 2 ^ nat m) 1 else round_float s \<bar>v\<bar> (2 ^ nat (- m)))"

fun fl_negate :: "pyfloat \<Rightarrow> pyfloat" where
  "fl_negate FNan = FNan" | "fl_negate (FInf s) = FInf (\<not> s)" | "fl_negate (FFin s m e) = FFin (\<not> s) m e"

fun fl_zero :: "pyfloat \<Rightarrow> bool" where
  "fl_zero (FFin s m e) = (m = 0)" | "fl_zero _ = False"

fun fl_sign :: "pyfloat \<Rightarrow> bool" where
  "fl_sign FNan = False" | "fl_sign (FInf s) = s" | "fl_sign (FFin s m e) = s"

fun fl_add :: "pyfloat \<Rightarrow> pyfloat \<Rightarrow> pyfloat" where
  "fl_add FNan y = FNan"
| "fl_add x FNan = FNan"
| "fl_add (FInf s) (FInf t) = (if s = t then FInf s else FNan)"
| "fl_add (FInf s) (FFin t n f) = FInf s"
| "fl_add (FFin s m e) (FInf t) = FInf t"
| "fl_add (FFin s m e) (FFin t n f) =
     (let k = min e f in
      fl_of (s \<and> t) (signed s m * 2 ^ nat (e - k) + signed t n * 2 ^ nat (f - k)) k)"

definition fl_sub :: "pyfloat \<Rightarrow> pyfloat \<Rightarrow> pyfloat" where
  "fl_sub x y = fl_add x (fl_negate y)"

fun fl_mul :: "pyfloat \<Rightarrow> pyfloat \<Rightarrow> pyfloat" where
  "fl_mul FNan y = FNan"
| "fl_mul x FNan = FNan"
| "fl_mul (FFin s m e) (FFin t n f) = fl_of (s \<noteq> t) (signed (s \<noteq> t) (m * n)) (e + f)"
| "fl_mul x y = (if fl_zero x \<or> fl_zero y then FNan else FInf (fl_sign x \<noteq> fl_sign y))"

text \<open>Division, remainder and floor division raise \<open>ZeroDivisionError\<close> (here \<^const>\<open>ArithErr\<close>) for a zero divisor.\<close>

fun fl_div :: "pyfloat \<Rightarrow> pyfloat \<Rightarrow> exn + pyfloat" where
  "fl_div x (FFin t n f) =
     (if n = 0 then Inl ArithErr
      else case x of
        FNan \<Rightarrow> Inr FNan
      | FInf s \<Rightarrow> Inr (FInf (s \<noteq> t))
      | FFin s m e \<Rightarrow> Inr (if f \<le> e then round_float (s \<noteq> t) (m * 2 ^ nat (e - f)) n
                          else round_float (s \<noteq> t) m (n * 2 ^ nat (f - e))))"
| "fl_div x FNan = Inr FNan"
| "fl_div x (FInf t) = Inr (case x of FFin s m e \<Rightarrow> FFin (s \<noteq> t) 0 (- 1074) | _ \<Rightarrow> FNan)"

text \<open>C's \<open>fmod\<close>.\<close>

fun fl_fmod :: "pyfloat \<Rightarrow> pyfloat \<Rightarrow> pyfloat" where
  "fl_fmod (FFin s m e) (FInf t) = FFin s m e"
| "fl_fmod (FFin s m e) (FFin t n f) =
     (let k = min e f in fl_of s (signed s ((m * 2 ^ nat (e - k)) mod (n * 2 ^ nat (f - k)))) k)"
| "fl_fmod x y = FNan"

definition fl_signs_differ :: "pyfloat \<Rightarrow> pyfloat \<Rightarrow> bool" where
  "fl_signs_differ x y = ((fl_sign x \<and> \<not> fl_zero x) \<noteq> (fl_sign y \<and> \<not> fl_zero y))"

fun fl_floor :: "pyfloat \<Rightarrow> pyfloat" where
  "fl_floor (FFin s m e) =
     (if 0 \<le> e then FFin s m e else fl_of s (signed s m div 2 ^ nat (- e)) 0)"
| "fl_floor x = x"

abbreviation fl_one :: pyfloat where "fl_one \<equiv> round_float False 1 1"
abbreviation fl_half :: pyfloat where "fl_half \<equiv> round_float False 1 2"

definition fl_mod :: "pyfloat \<Rightarrow> pyfloat \<Rightarrow> exn + pyfloat" where
  "fl_mod x y =
     (if fl_zero y then Inl ArithErr
      else let r = fl_fmod x y in
        Inr (if fl_zero r then FFin (fl_sign y) 0 (- 1074)
             else if fl_signs_differ y r then fl_add r y else r))"

definition fl_floordiv :: "pyfloat \<Rightarrow> pyfloat \<Rightarrow> exn + pyfloat" where
  "fl_floordiv x y =
     (if fl_zero y then Inl ArithErr
      else
        let r = fl_fmod x y in
        case fl_div (fl_sub x r) y of
          Inl e \<Rightarrow> Inl e
        | Inr d \<Rightarrow>
          let d' = (if \<not> fl_zero r \<and> fl_signs_differ y r then fl_sub d fl_one else d) in
          Inr (if fl_zero d' then FFin (fl_sign x \<noteq> fl_sign y) 0 (- 1074)
               else let q = fl_floor d' in
                 if float_lt fl_half (fl_sub d' q) then fl_add q fl_one else q))"

subsection \<open>Order, sum and mean of values\<close>

fun is_nan :: "pyval \<Rightarrow> bool" where
  "is_nan (VFloat FNan) = True" | "is_nan (VDec DNan) = True" | "is_nan v = False"

fun is_dec_val :: "pyval \<Rightarrow> bool" where
  "is_dec_val (VDec d) = True" | "is_dec_val v = False"

fun text_lt :: "pystr \<Rightarrow> pystr \<Rightarrow> bool" where
  "text_lt s [] = False"
| "text_lt [] (c # t) = True"
| "text_lt (b # s) (c # t) = (code b < code c \<or> b = c \<and> text_lt s t)"

text \<open>
  \<open>v < w\<close>. A decimal compared with a NaN raises; values without an order raise \<open>TypeError\<close>.
  Lists and dicts do not occur in the columns of a row and are not ordered here.
\<close>

definition py_lt :: "pyval \<Rightarrow> pyval \<Rightarrow> exn + bool" where
  "py_lt v w = (case (v, w) of
     (VStr s, VStr t) \<Rightarrow> Inr (text_lt s t)
   | (VDate x, VDate y) \<Rightarrow> Inr (x < y)
   | (VDateTime x, VDateTime y) \<Rightarrow> Inr (x < y)
   | (VTime x, VTime y) \<Rightarrow> Inr (x < y)
   | _ \<Rightarrow>
     (case (exact_val v, exact_val w) of
        (Some a, Some b) \<Rightarrow>
          if (is_dec_val v \<or> is_dec_val w) \<and> (is_nan v \<or> is_nan w) then Inl ArithErr
          else Inr (num_rel exact_lt a b)
      | _ \<Rightarrow> Inl TypeErr))"

definition py_le :: "pyval \<Rightarrow> pyval \<Rightarrow> exn + bool" where
  "py_le v w = (case (v, w) of
     (VStr s, VStr t) \<Rightarrow> Inr (\<not> text_lt t s)
   | (VDate x, VDate y) \<Rightarrow> Inr (x \<le> y)
   | (VDateTime x, VDateTime y) \<Rightarrow> Inr (x \<le> y)
   | (VTime x, VTime y) \<Rightarrow> Inr (x \<le> y)
   | _ \<Rightarrow>
     (case (exact_val v, exact_val w) of
        (Some a, Some b) \<Rightarrow>
          if (is_dec_val v \<or> is_dec_val w) \<and> (is_nan v \<or> is_nan w) then Inl ArithErr
          else Inr (num_rel exact_le a b)
      | _ \<Rightarrow> Inl TypeErr))"

definition as_int :: "pyval \<Rightarrow> int option" where
  "as_int v = (case v of VInt i \<Rightarrow> Some i | VBool b \<Rightarrow> Some (if b then 1 else 0) | _ \<Rightarrow> None)"

definition dec_of_int :: "int \<Rightarrow> decimal" where
  "dec_of_int i = DFin (i < 0) \<bar>i\<bar> 0"

text \<open>\<open>a + b\<close> of numbers, as \<open>sum\<close> uses it; a float and a decimal do not add.\<close>

definition num_add :: "pyval \<Rightarrow> pyval \<Rightarrow> exn + pyval" where
  "num_add v w = (case (as_int v, as_int w) of
     (Some i, Some j) \<Rightarrow> Inr (VInt (i + j))
   | (vi, wi) \<Rightarrow>
     (case (v, w) of
        (VDec x, VDec y) \<Rightarrow> map_sum id VDec (dec_add x y)
      | (VFloat x, VFloat y) \<Rightarrow> Inr (VFloat (fl_add x y))
      | (VDec x, _) \<Rightarrow> (case wi of Some j \<Rightarrow> map_sum id VDec (dec_add x (dec_of_int j)) | None \<Rightarrow> Inl TypeErr)
      | (_, VDec y) \<Rightarrow> (case vi of Some i \<Rightarrow> map_sum id VDec (dec_add (dec_of_int i) y) | None \<Rightarrow> Inl TypeErr)
      | (VFloat x, _) \<Rightarrow> (case wi of Some j \<Rightarrow> map_sum id (\<lambda>y. VFloat (fl_add x y)) (to_float (VInt j)) | None \<Rightarrow> Inl TypeErr)
      | (_, VFloat y) \<Rightarrow> (case vi of Some i \<Rightarrow> map_sum id (\<lambda>x. VFloat (fl_add x y)) (to_float (VInt i)) | None \<Rightarrow> Inl TypeErr)
      | _ \<Rightarrow> Inl TypeErr))"

text \<open>\<open>a / n\<close> with an integer \<open>n > 0\<close>.\<close>

definition num_div :: "pyval \<Rightarrow> int \<Rightarrow> exn + pyval" where
  "num_div v n = (case as_int v of
     Some i \<Rightarrow> (case round_float (i < 0) \<bar>i\<bar> n of FInf _ \<Rightarrow> Inl OverflowErr | x \<Rightarrow> Inr (VFloat x))
   | None \<Rightarrow>
     (case v of
        VDec x \<Rightarrow> map_sum id VDec (dec_div x (dec_of_int n))
      | VFloat x \<Rightarrow> (case to_float (VInt n) of Inl e \<Rightarrow> Inl e | Inr y \<Rightarrow> map_sum id VFloat (fl_div x y))
      | _ \<Rightarrow> Inl TypeErr))"

subsection \<open>Facts\<close>

lemma dec_digits_pos: "1 \<le> dec_digits c"
proof (induction c rule: dec_digits.induct)
  case (1 c)
  then show ?case by (subst dec_digits.simps) (cases "c < 10"; simp)
qed

lemma zdiv_less:
  fixes c k m :: int
  assumes "0 < k" "c < m * k" shows "c div k < m"
proof (rule ccontr)
  assume "\<not> c div k < m"
  then have "m * k \<le> c div k * k" using assms(1) by (intro mult_right_mono) simp_all
  moreover have "c div k * k \<le> c" using assms(1) by (simp flip: minus_mod_eq_div_mult)
  ultimately show False using assms(2) by simp
qed

lemma dec_digits_bounds:
  assumes "1 \<le> c"
  shows "10 ^ nat (dec_digits c - 1) \<le> c \<and> c < 10 ^ nat (dec_digits c)"
  using assms
proof (induction c rule: dec_digits.induct)
  case (1 c)
  show ?case
  proof (cases "c < 10")
    case True
    with 1(2) show ?thesis by (simp add: dec_digits.simps)
  next
    case False
    let ?n = "nat (dec_digits (c div 10) - 1)"
    have d: "dec_digits c = 1 + dec_digits (c div 10)"
      using False by (subst dec_digits.simps) simp
    have n: "nat (dec_digits c - 1) = Suc ?n" "nat (dec_digits c) = Suc (nat (dec_digits (c div 10)))"
      using d dec_digits_pos [of "c div 10"] by simp_all
    have "10 ^ ?n \<le> c div 10 \<and> c div 10 < 10 ^ nat (dec_digits (c div 10))"
      using 1(1) False by simp
    moreover have "10 * (c div 10) \<le> c" "c < 10 * (c div 10) + 10" by presburger+
    ultimately show ?thesis unfolding n power_Suc by linarith
  qed
qed

lemma dec_digits_le: "1 \<le> c \<Longrightarrow> c < 10 ^ n \<Longrightarrow> dec_digits c \<le> int n"
proof (rule ccontr)
  assume c: "1 \<le> c" "c < 10 ^ n" "\<not> dec_digits c \<le> int n"
  then have "n \<le> nat (dec_digits c - 1)" by simp
  then have "(10::int) ^ n \<le> 10 ^ nat (dec_digits c - 1)" by (intro power_increasing) simp_all
  with dec_digits_bounds [OF c(1)] c(2) show False by simp
qed

lemma div_half_even_bounds:
  assumes "0 \<le> n" "0 < d" shows "0 \<le> div_half_even n d" "div_half_even n d \<le> n div d + 1"
  using assms by (simp_all add: div_half_even_def Let_def pos_imp_zdiv_nonneg_iff add_nonneg_nonneg)

text \<open>A result of the context has at most 28 digits.\<close>

lemma dec_fix_precision:
  assumes "0 \<le> c" "dec_fix s c e = Inr (DFin s' c' e')"
  shows "0 \<le> c' \<and> c' < 10 ^ 28"
proof (cases "c = 0")
  case True
  with assms show ?thesis by (simp add: dec_fix_def)
next
  case False
  define e1 where "e1 = max (max e (e + dec_digits c - 28)) e_tiny"
  define c1 where "c1 = dec_round_to e e1 c"
  have "0 \<le> c1 \<and> c1 \<le> 10 ^ 28"
  proof (cases "e < e1")
    case True
    let ?k = "nat (e1 - e)"
    have "nat (dec_digits c) \<le> 28 + ?k" using True by (simp add: e1_def)
    then have "c < 10 ^ (28 + ?k)"
      using dec_digits_bounds [of c] False assms(1)
      by (meson linorder_not_less order_le_less_trans power_increasing_iff
          order_less_le_trans one_less_numeral_iff semiring_norm(76) less_le zero_less_one_class.zero_le_one
          int_one_le_iff_zero_less)
    then have "c div 10 ^ ?k < 10 ^ 28"
      by (intro zdiv_less) (simp_all add: power_add)
    with True assms(1) show ?thesis
      using div_half_even_bounds [of c "10 ^ ?k"] by (simp add: c1_def dec_round_to_def)
  next
    case ge: False
    then have "e1 = e" by (simp add: e1_def)
    with ge have "nat (dec_digits c) \<le> 28" by (simp add: e1_def)
    then have "(10::int) ^ nat (dec_digits c) \<le> 10 ^ 28" by (intro power_increasing) simp_all
    then have "c < 10 ^ 28"
      using dec_digits_bounds [of c] False assms(1) by linarith
    with \<open>e1 = e\<close> assms(1) show ?thesis by (simp add: c1_def dec_round_to_def)
  qed
  then show ?thesis
    using assms(2) False
    by (auto simp: dec_fix_def Let_def simp flip: e1_def c1_def split: if_splits)
qed

text \<open>What fits is not rounded.\<close>

lemma dec_fix_exact:
  assumes "0 < c" "c < 10 ^ 28" "e_tiny \<le> e" "e \<le> e_max - 27"
  shows "dec_fix s c e = Inr (DFin s c e)"
proof -
  have "dec_digits c \<le> 28" using dec_digits_le [of c 28] assms by simp
  with assms show ?thesis by (simp add: dec_fix_def dec_round_to_def Let_def max_def)
qed

lemma dec_add_comm: "dec_add x y = dec_add y x"
  by (cases x; cases y) (auto simp: Let_def min.commute add.commute conj_commute)

end
