(* ===== verification/Formula.thy ===== *)
theory Formula
  imports Data_Service PyArith
begin

text \<open>
  \<open>app/formula.py\<close>: the evaluator of computed fields over the tree \<open>ast.parse\<close> returns, the
  validation of a formula, the coercion of its result, the functions \<open>lookup\<close> and \<open>rollup\<close>
  over related tables, and the recomputation of stored results. Evaluation reads the database
  and writes nothing, so the evaluator takes the state as an argument. \<^const>\<open>TypeErr\<close> also
  stands for an \<open>AttributeError\<close>, \<^const>\<open>ArithErr\<close> for the exceptions of \<open>decimal\<close>.

  Shown: a formula that validation accepts never fails as a disallowed formula, on any record; the
  stored results have the types of their fields; a difference of a datetime and a date raises
  although the other order has a value, and takes the results of all fields with it.
\<close>

subsection \<open>Helpers\<close>

definition is_temporal :: "pyval \<Rightarrow> bool" where
  "is_temporal v = (case v of VDate _ \<Rightarrow> True | VDateTime _ \<Rightarrow> True | _ \<Rightarrow> False)"

definition is_number :: "pyval \<Rightarrow> bool" where
  "is_number v = (case v of VInt _ \<Rightarrow> True | VFloat _ \<Rightarrow> True | VDec _ \<Rightarrow> True | _ \<Rightarrow> False)"

definition as_text :: "pyval \<Rightarrow> pystr" where
  "as_text v = (if v = VNone then [] else py_str v)"

definition dec_of :: "pyval \<Rightarrow> exn + decimal" where
  "dec_of v = (case v of
     VBool b \<Rightarrow> Inr (DFin False (if b then 1 else 0) 0)
   | _ \<Rightarrow> (case parse_dec (py_str v) of None \<Rightarrow> Inl ArithErr | Some d \<Rightarrow> Inr d))"

definition to_int :: "pyval \<Rightarrow> exn + int" where
  "to_int v = (case dec_of v of
     Inl e \<Rightarrow> Inl e
   | Inr d \<Rightarrow> (case int_or_none (VDec d) of
       Some i \<Rightarrow> Inr i | None \<Rightarrow> Inl (if d = DNan then ValueErr [] else OverflowErr)))"

abbreviation max_day :: int where "max_day \<equiv> 3652059"

text \<open>\<open>v + timedelta(days=n)\<close>.\<close>

definition shift_days :: "pyval \<Rightarrow> int \<Rightarrow> exn + pyval" where
  "shift_days v n =
     (if \<bar>n\<bar> > 999999999 then Inl OverflowErr
      else case v of
        VDate d \<Rightarrow> if 1 \<le> d + n \<and> d + n \<le> max_day then Inr (VDate (d + n)) else Inl OverflowErr
      | VDateTime t \<Rightarrow>
          (let t' = t + n * usec_per_day in
           if 1 \<le> t' div usec_per_day \<and> t' div usec_per_day \<le> max_day then Inr (VDateTime t') else Inl OverflowErr)
      | _ \<Rightarrow> Inl TypeErr)"

text \<open>
  A datetime is an instance of \<open>date\<close>: \<open>isinstance(a, type(b))\<close> holds for a datetime \<open>a\<close> and a
  date \<open>b\<close>, and Python does not subtract them.
\<close>

definition date_diff :: "pyval \<Rightarrow> pyval \<Rightarrow> exn + pyval" where
  "date_diff a b = (case (a, b) of
     (VDate x, VDate y) \<Rightarrow> Inr (VInt (x - y))
   | (VDateTime x, VDateTime y) \<Rightarrow> Inr (VInt ((x - y) div usec_per_day))
   | (VDate x, VDateTime y) \<Rightarrow> Inr (VInt ((x * usec_per_day - y) div usec_per_day))
   | _ \<Rightarrow> Inl TypeErr)"

definition date_arith :: "binop \<Rightarrow> pyval \<Rightarrow> pyval \<Rightarrow> exn + pyval" where
  "date_arith op a b =
     (if op = OpSub \<and> is_temporal a \<and> is_temporal b then date_diff a b
      else if op = OpSub \<and> is_temporal a
        then (case to_int b of Inl e \<Rightarrow> Inl e | Inr n \<Rightarrow> shift_days a (- n))
      else if op = OpAdd \<and> is_temporal a
        then (case to_int b of Inl e \<Rightarrow> Inl e | Inr n \<Rightarrow> shift_days a n)
      else if op = OpAdd \<and> is_temporal b
        then (case to_int a of Inl e \<Rightarrow> Inl e | Inr n \<Rightarrow> shift_days b n)
      else Inr VNone)"

definition dec_op :: "env \<Rightarrow> binop \<Rightarrow> decimal \<Rightarrow> decimal \<Rightarrow> exn + pyval" where
  "dec_op env op x y = (case op of
     OpAdd \<Rightarrow> map_sum id VDec (dec_add x y)
   | OpSub \<Rightarrow> map_sum id VDec (dec_sub x y)
   | OpMult \<Rightarrow> map_sum id VDec (dec_mul x y)
   | OpDiv \<Rightarrow> map_sum id VDec (dec_div x y)
   | OpFloorDiv \<Rightarrow> map_sum id VDec (dec_floordiv x y)
   | OpMod \<Rightarrow> map_sum id VDec (dec_mod x y)
   | OpPow \<Rightarrow> Inr (e_pow env x y)
   | _ \<Rightarrow> Inl TypeErr)"

definition float_op :: "binop \<Rightarrow> pyfloat \<Rightarrow> pyfloat \<Rightarrow> exn + pyval" where
  "float_op op x y = (case op of
     OpAdd \<Rightarrow> Inr (VFloat (fl_add x y))
   | OpSub \<Rightarrow> Inr (VFloat (fl_sub x y))
   | OpMult \<Rightarrow> Inr (VFloat (fl_mul x y))
   | OpDiv \<Rightarrow> map_sum id VFloat (fl_div x y)
   | OpFloorDiv \<Rightarrow> map_sum id VFloat (fl_floordiv x y)
   | OpMod \<Rightarrow> map_sum id VFloat (fl_mod x y)
   | _ \<Rightarrow> Inl TypeErr)"

text \<open>Whatever is raised, the value is \<open>None\<close>.\<close>

definition safe :: "exn + pyval \<Rightarrow> exn + pyval" where
  "safe r = (case r of Inl _ \<Rightarrow> Inr VNone | Inr v \<Rightarrow> Inr v)"

definition binop_floats :: "binop \<Rightarrow> pyval \<Rightarrow> pyval \<Rightarrow> exn + pyval" where
  "binop_floats op a b = safe (case to_float a of
     Inl e \<Rightarrow> Inl e
   | Inr x \<Rightarrow> (case to_float b of Inl e \<Rightarrow> Inl e | Inr y \<Rightarrow> float_op op x y))"

definition binop_val :: "env \<Rightarrow> binop \<Rightarrow> pyval \<Rightarrow> pyval \<Rightarrow> exn + pyval" where
  "binop_val env op a b =
     (if op = OpBitAnd then Inr (VStr (as_text a @ as_text b))
      else if a = VNone \<or> b = VNone then Inr VNone
      else if op \<in> {OpAdd, OpSub} \<and> (is_temporal a \<or> is_temporal b) then date_arith op a b
      else if op = OtherBin then Inl FormulaErr
      else case (dec_of a, dec_of b) of
             (Inr x, Inr y) \<Rightarrow> (case dec_op env op x y of Inr v \<Rightarrow> Inr v | Inl _ \<Rightarrow> binop_floats op a b)
           | _ \<Rightarrow> binop_floats op a b)"

subsection \<open>Functions\<close>

fun best :: "(pyval \<Rightarrow> pyval \<Rightarrow> exn + bool) \<Rightarrow> pyval list \<Rightarrow> pyval \<Rightarrow> exn + pyval" where
  "best better [] m = Inr m"
| "best better (v # vs) m = (case better v m of
     Inl e \<Rightarrow> Inl e | Inr b \<Rightarrow> best better vs (if b then v else m))"

definition best_of :: "(pyval \<Rightarrow> pyval \<Rightarrow> exn + bool) \<Rightarrow> pyval list \<Rightarrow> exn + pyval" where
  "best_of better vs = (case vs of [] \<Rightarrow> Inr VNone | v # r \<Rightarrow> best better r v)"

definition py_min :: "pyval list \<Rightarrow> exn + pyval" where "py_min = best_of py_lt"
definition py_max :: "pyval list \<Rightarrow> exn + pyval" where "py_max = best_of (\<lambda>x m. py_lt m x)"

definition py_len :: "pyval \<Rightarrow> exn + pyval" where
  "py_len v = (case v of
     VNone \<Rightarrow> Inr (VInt 0)
   | VStr s \<Rightarrow> Inr (VInt (int (length s)))
   | VList xs \<Rightarrow> Inr (VInt (int (length xs)))
   | VDict d \<Rightarrow> Inr (VInt (int (length d)))
   | _ \<Rightarrow> Inl TypeErr)"

definition int_arg :: "pyval \<Rightarrow> exn + int" where
  "int_arg v = (case int_or_none v of None \<Rightarrow> Inl TypeErr | Some i \<Rightarrow> Inr i)"

definition py_round :: "pyval \<Rightarrow> pyval \<Rightarrow> exn + pyval" where
  "py_round x n =
     (if x = VNone then Inr VNone
      else case dec_of x of
        Inl e \<Rightarrow> Inl e
      | Inr d \<Rightarrow> (case int_arg n of Inl e \<Rightarrow> Inl e | Inr i \<Rightarrow> map_sum id VDec (dec_round d i)))"

definition text_func :: "(pystr \<Rightarrow> pystr) \<Rightarrow> pyval \<Rightarrow> exn + pyval" where
  "text_func f v = Inr (if v = VNone then VNone else VStr (f (as_text v)))"

definition coalesce :: "pyval list \<Rightarrow> pyval" where
  "coalesce vs = (case find (\<lambda>v. \<not> blank v) vs of None \<Rightarrow> VNone | Some v \<Rightarrow> v)"

definition FUNCS :: "pystr list" where
  "FUNCS = [''today'', ''now'', ''round'', ''abs'', ''min'', ''max'', ''len'', ''upper'', ''lower'',
     ''trim'', ''str'', ''int'', ''float'', ''coalesce'', ''contains'']"

definition RELATION_FUNCS :: "pystr list" where
  "RELATION_FUNCS = [''lookup'', ''rollup'']"

text \<open>The functions of one argument inside \<open>_safe\<close>; a wrong number of arguments is a \<open>TypeError\<close>.\<close>

definition unary_func :: "pystr \<Rightarrow> pyval \<Rightarrow> exn + pyval" where
  "unary_func f x =
     (if f = ''abs'' then (if x = VNone then Inr VNone
        else case dec_of x of Inl e \<Rightarrow> Inl e | Inr d \<Rightarrow> map_sum id VDec (dec_abs d))
      else if f = ''len'' then py_len x
      else if f = ''upper'' then text_func py_upper x
      else if f = ''lower'' then text_func py_lower x
      else if f = ''trim'' then text_func py_strip x
      else if f = ''str'' then Inr (VStr (as_text x))
      else if f = ''int'' then (if blank x then Inr VNone else map_sum id VInt (to_int x))
      else if blank x then Inr VNone
      else case dec_of x of Inl e \<Rightarrow> Inl e | Inr d \<Rightarrow> Inr (VFloat (float_of_dec d)))"

definition safe_func :: "pystr \<Rightarrow> pyval list \<Rightarrow> exn + pyval" where
  "safe_func f args =
     (if f = ''min'' then py_min (filter (\<lambda>v. v \<noteq> VNone) args)
      else if f = ''max'' then py_max (filter (\<lambda>v. v \<noteq> VNone) args)
      else if f = ''round'' then
        (case args of [x] \<Rightarrow> py_round x (VInt 0) | [x, n] \<Rightarrow> py_round x n | _ \<Rightarrow> Inl TypeErr)
      else if f = ''contains'' then
        (case args of [x, y] \<Rightarrow> Inr (VBool (py_contains (as_text y) (as_text x))) | _ \<Rightarrow> Inl TypeErr)
      else (case args of [x] \<Rightarrow> unary_func f x | _ \<Rightarrow> Inl TypeErr))"

definition func_call :: "env \<Rightarrow> pystr \<Rightarrow> pyval list \<Rightarrow> exn + pyval" where
  "func_call env f args =
     (if f \<notin> set FUNCS then Inl FormulaErr
      else if f = ''today'' then (if args = [] then Inr (VDate (e_today env)) else Inl TypeErr)
      else if f = ''now'' then (if args = [] then Inr (VDateTime (e_now env)) else Inl TypeErr)
      else if f = ''coalesce'' then Inr (coalesce args)
      else safe (safe_func f args))"

subsection \<open>Related records\<close>

text \<open>What a computation that only reads returns in a state.\<close>

definition peek :: "'a comp \<Rightarrow> db \<Rightarrow> exn + 'a" where
  "peek m s = fst (m s)"

definition field_of :: "row \<Rightarrow> pyval \<Rightarrow> pyval" where
  "field_of r k = (case k of VStr c \<Rightarrow> rget r c | _ \<Rightarrow> VNone)"

definition link_field :: "meta_table \<Rightarrow> pyval \<Rightarrow> meta_field option" where
  "link_field t k = find (\<lambda>f. VStr (f_phys_name f) = k \<and> f_data_type f = RELATION_TYPE) (t_fields t)"

definition lookup_rel :: "db \<Rightarrow> meta_table \<Rightarrow> row \<Rightarrow> pyval \<Rightarrow> pyval \<Rightarrow> exn + pyval" where
  "lookup_rel s t r rel_field fld =
     (if \<not> truthy rel_field \<or> \<not> truthy fld then Inr VNone
      else case link_field t rel_field of
        None \<Rightarrow> Inr VNone
      | Some mf \<Rightarrow>
        (let fk = field_of r rel_field in
         if some_id (f_related_table_id mf) = None \<or> blank fk then Inr VNone
         else case get_table s (the (f_related_table_id mf)) of
                None \<Rightarrow> Inr VNone
              | Some parent \<Rightarrow>
                (case peek (row_or_empty (t_phys_name parent) fk) s of
                   Inl e \<Rightarrow> Inl e
                 | Inr prow \<Rightarrow> Inr (field_of prow fld))))"

fun add_all :: "pyval list \<Rightarrow> pyval \<Rightarrow> exn + pyval" where
  "add_all [] acc = Inr acc"
| "add_all (v # vs) acc = (case num_add acc v of Inl e \<Rightarrow> Inl e | Inr a \<Rightarrow> add_all vs a)"

definition agg_values :: "pyval list \<Rightarrow> pystr \<Rightarrow> exn + pyval" where
  "agg_values vals op =
     (let nums = filter is_number vals in
      if nums = [] then Inr VNone
      else if op = ''sum'' then add_all nums (VInt 0)
      else if op = ''avg''
        then (case add_all nums (VInt 0) of Inl e \<Rightarrow> Inl e | Inr v \<Rightarrow> num_div v (int (length nums)))
      else if op = ''min'' then py_min nums
      else if op = ''max'' then py_max nums
      else Inr VNone)"

definition link_cols :: "pystr \<Rightarrow> pystr \<Rightarrow> pystr \<times> pystr" where
  "link_cols this other =
     (let l = this @ ''_id''; r = other @ ''_id'' in (l, if l = r then other @ ''_id_2'' else r))"

text \<open>\<open>op\<close> of \<open>rollup\<close>, and the value without rows.\<close>

definition agg_name :: "pyval \<Rightarrow> exn + pystr" where
  "agg_name op = (if \<not> truthy op then Inr ''count'' else case op of VStr x \<Rightarrow> Inr (py_lower x) | _ \<Rightarrow> Inl TypeErr)"

definition zero_of :: "pystr \<Rightarrow> pyval" where
  "zero_of op = (if op = ''count'' then VInt 0 else VNone)"

definition col_arg :: "pystr \<Rightarrow> pyval \<Rightarrow> exn + pystr option" where
  "col_arg op v = (case v of VStr c \<Rightarrow> Inr (Some c)
     | _ \<Rightarrow> if truthy v \<and> op \<in> {''count'', ''sum'', ''avg'', ''min'', ''max''} then Inl TypeErr else Inr None)"

definition rollup_m1 :: "env \<Rightarrow> db \<Rightarrow> meta_relation \<Rightarrow> pyval \<Rightarrow> pyval \<Rightarrow> pystr \<Rightarrow> exn + pyval" where
  "rollup_m1 env s rel pk fld op =
     (case (get_table s (r_from_table_id rel),
            case r_from_field_id rel of None \<Rightarrow> None | Some i \<Rightarrow> get_field s i) of
        (Some child, Some fkf) \<Rightarrow>
          (case col_arg op fld of
             Inl e \<Rightarrow> Inl e
           | Inr c \<Rightarrow> peek (aggregate_value env (t_phys_name child) op c (Some (f_phys_name fkf)) pk) s)
      | _ \<Rightarrow> Inr (zero_of op))"

definition other_side :: "meta_table \<Rightarrow> meta_relation \<Rightarrow> int" where
  "other_side t rel = (if r_from_table_id rel = t_id t then r_to_table_id rel else r_from_table_id rel)"

definition junction_of :: "meta_relation \<Rightarrow> pystr" where
  "junction_of rel = text_or (r_junction_phys_name rel) []"

definition rollup_mn :: "db \<Rightarrow> meta_table \<Rightarrow> meta_relation \<Rightarrow> pyval \<Rightarrow> pyval \<Rightarrow> pystr \<Rightarrow> exn + pyval" where
  "rollup_mn s t rel pk fld op =
     (case get_table s (other_side t rel) of
        None \<Rightarrow> Inr (zero_of op)
      | Some other \<Rightarrow>
        (case link_cols (t_phys_name t) (t_phys_name other) of (this_col, other_col) \<Rightarrow>
         (case peek (get_links (junction_of rel) this_col pk other_col) s of
            Inl e \<Rightarrow> Inl e
          | Inr ids \<Rightarrow>
            if op = ''count'' then Inr (VInt (int (length ids)))
            else (case peek (rows_by_ids (t_phys_name other) ids) s of
                    Inl e \<Rightarrow> Inl e
                  | Inr rows \<Rightarrow> agg_values (map (\<lambda>r. field_of r fld) rows) op))))"

definition rollup :: "env \<Rightarrow> db \<Rightarrow> meta_table \<Rightarrow> row \<Rightarrow> pyval \<Rightarrow> pyval \<Rightarrow> pyval \<Rightarrow> exn + pyval" where
  "rollup env s t r rel fld op0 =
     (case agg_name op0 of
        Inl e \<Rightarrow> Inl e
      | Inr op \<Rightarrow>
        (let pk = rget r (t_pk_col t) in
         if blank pk \<or> \<not> truthy rel then Inr (zero_of op)
         else case find (\<lambda>x. VStr (r_name x) = rel) (d_rels s) of
                None \<Rightarrow> Inr (zero_of op)
              | Some x \<Rightarrow>
                if r_kind x = ''m1'' \<and> r_to_table_id x = t_id t then rollup_m1 env s x pk fld op
                else if r_kind x = ''mn'' then rollup_mn s t x pk fld op
                else Inr (zero_of op)))"

text \<open>A resolver is the table and the row it reads from.\<close>

definition relation_call ::
  "env \<Rightarrow> db \<Rightarrow> (meta_table \<times> row) option \<Rightarrow> pystr \<Rightarrow> pyval list \<Rightarrow> exn + pyval" where
  "relation_call env s res f args = (case res of
     None \<Rightarrow> Inr VNone
   | Some (t, r) \<Rightarrow>
     if f = ''lookup'' then (case args of [a, b] \<Rightarrow> lookup_rel s t r a b | _ \<Rightarrow> Inl TypeErr)
     else (case args of [a, b] \<Rightarrow> rollup env s t r a b (VStr ''count'')
           | [a, b, c] \<Rightarrow> rollup env s t r a b c | _ \<Rightarrow> Inl TypeErr))"

subsection \<open>Evaluation\<close>

definition unop_val :: "unop \<Rightarrow> pyval \<Rightarrow> exn + pyval" where
  "unop_val op v =
     (if op = OpNot then Inr (VBool (\<not> truthy v))
      else if v = VNone then Inr VNone
      else safe (case dec_of v of
        Inl e \<Rightarrow> Inl e | Inr d \<Rightarrow> map_sum id VDec (if op = OpUSub then dec_neg d else dec_pos d)))"

definition bool_val :: "boolop \<Rightarrow> pyval list \<Rightarrow> exn + pyval" where
  "bool_val op vs =
     (case find (\<lambda>v. truthy v = (op = OpOr)) vs of
        Some v \<Rightarrow> Inr v
      | None \<Rightarrow> if vs = [] then Inl TypeErr else Inr (last vs))"

definition compare :: "cmpop \<Rightarrow> pyval \<Rightarrow> pyval \<Rightarrow> exn + bool" where
  "compare op a b = (case op of
     OpEq \<Rightarrow> Inr (py_eq a b)
   | OpNotEq \<Rightarrow> Inr (\<not> py_eq a b)
   | OpLt \<Rightarrow> py_lt a b
   | OpLtE \<Rightarrow> py_le a b
   | OpGt \<Rightarrow> py_lt b a
   | OpGtE \<Rightarrow> py_le b a
   | OtherCmp \<Rightarrow> Inl FormulaErr)"

definition compare_ok :: "cmpop \<Rightarrow> pyval \<Rightarrow> pyval \<Rightarrow> exn + bool" where
  "compare_ok op a b = (case compare op a b of Inl TypeErr \<Rightarrow> Inr False | r \<Rightarrow> r)"

definition call_val ::
  "env \<Rightarrow> db \<Rightarrow> (meta_table \<times> row) option \<Rightarrow> pystr \<Rightarrow> pyval list \<Rightarrow> exn + pyval" where
  "call_val env s res f args =
     (if f \<in> set RELATION_FUNCS then relation_call env s res f args else func_call env f args)"

fun eval_expr :: "env \<Rightarrow> db \<Rightarrow> (meta_table \<times> row) option \<Rightarrow> row \<Rightarrow> expr \<Rightarrow> exn + pyval"
  and eval_all :: "env \<Rightarrow> db \<Rightarrow> (meta_table \<times> row) option \<Rightarrow> row \<Rightarrow> expr list \<Rightarrow> exn + pyval list"
  and eval_compare :: "env \<Rightarrow> db \<Rightarrow> (meta_table \<times> row) option \<Rightarrow> row \<Rightarrow> pyval \<Rightarrow>
      (cmpop \<times> expr) list \<Rightarrow> exn + pyval" where
  "eval_expr env s res ctx (Constant v) = Inr v"
| "eval_expr env s res ctx (Name n) = Inr (rget ctx n)"
| "eval_expr env s res ctx (UnaryOp op e) =
     (if op = OpInvert then Inl FormulaErr
      else case eval_expr env s res ctx e of Inl x \<Rightarrow> Inl x | Inr v \<Rightarrow> unop_val op v)"
| "eval_expr env s res ctx (BinOp op a b) =
     (case eval_expr env s res ctx a of
        Inl x \<Rightarrow> Inl x
      | Inr v \<Rightarrow> (case eval_expr env s res ctx b of Inl x \<Rightarrow> Inl x | Inr w \<Rightarrow> binop_val env op v w))"
| "eval_expr env s res ctx (BoolOp op es) =
     (case eval_all env s res ctx es of Inl x \<Rightarrow> Inl x | Inr vs \<Rightarrow> bool_val op vs)"
| "eval_expr env s res ctx (Compare e ps) =
     (case eval_expr env s res ctx e of Inl x \<Rightarrow> Inl x | Inr v \<Rightarrow> eval_compare env s res ctx v ps)"
| "eval_expr env s res ctx (IfExp c a b) =
     (case eval_expr env s res ctx c of
        Inl x \<Rightarrow> Inl x
      | Inr v \<Rightarrow> if truthy v then eval_expr env s res ctx a else eval_expr env s res ctx b)"
| "eval_expr env s res ctx (Call f args kw) =
     (case f of
        Name n \<Rightarrow>
          if kw then Inl FormulaErr
          else (case eval_all env s res ctx args of Inl x \<Rightarrow> Inl x | Inr vs \<Rightarrow> call_val env s res n vs)
      | _ \<Rightarrow> Inl FormulaErr)"
| "eval_expr env s res ctx OtherExpr = Inl FormulaErr"
| "eval_all env s res ctx [] = Inr []"
| "eval_all env s res ctx (e # es) =
     (case eval_expr env s res ctx e of
        Inl x \<Rightarrow> Inl x
      | Inr v \<Rightarrow> (case eval_all env s res ctx es of Inl x \<Rightarrow> Inl x | Inr vs \<Rightarrow> Inr (v # vs)))"
| "eval_compare env s res ctx left [] = Inr (VBool True)"
| "eval_compare env s res ctx left (p # ps) =
     (case p of (op, e) \<Rightarrow>
      (case eval_expr env s res ctx e of
         Inl x \<Rightarrow> Inl x
       | Inr v \<Rightarrow>
         (case compare_ok op left v of
            Inl x \<Rightarrow> Inl x
          | Inr b \<Rightarrow> if b then eval_compare env s res ctx v ps else Inr (VBool False))))"

definition evaluate :: "env \<Rightarrow> db \<Rightarrow> (meta_table \<times> row) option \<Rightarrow> row \<Rightarrow> pystr option \<Rightarrow> exn + pyval" where
  "evaluate env s res ctx src =
     (if py_strip (text_or src []) = [] then Inr VNone
      else case e_parse env (the src) of
             None \<Rightarrow> Inl FormulaErr | Some e \<Rightarrow> eval_expr env s res ctx e)"

subsection \<open>Validation\<close>

text \<open>
  \<open>ast.walk\<close> goes breadth first over all nodes, the operators and contexts included; of those
  only whether they are in \<open>_ALLOWED_NODES\<close> is kept.
\<close>

datatype node = NExpr expr | NOp bool

fun children :: "node \<Rightarrow> node list" where
  "children (NOp b) = []"
| "children (NExpr (Constant v)) = []"
| "children (NExpr (Name n)) = [NOp True]"
| "children (NExpr (UnaryOp op e)) = [NOp (op \<noteq> OpInvert), NExpr e]"
| "children (NExpr (BinOp op a b)) = [NExpr a, NOp (op \<noteq> OtherBin), NExpr b]"
| "children (NExpr (BoolOp op es)) = NOp True # map NExpr es"
| "children (NExpr (Compare e ps)) = NExpr e # map (\<lambda>p. NOp (fst p \<noteq> OtherCmp)) ps @ map (NExpr \<circ> snd) ps"
| "children (NExpr (IfExp c a b)) = [NExpr c, NExpr a, NExpr b]"
| "children (NExpr (Call f args kw)) = NExpr f # map NExpr args @ (if kw then [NOp False] else [])"
| "children (NExpr OtherExpr) = []"

fun node_size :: "node \<Rightarrow> nat" where
  "node_size (NOp b) = 1"
| "node_size (NExpr e) = 6 * size e + 2"

lemma size_map_NExpr: "sum_list (map (node_size \<circ> NExpr) es) \<le> 6 * size_list size es"
  by (induction es) simp_all

lemma size_compare:
  "sum_list (map (node_size \<circ> (\<lambda>p. NOp (fst p \<noteq> OtherCmp))) ps) +
     sum_list (map (node_size \<circ> (NExpr \<circ> snd)) ps) \<le> 6 * size_list (size_prod (\<lambda>_. 0) size) ps"
  by (induction ps) auto

lemma children_smaller: "sum_list (map node_size (children n)) < node_size n"
proof (cases n rule: children.cases)
  case (6 op es)
  then show ?thesis using size_map_NExpr [of es] by simp
next
  case (7 e ps)
  then show ?thesis using size_compare [of ps] by simp
next
  case (9 f args kw)
  then show ?thesis using size_map_NExpr [of args] by simp
qed simp_all

function walk :: "node list \<Rightarrow> node list" where
  "walk [] = []"
| "walk (n # q) = n # walk (q @ children n)"
  by pat_completeness auto
termination
  by (relation "measure (\<lambda>q. sum_list (map node_size q))") (simp_all add: children_smaller)

datatype formula_problem =
    EmptyFormula | SyntaxProblem | NodeNotAllowed | UnknownFunction | KeywordArguments
  | RefNotQuoted pystr | RefUnknown pystr pystr | UnknownField pystr

definition check_ref :: "expr list \<Rightarrow> pystr list option \<Rightarrow> pystr \<Rightarrow> formula_problem option" where
  "check_ref args allowed knd = (case args of
     Constant (VStr n) # _ \<Rightarrow>
       (case allowed of
          None \<Rightarrow> None
        | Some a \<Rightarrow> if n \<in> set a then None else Some (RefUnknown knd n))
   | _ \<Rightarrow> Some (RefNotQuoted knd))"

definition node_problem ::
  "pystr list option \<Rightarrow> pystr list option \<Rightarrow> node \<Rightarrow> formula_problem option" where
  "node_problem lookups rollups n = (case n of
     NOp ok \<Rightarrow> if ok then None else Some NodeNotAllowed
   | NExpr OtherExpr \<Rightarrow> Some NodeNotAllowed
   | NExpr (Call (Name f) args kw) \<Rightarrow>
       if f \<notin> set FUNCS \<union> set RELATION_FUNCS then Some UnknownFunction
       else if kw then Some KeywordArguments
       else if f = ''lookup'' then check_ref args lookups f
       else if f = ''rollup'' then check_ref args rollups f
       else None
   | NExpr (Call _ _ _) \<Rightarrow> Some UnknownFunction
   | NExpr _ \<Rightarrow> None)"

definition called_name :: "node \<Rightarrow> pystr option" where
  "called_name n = (case n of NExpr (Call (Name f) _ _) \<Rightarrow> Some f | _ \<Rightarrow> None)"

definition name_problem :: "pystr list \<Rightarrow> node \<Rightarrow> formula_problem option" where
  "name_problem known n = (case n of
     NExpr (Name x) \<Rightarrow> if x \<in> set known then None else Some (UnknownField x)
   | _ \<Rightarrow> None)"

definition validate ::
  "env \<Rightarrow> pystr option \<Rightarrow> pystr list \<Rightarrow> pystr list option \<Rightarrow> pystr list option \<Rightarrow>
     formula_problem option" where
  "validate env src cols lookups rollups =
     (if py_strip (text_or src []) = [] then Some EmptyFormula
      else case e_parse env (the src) of
             None \<Rightarrow> Some SyntaxProblem
           | Some e \<Rightarrow>
             (let nodes = walk [NExpr e] in
              case first_some (node_problem lookups rollups) nodes of
                Some x \<Rightarrow> Some x
              | None \<Rightarrow> first_some (name_problem (List.map_filter called_name nodes @ cols)) nodes))"

subsection \<open>Results\<close>

definition is_date :: "pyval \<Rightarrow> int option" where
  "is_date v = (case v of VDate d \<Rightarrow> Some d | VDateTime t \<Rightarrow> Some (t div usec_per_day) | _ \<Rightarrow> None)"

definition coerce_result :: "pyval \<Rightarrow> pystr \<Rightarrow> pyval" where
  "coerce_result v result_type =
     (if v = VNone then VNone
      else if result_type = ''text'' then VStr (as_text v)
      else if result_type = ''boolean'' then VBool (truthy v)
      else if result_type = ''date'' then
        (case is_date v of None \<Rightarrow> VNone | Some d \<Rightarrow> VDate d)
      else if result_type = ''datetime'' then
        (case v of VDateTime t \<Rightarrow> v | VDate d \<Rightarrow> VDateTime (d * usec_per_day) | _ \<Rightarrow> VNone)
      else if is_temporal v then VNone
      else (case dec_of v of Inl _ \<Rightarrow> VNone | Inr d \<Rightarrow> VDec d))"

abbreviation FORMULA_TYPE :: pystr where "FORMULA_TYPE \<equiv> ''formula''"

definition formula_fields :: "meta_table \<Rightarrow> meta_field list" where
  "formula_fields t = filter (\<lambda>f. f_data_type f = FORMULA_TYPE) (sort_key f_position (t_fields t))"

definition result_type_of :: "meta_field \<Rightarrow> pystr" where
  "result_type_of f = text_or (f_result_type f) ''number''"

text \<open>One pass over the fields: a result is visible to the formulas after it.\<close>

fun compute_fields :: "env \<Rightarrow> db \<Rightarrow> meta_table \<Rightarrow> meta_field list \<Rightarrow> row \<Rightarrow> row \<Rightarrow> exn + row" where
  "compute_fields env s t [] r out = Inr out"
| "compute_fields env s t (f # fs) r out =
     (case evaluate env s (Some (t, r)) r (f_formula f) of
        Inl FormulaErr \<Rightarrow> compute_fields env s t fs (dset (f_phys_name f) VNone r) (dset (f_phys_name f) VNone out)
      | Inl e \<Rightarrow> Inl e
      | Inr v \<Rightarrow>
        (let x = coerce_result v (result_type_of f) in
         compute_fields env s t fs (dset (f_phys_name f) x r) (dset (f_phys_name f) x out)))"

definition compute_values :: "env \<Rightarrow> meta_table \<Rightarrow> row \<Rightarrow> pyval \<Rightarrow> row comp" where
  "compute_values env t ctx pk s =
     (compute_fields env s t (formula_fields t)
        (if pk \<noteq> VNone \<and> \<not> dhas ctx (t_pk_col t) then dset (t_pk_col t) pk ctx else ctx) [], s)"

subsection \<open>Recomputation\<close>

definition recompute_row :: "env \<Rightarrow> meta_table \<Rightarrow> row option \<Rightarrow> unit comp" where
  "recompute_row env t r = (case r of
     None \<Rightarrow> retC ()
   | Some x \<Rightarrow>
     (let pk = rget x (t_pk_col t) in
      if pk = VNone \<or> formula_fields t = [] then retC ()
      else bindC (compute_values env t x pk) (\<lambda>vals.
        whenC (vals \<noteq> []) (update_row (t_phys_name t) pk vals))))"

definition recompute_table :: "env \<Rightarrow> meta_table \<Rightarrow> unit comp" where
  "recompute_table env t =
     whenC (formula_fields t \<noteq> [])
       (bindC (list_rows_after (t_phys_name t) (VInt 0) (10 ^ 9))
         (eachC (\<lambda>r. recompute_row env t (Some r))))"

definition recompute_parent :: "env \<Rightarrow> row \<Rightarrow> meta_field \<Rightarrow> unit comp" where
  "recompute_parent env r f =
     whenC (f_data_type f = RELATION_TYPE \<and> some_id (f_related_table_id f) \<noteq> None \<and> truthy (rget r (f_phys_name f)))
       (bindC (getC (\<lambda>s. get_table s (the (f_related_table_id f)))) (\<lambda>parent.
          case parent of
            None \<Rightarrow> retC ()
          | Some p \<Rightarrow> whenC (formula_fields p \<noteq> [])
              (bindC (get_row (t_phys_name p) (rget r (f_phys_name f))) (recompute_row env p))))"

definition recompute_children :: "env \<Rightarrow> pyval \<Rightarrow> meta_relation \<Rightarrow> unit comp" where
  "recompute_children env rid rel =
     bindC (getC (\<lambda>s. (get_table s (r_from_table_id rel),
              case r_from_field_id rel of None \<Rightarrow> None | Some i \<Rightarrow> get_field s i))) (\<lambda>p.
       case p of
         (Some child, Some fkf) \<Rightarrow> whenC (formula_fields child \<noteq> [])
           (bindC (list_rows (t_phys_name child) [FCond (f_phys_name fkf) (Some ''eq'') rid False]
                     None ''asc'' 1 (Some (10 ^ 6)))
             (\<lambda>(rows, n). eachC (\<lambda>r. recompute_row env child (Some r)) rows))
       | _ \<Rightarrow> retC ())"

definition recompute_linked :: "env \<Rightarrow> meta_table \<Rightarrow> pyval \<Rightarrow> meta_relation \<Rightarrow> unit comp" where
  "recompute_linked env t rid rel =
     bindC (getC (\<lambda>s. get_table s (other_side t rel))) (\<lambda>p. case p of
       None \<Rightarrow> retC ()
     | Some other \<Rightarrow> whenC (formula_fields other \<noteq> [])
         (case link_cols (t_phys_name t) (t_phys_name other) of (this_col, other_col) \<Rightarrow>
           bindC (get_links (junction_of rel) this_col rid other_col) (\<lambda>ids.
             eachC (\<lambda>i. bindC (get_row (t_phys_name other) i) (recompute_row env other)) ids)))"

definition recompute_related :: "env \<Rightarrow> meta_table \<Rightarrow> row option \<Rightarrow> unit comp" where
  "recompute_related env t row = (case row of
     None \<Rightarrow> retC ()
   | Some r \<Rightarrow>
     if r = [] then retC ()
     else bindC (eachC (recompute_parent env r) (t_fields t)) (\<lambda>_.
       let rid = rget r (t_pk_col t) in
       whenC (rid \<noteq> VNone) (
         bindC (getC (\<lambda>s. filter (\<lambda>x. r_kind x = ''m1'' \<and> r_to_table_id x = t_id t) (d_rels s))) (\<lambda>m1.
         bindC (eachC (recompute_children env rid) m1) (\<lambda>_.
         bindC (getC (\<lambda>s. filter (\<lambda>x. r_kind x = ''mn'' \<and>
              (r_from_table_id x = t_id t \<or> r_to_table_id x = t_id t)) (d_rels s)))
           (eachC (recompute_linked env t rid)))))))"

subsection \<open>Accepted formulas are not disallowed\<close>

lemma walk_closed: "n \<in> set (walk q) \<Longrightarrow> set (children n) \<subseteq> set (walk q)"
  and walk_start: "set q \<subseteq> set (walk q)"
proof (induction q rule: walk.induct)
  case (2 n q)
  { case 1 with 2 show ?case by auto }
  { case 2 with "2.IH" show ?case by auto }
qed simp_all

named_theorems allowed \<open>operations that never fail as a disallowed formula\<close>

lemma safe_allowed [allowed, simp]: "safe r \<noteq> Inl e"
  by (simp add: safe_def split: sum.splits)

lemma dec_of_allowed [allowed]: "dec_of v \<noteq> Inl FormulaErr"
  by (auto simp: dec_of_def split: pyval.splits option.splits)

lemma to_int_allowed [allowed]: "to_int v \<noteq> Inl FormulaErr"
  using dec_of_allowed [of v] by (auto simp: to_int_def split: sum.splits option.splits)

lemma shift_days_allowed [allowed]: "shift_days v n \<noteq> Inl FormulaErr"
  by (auto simp: shift_days_def Let_def split: pyval.splits)

lemma date_arith_allowed [allowed]: "date_arith op a b \<noteq> Inl FormulaErr"
  using to_int_allowed [of a] to_int_allowed [of b] shift_days_allowed
  by (auto simp: date_arith_def date_diff_def split: sum.splits pyval.splits)

lemma binop_allowed: "op \<noteq> OtherBin \<Longrightarrow> binop_val env op a b \<noteq> Inl FormulaErr"
  using date_arith_allowed by (auto simp: binop_val_def binop_floats_def split: sum.splits)

lemma func_allowed: "f \<in> set FUNCS \<Longrightarrow> func_call env f args \<noteq> Inl FormulaErr"
  by (auto simp: func_call_def)

lemma py_order_allowed [allowed]: "py_lt a b \<noteq> Inl FormulaErr" "py_le a b \<noteq> Inl FormulaErr"
  by (auto simp: py_lt_def py_le_def split: pyval.splits option.splits)

lemma compare_allowed: "op \<noteq> OtherCmp \<Longrightarrow> compare_ok op a b \<noteq> Inl FormulaErr"
  using py_order_allowed by (cases op) (auto simp: compare_ok_def compare_def split: sum.splits exn.splits)

lemma dec_fix_allowed [allowed]: "dec_fix sg c e \<noteq> Inl FormulaErr"
  by (auto simp: dec_fix_def Let_def)

lemma dec_add_allowed [allowed]: "dec_add x y \<noteq> Inl FormulaErr"
  using dec_fix_allowed by (cases x; cases y) (auto simp: Let_def)

lemma dec_div_allowed [allowed]: "dec_div x y \<noteq> Inl FormulaErr"
  using dec_fix_allowed by (cases x; cases y) (auto simp: Let_def split: prod.splits)

lemma map_sum_id_Inl: "map_sum id f r = Inl e \<longleftrightarrow> r = Inl e"
  by (cases r) auto

lemma to_float_allowed [allowed]: "to_float v \<noteq> Inl FormulaErr"
  by (cases v) (auto split: pyfloat.splits option.splits)

lemma fl_div_allowed [allowed]: "fl_div x y \<noteq> Inl FormulaErr"
  by (cases y) (auto split: pyfloat.splits)

lemma num_add_allowed [allowed]: "num_add v w \<noteq> Inl FormulaErr"
  using dec_add_allowed to_float_allowed
  by (auto simp: num_add_def map_sum_id_Inl split: option.splits pyval.splits simp del: to_float.simps)

lemma num_div_allowed [allowed]: "num_div v n \<noteq> Inl FormulaErr"
  using dec_div_allowed fl_div_allowed to_float_allowed
  by (auto simp: num_div_def map_sum_id_Inl split: option.splits pyval.splits pyfloat.splits sum.splits
      simp del: to_float.simps)

lemma add_all_allowed [allowed]: "add_all vs acc \<noteq> Inl FormulaErr"
  using num_add_allowed by (induction vs acc rule: add_all.induct) (auto split: sum.splits)

lemma best_allowed:
  "(\<And>a b. better a b \<noteq> Inl FormulaErr) \<Longrightarrow> best_of better vs \<noteq> Inl FormulaErr"
proof -
  assume b: "\<And>a b. better a b \<noteq> Inl FormulaErr"
  have "best better vs m \<noteq> Inl FormulaErr" for vs m
    using b by (induction better vs m rule: best.induct) (auto split: sum.splits)
  then show ?thesis by (auto simp: best_of_def split: list.splits)
qed

lemma min_max_allowed [allowed]: "py_min vs \<noteq> Inl FormulaErr" "py_max vs \<noteq> Inl FormulaErr"
  by (auto simp: py_min_def py_max_def py_order_allowed best_allowed)

lemma agg_values_allowed [allowed]: "agg_values vs op \<noteq> Inl FormulaErr"
  using add_all_allowed num_div_allowed min_max_allowed
  by (auto simp: agg_values_def Let_def split: sum.splits)

lemma peek_reads:
  "peek (get_row t k) s \<noteq> Inl FormulaErr" "peek (row_or_empty t k) s \<noteq> Inl FormulaErr"
  "peek (get_links j a v b) s \<noteq> Inl FormulaErr" "peek (rows_by_ids t is) s \<noteq> Inl FormulaErr"
  "peek (aggregate_value env t op c w v) s \<noteq> Inl FormulaErr"
  by (auto simp: peek_def get_row_def row_or_empty_def get_links_def rows_by_ids_def
      aggregate_value_def read_phys_def reflect_def comp_defs Let_def split: sum.splits option.splits if_splits)

lemma lookup_allowed: "lookup_rel s t r a b \<noteq> Inl FormulaErr"
  using peek_reads(2) by (auto simp: lookup_rel_def Let_def split: option.splits sum.splits)

lemma rollup_allowed: "rollup env s t r a b c \<noteq> Inl FormulaErr"
proof -
  have "rollup_m1 env s rel pk fld op \<noteq> Inl FormulaErr" for rel pk fld op
    using peek_reads(5) by (auto simp: rollup_m1_def col_arg_def split: option.splits sum.splits pyval.splits if_splits)
  moreover have "rollup_mn s t rel pk fld op \<noteq> Inl FormulaErr" for rel pk fld op
    using peek_reads(3,4) agg_values_allowed
    by (auto simp: rollup_mn_def split: option.splits sum.splits prod.splits)
  ultimately show ?thesis
    by (auto simp: rollup_def agg_name_def Let_def split: option.splits sum.splits pyval.splits if_splits)
qed

lemma call_allowed: "f \<in> set FUNCS \<union> set RELATION_FUNCS \<Longrightarrow> call_val env s res f vs \<noteq> Inl FormulaErr"
  using func_allowed lookup_allowed rollup_allowed
  by (auto simp: call_val_def relation_call_def split: option.splits prod.splits list.splits)

text \<open>A set of nodes closed under children in which validation finds no problem.\<close>

definition accepted :: "node set \<Rightarrow> bool" where
  "accepted W \<longleftrightarrow> (\<exists>l r. \<forall>n\<in>W. node_problem l r n = None \<and> set (children n) \<subseteq> W)"

lemma acceptedD: "accepted W \<Longrightarrow> n \<in> W \<Longrightarrow> set (children n) \<subseteq> W"
  "accepted W \<Longrightarrow> NOp b \<in> W \<Longrightarrow> b" "accepted W \<Longrightarrow> NExpr OtherExpr \<notin> W"
  by (auto simp: accepted_def node_problem_def split: if_splits)

lemma accepted_call:
  assumes "accepted W" "NExpr (Call f args kw) \<in> W"
  shows "\<exists>n. f = Name n \<and> \<not> kw \<and> n \<in> set FUNCS \<union> set RELATION_FUNCS"
  using assms unfolding accepted_def node_problem_def
  by (cases f) (force split: if_splits)+

lemma eval_allowed:
  assumes W: "accepted W"
  shows "NExpr e \<in> W \<Longrightarrow> eval_expr env s res ctx e \<noteq> Inl FormulaErr"
    and "NExpr ` set es \<subseteq> W \<Longrightarrow> eval_all env s res ctx es \<noteq> Inl FormulaErr"
    and "(\<forall>p\<in>set ps. NExpr (snd p) \<in> W \<and> NOp (fst p \<noteq> OtherCmp) \<in> W) \<Longrightarrow>
      eval_compare env s res ctx v ps \<noteq> Inl FormulaErr"
proof (induction env s res ctx e and env s res ctx es and env s res ctx v ps
    rule: eval_expr_eval_all_eval_compare.induct)
  case (3 env s res ctx op e)
  then show ?case
    using acceptedD(1) [OF W 3(2)] acceptedD(2) [OF W, of "op \<noteq> OpInvert"]
    by (auto simp: unop_val_def split: sum.splits)
next
  case (4 env s res ctx op a b)
  then show ?case
    using acceptedD(1) [OF W 4(3)] acceptedD(2) [OF W, of "op \<noteq> OtherBin"] binop_allowed [of op env]
    by (auto split: sum.splits)
next
  case (5 env s res ctx op es)
  then show ?case
    using acceptedD(1) [OF W 5(2)] by (auto simp: bool_val_def split: sum.splits option.splits)
next
  case (6 env s res ctx e ps)
  then show ?case
    using acceptedD(1) [OF W 6(3)] by (auto split: sum.splits)
next
  case (7 env s res ctx c a b)
  then show ?case
    using acceptedD(1) [OF W 7(4)] by (auto split: sum.splits)
next
  case (8 env s res ctx f args kw)
  obtain n where n: "f = Name n" "\<not> kw" "n \<in> set FUNCS \<union> set RELATION_FUNCS"
    using accepted_call [OF W 8(2)] by blast
  with 8 show ?case
    using acceptedD(1) [OF W 8(2)] call_allowed [OF n(3), of env s res]
    by (auto split: sum.splits)
next
  case (9 env s res ctx)
  with acceptedD(3) [OF W] show ?case by blast
next
  case (13 env s res ctx left p ps)
  obtain op e where p: "p = (op, e)" by (cases p)
  then have "op \<noteq> OtherCmp" using 13(3) acceptedD(2) [OF W, of "op \<noteq> OtherCmp"] by auto
  then show ?case
    using 13 p compare_allowed [of op left] by (auto split: sum.splits)
qed (auto split: sum.splits)

text \<open>
  A formula that validation accepts is never refused as disallowed when it is evaluated,
  whatever the record, the related records and the values in them.
\<close>

theorem validated_never_disallowed:
  assumes "validate env src cols lookups rollups = None"
  shows "evaluate env s res ctx src \<noteq> Inl FormulaErr"
proof -
  obtain e where e: "py_strip (text_or src []) \<noteq> []" "e_parse env (the src) = Some e"
    "first_some (node_problem lookups rollups) (walk [NExpr e]) = None"
    using assms by (auto simp: validate_def Let_def split: if_splits option.splits)
  have "\<forall>n\<in>set (walk [NExpr e]). node_problem lookups rollups n = None"
    using e(3) unfolding first_some_None .
  then have "accepted (set (walk [NExpr e]))"
    unfolding accepted_def using walk_closed by meson
  moreover have "NExpr e \<in> set (walk [NExpr e])" using walk_start [of "[NExpr e]"] by simp
  ultimately have "eval_expr env s res ctx e \<noteq> Inl FormulaErr" by (rule eval_allowed(1))
  with e(1,2) show ?thesis by (simp add: evaluate_def)
qed

text \<open>The parser of the examples reads one formula: \<open>quantity * price\<close>.\<close>

definition product_env :: env where
  "product_env = plain_env\<lparr>e_parse := (\<lambda>_. Some (BinOp OpMult (Name ''quantity'') (Name ''price'')))\<rparr>"

theorem validated_never_disallowed_witness:
  "evaluate product_env empty_db None [(''quantity'', VInt 3), (''price'', VStr ''abc'')]
      (Some ''quantity * price'') \<noteq> Inl FormulaErr"
  by (rule validated_never_disallowed [where cols = "[''quantity'', ''price'']" and lookups = None
        and rollups = None]) code_simp

subsection \<open>Types of results\<close>

definition result_ok :: "pystr \<Rightarrow> pyval \<Rightarrow> bool" where
  "result_ok rt v = (case v of
     VNone \<Rightarrow> True
   | VStr _ \<Rightarrow> rt = ''text''
   | VBool _ \<Rightarrow> rt = ''boolean''
   | VDate _ \<Rightarrow> rt = ''date''
   | VDateTime _ \<Rightarrow> rt = ''datetime''
   | VDec _ \<Rightarrow> rt \<notin> {''text'', ''boolean'', ''date'', ''datetime''}
   | _ \<Rightarrow> False)"

lemma coerce_result_ok: "result_ok rt (coerce_result v rt)"
  by (auto simp: coerce_result_def result_ok_def is_date_def split: option.splits sum.splits pyval.splits)

lemma result_ok_None [simp]: "result_ok rt VNone"
  by (simp add: result_ok_def)

lemma compute_fields_result:
  assumes "compute_fields env s t fs r out = Inr out'"
  shows "k \<notin> f_phys_name ` set fs \<Longrightarrow> dget out' k = dget out k"
    and "distinct (map f_phys_name fs) \<Longrightarrow> f \<in> set fs \<Longrightarrow>
      \<exists>v. dget out' (f_phys_name f) = Some v \<and> result_ok (result_type_of f) v"
proof -
  have *: "(k \<notin> f_phys_name ` set fs \<longrightarrow> dget out' k = dget out k) \<and>
      (distinct (map f_phys_name fs) \<longrightarrow> (\<forall>f\<in>set fs.
        \<exists>v. dget out' (f_phys_name f) = Some v \<and> result_ok (result_type_of f) v))" for k
    using assms
  proof (induction fs arbitrary: r out k)
    case (Cons g fs)
    obtain x where x: "result_ok (result_type_of g) x"
      "compute_fields env s t fs (dset (f_phys_name g) x r) (dset (f_phys_name g) x out) = Inr out'"
    proof (cases "evaluate env s (Some (t, r)) r (f_formula g)")
      case (Inl e)
      with Cons.prems have "e = FormulaErr" by (auto split: exn.splits)
      with Inl Cons.prems show ?thesis by (intro that [of VNone]) simp_all
    next
      case (Inr v)
      with Cons.prems show ?thesis
        by (intro that [OF coerce_result_ok [where v = v]]) (simp add: Let_def)
    qed
    from Cons.IH [OF x(2)] have
      away: "k \<notin> f_phys_name ` set fs \<Longrightarrow> dget out' k = dget (dset (f_phys_name g) x out) k" and
      typed: "distinct (map f_phys_name fs) \<Longrightarrow> f \<in> set fs \<Longrightarrow>
        \<exists>v. dget out' (f_phys_name f) = Some v \<and> result_ok (result_type_of f) v" for k f
      by blast+
    have "dget out' (f_phys_name g) = Some x" if "f_phys_name g \<notin> f_phys_name ` set fs"
      using away [OF that] by simp
    with away [of k] typed x(1) show ?case by auto
  qed simp
  from * show "k \<notin> f_phys_name ` set fs \<Longrightarrow> dget out' k = dget out k" by blast
  from * show "distinct (map f_phys_name fs) \<Longrightarrow> f \<in> set fs \<Longrightarrow>
      \<exists>v. dget out' (f_phys_name f) = Some v \<and> result_ok (result_type_of f) v" by blast
qed

text \<open>
  C11: The values computed for a record are those of its formula fields and no others, each of
  the result type of its field or absent, and nothing is written.
\<close>

theorem compute_values_typed:
  assumes "compute_values env t ctx pk s = (Inr out, s')"
    and "distinct (map f_phys_name (formula_fields t))"
  shows "s' = s \<and> set (dkeys out) = f_phys_name ` set (formula_fields t) \<and>
    (\<forall>f\<in>set (formula_fields t). result_ok (result_type_of f) (rget out (f_phys_name f)))"
proof -
  obtain r where r: "compute_fields env s t (formula_fields t) r [] = Inr out" and s: "s' = s"
    using assms(1) unfolding compute_values_def prod.inject by blast
  have typed: "\<exists>v. dget out (f_phys_name f) = Some v \<and> result_ok (result_type_of f) v"
    if "f \<in> set (formula_fields t)" for f
    using compute_fields_result(2) [OF r assms(2) that] .
  have "set (dkeys out) = f_phys_name ` set (formula_fields t)"
  proof (intro equalityI subsetI)
    fix k assume k: "k \<in> set (dkeys out)"
    show "k \<in> f_phys_name ` set (formula_fields t)"
    proof (rule ccontr)
      assume "k \<notin> f_phys_name ` set (formula_fields t)"
      from compute_fields_result(1) [OF r this] have "dget out k = None" by simp
      with k show False unfolding in_dkeys by simp
    qed
  next
    fix k assume "k \<in> f_phys_name ` set (formula_fields t)"
    then obtain f where f: "f \<in> set (formula_fields t)" "k = f_phys_name f" by blast
    then have "dget out k \<noteq> None" using typed [OF f(1)] by auto
    then show "k \<in> set (dkeys out)" by (simp add: in_dkeys)
  qed
  moreover have "result_ok (result_type_of f) (rget out (f_phys_name f))" if "f \<in> set (formula_fields t)" for f
    using typed [OF that] by (auto simp: rget_def)
  ultimately show ?thesis using s by blast
qed

text \<open>A record with one computed field over two of its columns.\<close>

definition formula_table :: "pystr \<Rightarrow> meta_table" where
  "formula_table rt = \<lparr>t_id = 1, t_phys_name = ''orders'', t_label = ''Order'', t_description = None,
     t_display_field_id = None, t_track_audit = False, t_soft_delete = False, t_row_owned = False,
     t_managed = True, t_source_id = None, t_pk_col = ''id'', t_fields = [\<lparr>f_id = 1, f_table_id = 1,
     f_phys_name = ''total'', f_label = ''Total'', f_data_type = ''formula'', f_length = None,
     f_precision = None, f_scale = None, f_nullable = True, f_default_value = None,
     f_is_unique = False, f_position = 1, f_enum_options = JEmpty, f_enum_colors = JEmpty,
     f_related_table_id = None, f_on_delete = None, f_min_length = None, f_max_length = None,
     f_min_value = None, f_max_value = None, f_pattern = None, f_formula = Some ''x'',
     f_result_type = Some rt\<rparr>]\<rparr>"

theorem compute_values_typed_witness:
  "set (dkeys [(''total'', VDec (DFin False 75 (- 1)))]) =
     f_phys_name ` set (formula_fields (formula_table ''number'')) \<and>
   result_ok (result_type_of (hd (formula_fields (formula_table ''number''))))
     (rget [(''total'', VDec (DFin False 75 (- 1)))] ''total'')"
proof -
  have run: "compute_values product_env (formula_table ''number'')
      [(''quantity'', VInt 3), (''price'', VStr ''2.5'')] VNone empty_db =
      (Inr [(''total'', VDec (DFin False 75 (- 1)))], empty_db)"
    by code_simp
  have names: "distinct (map f_phys_name (formula_fields (formula_table ''number'')))"
    by code_simp
  have "formula_fields (formula_table ''number'') \<noteq> []"
    and "f_phys_name (hd (formula_fields (formula_table ''number''))) = ''total''"
    by code_simp+
  with compute_values_typed [OF run names] show ?thesis by (metis hd_in_set)
qed

subsection \<open>Days between a datetime and a date\<close>

lemma compute_fields_fails:
  assumes "g \<in> set fs" "\<And>r. \<forall>c\<in>S. rget r c = rget r0 c \<Longrightarrow> evaluate env s (Some (t, r)) r (f_formula g) = Inl e"
    and "e \<noteq> FormulaErr" "S \<inter> f_phys_name ` set fs = {}" "\<forall>c\<in>S. rget r c = rget r0 c"
  shows "\<exists>e'. compute_fields env s t fs r out = Inl e'"
  using assms(1,4,5)
proof (induction fs arbitrary: r out)
  case (Cons f fs)
  have keep: "\<forall>c\<in>S. rget (dset (f_phys_name f) x r) c = rget r0 c" for x
    using Cons.prems(2,3) by (auto simp: rget_def)
  show ?case
  proof (cases "g = f")
    case True
    then show ?thesis using assms(2) [OF Cons.prems(3)] assms(3) by (cases e) simp_all
  next
    case False
    then have "g \<in> set fs" "S \<inter> f_phys_name ` set fs = {}" using Cons.prems(1,2) by auto
    from Cons.IH [OF this keep] show ?thesis
      by (cases "evaluate env s (Some (t, r)) r (f_formula f)") (auto simp: Let_def split: exn.splits)
  qed
qed simp

text \<open>
  The days from a date to a datetime can be computed one way round only: \<open>date - datetime\<close> is
  a number, \<open>datetime - date\<close> raises a \<open>TypeError\<close>, and then none of the formula fields of the
  record gets a value, the faultless ones included.
\<close>

theorem datetime_minus_date_fails:
  assumes "f \<in> set (formula_fields t)" "f_formula f = Some src" "py_strip src \<noteq> []"
    and "e_parse env src = Some (BinOp OpSub (Name a) (Name b))"
    and "rget ctx a = VDateTime x" "rget ctx b = VDate d"
    and "a \<notin> f_phys_name ` set (formula_fields t)" "b \<notin> f_phys_name ` set (formula_fields t)"
    and "a \<noteq> t_pk_col t" "b \<noteq> t_pk_col t"
  shows "(\<exists>e. compute_values env t ctx pk s = (Inl e, s)) \<and>
    (\<exists>n. binop_val env OpSub (VDate d) (VDateTime x) = Inr (VInt n))"
proof
  have *: "\<exists>e. compute_fields env s t (formula_fields t) r [] = Inl e"
    if "\<forall>c\<in>{a, b}. rget r c = rget ctx c" for r
  proof (rule compute_fields_fails [OF assms(1)])
    show "evaluate env s (Some (t, r)) r (f_formula f) = Inl TypeErr" if "\<forall>c\<in>{a, b}. rget r c = rget ctx c" for r
      using that assms(2-6)
      by (simp add: evaluate_def text_or_def binop_val_def is_temporal_def date_arith_def date_diff_def)
  qed (use assms(7,8) that in auto)
  have "\<forall>c\<in>{a, b}. rget (dset (t_pk_col t) pk ctx) c = rget ctx c"
    using assms(9,10) by (simp add: rget_def)
  then show "\<exists>e. compute_values env t ctx pk s = (Inl e, s)"
    using * [of ctx] * [of "dset (t_pk_col t) pk ctx"] by (auto simp: compute_values_def)
  show "\<exists>n. binop_val env OpSub (VDate d) (VDateTime x) = Inr (VInt n)"
    by (simp add: binop_val_def is_temporal_def date_arith_def date_diff_def)
qed

definition age_env :: env where
  "age_env = plain_env\<lparr>e_parse := (\<lambda>_. Some (BinOp OpSub (Name ''closed_at'') (Name ''opened'')))\<rparr>"

theorem datetime_minus_date_fails_witness:
  "(\<exists>e. compute_values age_env (formula_table ''number'')
      [(''closed_at'', VDateTime (738000 * usec_per_day)), (''opened'', VDate 737990)] VNone empty_db = (Inl e, empty_db)) \<and>
    (\<exists>n. binop_val age_env OpSub (VDate 737990) (VDateTime (738000 * usec_per_day)) = Inr (VInt n))"
proof (rule datetime_minus_date_fails)
  show "hd (t_fields (formula_table ''number'')) \<in> set (formula_fields (formula_table ''number''))"
    by (simp add: formula_fields_def formula_table_def)
  show "e_parse age_env ''x'' = Some (BinOp OpSub (Name ''closed_at'') (Name ''opened''))"
    by (simp add: age_env_def)
qed (simp_all add: formula_table_def formula_fields_def rget_Cons, code_simp)

end
