(* ===== verification/Identifiers.thy ===== *)
theory Identifiers
  imports Models
begin

text \<open>
  \<open>app/identifiers.py\<close>: the names of physical tables and columns. \<open>validate_identifier\<close> is
  the gate every name passes; \<open>sanitize_identifier\<close> derives a name from arbitrary text (a CSV
  header). Shown: what an accepted name looks like, that sanitizing never fails and never
  yields a reserved name, and when two tables' junction names coincide.
\<close>

definition MAX_LEN :: nat where
  "MAX_LEN = 60"

definition RESERVED_PREFIXES :: "pystr list" where
  "RESERVED_PREFIXES = [''app_'', ''j_'']"

definition RESERVED_COLUMNS :: "pystr list" where
  "RESERVED_COLUMNS = [''id'', ''created_by'', ''created_at'', ''updated_by'', ''updated_at'',
     ''deleted_at'', ''deleted_by'']"

datatype ident_error = Required | TooLong | BadChars | ReservedPrefix

definition ident_char :: "char \<Rightarrow> bool" where
  "ident_char c = (is_lower_ascii c \<or> is_dec c)"

text \<open>
  The regular expression \<open>^[a-z][a-z0-9_]*$\<close>. Its \<open>$\<close> also matches before a final newline,
  which a stripped name cannot have.
\<close>

definition ident_re :: "pystr \<Rightarrow> bool" where
  "ident_re s = (case s of [] \<Rightarrow> False
     | c # r \<Rightarrow> is_lower_ascii c \<and>
         (let b = (if r \<noteq> [] \<and> last r = CHR 0x0A then butlast r else r)
          in list_all (\<lambda>d. ident_char d \<or> d = CHR ''_'') b))"

definition normalize_ident :: "pystr option \<Rightarrow> pystr" where
  "normalize_ident name = py_lower (py_strip (text_or name []))"

definition reserved_prefix :: "pystr \<Rightarrow> bool" where
  "reserved_prefix s = list_ex (\<lambda>p. prefix p s) RESERVED_PREFIXES"

definition validate_identifier :: "pystr option \<Rightarrow> bool \<Rightarrow> ident_error + pystr" where
  "validate_identifier name allow_reserved = (let norm = normalize_ident name in
     if norm = [] then Inl Required
     else if length norm > MAX_LEN then Inl TooLong
     else if \<not> ident_re norm then Inl BadChars
     else if \<not> allow_reserved \<and> reserved_prefix norm then Inl ReservedPrefix
     else Inr norm)"

text \<open>\<open>re.sub(r"[^a-z0-9]+", "_", s)\<close>: every maximal run of other characters becomes one underscore.\<close>

fun sub_runs :: "bool \<Rightarrow> pystr \<Rightarrow> pystr" where
  "sub_runs in_run [] = []"
| "sub_runs in_run (c # s) =
     (if ident_char c then c # sub_runs False s
      else if in_run then sub_runs True s else CHR ''_'' # sub_runs True s)"

definition sanitize_identifier :: "pystr option \<Rightarrow> pystr \<Rightarrow> ident_error + pystr" where
  "sanitize_identifier raw fallback =
     (let n0 = strip_by (\<lambda>c. c = CHR ''_'') (sub_runs False (normalize_ident raw));
          n1 = (if n0 = [] then fallback else n0);
          n2 = (case n1 of c # _ \<Rightarrow> if is_alpha c then n1 else ''c_'' @ n1 | [] \<Rightarrow> []);
          n3 = take MAX_LEN n2;
          n4 = (if n3 \<in> set RESERVED_COLUMNS \<or> reserved_prefix n3 then take MAX_LEN (''x_'' @ n3) else n3)
      in validate_identifier (Some n4) False)"

definition junction_name :: "pystr \<Rightarrow> pystr \<Rightarrow> pystr" where
  "junction_name table_a table_b =
     (let (a, b) = (if table_a \<le> table_b then (table_a, table_b) else (table_b, table_a));
          name = ''j_'' @ a @ ''_'' @ b
      in if length name > 64 then take 64 name else name)"

subsection \<open>Facts\<close>

definition safe_ident :: "pystr \<Rightarrow> bool" where
  "safe_ident s = (s \<noteq> [] \<and> length s \<le> 60 \<and> is_lower_ascii (hd s) \<and>
     (\<forall>c\<in>set s. ident_char c \<or> c = CHR ''_''))"

lemma is_lower_ascii_facts:
  "is_lower_ascii c \<Longrightarrow> ident_char c \<and> \<not> is_space c \<and> lower_char c = c \<and> is_alpha c"
  by (auto simp: is_lower_ascii_def ident_char_def is_space_def lower_char_def is_upper_char_def
      is_alpha_def Let_def)

lemma word_char_facts:
  "ident_char c \<or> c = CHR ''_'' \<Longrightarrow> \<not> is_space c \<and> lower_char c = c \<and> c \<noteq> CHR 0x0A"
proof -
  have us: "code (CHR ''_'') = 95" and nl: "code (CHR 0x0A) = 10" by (simp_all add: code_def)
  assume h: "ident_char c \<or> c = CHR ''_''"
  have "48 \<le> code c \<and> code c \<le> 57 \<or> 95 \<le> code c \<and> code c \<le> 122"
  proof (cases "c = CHR ''_''")
    case True
    show ?thesis unfolding True us by simp
  next
    case False
    with h have "ident_char c" by blast
    then show ?thesis unfolding ident_char_def is_lower_ascii_def is_dec_def by linarith
  qed
  moreover have "c \<noteq> CHR 0x0A" using calculation nl by force
  ultimately show ?thesis
    unfolding is_space_def lower_char_def is_upper_char_def Let_def by (intro conjI) auto
qed

lemma alpha_word_char: "ident_char c \<Longrightarrow> is_alpha c \<longleftrightarrow> is_lower_ascii c"
  by (auto simp: ident_char_def is_alpha_def is_lower_ascii_def is_dec_def Let_def)

lemma normalize_words:
  assumes "\<forall>c\<in>set s. ident_char c \<or> c = CHR ''_''"
  shows "normalize_ident (Some s) = s"
proof -
  have "py_strip s = s"
    unfolding py_strip_def
    by (rule strip_by_id) (metis assms hd_in_set last_in_set word_char_facts)
  moreover have "map lower_char s = s"
    by (rule map_idI) (use assms word_char_facts in blast)
  ultimately show ?thesis
    by (cases "s = []") (auto simp: normalize_ident_def text_or_def py_lower_def py_strip_def strip_by_def
        rstrip_by_def lstrip_by_def)
qed

lemma normalize_no_space:
  "normalize_ident x \<noteq> [] \<Longrightarrow> \<not> is_space (last (normalize_ident x))"
  using strip_by_ends [of is_space "text_or x []"]
  by (auto simp: normalize_ident_def py_lower_def py_strip_def last_map)

lemma ident_re_words:
  assumes "s \<noteq> []" and "last s \<noteq> CHR 0x0A"
  shows "ident_re s \<longleftrightarrow> is_lower_ascii (hd s) \<and> (\<forall>c\<in>set s. ident_char c \<or> c = CHR ''_'')"
  using assms
  by (cases s) (auto simp: ident_re_def list_all_iff Let_def dest: is_lower_ascii_facts)

lemma validate_Inr:
  assumes "validate_identifier name r = Inr n"
  shows "n = normalize_ident name \<and> safe_ident n \<and> (r \<or> \<not> reserved_prefix n)"
proof -
  from assms have n: "n = normalize_ident name" "n \<noteq> []" "length n \<le> 60" "ident_re n"
      "r \<or> \<not> reserved_prefix n"
    by (auto simp: validate_identifier_def Let_def MAX_LEN_def split: if_splits)
  moreover have "last n \<noteq> CHR 0x0A"
    using normalize_no_space [of name] n(1,2) by (auto simp: is_space_def code_def Let_def)
  ultimately show ?thesis by (simp add: safe_ident_def ident_re_words)
qed

lemma validate_safe:
  assumes "safe_ident s" and "r \<or> \<not> reserved_prefix s"
  shows "validate_identifier (Some s) r = Inr s"
proof -
  from assms have w: "\<forall>c\<in>set s. ident_char c \<or> c = CHR ''_''" and ne: "s \<noteq> []"
    by (auto simp: safe_ident_def)
  then have "last s \<noteq> CHR 0x0A" using word_char_facts last_in_set by blast
  with assms w ne show ?thesis
    by (auto simp: validate_identifier_def normalize_words ident_re_words safe_ident_def MAX_LEN_def)
qed

lemma sub_runs_words: "c \<in> set (sub_runs b s) \<Longrightarrow> ident_char c \<or> c = CHR ''_''"
  by (induction s arbitrary: b) (auto split: if_splits)

lemma sanitized_shape:
  assumes "\<forall>c\<in>set n1. ident_char c \<or> c = CHR ''_''" and "n1 \<noteq> []" and "hd n1 \<noteq> CHR ''_''"
    and n2: "n2 = (case n1 of c # _ \<Rightarrow> if is_alpha c then n1 else ''c_'' @ n1 | [] \<Rightarrow> [])"
  shows "n2 \<noteq> [] \<and> is_lower_ascii (hd n2) \<and> (\<forall>c\<in>set n2. ident_char c \<or> c = CHR ''_'')"
proof -
  obtain c r where c: "n1 = c # r" using assms(2) by (cases n1) auto
  with assms have "ident_char c" by auto
  with alpha_word_char have "is_alpha c \<longleftrightarrow> is_lower_ascii c" by blast
  moreover have "is_lower_ascii (CHR ''c'')" "ident_char (CHR ''c'')"
    by (simp_all add: is_lower_ascii_def ident_char_def code_def)
  ultimately show ?thesis using assms(1) by (auto simp: n2 c)
qed

lemma take_shape:
  assumes "s \<noteq> []" and "is_lower_ascii (hd s)" and "\<forall>c\<in>set s. ident_char c \<or> c = CHR ''_''"
  shows "safe_ident (take 60 s)"
  using assms by (auto simp: safe_ident_def dest: in_set_takeD)

lemma x_prefix_not_reserved:
  "\<not> reserved_prefix (''x_'' @ s)" "\<not> reserved_prefix (take 60 (''x_'' @ s))"
  "take 60 (''x_'' @ s) \<notin> set RESERVED_COLUMNS"
  by (auto simp: reserved_prefix_def RESERVED_PREFIXES_def RESERVED_COLUMNS_def)

text \<open>
  \<open>sanitize_identifier\<close> never raises, whatever the text: the name it returns starts with a
  letter, has lower-case letters, digits and underscores only and at most 60 of them, is no
  managed column and has no reserved prefix, and \<open>validate_identifier\<close> accepts it unchanged.
\<close>

theorem sanitize_identifier_safe:
  "\<exists>n. sanitize_identifier raw ''col'' = Inr n \<and> safe_ident n \<and> n \<notin> set RESERVED_COLUMNS
     \<and> \<not> reserved_prefix n \<and> validate_identifier (Some n) False = Inr n"
proof -
  let ?u = "\<lambda>c. c = CHR ''_''"
  define n0 where "n0 = strip_by ?u (sub_runs False (normalize_ident raw))"
  define n1 where "n1 = (if n0 = [] then ''col'' else n0)"
  define n2 where "n2 = (case n1 of c # _ \<Rightarrow> if is_alpha c then n1 else ''c_'' @ n1 | [] \<Rightarrow> [])"
  define n3 where "n3 = take 60 n2"
  define n4 where "n4 = (if n3 \<in> set RESERVED_COLUMNS \<or> reserved_prefix n3 then take 60 (''x_'' @ n3) else n3)"
  have "\<forall>c\<in>set n0. ident_char c \<or> ?u c"
    using set_strip_by [of ?u] sub_runs_words unfolding n0_def by blast
  moreover have "n0 \<noteq> [] \<Longrightarrow> \<not> ?u (hd n0)"
    using strip_by_ends [of ?u] unfolding n0_def by blast
  ultimately have n1: "\<forall>c\<in>set n1. ident_char c \<or> ?u c" "n1 \<noteq> []" "hd n1 \<noteq> CHR ''_''"
    by (auto simp: n1_def ident_char_def is_lower_ascii_def code_def)
  have n2: "n2 \<noteq> []" "is_lower_ascii (hd n2)" "\<forall>c\<in>set n2. ident_char c \<or> ?u c"
    using sanitized_shape [OF n1 n2_def] by blast+
  then have n3: "safe_ident n3" unfolding n3_def by (rule take_shape)
  have "safe_ident (take 60 (''x_'' @ n3))"
    by (rule take_shape)
      (use n3 in \<open>auto simp: safe_ident_def ident_char_def is_lower_ascii_def code_def\<close>)
  with n3 x_prefix_not_reserved [of n3] have n4: "safe_ident n4" "n4 \<notin> set RESERVED_COLUMNS"
      "\<not> reserved_prefix n4"
    by (auto simp: n4_def)
  then have "validate_identifier (Some n4) False = Inr n4" by (simp add: validate_safe)
  moreover have "sanitize_identifier raw ''col'' = validate_identifier (Some n4) False"
    unfolding sanitize_identifier_def Let_def MAX_LEN_def n4_def n3_def n2_def n1_def n0_def ..
  ultimately show ?thesis using n4 by auto
qed

lemma validate_accepts_only_safe:
  "validate_identifier name False = Inr n \<longleftrightarrow>
     n = normalize_ident name \<and> safe_ident n \<and> \<not> reserved_prefix n"
  (is "?l \<longleftrightarrow> ?r")
proof
  assume ?l then show ?r using validate_Inr by blast
next
  assume ?r
  then have "validate_identifier (Some n) False = Inr n" using validate_safe by blast
  moreover have "normalize_ident (Some n) = n"
    using \<open>?r\<close> by (intro normalize_words) (auto simp: safe_ident_def)
  moreover have "normalize_ident name = n" using \<open>?r\<close> by simp
  ultimately show ?l by (simp add: validate_identifier_def)
qed

lemma junction_name_sym: "junction_name a b = junction_name b a"
  by (auto simp: junction_name_def)

lemma junction_name_prefix: "reserved_prefix (junction_name a b) \<and> length (junction_name a b) \<le> 64"
  by (auto simp: junction_name_def reserved_prefix_def RESERVED_PREFIXES_def Let_def)

text \<open>A junction name does not determine its two tables.\<close>

lemma junction_name_collides: "junction_name ''a_b'' ''c'' = junction_name ''a'' ''b_c''"
  by (simp add: junction_name_def Let_def)

end
