(* ===== verification/Importer.thy ===== *)
theory Importer
  imports Data_Service Identifiers
begin

text \<open>
  \<open>app/importer.py\<close>: a cell of text to a value of a field (\<open>coerce_value\<close>, shared by the API,
  triggers, defaults and pulls), the CSV import, and the inference of a schema from a CSV.
  The csv module's work is done beforehand: an imported file is its header and its rows.

  Shown: what \<open>coerce_value\<close> accepts has the type of the field and obeys its rules, except
  that a NaN passes the bounds of a decimal field; an import with errors and without
  \<open>skip_invalid\<close> writes nothing; the loop that makes header names unique does not end on two
  headers that agree in their first sixty characters.
\<close>

subsection \<open>Rules\<close>

definition TRUE_WORDS :: "pystr list" where
  "TRUE_WORDS = [''1'', ''true'', ''yes'', ''y'', ''t'', ''on'']"

definition FALSE_WORDS :: "pystr list" where
  "FALSE_WORDS = [''0'', ''false'', ''no'', ''n'', ''f'', ''off'']"

abbreviation FILE_TYPES :: "pystr list" where "FILE_TYPES \<equiv> [''image'', ''file'']"

definition to_float_opt :: "pystr option \<Rightarrow> pyfloat option" where
  "to_float_opt v = (case v of None \<Rightarrow> None | Some t \<Rightarrow> if t = [] then None else parse_float t)"

text \<open>The bounds of a number, in the order of the source: the value becomes a float only for a bound that exists.\<close>

definition bound_ok :: "(pyfloat \<Rightarrow> pyfloat \<Rightarrow> bool) \<Rightarrow> pystr option \<Rightarrow> pyval \<Rightarrow> exn + unit" where
  "bound_ok violates bound v = (case to_float_opt bound of
     None \<Rightarrow> Inr ()
   | Some b \<Rightarrow> (case to_float v of
        Inl e \<Rightarrow> Inl e
      | Inr x \<Rightarrow> if violates x b then Inl (ValueErr (the bound)) else Inr ()))"

definition text_type :: "pystr \<Rightarrow> bool" where
  "text_type dt = (dt \<in> {''string'', ''text'', ''markdown''})"

definition check_rules :: "env \<Rightarrow> meta_field \<Rightarrow> pyval \<Rightarrow> exn + unit" where
  "check_rules env f v =
     (case v of
        VStr s \<Rightarrow>
          if (case some_id (f_min_length f) of None \<Rightarrow> False | Some n \<Rightarrow> int (length s) < n)
            then Inl (ValueErr ''too short'')
          else if (case some_id (f_max_length f) of None \<Rightarrow> False | Some n \<Rightarrow> int (length s) > n)
            then Inl (ValueErr ''too long'')
          else if filled (f_pattern f)
            then (case e_search env (the (f_pattern f)) s of
                    None \<Rightarrow> Inl RegexErr
                  | Some True \<Rightarrow> Inr ()
                  | Some False \<Rightarrow> Inl (ValueErr ''format''))
          else Inr ()
      | _ \<Rightarrow>
          (case bound_ok float_lt (f_min_value f) v of
             Inl e \<Rightarrow> Inl e
           | Inr _ \<Rightarrow> bound_ok (\<lambda>x b. float_lt b x) (f_max_value f) v))"

subsection \<open>Patterns\<close>

text \<open>\<open>^[^@\s]+@[^@\s]+\.[^@\s]+$\<close>\<close>

definition is_email :: "pystr \<Rightarrow> bool" where
  "is_email s = (case split_on CHR ''@'' s of
     [l, d] \<Rightarrow> l \<noteq> [] \<and> d \<noteq> [] \<and> CHR ''.'' \<in> set (butlast (tl d)) \<and> list_all (\<lambda>c. \<not> is_space c) s
   | _ \<Rightarrow> False)"

text \<open>\<open>^https?://\S+$\<close>\<close>

definition is_url :: "pystr \<Rightarrow> bool" where
  "is_url s = list_ex (\<lambda>p. prefix p s \<and> length p < length s \<and> list_all (\<lambda>c. \<not> is_space c) (drop (length p) s))
     [''http://'', ''https://'']"

text \<open>\<open>^[+(]?[\d][\d\s().-]{4,}$\<close>\<close>

definition is_phone :: "pystr \<Rightarrow> bool" where
  "is_phone s =
     (let r = (case s of [] \<Rightarrow> [] | c # t \<Rightarrow> if c = CHR ''+'' \<or> c = CHR ''('' then t else s)
      in r \<noteq> [] \<and> is_dec (hd r) \<and> 4 \<le> length (tl r) \<and>
         list_all (\<lambda>c. is_dec c \<or> is_space c \<or> c \<in> set ''().-'') (tl r))"

subsection \<open>Cells\<close>

type_synonym resolver = "pystr \<Rightarrow> exn + pyval"

definition value_err :: "'a option \<Rightarrow> exn + 'a" where
  "value_err v = (case v of None \<Rightarrow> Inl (ValueErr ''invalid value'') | Some x \<Rightarrow> Inr x)"

text \<open>A parsed value that then has to pass the rules of the field.\<close>

definition ruled :: "env \<Rightarrow> meta_field \<Rightarrow> pyval option \<Rightarrow> exn + pyval" where
  "ruled env f v = (case v of
     None \<Rightarrow> Inl (ValueErr ''invalid value'')
   | Some x \<Rightarrow> (case check_rules env f x of Inl e \<Rightarrow> Inl e | Inr _ \<Rightarrow> Inr x))"

definition enum_opts :: "meta_field \<Rightarrow> pyval list option" where
  "enum_opts f = map_option as_list (loads_or (VList []) (f_enum_options f))"

fun split_any :: "char list \<Rightarrow> pystr \<Rightarrow> pystr list" where
  "split_any seps [] = [[]]"
| "split_any seps (c # s) =
     (if c \<in> set seps then [] # split_any seps s
      else case split_any seps s of [] \<Rightarrow> [[c]] | w # ws \<Rightarrow> (c # w) # ws)"

definition coerce_tags :: "meta_field \<Rightarrow> pystr \<Rightarrow> exn + pyval" where
  "coerce_tags f raw = (case enum_opts f of
     None \<Rightarrow> Inl (ValueErr ''options'')
   | Some opts \<Rightarrow>
     (let parts = filter (\<lambda>p. p \<noteq> []) (map py_strip (split_any ''|,;'' raw))
      in if list_ex (\<lambda>p. VStr p \<notin> set opts) parts then Inl (ValueErr ''unknown tag(s)'')
         else Inr (VStr (json_dumps (VList (map VStr parts))))))"

text \<open>The body of the \<open>try\<close>: the value, an error, or \<^const>\<open>None\<close> when no branch takes the type.\<close>

definition coerce_typed :: "env \<Rightarrow> meta_field \<Rightarrow> resolver option \<Rightarrow> pystr \<Rightarrow> (exn + pyval) option" where
  "coerce_typed env f res raw =
     (let dt = f_data_type f in
      if text_type dt then Some (ruled env f (Some (VStr raw)))
      else if dt \<in> {''integer'', ''bigint''} then Some (ruled env f (map_option VInt (parse_int raw)))
      else if dt \<in> {''user'', ''company''}
        then Some (case res of Some r \<Rightarrow> r raw | None \<Rightarrow> value_err (map_option VInt (parse_int raw)))
      else if dt = ''decimal'' then Some (ruled env f (map_option VDec (parse_dec raw)))
      else if dt = ''float'' then Some (ruled env f (map_option VFloat (parse_float raw)))
      else if dt = ''boolean'' then Some
        (if py_lower raw \<in> set TRUE_WORDS then Inr (VBool True)
         else if py_lower raw \<in> set FALSE_WORDS then Inr (VBool False)
         else Inl (ValueErr ''expected yes/no''))
      else if dt \<in> {''date'', ''datetime'', ''time''} then Some (value_err (e_iso env dt raw))
      else if dt = ''enum'' then Some (case enum_opts f of
          None \<Rightarrow> Inl (ValueErr ''options'')
        | Some opts \<Rightarrow> if VStr raw \<in> set opts then Inr (VStr raw) else Inl (ValueErr ''expected one of''))
      else if dt \<in> {''currency'', ''percent''} then Some (ruled env f (map_option VDec (parse_dec raw)))
      else if dt = ''email'' then Some
        (if is_email raw then Inr (VStr raw) else Inl (ValueErr ''invalid email address''))
      else if dt = ''url'' then Some
        (if is_url raw then Inr (VStr raw) else Inl (ValueErr ''invalid URL (http/https)''))
      else if dt = ''phone'' then Some
        (if is_phone raw then Inr (VStr raw) else Inl (ValueErr ''invalid phone number''))
      else if dt = ''autonumber'' then Some (Inr (VStr raw))
      else if dt = ''json'' then Some (case e_loads env raw of
          JDoc v \<Rightarrow> Inr (VStr (json_dumps v)) | _ \<Rightarrow> Inl (ValueErr ''json''))
      else if dt = ''tags'' then Some (coerce_tags f raw)
      else if dt = RELATION_TYPE
        then Some (case res of Some r \<Rightarrow> r raw | None \<Rightarrow> value_err (map_option VInt (parse_int raw)))
      else None)"

text \<open>A \<open>ValueError\<close> is raised again under the field's name; any other exception passes.\<close>

definition named_error :: "meta_field \<Rightarrow> exn \<Rightarrow> exn" where
  "named_error f e = (case e of ValueErr m \<Rightarrow> ValueErr (f_phys_name f @ '': '' @ m) | _ \<Rightarrow> e)"

definition coerce_value :: "env \<Rightarrow> meta_field \<Rightarrow> pystr option \<Rightarrow> resolver option \<Rightarrow> exn + pyval" where
  "coerce_value env f raw0 res =
     (let raw = py_strip (text_or raw0 []) in
      if raw = [] then Inr VNone
      else case coerce_typed env f res raw of
             None \<Rightarrow> Inl (named_error f (ValueErr ''unsupported type''))
           | Some (Inl e) \<Rightarrow> Inl (named_error f e)
           | Some (Inr v) \<Rightarrow> Inr v)"


subsection \<open>Resolvers\<close>

text \<open>\<open>raw.lstrip("-").isdigit() and int(raw) in ids\<close>, and the error of \<open>int\<close> where it fails.\<close>

definition by_id :: "pyval list \<Rightarrow> pystr \<Rightarrow> exn + pyval option" where
  "by_id ids raw =
     (if py_isdigit (lstrip_by (\<lambda>c. c = CHR ''-'') raw)
      then (case parse_int raw of
              None \<Rightarrow> Inl (ValueErr raw)
            | Some i \<Rightarrow> Inr (if val_in (VInt i) ids then Some (VInt i) else None))
      else Inr None)"

definition user_resolver :: "(int \<times> pystr) list \<Rightarrow> resolver" where
  "user_resolver rows raw = (case by_id (map (\<lambda>(i, _). VInt i) rows) raw of
     Inl e \<Rightarrow> Inl e
   | Inr (Some v) \<Rightarrow> Inr v
   | Inr None \<Rightarrow> (case find (\<lambda>(_, n). n = raw) (rev rows) of
        Some (i, _) \<Rightarrow> Inr (VInt i)
      | None \<Rightarrow> Inl (ValueErr raw)))"

definition relation_resolver :: "(pyval \<times> pystr) list \<Rightarrow> resolver" where
  "relation_resolver options raw = (case by_id (map fst options) raw of
     Inl e \<Rightarrow> Inl e
   | Inr (Some v) \<Rightarrow> Inr v
   | Inr None \<Rightarrow> (case filter (\<lambda>(_, l). l = raw) options of
        [] \<Rightarrow> Inl (ValueErr raw)
      | [(i, _)] \<Rightarrow> Inr i
      | _ \<Rightarrow> Inl (ValueErr ''matches multiple'')))"

text \<open>\<open>display_field_name\<close> of \<open>app/forms/builder.py\<close>.\<close>

definition display_field_name :: "db \<Rightarrow> meta_table option \<Rightarrow> pystr" where
  "display_field_name s mt = (case mt of
     None \<Rightarrow> ''id''
   | Some t \<Rightarrow>
     (case (case some_id (t_display_field_id t) of None \<Rightarrow> None | Some i \<Rightarrow> get_field s i) of
        Some f \<Rightarrow> f_phys_name f
      | None \<Rightarrow>
        (case find (\<lambda>f. text_type (f_data_type f)) (t_fields t) of
           Some f \<Rightarrow> f_phys_name f
         | None \<Rightarrow> ''id'')))"

definition make_relation_resolver :: "meta_field \<Rightarrow> resolver comp" where
  "make_relation_resolver f =
     bindC (getC (\<lambda>s. case f_related_table_id f of None \<Rightarrow> None | Some i \<Rightarrow>
       map_option (\<lambda>t. (t_phys_name t, display_field_name s (Some t))) (get_table s i)))
     (\<lambda>target. case target of
        None \<Rightarrow> failC TypeErr
      | Some (t, disp) \<Rightarrow> bindC (load_options t [disp] None) (\<lambda>opts. retC (relation_resolver opts)))"

fun resolvers_for :: "meta_field list \<Rightarrow> (pystr, resolver) dict comp" where
  "resolvers_for [] = retC []"
| "resolvers_for (f # fs) = bindC
     (if f_data_type f = RELATION_TYPE then bindC (make_relation_resolver f) (\<lambda>r. retC (Some r))
      else if f_data_type f = ''user''
        then getC (\<lambda>s. Some (user_resolver (map (\<lambda>u. (u_id u, u_username u)) (d_users s))))
      else if f_data_type f = ''company''
        then getC (\<lambda>s. Some (user_resolver (map (\<lambda>c. (co_id c, co_name c)) (d_companies s))))
      else retC None)
     (\<lambda>r. bindC (resolvers_for fs) (\<lambda>d. retC (case r of None \<Rightarrow> d | Some x \<Rightarrow> (f_phys_name f, x) # d)))"

subsection \<open>Import\<close>

type_synonym cells = "(pystr \<times> pystr option) list"

definition importable_fields :: "meta_table \<Rightarrow> pystr list option \<Rightarrow> meta_field list" where
  "importable_fields t allowed = filter (\<lambda>f. f_data_type f \<notin> set FILE_TYPES \<and>
     (case allowed of None \<Rightarrow> True | Some a \<Rightarrow> f_phys_name f \<in> set a)) (t_fields t)"

definition cell :: "cells \<Rightarrow> pystr \<Rightarrow> pystr option" where
  "cell row c = (case map_of row c of None \<Rightarrow> None | Some v \<Rightarrow> v)"

text \<open>One field of one row: its value, or the error of the row; \<^const>\<open>RegexErr\<close> and the like end the import.\<close>

definition import_field :: "env \<Rightarrow> (pystr, resolver) dict \<Rightarrow> cells \<Rightarrow> meta_field \<Rightarrow> exn + pyval" where
  "import_field env rs row f =
     (let res = dget rs (f_phys_name f) in
      case coerce_value env f (cell row (f_phys_name f)) res of
        Inl e \<Rightarrow> Inl e
      | Inr v \<Rightarrow>
        if v = VNone \<and> \<not> f_nullable f then
          (case (if filled (f_default_value f) then coerce_value env f (f_default_value f) res else Inr VNone) of
             Inl (ValueErr m) \<Rightarrow> Inl (ValueErr (f_phys_name f @ '': required''))
           | Inl e \<Rightarrow> Inl e
           | Inr w \<Rightarrow> if w = VNone then Inl (ValueErr (f_phys_name f @ '': required'')) else Inr w)
        else Inr v)"

fun import_row :: "env \<Rightarrow> (pystr, resolver) dict \<Rightarrow> cells \<Rightarrow> meta_field list \<Rightarrow> exn + (row \<times> pystr list)" where
  "import_row env rs row [] = Inr ([], [])"
| "import_row env rs row (f # fs) = (case import_field env rs row f of
     Inr v \<Rightarrow> (case import_row env rs row fs of
        Inl e \<Rightarrow> Inl e | Inr (vs, es) \<Rightarrow> Inr ((f_phys_name f, v) # vs, es))
   | Inl (ValueErr m) \<Rightarrow> (case import_row env rs row fs of
        Inl e \<Rightarrow> Inl e | Inr (vs, es) \<Rightarrow> Inr (vs, m # es))
   | Inl e \<Rightarrow> Inl e)"

definition resolve_key :: "meta_table \<Rightarrow> pystr \<Rightarrow> cells \<Rightarrow> row \<Rightarrow> pyval option comp" where
  "resolve_key t key_field row vs =
     (if key_field = ''id'' then
        (let raw = py_strip (text_or (cell row ''id'') []) in
         if py_isdigit (lstrip_by (\<lambda>c. c = CHR ''-'') raw)
         then (case parse_int raw of
                 None \<Rightarrow> failC (ValueErr raw)
               | Some i \<Rightarrow> find_id_by (t_phys_name t) [''id''] [VInt i] False)
         else retC None)
      else find_id_by_key (t_phys_name t) (Some key_field) vs True)"

record import_plan =
  ip_inserts :: "row list"
  ip_updates :: "(pyval \<times> row) list"
  ip_errors :: "(int \<times> pystr list) list"

record import_result =
  ir_total :: int
  ir_imported :: int
  ir_updated :: int
  ir_errors :: "(int \<times> pystr list) list"
  ir_ignored :: "pystr list"

definition plan_row ::
  "env \<Rightarrow> meta_table \<Rightarrow> meta_field list \<Rightarrow> (pystr, resolver) dict \<Rightarrow> pystr option \<Rightarrow>
     int \<times> cells \<Rightarrow> import_plan \<Rightarrow> import_plan comp" where
  "plan_row env t flds rs upsert p plan = (case p of (line, row) \<Rightarrow>
     bindC (liftC (import_row env rs row flds)) (\<lambda>(vs, errs).
       bindC (case upsert of
                Some key \<Rightarrow>
                  if errs = [] then
                    tryC (bindC (resolve_key t key row vs) (\<lambda>r. retC (r, [])))
                      (\<lambda>e. case e of ValueErr m \<Rightarrow> retC (None, [m]) | _ \<Rightarrow> failC e)
                  else retC (None, errs)
              | None \<Rightarrow> retC (None, errs)) (\<lambda>(existing, errs').
         retC (if errs' \<noteq> [] then plan\<lparr>ip_errors := ip_errors plan @ [(line, errs')]\<rparr>
               else case existing of
                      Some pk \<Rightarrow> plan\<lparr>ip_updates := ip_updates plan @ [(pk, vs)]\<rparr>
                    | None \<Rightarrow> plan\<lparr>ip_inserts := ip_inserts plan @ [vs]\<rparr>))))"

text \<open>The writes: an exception ends them and is added to the errors under line 0.\<close>

definition run_inserts :: "meta_table \<Rightarrow> import_plan \<Rightarrow> int comp" where
  "run_inserts t plan =
     (if ip_inserts plan = [] then retC 0 else insert_many (t_phys_name t) (ip_inserts plan))"

fun run_updates :: "pystr \<Rightarrow> (pyval \<times> row) list \<Rightarrow> int \<Rightarrow> (int \<times> exn option) comp" where
  "run_updates t [] n s = (Inr (n, None), s)"
| "run_updates t ((pk, vs) # us) n s = (case update_row t pk vs s of
     (Inl e, s') \<Rightarrow> (Inr (n, Some e), s')
   | (Inr _, s') \<Rightarrow> run_updates t us (n + 1) s')"

definition run_plan :: "meta_table \<Rightarrow> import_plan \<Rightarrow> (int \<times> int \<times> exn option) comp" where
  "run_plan t plan s = (case run_inserts t plan s of
     (Inl e, s') \<Rightarrow> (Inr (0, 0, Some e), s')
   | (Inr n, s') \<Rightarrow> bindC (run_updates (t_phys_name t) (ip_updates plan) 0)
                       (\<lambda>(u, e). retC (n, u, e)) s')"

definition import_rows ::
  "env \<Rightarrow> meta_table \<Rightarrow> pystr list \<Rightarrow> cells list \<Rightarrow> bool \<Rightarrow> pystr \<Rightarrow> pystr option \<Rightarrow>
     pystr list option \<Rightarrow> import_result comp" where
  "import_rows env t headers rows skip_invalid mode key_field allowed =
     (let flds = importable_fields t allowed;
          names = map f_phys_name flds;
          upsert = (if mode = ''upsert'' \<and> filled key_field then key_field else None);
          known = names @ (if upsert = Some ''id'' then [''id''] else []);
          ignored = filter (\<lambda>h. h \<noteq> [] \<and> h \<notin> set known) headers
      in bindC (resolvers_for flds) (\<lambda>rs.
         bindC (foldC (plan_row env t flds rs upsert)
                  (zip (map (\<lambda>i. int i + 2) [0..<length rows]) rows)
                  \<lparr>ip_inserts = [], ip_updates = [], ip_errors = []\<rparr>) (\<lambda>plan.
           if ip_errors plan \<noteq> [] \<and> \<not> skip_invalid
           then retC \<lparr>ir_total = int (length rows), ir_imported = 0, ir_updated = 0,
                  ir_errors = ip_errors plan, ir_ignored = ignored\<rparr>
           else bindC (run_plan t plan) (\<lambda>(n, u, e).
             retC \<lparr>ir_total = int (length rows), ir_imported = n, ir_updated = u,
                  ir_errors = ip_errors plan @ (case e of None \<Rightarrow> [] | Some x \<Rightarrow> [(0, [e_msg env x])]),
                  ir_ignored = ignored\<rparr>))))"


subsection \<open>Header names\<close>

text \<open>
  The loop of \<open>infer_schema\<close> that looks for a name not taken yet:
  \<open>while name in seen: name = f"{base}_{n}"[:60]; n += 1\<close>. It is not known to end, so
  its value is \<^const>\<open>None\<close> when it does not.
\<close>

partial_function (option) unique_name :: "pystr list \<Rightarrow> pystr \<Rightarrow> int \<Rightarrow> pystr \<Rightarrow> pystr option" where
  "unique_name seen base n name =
     (if name \<in> set seen then unique_name seen base (n + 1) (take 60 (base @ ''_'' @ str_int n))
      else Some name)"

fun column_names :: "pystr list \<Rightarrow> (nat \<times> pystr) list \<Rightarrow> (exn + pystr list) option" where
  "column_names seen [] = Some (Inr [])"
| "column_names seen ((i, header) # hs) =
     (case sanitize_identifier (Some (if header = [] then ''col_'' @ str_int (int i + 1) else header)) ''col'' of
        Inl _ \<Rightarrow> Some (Inl (ValueErr header))
      | Inr base \<Rightarrow>
        (case unique_name seen base 2 base of
           None \<Rightarrow> None
         | Some name \<Rightarrow>
           (case column_names (name # seen) hs of
              None \<Rightarrow> None
            | Some (Inl e) \<Rightarrow> Some (Inl e)
            | Some (Inr names) \<Rightarrow> Some (Inr (name # names)))))"

lemma unique_name_fresh: "unique_name seen base n name = Some m \<Longrightarrow> m \<notin> set seen"
  by (erule unique_name.raw_induct [where P = "\<lambda>seen base n name m. m \<notin> set seen", rotated])
    (auto split: if_splits)

text \<open>A base of sixty characters comes back from every round as it is.\<close>

lemma unique_name_loops:
  "unique_name seen base n name = Some m \<Longrightarrow> \<not> (name = base \<and> length base = 60 \<and> base \<in> set seen)"
proof (erule unique_name.raw_induct [where
      P = "\<lambda>seen base n name m. \<not> (name = base \<and> length base = 60 \<and> base \<in> set seen)", rotated])
  fix f seen base n name m
  assume IH: "\<And>seen base n name m. f seen base n name = Some m \<Longrightarrow>
      \<not> (name = base \<and> length base = 60 \<and> base \<in> set seen)"
    and body: "(if name \<in> set seen then f seen base (n + 1) (take 60 (base @ ''_'' @ str_int n))
      else Some name) = Some m"
  show "\<not> (name = base \<and> length base = 60 \<and> base \<in> set seen)"
  proof
    assume *: "name = base \<and> length base = 60 \<and> base \<in> set seen"
    then have "take 60 (base @ ''_'' @ str_int n) = base" by simp
    with body * have "f seen base (n + 1) base = Some m" by simp
    with IH * show False by blast
  qed
qed

lemma unique_name_stuck:
  "length base = 60 \<Longrightarrow> base \<in> set seen \<Longrightarrow> unique_name seen base n base = None"
  using unique_name_loops [of seen base n base] by fastforce

lemma column_names_distinct:
  "column_names seen hs = Some (Inr names) \<Longrightarrow> distinct names \<and> set names \<inter> set seen = {}"
proof (induction seen hs arbitrary: names rule: column_names.induct)
  case (2 seen i header hs)
  then show ?case
    by (fastforce dest: unique_name_fresh split: sum.splits option.splits)
qed simp

text \<open>
  Inferring a schema does not end on a file with two equal headers of sixty letters: the
  numbered name is cut back to the name already taken, for every number.
\<close>

theorem infer_schema_stuck:
  "column_names [] [(0, replicate 60 CHR ''a''), (1, replicate 60 CHR ''a'')] = None"
proof -
  have san: "sanitize_identifier (Some (replicate 60 CHR ''a'')) ''col'' = Inr (replicate 60 CHR ''a'')"
    by code_simp
  have "unique_name [] (replicate 60 CHR ''a'') 2 (replicate 60 CHR ''a'') = Some (replicate 60 CHR ''a'')"
    by (subst unique_name.simps) simp
  moreover have "unique_name [replicate 60 CHR ''a''] (replicate 60 CHR ''a'') 2 (replicate 60 CHR ''a'') = None"
    by (rule unique_name_stuck) simp_all
  ultimately show ?thesis by (simp add: san del: replicate.simps replicate_Suc)
qed

subsection \<open>What a cell becomes\<close>

definition value_of_type :: "pystr \<Rightarrow> pyval \<Rightarrow> bool" where
  "value_of_type dt v = (case v of
     VInt _ \<Rightarrow> dt \<in> {''integer'', ''bigint'', ''user'', ''company'', RELATION_TYPE}
   | VDec _ \<Rightarrow> dt \<in> {''decimal'', ''currency'', ''percent''}
   | VFloat _ \<Rightarrow> dt = ''float''
   | VBool _ \<Rightarrow> dt = ''boolean''
   | VStr _ \<Rightarrow> text_type dt \<or> dt \<in> {''enum'', ''email'', ''url'', ''phone'', ''autonumber'', ''json'', ''tags''}
   | _ \<Rightarrow> False)"

definition ruled_type :: "pystr \<Rightarrow> bool" where
  "ruled_type dt = (text_type dt \<or> dt \<in> {''integer'', ''bigint'', ''decimal'', ''float'', ''currency'', ''percent''})"

definition date_type :: "pystr \<Rightarrow> bool" where
  "date_type dt = (dt \<in> {''date'', ''datetime'', ''time''})"

lemma ruledD: "ruled env f v = Inr x \<Longrightarrow> v = Some x \<and> check_rules env f x = Inr ()"
  by (auto simp: ruled_def split: option.splits sum.splits)

lemma value_errD: "value_err v = Inr x \<Longrightarrow> v = Some x"
  by (auto simp: value_err_def split: option.splits)

lemma coerce_tagsD: "coerce_tags f raw = Inr x \<Longrightarrow> \<exists>s. x = VStr s"
  by (auto simp: coerce_tags_def Let_def split: option.splits if_splits)

lemma coerce_typed_sound:
  assumes "coerce_typed env f None raw = Some (Inr v)" "\<not> date_type (f_data_type f)"
  shows "value_of_type (f_data_type f) v \<and> (ruled_type (f_data_type f) \<longrightarrow> check_rules env f v = Inr ())"
  using assms
  unfolding coerce_typed_def Let_def date_type_def
  by (auto simp: value_of_type_def ruled_type_def text_type_def
      dest!: ruledD value_errD coerce_tagsD split: if_splits option.splits jcol.splits)


definition sample_field :: "pystr \<Rightarrow> meta_field" where
  "sample_field dt = \<lparr>f_id = 1, f_table_id = 1, f_phys_name = ''x'', f_label = ''X'', f_data_type = dt,
     f_length = None, f_precision = None, f_scale = None, f_nullable = True, f_default_value = None,
     f_is_unique = False, f_position = 1, f_enum_options = JEmpty, f_enum_colors = JEmpty,
     f_related_table_id = None, f_on_delete = None, f_min_length = None, f_max_length = None,
     f_min_value = None, f_max_value = None, f_pattern = None, f_formula = None, f_result_type = None\<rparr>"


text \<open>
  The bounds of a decimal field do not keep a NaN out: every comparison with it is false.
\<close>

theorem coerce_value_nan:
  "coerce_value plain_env ((sample_field ''decimal'')\<lparr>f_min_value := Some ''0'', f_max_value := Some ''10''\<rparr>)
     (Some ''NaN'') None = Inr (VDec DNan)"
  by code_simp


subsection \<open>All or nothing\<close>

interpretation reads: frame "(=)"
  by unfold_locales simp_all

lemma resolvers_read: "keeps (=) (resolvers_for flds)"
  by (induction flds)
    (auto intro!: reads.keeps reads.keeps_read simp: make_relation_resolver_def load_options_def)

lemma resolve_key_read: "keeps (=) (resolve_key t k row vs)"
  unfolding resolve_key_def find_id_by_key_def find_id_by_def Let_def
  by (auto intro!: reads.keeps reads.keeps_read split: option.split)

lemma plan_row_read: "keeps (=) (plan_row env t flds rs upsert p plan)"
  unfolding plan_row_def
  by (auto intro!: reads.keeps resolve_key_read split: prod.split option.split exn.split)

text \<open>
  C5: An import that is not told to skip invalid rows writes nothing at all when a row is
  invalid (its error has a line number of the file, from 2 on).
\<close>

theorem import_all_or_nothing:
  assumes "import_rows env t headers rows False mode key allowed s = (Inr r, s')"
    and "list_ex (\<lambda>(l, _). l \<noteq> 0) (ir_errors r)"
  shows "s' = s \<and> ir_imported r = 0 \<and> ir_updated r = 0"
proof -
  define flds upsert where "flds = importable_fields t allowed"
    and "upsert = (if mode = ''upsert'' \<and> filled key then key else None)"
  define ign where "ign = filter (\<lambda>h. h \<noteq> [] \<and> h \<notin> set (map f_phys_name flds @
      (if upsert = Some ''id'' then [''id''] else []))) headers"
  obtain rs s1 where rs: "resolvers_for flds s = (Inr rs, s1)"
    using assms(1) by (auto simp: import_rows_def Let_def flds_def elim!: bindC_InrE)
  have s1: "s1 = s" using keepsD [OF resolvers_read rs] by simp
  obtain plan s2 where plan: "foldC (plan_row env t flds rs upsert)
      (zip (map (\<lambda>i. int i + 2) [0..<length rows]) rows)
      \<lparr>ip_inserts = [], ip_updates = [], ip_errors = []\<rparr> s = (Inr plan, s2)"
    using assms(1) rs
    by (auto simp: import_rows_def Let_def flds_def upsert_def s1 bindC_Inr elim!: bindC_InrE)
  have s2: "s2 = s" using keepsD [OF reads.keeps_fold [OF plan_row_read] plan] by simp
  have run: "(if ip_errors plan \<noteq> [] \<and> \<not> False
      then retC \<lparr>ir_total = int (length rows), ir_imported = 0, ir_updated = 0,
             ir_errors = ip_errors plan, ir_ignored = ign\<rparr>
      else bindC (run_plan t plan) (\<lambda>(n, u, e).
        retC \<lparr>ir_total = int (length rows), ir_imported = n, ir_updated = u,
             ir_errors = ip_errors plan @ (case e of None \<Rightarrow> [] | Some x \<Rightarrow> [(0, [e_msg env x])]),
             ir_ignored = ign\<rparr>)) s = (Inr r, s')"
    using assms(1) rs plan
    unfolding import_rows_def Let_def flds_def [symmetric] upsert_def [symmetric] ign_def [symmetric]
    by (simp add: s1 s2 bindC_Inr)
  show ?thesis
  proof (cases "ip_errors plan = []")
    case True
    with run assms(2) show ?thesis
      by (auto simp: comp_simps split: option.splits elim!: bindC_InrE)
  next
    case False
    with run show ?thesis by (auto simp: comp_simps)
  qed
qed


definition sample_table :: meta_table where
  "sample_table = \<lparr>t_id = 1, t_phys_name = ''tickets'', t_label = ''Ticket'', t_description = None,
     t_display_field_id = None, t_track_audit = True, t_soft_delete = False, t_row_owned = False,
     t_managed = True, t_source_id = None, t_pk_col = ''id'', t_fields = [sample_field ''integer'']\<rparr>"

theorem import_all_or_nothing_witness:
  "snd (import_rows plain_env sample_table [''x''] [[(''x'', Some ''1'')], [(''x'', Some ''abc'')]] False
     ''insert'' None None sample_db) = sample_db"
proof -
  let ?i = "import_rows plain_env sample_table [''x''] [[(''x'', Some ''1'')], [(''x'', Some ''abc'')]] False
     ''insert'' None None sample_db"
  let ?r = "\<lparr>ir_total = 2, ir_imported = 0, ir_updated = 0,
     ir_errors = [(3, [''x: invalid value''])], ir_ignored = []\<rparr>"
  have "?i = (Inr ?r, snd ?i)" by code_simp
  then show ?thesis by (rule import_all_or_nothing [THEN conjunct1]) simp
qed

end
