(* ===== verification/Maintenance.thy ===== *)
theory Maintenance
  imports Models
begin

text \<open>
  \<open>app/maintenance.py\<close>: the planned-work windows that hold alarms. The lower bound of a window
  is inside it, the upper one is not, in the query and in the status alike.
\<close>

definition in_force :: "int \<Rightarrow> meta_table \<Rightarrow> maintenance_window \<Rightarrow> bool" where
  "in_force now t w =
     (mw_starts_at w \<le> now \<and> now < mw_ends_at w \<and>
      (mw_table_id w = None \<or> mw_table_id w = Some (t_id t)))"

text \<open>The window that ends last, of those in force.\<close>

definition maint_active :: "db \<Rightarrow> meta_table \<Rightarrow> int \<Rightarrow> maintenance_window option" where
  "maint_active s t now =
     (case sort_key (\<lambda>w. - mw_ends_at w) (filter (in_force now t) (d_windows s)) of
        [] \<Rightarrow> None | w # _ \<Rightarrow> Some w)"

definition maint_for_record :: "db \<Rightarrow> int \<Rightarrow> pyval \<Rightarrow> maintenance_window list" where
  "maint_for_record s table_id pk =
     sort_key (\<lambda>w. - mw_starts_at w)
       (filter (\<lambda>w. mw_record_table_id w = Some table_id \<and> mw_record_pk w = Some (py_str pk))
          (d_windows s))"

datatype mw_status = Upcoming | Active | Past

definition maint_status :: "maintenance_window \<Rightarrow> int \<Rightarrow> mw_status" where
  "maint_status w now =
     (if now < mw_starts_at w then Upcoming else if now < mw_ends_at w then Active else Past)"

lemma maint_active_SomeD:
  assumes "maint_active s t now = Some w"
  shows "w \<in> set (d_windows s)" "in_force now t w"
    "\<And>v. v \<in> set (d_windows s) \<Longrightarrow> in_force now t v \<Longrightarrow> mw_ends_at v \<le> mw_ends_at w"
proof -
  let ?ws = "sort_key (\<lambda>w. - mw_ends_at w) (filter (in_force now t) (d_windows s))"
  from assms obtain r where ws: "?ws = w # r"
    by (auto simp: maint_active_def split: list.splits)
  then have "w \<in> set ?ws" by (metis list.set_intros(1))
  then show "w \<in> set (d_windows s)" "in_force now t w" by simp_all
  have sorted: "sorted (map (\<lambda>w. - mw_ends_at w) (w # r))"
    using sorted_sort_key [of "\<lambda>w. - mw_ends_at w" "filter (in_force now t) (d_windows s)"]
    by (simp only: ws)
  fix v assume "v \<in> set (d_windows s)" "in_force now t v"
  then have "v \<in> set ?ws" by simp
  then have "v = w \<or> v \<in> set r" by (simp only: ws set_simps insert_iff)
  with sorted show "mw_ends_at v \<le> mw_ends_at w" by auto
qed

lemma maint_active_None:
  "maint_active s t now = None \<longleftrightarrow> (\<forall>w\<in>set (d_windows s). \<not> in_force now t w)"
proof -
  have "sort_key f xs = [] \<longleftrightarrow> xs = []" for f :: "maintenance_window \<Rightarrow> int" and xs
    by (metis length_0_conv length_sort)
  moreover have "maint_active s t now = None \<longleftrightarrow>
      sort_key (\<lambda>w. - mw_ends_at w) (filter (in_force now t) (d_windows s)) = []"
    by (auto simp: maint_active_def split: list.splits)
  ultimately show ?thesis by (simp add: filter_empty_conv)
qed

text \<open>
  Alarms of a table are held exactly while some window that covers it has the status
  \<open>active\<close>: the query and the badge agree at both bounds.
\<close>

theorem maint_active_status:
  "(maint_active s t now \<noteq> None) \<longleftrightarrow>
     (\<exists>w\<in>set (d_windows s). maint_status w now = Active \<and>
        (mw_table_id w = None \<or> mw_table_id w = Some (t_id t)))"
proof -
  have "in_force now t w \<longleftrightarrow> maint_status w now = Active \<and>
      (mw_table_id w = None \<or> mw_table_id w = Some (t_id t))" for w
    by (auto simp: in_force_def maint_status_def)
  then show ?thesis by (simp add: maint_active_None)
qed

end
