(* ===== verification/Settings.thy ===== *)
theory Settings
  imports Effects
begin

text \<open>
  \<open>app/settings.py\<close>: the settings of the instance, stored values over the environment's
  configuration, and \<open>app/mailer.py\<close>, which sends person-centric mail through them. The
  per-request cache of the stored values is taken to be filled by the request that reads.

  Shown: a saved setting is the one read back (secrets through the cipher), a blank one falls
  back to the configuration, an explicit \<open>off\<close> beats it; mail goes only to active users who
  have an address and want it.
\<close>

datatype kind = KStr | KInt | KBool

text \<open>Section, type, configuration attribute, whether it is a secret.\<close>

definition REGISTRY :: "(pystr, pystr \<times> kind \<times> pystr option \<times> bool) dict" where
  "REGISTRY = [
    (''app_name'', ''branding'', KStr, Some ''APP_NAME'', False),
    (''accent'', ''branding'', KStr, None, False),
    (''default_theme'', ''branding'', KStr, None, False),
    (''base_url'', ''branding'', KStr, Some ''APP_BASE_URL'', False),
    (''mail_server'', ''email'', KStr, Some ''MAIL_SERVER'', False),
    (''mail_port'', ''email'', KInt, Some ''MAIL_PORT'', False),
    (''mail_use_tls'', ''email'', KBool, Some ''MAIL_USE_TLS'', False),
    (''mail_username'', ''email'', KStr, Some ''MAIL_USERNAME'', False),
    (''mail_password'', ''email'', KStr, Some ''MAIL_PASSWORD'', True),
    (''mail_default_sender'', ''email'', KStr, Some ''MAIL_DEFAULT_SENDER'', False),
    (''oidc_issuer'', ''sso'', KStr, Some ''OIDC_ISSUER'', False),
    (''oidc_client_id'', ''sso'', KStr, Some ''OIDC_CLIENT_ID'', False),
    (''oidc_client_secret'', ''sso'', KStr, Some ''OIDC_CLIENT_SECRET'', True),
    (''oidc_scopes'', ''sso'', KStr, Some ''OIDC_SCOPES'', False),
    (''oidc_username_claim'', ''sso'', KStr, Some ''OIDC_USERNAME_CLAIM'', False),
    (''oidc_provision'', ''sso'', KStr, Some ''OIDC_PROVISION'', False),
    (''oidc_default_role'', ''sso'', KStr, Some ''OIDC_DEFAULT_ROLE'', False),
    (''oidc_button_label'', ''sso'', KStr, Some ''OIDC_BUTTON_LABEL'', False),
    (''oidc_redirect_uri'', ''sso'', KStr, Some ''OIDC_REDIRECT_URI'', False),
    (''require_mfa'', ''signin'', KBool, Some ''REQUIRE_MFA'', False),
    (''login_rate_limit'', ''signin'', KInt, Some ''LOGIN_RATE_LIMIT'', False),
    (''login_rate_window'', ''signin'', KInt, Some ''LOGIN_RATE_WINDOW'', False),
    (''webhook_max_body_bytes'', ''limits'', KInt, Some ''WEBHOOK_MAX_BODY_BYTES'', False),
    (''webhook_rate_limit'', ''limits'', KInt, Some ''WEBHOOK_RATE_LIMIT'', False),
    (''webhook_rate_window'', ''limits'', KInt, Some ''WEBHOOK_RATE_WINDOW'', False),
    (''topology_default_depth'', ''limits'', KInt, Some ''TOPOLOGY_DEFAULT_DEPTH'', False),
    (''topology_max_depth'', ''limits'', KInt, Some ''TOPOLOGY_MAX_DEPTH'', False),
    (''topology_max_nodes'', ''limits'', KInt, Some ''TOPOLOGY_MAX_NODES'', False),
    (''sla_default_warn_minutes'', ''limits'', KInt, Some ''SLA_DEFAULT_WARN_MINUTES'', False),
    (''notify_webhook_timeout'', ''limits'', KInt, Some ''NOTIFY_WEBHOOK_TIMEOUT'', False),
    (''currency_symbol'', ''limits'', KStr, Some ''CURRENCY_SYMBOL'', False)]"

definition BOOL_TRUE :: "pystr list" where
  "BOOL_TRUE = [''1'', ''true'', ''yes'', ''on'']"

definition THEMES :: "pystr list" where
  "THEMES = [''light'', ''dark'', ''sepia'', ''ocean'', ''contrast'']"

text \<open>\<open>get_all\<close>: the raw stored values, blank ones omitted.\<close>

definition stored_setting :: "db \<Rightarrow> pystr \<Rightarrow> pystr option" where
  "stored_setting s k = (case find (\<lambda>a. se_key a = k) (rev (d_settings s)) of
     None \<Rightarrow> None
   | Some a \<Rightarrow> if filled (se_value a) then se_value a else None)"

definition is_secret :: "pystr \<Rightarrow> bool" where
  "is_secret k = (case dget REGISTRY k of None \<Rightarrow> False | Some (_, _, _, sec) \<Rightarrow> sec)"

definition save_one :: "env \<Rightarrow> pystr \<times> pystr option \<Rightarrow> app_setting list \<Rightarrow> app_setting list" where
  "save_one env p rows = (case p of (k, v0) \<Rightarrow>
     (let v1 = py_strip (text_or v0 []);
          v = (if v1 \<noteq> [] \<and> is_secret k then e_encrypt env v1 else v1)
      in if v = [] then filter (\<lambda>a. se_key a \<noteq> k) rows
         else if list_ex (\<lambda>a. se_key a = k) rows
         then upd_where (\<lambda>a. se_key a = k) (\<lambda>a. a\<lparr>se_value := Some v\<rparr>) rows
         else rows @ [\<lparr>se_id = next_id se_id rows, se_key = k, se_value = Some v\<rparr>]))"

definition save_settings :: "env \<Rightarrow> (pystr, pystr option) dict \<Rightarrow> db \<Rightarrow> db" where
  "save_settings env mapping s = s\<lparr>d_settings := fold (save_one env) mapping (d_settings s)\<rparr>"

fun coerce_setting :: "kind \<Rightarrow> pystr \<Rightarrow> pyval option" where
  "coerce_setting KInt raw = map_option VInt (parse_int raw)"
| "coerce_setting KBool raw = Some (VBool (py_lower (py_strip raw) \<in> set BOOL_TRUE))"
| "coerce_setting KStr raw = Some (VStr raw)"

definition setting_fallback :: "env \<Rightarrow> pystr option \<Rightarrow> pyval" where
  "setting_fallback env c = (case c of None \<Rightarrow> VNone | Some a \<Rightarrow> e_config env a)"

definition setting :: "env \<Rightarrow> db \<Rightarrow> pystr \<Rightarrow> pyval" where
  "setting env s k = (case dget REGISTRY k of
     None \<Rightarrow> VNone
   | Some (_, knd, cfg, sec) \<Rightarrow>
     (case stored_setting s k of
        None \<Rightarrow> setting_fallback env cfg
      | Some raw0 \<Rightarrow>
        (let raw = (if sec then (case e_decrypt env raw0 of None \<Rightarrow> [] | Some d \<Rightarrow> d) else raw0)
         in case coerce_setting knd raw of
              None \<Rightarrow> setting_fallback env cfg
            | Some v \<Rightarrow> if v = VStr [] then setting_fallback env cfg else v)))"

definition oidc_enabled :: "env \<Rightarrow> db \<Rightarrow> bool" where
  "oidc_enabled env s = (truthy (setting env s ''oidc_issuer'') \<and> truthy (setting env s ''oidc_client_id''))"

text \<open>\<open>branding\<close>: name, accent and theme; a theme that is not known is dropped.\<close>

definition branding :: "env \<Rightarrow> db \<Rightarrow> pyval \<times> pystr \<times> pystr" where
  "branding env s =
     (let name = (case stored_setting s ''app_name'' of None \<Rightarrow> e_config env ''APP_NAME'' | Some v \<Rightarrow> VStr v);
          accent = text_or (stored_setting s ''accent'') [];
          theme = text_or (stored_setting s ''default_theme'') []
      in (name, accent, if theme \<in> set THEMES then theme else []))"

subsection \<open>Mail\<close>

definition text_setting :: "env \<Rightarrow> db \<Rightarrow> pystr \<Rightarrow> pystr" where
  "text_setting env s k = (case setting env s k of VStr t \<Rightarrow> t | _ \<Rightarrow> [])"

definition base_url :: "env \<Rightarrow> db \<Rightarrow> pystr" where
  "base_url env s = rstrip_by (\<lambda>c. c = CHR ''/'') (text_setting env s ''base_url'')"

definition send_mail :: "env \<Rightarrow> pystr \<Rightarrow> pystr \<Rightarrow> pystr \<Rightarrow> db \<Rightarrow> pystr \<times> db" where
  "send_mail env to subj body s =
     (if to = [] then (''skipped'', s)
      else if e_testing env then (''sent'', s\<lparr>d_outbox := d_outbox s @ [Mail to subj body]\<rparr>)
      else if \<not> truthy (setting env s ''mail_server'') then (''skipped'', s)
      else case e_smtp env to subj body of
             None \<Rightarrow> (''sent'', s\<lparr>d_outbox := d_outbox s @ [Mail to subj body]\<rparr>)
           | Some _ \<Rightarrow> (''failed'', s))"

definition wants_mail :: "app_user \<Rightarrow> bool" where
  "wants_mail u = (is_active u \<and> filled (u_email u) \<and> u_notify_email u)"

definition email_user :: "env \<Rightarrow> app_user option \<Rightarrow> pystr \<Rightarrow> pystr \<Rightarrow> db \<Rightarrow> pystr \<times> db" where
  "email_user env u subj body s = (case u of
     None \<Rightarrow> (''skipped'', s)
   | Some x \<Rightarrow> if wants_mail x then send_mail env (the (u_email x)) subj body s else (''skipped'', s))"

definition email_userC :: "env \<Rightarrow> app_user option \<Rightarrow> pystr \<Rightarrow> pystr \<Rightarrow> unit comp" where
  "email_userC env u subj body = modC (\<lambda>s. snd (email_user env u subj body s))"

subsection \<open>Facts\<close>

lemma send_mail_outbox: "send_mail env to subj body s = (st, s') \<Longrightarrow>
    s' = s\<lparr>d_outbox := d_outbox s'\<rparr> \<and> (d_outbox s' = d_outbox s \<or> d_outbox s' = d_outbox s @ [Mail to subj body])"
  by (auto simp: send_mail_def split: if_splits option.splits)

lemma email_user_state: "snd (email_user env u subj body s) =
    s\<lparr>d_outbox := d_outbox (snd (email_user env u subj body s))\<rparr>"
  by (auto simp: email_user_def send_mail_def split: option.splits)

lemma email_user_frames [simp]:
  "d_users (snd (email_user env u subj body s)) = d_users s"
  "d_notifs (snd (email_user env u subj body s)) = d_notifs s"
  "d_settings (snd (email_user env u subj body s)) = d_settings s"
  "same_users s (snd (email_user env u subj body s))"
  "same_design s (snd (email_user env u subj body s))"
  "same_approvals s (snd (email_user env u subj body s))"
  "grows s (snd (email_user env u subj body s))"
  by (subst email_user_state, simp add: same_users_def same_design_def same_approvals_def grows_def)+

lemma email_user_only:
  "d_outbox (snd (email_user env u subj body s)) \<noteq> d_outbox s \<Longrightarrow>
     \<exists>x. u = Some x \<and> wants_mail x \<and>
       d_outbox (snd (email_user env u subj body s)) = d_outbox s @ [Mail (the (u_email x)) subj body]"
  by (auto simp: email_user_def send_mail_def split: option.splits if_splits)

lemma find_rev_unique:
  "distinct (map key xs) \<Longrightarrow> find (\<lambda>a. key a = k) (rev xs) = find (\<lambda>a. key a = k) xs"
proof (induction xs)
  case (Cons x xs)
  have "find (\<lambda>a. key a = k) xs = None" if "key x = k"
    using Cons.prems that by (simp add: find_None_iff) (metis image_eqI)
  with Cons show ?case by (auto simp: find_append split: option.splits)
qed simp

lemma save_one_keys: "distinct (map se_key rows) \<Longrightarrow> distinct (map se_key (save_one env p rows))"
  by (cases p)
    (auto simp: save_one_def Let_def map_upd_where distinct_map_filter list_ex_iff)

lemma save_one_lookup:
  assumes "distinct (map se_key rows)"
  shows "find (\<lambda>a. se_key a = j) (save_one env (k, v) rows) =
     (if j \<noteq> k then find (\<lambda>a. se_key a = j) rows
      else let v1 = py_strip (text_or v []); w = (if v1 \<noteq> [] \<and> is_secret k then e_encrypt env v1 else v1)
           in if w = [] then None
              else Some (case find (\<lambda>a. se_key a = k) rows of
                     Some a \<Rightarrow> a\<lparr>se_value := Some w\<rparr>
                   | None \<Rightarrow> \<lparr>se_id = next_id se_id rows, se_key = k, se_value = Some w\<rparr>))"
proof -
  define w where "w = (let v1 = py_strip (text_or v []) in if v1 \<noteq> [] \<and> is_secret k then e_encrypt env v1 else v1)"
  have save: "save_one env (k, v) rows =
      (if w = [] then filter (\<lambda>a. se_key a \<noteq> k) rows
       else if list_ex (\<lambda>a. se_key a = k) rows
       then upd_where (\<lambda>a. se_key a = k) (\<lambda>a. a\<lparr>se_value := Some w\<rparr>) rows
       else rows @ [\<lparr>se_id = next_id se_id rows, se_key = k, se_value = Some w\<rparr>])"
    by (simp add: save_one_def w_def Let_def)
  have ex: "list_ex P xs \<longleftrightarrow> find P xs \<noteq> None" for P and xs :: "app_setting list"
    by (auto simp: find_None_iff list_ex_iff)
  have other: "find (\<lambda>a. se_key a = j) (filter (\<lambda>a. se_key a \<noteq> k) rows) = find (\<lambda>a. se_key a = j) rows"
    if "j \<noteq> k" using that by (induction rows) auto
  have none: "find (\<lambda>a. se_key a = k) (filter (\<lambda>a. se_key a \<noteq> k) rows) = None"
    by (auto simp: find_None_iff)
  have same: "find (\<lambda>a. se_key a = k) (upd_where (\<lambda>a. se_key a = k) (\<lambda>a. a\<lparr>se_value := Some w\<rparr>) rows) =
      map_option (\<lambda>a. a\<lparr>se_value := Some w\<rparr>) (find (\<lambda>a. se_key a = k) rows)"
    by (rule find_upd_where_same) simp
  have diff: "find (\<lambda>a. se_key a = j) (upd_where (\<lambda>a. se_key a = k) (\<lambda>a. a\<lparr>se_value := Some w\<rparr>) rows) =
      find (\<lambda>a. se_key a = j) rows" if "j \<noteq> k"
    using that by (intro find_upd_where_other) auto
  show ?thesis
  proof (cases "j = k")
    case True
    then show ?thesis
      by (cases "find (\<lambda>a. se_key a = k) rows")
        (simp_all add: save none same ex find_append Let_def flip: w_def [unfolded Let_def])
  next
    case False
    then show ?thesis
      by (cases "find (\<lambda>a. se_key a = j) rows") (simp_all add: save other diff find_append)
  qed
qed

text \<open>
  A setting that is saved is the one in effect: text with its ends stripped, a whole number
  or a truth value by its type, a secret as what deciphering its ciphertext gives; a blank one
  gives the value of the configuration back.
\<close>

theorem setting_after_save:
  assumes "distinct (map se_key (d_settings s))" and "dget REGISTRY k = Some (sec, knd, cfg, secret)"
    and cipher: "\<And>x. x \<noteq> [] \<Longrightarrow> e_encrypt env x \<noteq> [] \<and> e_decrypt env (e_encrypt env x) = Some x"
  shows "setting env (save_settings env [(k, v)] s) k =
    (let raw = py_strip (text_or v []) in
     if raw = [] then setting_fallback env cfg
     else case coerce_setting knd raw of None \<Rightarrow> setting_fallback env cfg | Some w \<Rightarrow> w)"
proof -
  let ?raw = "py_strip (text_or v [])"
  let ?w = "if ?raw \<noteq> [] \<and> is_secret k then e_encrypt env ?raw else ?raw"
  have secret: "is_secret k = secret" using assms(2) by (simp add: is_secret_def)
  have rows: "d_settings (save_settings env [(k, v)] s) = save_one env (k, v) (d_settings s)"
    by (simp add: save_settings_def)
  have stored: "stored_setting (save_settings env [(k, v)] s) k = (if ?w = [] then None else Some ?w)"
    unfolding stored_setting_def rows
    using save_one_keys [OF assms(1)] save_one_lookup [OF assms(1)]
    by (simp add: find_rev_unique Let_def filled_def split: option.splits)
  have str: "coerce_setting knd x = Some (VStr []) \<Longrightarrow> x = []" for x
    by (cases knd) auto
  show ?thesis
  proof (cases "?raw = []")
    case True
    then show ?thesis by (simp add: setting_def assms(2) stored)
  next
    case False
    with cipher [OF False] secret show ?thesis
      by (auto simp: setting_def assms(2) stored Let_def dest: str split: option.splits)
  qed
qed

theorem setting_after_save_witness:
  "setting plain_env (save_settings plain_env [(''mail_port'', Some '' 587 '')] empty_db) ''mail_port'' = VInt 587"
proof -
  have "setting plain_env (save_settings plain_env [(''mail_port'', Some '' 587 '')] empty_db) ''mail_port'' =
    (let raw = py_strip (text_or (Some '' 587 '') []) in
     if raw = [] then setting_fallback plain_env (Some ''MAIL_PORT'')
     else case coerce_setting KInt raw of None \<Rightarrow> setting_fallback plain_env (Some ''MAIL_PORT'') | Some w \<Rightarrow> w)"
    by (rule setting_after_save [where secret = False and sec = "''email''"])
      (simp_all add: empty_db_def REGISTRY_def dget_Cons plain_env_def)
  also have "\<dots> = VInt 587" by code_simp
  finally show ?thesis .
qed

end
