(* ===== verification/Triggers.thy ===== *)
theory Triggers
  imports Importer Maintenance Settings
begin

text \<open>
  \<open>app/triggers.py\<close>: the rules that react to a record's events. The matcher is shared with the
  feeds, so what it reads of either is a record \<open>matcher\<close>. The action that creates a record
  calls back into \<open>record_service.create\<close>, which fires rules again: that function is an
  argument here, absent when the chain has reached its depth cap.

  Shown: a rule never breaks the write (\<open>fire\<close> raises only when the record cannot be read);
  what a rule does leaves accounts, the design and approvals alone and only adds
  notifications; an active maintenance window lets no alert out.
\<close>

subsection \<open>Matching\<close>

record matcher =
  ma_event :: "pystr option"
  ma_field_id :: "int option"
  ma_from_state :: "pystr option"
  ma_to_state :: "pystr option"
  ma_cond_field_id :: "int option"
  ma_cond_op :: "pystr option"
  ma_cond_value :: "pystr option"

definition rule_matcher :: "trigger_rule \<Rightarrow> matcher" where
  "rule_matcher r = \<lparr>ma_event = Some (tr_event r), ma_field_id = tr_field_id r,
     ma_from_state = tr_from_state r, ma_to_state = tr_to_state r,
     ma_cond_field_id = tr_cond_field_id r, ma_cond_op = tr_cond_op r, ma_cond_value = tr_cond_value r\<rparr>"

definition opt_field :: "meta_table \<Rightarrow> int option \<Rightarrow> meta_field option" where
  "opt_field t i = (case i of None \<Rightarrow> None | Some j \<Rightarrow> field_by_id t j)"

definition matches :: "matcher \<Rightarrow> pystr \<Rightarrow> meta_table \<Rightarrow> row \<Rightarrow> row \<Rightarrow> bool" where
  "matches m event t old new =
     (if ma_event m = Some ''transition'' then
        (if event \<noteq> ''update'' then False
         else case opt_field t (ma_field_id m) of
                None \<Rightarrow> False
              | Some f \<Rightarrow>
                let ov = rget old (f_phys_name f); nv = rget new (f_phys_name f) in
                if py_eq ov nv then False
                else if filled (ma_from_state m) \<and> ov \<noteq> VStr (the (ma_from_state m)) then False
                else if filled (ma_to_state m) \<and> nv \<noteq> VStr (the (ma_to_state m)) then False
                else True)
      else ma_event m = Some event)"

definition text_of :: "pyval \<Rightarrow> pystr" where
  "text_of v = (if v = VNone then [] else py_str v)"

text \<open>\<open>_eval\<close>: only the conversion of a huge integer to a float escapes as an exception.\<close>

definition eval_op :: "pystr \<Rightarrow> pyval \<Rightarrow> pystr option \<Rightarrow> exn + bool" where
  "eval_op op v target =
     (let s = text_of v; t = text_or target [] in
      if op = ''eq'' then Inr (s = t)
      else if op = ''ne'' then Inr (s \<noteq> t)
      else if op = ''contains'' then Inr (py_contains t s)
      else if op = ''not_contains'' then Inr (\<not> py_contains t s)
      else if op = ''starts_with'' then Inr (prefix t s)
      else if op = ''ends_with'' then Inr (suffix t s)
      else if op = ''empty'' then Inr (blank v)
      else if op = ''not_empty'' then Inr (\<not> blank v)
      else if op = ''is_true'' then Inr (truthy v \<or> py_eq v (VInt 1))
      else if op = ''is_false'' then Inr (py_eq v (VBool False) \<or> py_eq v (VInt 0))
      else case to_float v of
             Inl OverflowErr \<Rightarrow> Inl OverflowErr
           | Inl _ \<Rightarrow> Inr False
           | Inr fv \<Rightarrow>
             (case parse_float t of
                None \<Rightarrow> Inr False
              | Some ft \<Rightarrow>
                Inr (if op = ''gt'' then float_lt ft fv
                     else if op = ''gte'' then float_le ft fv
                     else if op = ''lt'' then float_lt fv ft
                     else if op = ''lte'' then float_le fv ft
                     else False)))"

definition condition_ok :: "matcher \<Rightarrow> meta_table \<Rightarrow> row \<Rightarrow> exn + bool" where
  "condition_ok m t r =
     (if some_id (ma_cond_field_id m) = None \<or> \<not> filled (ma_cond_op m) then Inr True
      else case opt_field t (ma_cond_field_id m) of
             None \<Rightarrow> Inr True
           | Some f \<Rightarrow> eval_op (the (ma_cond_op m)) (rget r (f_phys_name f)) (ma_cond_value m))"

definition has_rules :: "db \<Rightarrow> int \<Rightarrow> bool" where
  "has_rules s table_id = list_ex (\<lambda>r. tr_table_id r = table_id \<and> tr_active r) (d_triggers s)"

definition rules_for :: "db \<Rightarrow> int \<Rightarrow> pystr list \<Rightarrow> trigger_rule list" where
  "rules_for s table_id events = sort_key tr_id
     (filter (\<lambda>r. tr_table_id r = table_id \<and> tr_active r \<and> tr_event r \<in> set events) (d_triggers s))"

definition events_of :: "pystr \<Rightarrow> pystr list" where
  "events_of event = (if event = ''update'' then [event, ''transition''] else [event])"

subsection \<open>Templates\<close>

definition is_word :: "char \<Rightarrow> bool" where
  "is_word c = (is_alpha c \<or> is_digit c \<or> c = CHR ''_'' \<or> (188 \<le> code c \<and> code c \<le> 190))"

text \<open>The token \<open>{name}\<close> after its opening brace; \<open>ok\<close> says which characters a name has.\<close>

definition token :: "(char \<Rightarrow> bool) \<Rightarrow> pystr \<Rightarrow> (pystr \<times> pystr) option" where
  "token ok s = (let w = takeWhile ok s; r = dropWhile ok s in
     case r of [] \<Rightarrow> None | c # t \<Rightarrow> if w \<noteq> [] \<and> c = CHR 0x7D then Some (w, t) else None)"

lemma token_shorter: "token ok s = Some (w, t) \<Longrightarrow> length t < length s"
  using length_dropWhile_le [of ok s]
  by (auto simp: token_def Let_def split: list.splits if_splits)

function render_with :: "(char \<Rightarrow> bool) \<Rightarrow> (pystr \<Rightarrow> pystr) \<Rightarrow> pystr \<Rightarrow> pystr" where
  "render_with ok f [] = []"
| "render_with ok f (c # s) =
     (if c = CHR 0x7B then
        (case token ok s of None \<Rightarrow> c # render_with ok f s | Some (w, t) \<Rightarrow> f w @ render_with ok f t)
      else c # render_with ok f s)"
  by pat_completeness auto
termination render_with
  by (relation "measure (\<lambda>(ok, f, s). length s)") (auto dest: token_shorter)

definition render :: "pystr option \<Rightarrow> row \<Rightarrow> pystr" where
  "render template r = render_with is_word (\<lambda>w. text_of (rget r w)) (text_or template [])"

definition or_else :: "pystr option \<Rightarrow> pystr option \<Rightarrow> pystr option" where
  "or_else x y = (if filled x then x else y)"

definition set_value :: "env \<Rightarrow> meta_field \<Rightarrow> pystr option \<Rightarrow> exn + pyval" where
  "set_value env f raw =
     (let low = py_lower (py_strip (text_or raw [])) in
      if low = ''now'' then Inr (VDateTime (e_now env))
      else if low = ''today'' then Inr (VDate (e_today env))
      else case coerce_value env f raw None of
             Inl (ValueErr _) \<Rightarrow> Inr (opt_str raw)
           | r \<Rightarrow> r)"

subsection \<open>Delivery\<close>

text \<open>\<open>serialize_row\<close> of \<open>app/api/serialization.py\<close> without hidden columns.\<close>

definition serialize_value :: "pyval \<Rightarrow> pyval" where
  "serialize_value v = (case v of
     VDate d \<Rightarrow> VStr (iso_date d)
   | VDateTime d \<Rightarrow> VStr (iso_datetime ''T'' d)
   | VDec x \<Rightarrow> VFloat (float_of_dec x)
   | _ \<Rightarrow> v)"

definition serialize_row :: "pystr list \<Rightarrow> row \<Rightarrow> row" where
  "serialize_row hide r = map (\<lambda>(k, v). (k, serialize_value v)) (filter (\<lambda>(k, v). k \<notin> set hide) r)"

definition jsonable :: "row \<Rightarrow> pyval" where
  "jsonable r = (if r = [] then VNone else VDict (serialize_row [] r))"

definition clip :: "nat \<Rightarrow> pystr \<Rightarrow> pystr option" where
  "clip n t = Some (take n t)"

definition deliver_email :: "env \<Rightarrow> pystr \<Rightarrow> pystr \<Rightarrow> pystr \<Rightarrow> (pystr \<times> pystr option) comp" where
  "deliver_email env to subj body s =
     (if e_testing env \<or> \<not> truthy (setting env s ''mail_server'') \<or> to = []
      then (Inr (''skipped'', None), s)
      else case e_smtp env to subj body of
             None \<Rightarrow> (Inr (''sent'', None), s\<lparr>d_outbox := d_outbox s @ [Mail to subj body]\<rparr>)
           | Some err \<Rightarrow> (Inr (''failed'', clip 300 err), s))"

definition deliver_webhook :: "env \<Rightarrow> pystr \<Rightarrow> pyval \<Rightarrow> (pystr \<times> pystr option) comp" where
  "deliver_webhook env url payload s =
     (if e_testing env \<or> url = [] then (Inr (''skipped'', None), s)
      else case e_urlopen env url [(''Content-Type'', VStr ''application/json'')] (json_dumps payload) of
             Inl err \<Rightarrow> (Inr (''failed'', clip 300 err), s)
           | Inr status \<Rightarrow>
             (Inr (if 200 \<le> status \<and> status < 300 then ''sent'' else ''failed'',
                   Some (''HTTP '' @ str_int status)),
              s\<lparr>d_outbox := d_outbox s @ [Hook url payload]\<rparr>))"

subsection \<open>Actions\<close>

definition rule_notif ::
  "trigger_rule \<Rightarrow> meta_table \<Rightarrow> pyval \<Rightarrow> pystr \<Rightarrow> pystr \<Rightarrow> pystr \<Rightarrow> notification" where
  "rule_notif r t pk event chan stat = (new_notif chan stat)\<lparr>n_rule_id := Some (tr_id r),
     n_table_phys := Some (t_phys_name t), n_row_pk := pk, n_event := Some event\<rparr>"

definition add_notifC :: "notification \<Rightarrow> unit comp" where
  "add_notifC n = modC (add_notif n)"

definition recipient :: "trigger_rule \<Rightarrow> row \<Rightarrow> int option \<Rightarrow> pyval" where
  "recipient r row user_id =
     (if tr_notify_target r = Some ''owner'' then rget row ''created_by''
      else if tr_notify_target r = Some ''user'' then opt_int (tr_notify_user_id r)
      else opt_int user_id)"

definition webhook_payload :: "trigger_rule \<Rightarrow> pystr \<Rightarrow> meta_table \<Rightarrow> row \<Rightarrow> row option \<Rightarrow> pyval" where
  "webhook_payload r event t new old =
     (if tr_webhook_format r = Some ''text''
      then VDict [(''text'', VStr (render (Some (text_or (tr_message r)
             (t_label t @ '': '' @ event @ '' on record {id}''))) new))]
      else VDict [(''event'', VStr event), (''table'', VStr (t_phys_name t)), (''record'', jsonable new),
                  (''old'', case old of None \<Rightarrow> VNone | Some r \<Rightarrow> jsonable r)])"

definition act_set_field ::
  "env \<Rightarrow> trigger_rule \<Rightarrow> meta_table \<Rightarrow> pyval \<Rightarrow> pystr \<Rightarrow> row \<Rightarrow> row comp" where
  "act_set_field env r t pk event new =
     (case opt_field t (tr_set_field_id r) of
        None \<Rightarrow> retC new
      | Some f \<Rightarrow>
        bindC (liftC (set_value env f (tr_set_value r))) (\<lambda>v.
          tryC (bindC (update_row (t_phys_name t) pk [(f_phys_name f, v)]) (\<lambda>_.
                bindC (get_row (t_phys_name t) pk) (\<lambda>got.
                bindC (add_notifC ((rule_notif r t pk event ''set_field'' ''sent'')
                  \<lparr>n_body := Some (f_phys_name f @ '' = '' @ py_str v)\<rparr>)) (\<lambda>_.
                retC (case got of None \<Rightarrow> new | Some x \<Rightarrow> if x = [] then new else x)))))
            (\<lambda>e. bindC (add_notifC ((rule_notif r t pk event ''set_field'' ''failed'')
                  \<lparr>n_detail := clip 300 (e_msg env e)\<rparr>)) (\<lambda>_. retC new))))"

definition act_in_app ::
  "env \<Rightarrow> trigger_rule \<Rightarrow> meta_table \<Rightarrow> pyval \<Rightarrow> pystr \<Rightarrow> row \<Rightarrow> int option \<Rightarrow> bool \<Rightarrow> unit comp" where
  "act_in_app env r t pk event new user_id muted =
     (let uid = recipient r new user_id in
      if \<not> truthy uid then retC ()
      else if muted
      then add_notifC ((rule_notif r t pk event ''in_app'' ''skipped'')
             \<lparr>n_user_id := uid, n_detail := Some ''maintenance window''\<rparr>)
      else add_notifC ((rule_notif r t pk event ''in_app'' ''unread'')
             \<lparr>n_user_id := uid, n_body := Some (render (Some (text_or (tr_message r) ''Update on record {id}'')) new)\<rparr>))"

definition act_email ::
  "env \<Rightarrow> trigger_rule \<Rightarrow> meta_table \<Rightarrow> pyval \<Rightarrow> pystr \<Rightarrow> row \<Rightarrow> bool \<Rightarrow> unit comp" where
  "act_email env r t pk event new muted =
     (let to = render (tr_email_to r) new;
          subj = render (or_else (tr_email_subject r) (tr_message r)) new;
          body = render (or_else (tr_email_body r) (tr_message r)) new
      in bindC (if muted then retC (''skipped'', Some ''maintenance window'') else deliver_email env to subj body)
           (\<lambda>(stat, det). add_notifC ((rule_notif r t pk event ''email'' stat)
              \<lparr>n_target := Some to, n_subject := Some subj, n_body := Some body, n_detail := det\<rparr>)))"

definition act_webhook ::
  "env \<Rightarrow> trigger_rule \<Rightarrow> meta_table \<Rightarrow> pyval \<Rightarrow> pystr \<Rightarrow> row \<Rightarrow> row option \<Rightarrow> bool \<Rightarrow> unit comp" where
  "act_webhook env r t pk event new old muted =
     (let url = text_or (tr_webhook_url r) []; payload = webhook_payload r event t new old
      in bindC (if muted then retC (''skipped'', Some ''maintenance window'') else deliver_webhook env url payload)
           (\<lambda>(stat, det). add_notifC ((rule_notif r t pk event ''webhook'' stat)
              \<lparr>n_target := Some url, n_body := Some (json_dumps payload), n_detail := det\<rparr>)))"


text \<open>\<open>record_service.create\<close> for the chain one level deeper, absent at the cap.\<close>

type_synonym creator = "meta_table \<Rightarrow> row \<Rightarrow> int option \<Rightarrow> pyval comp"

definition target_field :: "meta_table \<Rightarrow> pyval \<Rightarrow> meta_field option" where
  "target_field t v = (case v of
     VStr n \<Rightarrow> find (\<lambda>f. f_phys_name f = n) (rev (t_fields t)) | _ \<Rightarrow> None)"

text \<open>The values of the new record, from the entries of the field map in order.\<close>

fun mapped_values :: "env \<Rightarrow> meta_table \<Rightarrow> row \<Rightarrow> pyval list \<Rightarrow> row \<Rightarrow> exn + row" where
  "mapped_values env t new [] vs = Inr vs"
| "mapped_values env t new (m # ms) vs =
     (if truthy m \<and> (case m of VDict _ \<Rightarrow> False | _ \<Rightarrow> True) then Inl TypeErr
      else
        let d = (case m of VDict d \<Rightarrow> d | _ \<Rightarrow> []) in
        case target_field t (rget d ''target'') of
          None \<Rightarrow> mapped_values env t new ms vs
        | Some f \<Rightarrow>
          (let src = (case dget d ''source'' of None \<Rightarrow> [] | Some v \<Rightarrow> py_str v) in
           case set_value env f (Some (render (Some src) new)) of
             Inl e \<Rightarrow> Inl e
           | Inr v \<Rightarrow> mapped_values env t new ms (dset (f_phys_name f) v vs)))"

definition create_map :: "trigger_rule \<Rightarrow> pyval list" where
  "create_map r = (case loads_or (VList []) (tr_create_field_map r) of None \<Rightarrow> [] | Some v \<Rightarrow> as_list v)"

definition create_record ::
  "env \<Rightarrow> creator option \<Rightarrow> trigger_rule \<Rightarrow> meta_table \<Rightarrow> pyval \<Rightarrow> pystr \<Rightarrow> row \<Rightarrow> int option \<Rightarrow> unit comp" where
  "create_record env cr r t pk event new user_id =
     (case cr of
        None \<Rightarrow> add_notifC ((rule_notif r t pk event ''error'' ''skipped'')
                  \<lparr>n_detail := Some ''create-record chain depth cap (3) reached''\<rparr>)
      | Some create \<Rightarrow>
        bindC (getC (\<lambda>s. case tr_create_table_id r of None \<Rightarrow> None | Some i \<Rightarrow> get_table s i)) (\<lambda>target.
          case target of
            None \<Rightarrow> retC ()
          | Some tt \<Rightarrow>
            bindC (liftC (mapped_values env tt new (create_map r) [])) (\<lambda>vs.
              if vs = [] then retC ()
              else tryC (bindC (create tt vs user_id) (\<lambda>new_pk.
                     add_notifC ((rule_notif r t pk event ''set_field'' ''sent'')
                       \<lparr>n_body := Some (''created '' @ t_phys_name tt @ '' #'' @ py_str new_pk)\<rparr>)))
                   (\<lambda>e. add_notifC ((rule_notif r t pk event ''error'' ''failed'')
                       \<lparr>n_detail := clip 300 (''create-record: '' @ e_msg env e)\<rparr>)))))"

definition run_rule ::
  "env \<Rightarrow> creator option \<Rightarrow> trigger_rule \<Rightarrow> meta_table \<Rightarrow> pystr \<Rightarrow> pyval \<Rightarrow> row option \<Rightarrow> row \<Rightarrow>
     int option \<Rightarrow> row comp" where
  "run_rule env cr r t event pk old new user_id =
     bindC (getC (\<lambda>s. maint_active s t (e_now env) \<noteq> None)) (\<lambda>muted.
     bindC (if some_id (tr_set_field_id r) \<noteq> None \<and> event \<noteq> ''delete''
            then act_set_field env r t pk event new else retC new) (\<lambda>new'.
     bindC (whenC (tr_in_app r) (act_in_app env r t pk event new' user_id muted)) (\<lambda>_.
     bindC (whenC (filled (tr_email_to r)) (act_email env r t pk event new' muted)) (\<lambda>_.
     bindC (whenC (filled (tr_webhook_url r)) (act_webhook env r t pk event new' old muted)) (\<lambda>_.
     bindC (whenC (some_id (tr_create_table_id r) \<noteq> None \<and> event \<noteq> ''delete'')
              (create_record env cr r t pk event new' user_id)) (\<lambda>_.
     retC new'))))))"

definition old_or_empty :: "row option \<Rightarrow> row" where
  "old_or_empty old = (case old of None \<Rightarrow> [] | Some r \<Rightarrow> r)"

definition fire_rule ::
  "env \<Rightarrow> creator option \<Rightarrow> meta_table \<Rightarrow> pystr \<Rightarrow> pyval \<Rightarrow> row option \<Rightarrow> int option \<Rightarrow>
     trigger_rule \<Rightarrow> row \<Rightarrow> row comp" where
  "fire_rule env cr t event pk old user_id r new =
     tryC (bindC (if matches (rule_matcher r) event t (old_or_empty old) new
                  then liftC (condition_ok (rule_matcher r) t new) else retC False) (\<lambda>ok.
             if ok then run_rule env cr r t event pk old new user_id else retC new))
       (\<lambda>e. bindC (add_notifC ((rule_notif r t pk event ''error'' ''failed'')
              \<lparr>n_detail := clip 300 (e_msg env e)\<rparr>)) (\<lambda>_. retC new))"

definition fire ::
  "env \<Rightarrow> creator option \<Rightarrow> meta_table \<Rightarrow> pystr \<Rightarrow> pyval \<Rightarrow> row option \<Rightarrow> int option \<Rightarrow> unit comp" where
  "fire env cr t event pk old user_id =
     bindC (getC (\<lambda>s. rules_for s (t_id t) (events_of event))) (\<lambda>rules.
       if rules = [] then retC ()
       else bindC (if event = ''delete'' then retC (old_or_empty old)
                   else row_or_empty (t_phys_name t) pk) (\<lambda>new.
            bindC (foldC (fire_rule env cr t event pk old user_id) rules new) (\<lambda>_. retC ())))"

subsection \<open>Isolation\<close>

lemma raise_free_notif [intro, simp]: "raise_free (add_notifC n)"
  by (simp add: add_notifC_def)

lemma fire_rule_raise_free: "raise_free (fire_rule env cr t event pk old user_id r new)"
  unfolding fire_rule_def by (intro raise_free_try raise_free_bind) auto

lemma foldC_raise_free: "(\<And>x y. raise_free (f x y)) \<Longrightarrow> raise_free (foldC f xs y)"
  by (induction xs arbitrary: y) (auto intro: raise_free_bind)

lemma row_or_empty_raise_free:
  "dget (d_phys s) t \<noteq> None \<Longrightarrow> row_or_empty t k s = (Inr (old_or_empty (row_at s t k)), s)"
  by (auto simp: row_or_empty_def bindC_def get_row_row_at retC_def old_or_empty_def split: option.splits)

text \<open>
  Rules never break the write that fired them: whatever a rule's actions raise, \<open>fire\<close>
  returns when the record's table can be read.
\<close>

theorem fire_never_raises:
  assumes "dget (d_phys s) (t_phys_name t) \<noteq> None"
  shows "\<exists>s'. fire env cr t event pk old user_id s = (Inr (), s')"
proof -
  let ?rules = "rules_for s (t_id t) (events_of event)"
  have fold: "raise_free (bindC (foldC (fire_rule env cr t event pk old user_id) ?rules new) (\<lambda>_. retC ()))"
    for new
    by (intro raise_free_bind foldC_raise_free fire_rule_raise_free) simp
  have "\<exists>u s'. bindC (foldC (fire_rule env cr t event pk old user_id) ?rules new) (\<lambda>_. retC ()) s = (Inr u, s')"
    for new using raise_freeE [OF fold] .
  then show ?thesis
    using row_or_empty_raise_free [OF assms]
    by (auto simp: fire_def comp_simps bindC_Inr)
qed

theorem fire_never_raises_witness:
  "\<exists>s'. fire plain_env None sample_table ''create'' (VInt 1) None None sample_db = (Inr (), s')"
  by (rule fire_never_raises) (simp add: sample_db_def sample_table_def dget_Cons)


subsection \<open>What actions touch\<close>

text \<open>
  A frame that the three effects of actions respect: a new notification, a written physical
  table, a delivery. Everything a rule does then respects it, if creating a record does.
\<close>

locale action_frame = frame +
  assumes notif: "R s (add_notif n s)"
    and phys: "R s (put_phys t p s)"
    and outbox: "R s (s\<lparr>d_outbox := x\<rparr>)"
begin

lemma keeps_notif: "keeps R (add_notifC n)"
  unfolding add_notifC_def by (rule keeps_mod) (rule notif)

lemma keeps_update: "keeps R (update_row t pk vs)"
  unfolding update_row_def by (rule keeps_with) (rule phys)

lemma keeps_get: "keeps R (get_row t pk)" "keeps R (row_or_empty t pk)"
  unfolding get_row_def row_or_empty_def by (intro keeps keeps_read)+

lemma keeps_email: "keeps R (deliver_email env to subj body)"
  by (auto simp: keeps_def deliver_email_def refl outbox split: option.split)

lemma keeps_webhook: "keeps R (deliver_webhook env url payload)"
  by (auto simp: keeps_def deliver_webhook_def refl outbox split: sum.split)

lemma keeps_set_field: "keeps R (act_set_field env r t pk event new)"
  unfolding act_set_field_def
  by (auto intro!: keeps keeps_update keeps_get keeps_notif split: option.split)

lemma keeps_in_app: "keeps R (act_in_app env r t pk event new user_id muted)"
  unfolding act_in_app_def Let_def by (auto intro!: keeps keeps_notif)

lemma keeps_act_email: "keeps R (act_email env r t pk event new muted)"
  unfolding act_email_def Let_def by (auto intro!: keeps keeps_notif keeps_email split: prod.split)

lemma keeps_act_webhook: "keeps R (act_webhook env r t pk event new old muted)"
  unfolding act_webhook_def Let_def by (auto intro!: keeps keeps_notif keeps_webhook split: prod.split)

lemma keeps_create_record:
  assumes "\<And>c tt vs u. cr = Some c \<Longrightarrow> keeps R (c tt vs u)"
  shows "keeps R (create_record env cr r t pk event new user_id)"
proof (cases cr)
  case None
  then show ?thesis by (simp add: create_record_def keeps_notif)
next
  case (Some c)
  with assms have "keeps R (c tt vs u)" for tt vs u by simp
  with Some show ?thesis
    unfolding create_record_def by (auto intro!: keeps keeps_notif split: option.split)
qed

lemma keeps_run_rule:
  assumes "\<And>c tt vs u. cr = Some c \<Longrightarrow> keeps R (c tt vs u)"
  shows "keeps R (run_rule env cr r t event pk old new user_id)"
  unfolding run_rule_def
  by (auto intro!: keeps keeps_set_field keeps_in_app keeps_act_email keeps_act_webhook
      keeps_create_record assms)

lemma keeps_fire:
  assumes "\<And>c tt vs u. cr = Some c \<Longrightarrow> keeps R (c tt vs u)"
  shows "keeps R (fire env cr t event pk old user_id)"
  unfolding fire_def fire_rule_def
  by (auto intro!: keeps keeps_get keeps_notif keeps_run_rule assms)

end

interpretation users: action_frame same_users
  by unfold_locales (simp_all add: same_users_def add_notif_def put_phys_def)

interpretation design: action_frame same_design
  by unfold_locales (simp_all add: same_design_def add_notif_def put_phys_def)

interpretation approvals: action_frame same_approvals
  by unfold_locales (simp_all add: same_approvals_def add_notif_def put_phys_def)

interpretation grow: action_frame grows
  by unfold_locales (simp_all add: grows_def add_notif_def put_phys_def)

subsection \<open>Maintenance\<close>

text \<open>Nothing is delivered, and no in-app notification comes in unread.\<close>

definition no_alert :: "db \<Rightarrow> db \<Rightarrow> bool" where
  "no_alert s s' \<longleftrightarrow> d_outbox s' = d_outbox s \<and>
     (\<exists>ns. d_notifs s' = d_notifs s @ ns \<and>
       list_all (\<lambda>n. n_channel n = ''in_app'' \<longrightarrow> n_status n = ''skipped'') ns)"

interpretation quiet: frame no_alert
proof
  fix s t u
  show "no_alert s s" by (simp add: no_alert_def)
  assume st: "no_alert s t" and tu: "no_alert t u"
  then obtain ns ms where "d_notifs t = d_notifs s @ ns" "d_notifs u = d_notifs t @ ms"
    "list_all (\<lambda>n. n_channel n = ''in_app'' \<longrightarrow> n_status n = ''skipped'') (ns @ ms)"
    by (auto simp: no_alert_def)
  with st tu show "no_alert s u" by (auto simp: no_alert_def)
qed

lemma quiet_notif:
  "n_channel n \<noteq> ''in_app'' \<or> n_status n = ''skipped'' \<Longrightarrow> keeps no_alert (add_notifC n)"
  unfolding add_notifC_def by (rule quiet.keeps_mod) (auto simp: no_alert_def add_notif_def)

lemma rule_notif_simps [simp]:
  "n_channel (rule_notif r t pk event chan stat) = chan"
  "n_status (rule_notif r t pk event chan stat) = stat"
  by (simp_all add: rule_notif_def new_notif_def)

lemma quiet_phys: "no_alert s (put_phys t p s)"
  by (simp add: no_alert_def put_phys_def)

lemma quiet_set_field: "keeps no_alert (act_set_field env r t pk event new)"
  unfolding act_set_field_def
  by (auto intro!: quiet.keeps quiet.keeps_with quiet_phys quiet.keeps_read quiet_notif
      simp: update_row_def get_row_def split: option.split)

lemma quiet_muted:
  "keeps no_alert (act_in_app env r t pk event new user_id True)"
  "keeps no_alert (act_email env r t pk event new True)"
  "keeps no_alert (act_webhook env r t pk event new old True)"
  "keeps no_alert (create_record env None r t pk event new user_id)"
  unfolding act_in_app_def act_email_def act_webhook_def create_record_def Let_def
  by (auto intro!: quiet.keeps quiet_notif)

text \<open>
  During an active maintenance window of the record's table a rule still sets its field,
  but no mail and no webhook leaves and no in-app alert arrives (for a rule at the depth cap,
  where no other table's record is created).
\<close>

theorem maintenance_holds_alerts:
  assumes "maint_active s t (e_now env) \<noteq> None"
  shows "no_alert s (snd (run_rule env None r t event pk old new user_id s))"
proof -
  have "keeps no_alert (bindC (if some_id (tr_set_field_id r) \<noteq> None \<and> event \<noteq> ''delete''
            then act_set_field env r t pk event new else retC new) (\<lambda>new'.
     bindC (whenC (tr_in_app r) (act_in_app env r t pk event new' user_id True)) (\<lambda>_.
     bindC (whenC (filled (tr_email_to r)) (act_email env r t pk event new' True)) (\<lambda>_.
     bindC (whenC (filled (tr_webhook_url r)) (act_webhook env r t pk event new' old True)) (\<lambda>_.
     bindC (whenC (some_id (tr_create_table_id r) \<noteq> None \<and> event \<noteq> ''delete'')
              (create_record env None r t pk event new' user_id)) (\<lambda>_.
     retC new'))))))" (is "keeps no_alert ?m")
    by (auto intro!: quiet.keeps quiet_set_field quiet_muted)
  moreover have "run_rule env None r t event pk old new user_id s = ?m s"
    using assms by (simp add: run_rule_def comp_simps)
  ultimately show ?thesis by (simp add: keeps_def)
qed

definition sample_rule :: trigger_rule where
  "sample_rule = \<lparr>tr_id = 1, tr_table_id = 1, tr_name = ''r'', tr_active = True, tr_event = ''create'',
     tr_field_id = None, tr_from_state = None, tr_to_state = None, tr_cond_field_id = None,
     tr_cond_op = None, tr_cond_value = None, tr_in_app = True, tr_notify_target = Some ''user'',
     tr_notify_user_id = Some 7, tr_message = None, tr_email_to = Some ''a@b.c'', tr_email_subject = None,
     tr_email_body = None, tr_webhook_url = None, tr_set_field_id = None, tr_set_value = None,
     tr_create_table_id = None, tr_create_field_map = JEmpty, tr_webhook_format = None,
     tr_schedule_minutes = None, tr_last_run_at = None\<rparr>"

definition sample_window :: maintenance_window where
  "sample_window = \<lparr>mw_id = 1, mw_name = ''w'', mw_starts_at = 0, mw_ends_at = 10, mw_table_id = None,
     mw_record_table_id = None, mw_record_pk = None\<rparr>"

theorem maintenance_holds_alerts_witness:
  "no_alert (sample_db\<lparr>d_windows := [sample_window]\<rparr>)
     (snd (run_rule (plain_env\<lparr>e_testing := False, e_config := (\<lambda>_. VStr ''smtp'')\<rparr>) None sample_rule sample_table ''create'' (VInt 1) None [] None
        (sample_db\<lparr>d_windows := [sample_window]\<rparr>)))"
  by (rule maintenance_holds_alerts) code_simp

end
