(* ===== verification/Sla.thy ===== *)
theory Sla
  imports Triggers
begin

text \<open>
  \<open>app/sla.py\<close>: the clocks that measure a record against its service level. A clock runs, is
  paused (its deadline becomes remaining seconds), and ends met, breached or stopped. The
  handlers of record events move clocks; the sweep marks overdue ones and escalates.

  Shown: pausing and resuming never gives time away and loses less than a second; an event
  moves a clock only along the edges of the state machine and never out of a terminal state;
  SLA handling never raises into the write; a sweep that succeeds escalates a breach once; a
  failing write-back, though, makes every sweep escalate again, and a level whose delay is not
  a number ends the sweep.
\<close>

subsection \<open>Policies\<close>

abbreviation ON_TRACK :: pystr where "ON_TRACK \<equiv> ''on_track''"
abbreviation DUE_SOON :: pystr where "DUE_SOON \<equiv> ''due_soon''"
abbreviation PAUSED :: pystr where "PAUSED \<equiv> ''paused''"
abbreviation MET :: pystr where "MET \<equiv> ''met''"
abbreviation BREACHED :: pystr where "BREACHED \<equiv> ''breached''"
abbreviation RUNNING :: pystr where "RUNNING \<equiv> ''running''"
abbreviation STOPPED :: pystr where "STOPPED \<equiv> ''stopped''"

definition terminal :: "pystr \<Rightarrow> bool" where
  "terminal st = (st \<in> {MET, BREACHED, STOPPED})"

text \<open>\<open>_states\<close>: the states of a comma-separated list.\<close>

definition states_of :: "pystr option \<Rightarrow> pystr list" where
  "states_of csv = filter (\<lambda>x. x \<noteq> []) (map py_strip (split_on CHR '','' (text_or csv [])))"

definition policies_for :: "db \<Rightarrow> int \<Rightarrow> sla_policy list" where
  "policies_for s table_id =
     sort_key sp_id (filter (\<lambda>p. sp_table_id p = table_id \<and> sp_active p) (d_policies s))"

definition has_policies :: "db \<Rightarrow> int \<Rightarrow> bool" where
  "has_policies s table_id = list_ex (\<lambda>p. sp_table_id p = table_id \<and> sp_active p) (d_policies s)"

definition sla_applies :: "sla_policy \<Rightarrow> meta_table \<Rightarrow> row \<Rightarrow> exn + bool" where
  "sla_applies p t r =
     (if some_id (sp_cond_field_id p) = None \<or> \<not> filled (sp_cond_op p) then Inr True
      else case opt_field t (sp_cond_field_id p) of
             None \<Rightarrow> Inr True
           | Some f \<Rightarrow> eval_op (the (sp_cond_op p)) (rget r (f_phys_name f)) (sp_cond_value p))"

definition status_value :: "sla_policy \<Rightarrow> meta_table \<Rightarrow> row \<Rightarrow> pyval" where
  "status_value p t r =
     (if some_id (sp_status_field_id p) = None then VNone
      else case opt_field t (sp_status_field_id p) of None \<Rightarrow> VNone | Some f \<Rightarrow> rget r (f_phys_name f))"

datatype goal = Stop | Pause | Run

definition classify :: "sla_policy \<Rightarrow> pyval \<Rightarrow> goal option" where
  "classify p v =
     (let x = text_of v in
      if x \<in> set (states_of (sp_stop_states p)) then Some Stop
      else if x \<in> set (states_of (sp_pause_states p)) then Some Pause
      else let start = states_of (sp_start_states p) in
           if start = [] \<or> x \<in> set start then Some Run else None)"

definition warn_minutes :: "env \<Rightarrow> db \<Rightarrow> sla_policy \<Rightarrow> int option" where
  "warn_minutes env s p = (case sp_warn_minutes p of
     Some m \<Rightarrow> Some m
   | None \<Rightarrow> (case setting env s ''sla_default_warn_minutes'' of VInt m \<Rightarrow> Some m | _ \<Rightarrow> None))"

subsection \<open>Clock transitions\<close>

definition start_clock :: "sla_clock \<Rightarrow> sla_policy \<Rightarrow> int \<Rightarrow> sla_clock" where
  "start_clock c p now = c\<lparr>
     ck_started_at := (case ck_started_at c of None \<Rightarrow> Some now | Some t \<Rightarrow> Some t),
     ck_due_at := Some (now + sp_target_minutes p * usec_per_min),
     ck_remaining_seconds := None, ck_breached_at := None, ck_state := RUNNING, ck_updated_at := now\<rparr>"

text \<open>\<open>max(0, int((due_at - now).total_seconds()))\<close>: \<open>int\<close> cuts towards zero.\<close>

definition seconds_left :: "int \<Rightarrow> int \<Rightarrow> int" where
  "seconds_left due now = (if due \<le> now then 0 else (due - now) div usec)"

definition pause_clock :: "sla_clock \<Rightarrow> int \<Rightarrow> sla_clock" where
  "pause_clock c now = c\<lparr>
     ck_remaining_seconds := (case ck_due_at c of None \<Rightarrow> ck_remaining_seconds c
                                                | Some d \<Rightarrow> Some (seconds_left d now)),
     ck_due_at := None, ck_state := PAUSED, ck_updated_at := now\<rparr>"

definition resume_clock :: "sla_clock \<Rightarrow> int \<Rightarrow> sla_clock" where
  "resume_clock c now =
     (let rem = (case ck_remaining_seconds c of None \<Rightarrow> 0 | Some r \<Rightarrow> r) in c\<lparr>
     ck_due_at := Some (now + rem * usec), ck_remaining_seconds := None, ck_state := RUNNING,
     ck_updated_at := now\<rparr>)"

definition stop_clock :: "sla_clock \<Rightarrow> int \<Rightarrow> sla_clock" where
  "stop_clock c now =
     (let late = (ck_state c = BREACHED \<or> (case ck_due_at c of None \<Rightarrow> False | Some d \<Rightarrow> d < now)) in c\<lparr>
     ck_state := (if late then BREACHED else MET),
     ck_breached_at := (if late \<and> ck_breached_at c = None
        then Some (case ck_due_at c of None \<Rightarrow> now | Some d \<Rightarrow> d) else ck_breached_at c),
     ck_remaining_seconds := None, ck_updated_at := now\<rparr>)"

definition end_clock :: "sla_clock \<Rightarrow> int \<Rightarrow> sla_clock" where
  "end_clock c now = c\<lparr>ck_state := STOPPED, ck_updated_at := now\<rparr>"

definition state_token :: "env \<Rightarrow> db \<Rightarrow> sla_clock \<Rightarrow> sla_policy \<Rightarrow> int \<Rightarrow> exn + pystr option" where
  "state_token env s c p now =
     (if ck_state c = BREACHED then Inr (Some BREACHED)
      else if ck_state c = MET then Inr (Some MET)
      else if ck_state c = STOPPED then Inr None
      else if ck_state c = PAUSED then Inr (Some PAUSED)
      else case ck_due_at c of
             None \<Rightarrow> Inr (Some ON_TRACK)
           | Some d \<Rightarrow>
             if d \<le> now then Inr (Some BREACHED)
             else (case warn_minutes env s p of
                     None \<Rightarrow> Inl TypeErr
                   | Some w \<Rightarrow> Inr (Some (if d - now \<le> w * usec_per_min then DUE_SOON else ON_TRACK))))"

subsection \<open>Events\<close>

definition clock_of :: "db \<Rightarrow> sla_policy \<Rightarrow> pystr \<Rightarrow> pyval \<Rightarrow> sla_clock option" where
  "clock_of s p t pk = find (\<lambda>c. ck_policy_id c = sp_id p \<and> ck_table_phys c = t \<and> ck_row_pk c = py_str pk)
     (d_clocks s)"

definition put_clock :: "sla_clock \<Rightarrow> db \<Rightarrow> db" where
  "put_clock c s = s\<lparr>d_clocks := upd_where (\<lambda>x. ck_id x = ck_id c) (\<lambda>_. c) (d_clocks s)\<rparr>"

definition add_clock :: "sla_clock \<Rightarrow> db \<Rightarrow> db" where
  "add_clock c s = s\<lparr>d_clocks := d_clocks s @ [c]\<rparr>"

definition new_clock :: "db \<Rightarrow> sla_policy \<Rightarrow> pystr \<Rightarrow> pyval \<Rightarrow> int \<Rightarrow> sla_clock" where
  "new_clock s p t pk now = \<lparr>ck_id = next_id ck_id (d_clocks s), ck_policy_id = sp_id p,
     ck_table_phys = t, ck_row_pk = py_str pk, ck_state = RUNNING, ck_started_at = Some now,
     ck_due_at = None, ck_remaining_seconds = None, ck_breached_at = None, ck_breach_notified = False,
     ck_escalation_level = 0, ck_updated_at = now\<rparr>"

definition opt_time :: "int option \<Rightarrow> pyval" where
  "opt_time t = (case t of None \<Rightarrow> VNone | Some x \<Rightarrow> VDateTime x)"

definition writeback ::
  "env \<Rightarrow> meta_table \<Rightarrow> sla_policy \<Rightarrow> pyval \<Rightarrow> sla_clock \<Rightarrow> int \<Rightarrow> unit comp" where
  "writeback env t p pk c now =
     bindC (if some_id (sp_state_field_id p) = None then retC []
            else bindC (bindC (getC (\<lambda>s. state_token env s c p now)) liftC) (\<lambda>tok. retC
              (case (opt_field t (sp_state_field_id p), tok) of
                 (Some f, Some x) \<Rightarrow> [(f_phys_name f, VStr x)] | _ \<Rightarrow> []))) (\<lambda>ups.
       let ups' = (if some_id (sp_due_field_id p) = None then ups
                   else case opt_field t (sp_due_field_id p) of
                          None \<Rightarrow> ups
                        | Some f \<Rightarrow> dset (f_phys_name f) (opt_time (ck_due_at c)) ups)
       in whenC (ups' \<noteq> []) (update_row (t_phys_name t) pk ups'))"

text \<open>What an event makes of the clock of a policy that is not new, before the write-back.\<close>

definition move_clock :: "goal option \<Rightarrow> int \<Rightarrow> sla_clock \<Rightarrow> sla_clock" where
  "move_clock g now c =
     (if terminal (ck_state c) then c
      else case g of
             Some Stop \<Rightarrow> stop_clock c now
           | Some Pause \<Rightarrow> if ck_state c = RUNNING then pause_clock c now else c
           | Some Run \<Rightarrow> if ck_state c = PAUSED then resume_clock c now else c
           | None \<Rightarrow> if ck_state c = RUNNING \<or> ck_state c = PAUSED then end_clock c now else c)"

definition apply_policy ::
  "env \<Rightarrow> meta_table \<Rightarrow> sla_policy \<Rightarrow> pystr \<Rightarrow> pyval \<Rightarrow> row \<Rightarrow> unit comp" where
  "apply_policy env t p event pk r =
     (let now = e_now env in
      bindC (getC (\<lambda>s. clock_of s p (t_phys_name t) pk)) (\<lambda>clock.
      if event = ''delete'' then
        (case clock of
           None \<Rightarrow> retC ()
         | Some c \<Rightarrow> whenC (ck_state c = RUNNING \<or> ck_state c = PAUSED) (modC (put_clock (end_clock c now))))
      else
        bindC (liftC (sla_applies p t r)) (\<lambda>applies.
        let g = (if applies then classify p (status_value p t r) else None) in
        case clock of
          None \<Rightarrow>
            if applies \<and> (g = Some Run \<or> g = Some Pause) \<and> (event \<noteq> ''create'' \<or> sp_start_on_create p)
            then bindC (getC (\<lambda>s. new_clock s p (t_phys_name t) pk now)) (\<lambda>c0.
                   let c1 = start_clock c0 p now; c2 = (if g = Some Pause then pause_clock c1 now else c1)
                   in bindC (modC (add_clock c2)) (\<lambda>_. writeback env t p pk c2 now))
            else retC ()
        | Some c \<Rightarrow>
            let c' = move_clock g now c
            in bindC (modC (put_clock c')) (\<lambda>_. writeback env t p pk c' now))))"

definition sla_error :: "env \<Rightarrow> pystr \<Rightarrow> pyval \<Rightarrow> exn \<Rightarrow> notification" where
  "sla_error env t pk e = (new_notif ''error'' ''failed'')\<lparr>n_table_phys := Some t,
     n_row_pk := opt_int (int_or_none pk), n_event := Some ''sla'', n_detail := clip 300 (e_msg env e)\<rparr>"

definition sla_event ::
  "env \<Rightarrow> meta_table \<Rightarrow> pystr \<Rightarrow> pyval \<Rightarrow> row option \<Rightarrow> unit comp" where
  "sla_event env t event pk old =
     bindC (getC (\<lambda>s. policies_for s (t_id t))) (\<lambda>ps.
       if ps = [] then retC ()
       else bindC (if event = ''delete'' then retC (old_or_empty old) else row_or_empty (t_phys_name t) pk) (\<lambda>r.
         eachC (\<lambda>p. tryC (apply_policy env t p event pk r)
                     (\<lambda>e. add_notifC (sla_error env (t_phys_name t) pk e))) ps))"


subsection \<open>The breach sweep\<close>

definition sla_recipient :: "sla_policy \<Rightarrow> row \<Rightarrow> pyval" where
  "sla_recipient p r =
     (if sp_breach_notify_target p = Some ''owner'' then rget r ''created_by''
      else if sp_breach_notify_target p = Some ''user'' then opt_int (sp_breach_notify_user_id p)
      else VNone)"

definition sla_notif :: "meta_table \<Rightarrow> sla_clock \<Rightarrow> pystr \<Rightarrow> pystr \<Rightarrow> pystr \<Rightarrow> notification" where
  "sla_notif t c event chan stat = (new_notif chan stat)\<lparr>n_table_phys := Some (t_phys_name t),
     n_row_pk := opt_int (parse_int (ck_row_pk c)), n_event := Some event\<rparr>"

definition escalate ::
  "env \<Rightarrow> meta_table \<Rightarrow> sla_policy \<Rightarrow> sla_clock \<Rightarrow> row \<Rightarrow> unit comp" where
  "escalate env t p c r0 =
     (let pk = VStr (ck_row_pk c) in
      bindC (if some_id (sp_breach_set_field_id p) = None then retC r0
             else case opt_field t (sp_breach_set_field_id p) of
                    None \<Rightarrow> retC r0
                  | Some f \<Rightarrow>
                    bindC (liftC (set_value env f (sp_breach_set_value p))) (\<lambda>v.
                    bindC (update_row (t_phys_name t) pk [(f_phys_name f, v)]) (\<lambda>_.
                    bindC (get_row (t_phys_name t) pk) (\<lambda>got.
                    retC (case got of None \<Rightarrow> r0 | Some x \<Rightarrow> if x = [] then r0 else x))))) (\<lambda>r.
      bindC (whenC (sp_breach_in_app p)
               (let uid = sla_recipient p r in
                whenC (truthy uid) (add_notifC ((sla_notif t c ''sla_breach'' ''in_app'' ''unread'')
                  \<lparr>n_user_id := uid,
                   n_body := Some (render (Some (text_or (sp_breach_message p) ''SLA breached on record {id}'')) r)\<rparr>)))) (\<lambda>_.
      whenC (filled (sp_breach_email_to p))
        (let to = render (sp_breach_email_to p) r;
             subj = render (Some (text_or (sp_breach_email_subject p) (text_or (sp_breach_message p) ''SLA breached''))) r;
             body = render (or_else (sp_breach_email_body p) (sp_breach_message p)) r
         in bindC (deliver_email env to subj body) (\<lambda>(stat, det).
            add_notifC ((sla_notif t c ''sla_breach'' ''email'' stat)
              \<lparr>n_target := clip 400 to, n_subject := clip 255 subj, n_body := Some body, n_detail := det\<rparr>))))))"

definition escalation_levels :: "sla_policy \<Rightarrow> row list" where
  "escalation_levels p = (case loads_or (VList []) (sp_escalations p) of
     None \<Rightarrow> []
   | Some v \<Rightarrow> List.map_filter (\<lambda>x. case x of VDict d \<Rightarrow> Some d | _ \<Rightarrow> None) (as_list v))"

text \<open>A template out of JSON: text, or the \<open>TypeError\<close> of substituting in something else.\<close>

definition as_template :: "pyval \<Rightarrow> exn + pystr" where
  "as_template v = (case v of VStr t \<Rightarrow> Inr t | _ \<Rightarrow> Inl TypeErr)"

definition fire_escalation ::
  "env \<Rightarrow> meta_table \<Rightarrow> sla_clock \<Rightarrow> row \<Rightarrow> row \<Rightarrow> unit comp" where
  "fire_escalation env t c r level =
     bindC (liftC (if truthy (rget level ''message'') then as_template (rget level ''message'')
                   else Inr (''SLA escalation on '' @ t_label t @ '' #'' @ ck_row_pk c))) (\<lambda>tmpl.
     let msg = render (Some tmpl) r;
         uid = (if rget level ''notify_target'' = VStr ''owner'' then rget r ''created_by''
                else if truthy (rget level ''notify_user_id'') then rget level ''notify_user_id'' else VNone)
     in bindC (whenC (truthy uid) (add_notifC ((sla_notif t c ''escalation'' ''in_app'' ''unread'')
                 \<lparr>n_user_id := uid, n_body := Some msg\<rparr>))) (\<lambda>_.
        whenC (truthy (rget level ''email_to''))
          (bindC (liftC (as_template (rget level ''email_to''))) (\<lambda>et.
             let to = render (Some et) r in
             bindC (deliver_email env to msg msg) (\<lambda>(stat, det).
             add_notifC ((sla_notif t c ''escalation'' ''email'' stat)
               \<lparr>n_target := clip 400 to, n_subject := clip 255 msg, n_body := Some msg, n_detail := det\<rparr>))))))"

definition get_policy :: "db \<Rightarrow> int \<Rightarrow> sla_policy option" where
  "get_policy s i = find (\<lambda>p. sp_id p = i) (d_policies s)"

definition get_clock :: "db \<Rightarrow> int \<Rightarrow> sla_clock option" where
  "get_clock s i = find (\<lambda>c. ck_id c = i) (d_clocks s)"

text \<open>The first part of the \<open>try\<close> of the sweep: the row, and the breach with its escalation.\<close>

definition mark_breach ::
  "env \<Rightarrow> meta_table \<Rightarrow> sla_policy \<Rightarrow> sla_clock \<Rightarrow> int \<Rightarrow> (sla_clock \<times> bool) comp" where
  "mark_breach env t p c now =
     bindC (row_or_empty (t_phys_name t) (VStr (ck_row_pk c))) (\<lambda>r.
       if (case ck_due_at c of None \<Rightarrow> False | Some d \<Rightarrow> d \<le> now) then
         let c1 = c\<lparr>ck_state := BREACHED, ck_breached_at := ck_due_at c, ck_updated_at := now\<rparr> in
         bindC (modC (put_clock c1)) (\<lambda>_.
         if ck_breach_notified c then retC (c1, True)
         else bindC (escalate env t p c1 r) (\<lambda>_.
              let c2 = c1\<lparr>ck_breach_notified := True\<rparr> in
              bindC (modC (put_clock c2)) (\<lambda>_. retC (c2, True))))
       else retC (c, False))"

text \<open>What follows an exception: the session goes back to the last commit \<open>s0\<close> and an error is logged.\<close>

definition sweep_recover :: "env \<Rightarrow> sla_clock \<Rightarrow> db \<Rightarrow> exn \<Rightarrow> db \<Rightarrow> db" where
  "sweep_recover env c s0 e s =
     add_notif (sla_error env (ck_table_phys c) (VStr (ck_row_pk c)) e) (rollback_to s0 s)"

definition sweep_clock :: "env \<Rightarrow> int \<Rightarrow> int \<Rightarrow> int \<times> db \<Rightarrow> int \<times> db" where
  "sweep_clock env now i st = (case st of (n, s) \<Rightarrow>
     (case get_clock s i of
        None \<Rightarrow> (n, s)
      | Some c \<Rightarrow>
        (case (get_policy s (ck_policy_id c), table_by_phys s (ck_table_phys c)) of
           (Some p, Some t) \<Rightarrow>
             if maint_active s t now \<noteq> None then (n, s)
             else (case mark_breach env t p c now s of
                     (Inl e, s1) \<Rightarrow> (n, sweep_recover env c s e s1)
                   | (Inr (c1, hit), s1) \<Rightarrow>
                     (let n1 = (if hit then n + 1 else n) in
                      case writeback env t p (VStr (ck_row_pk c1)) c1 now s1 of
                        (Inl e, s2) \<Rightarrow> (n1, sweep_recover env c s e s2)
                      | (Inr _, s2) \<Rightarrow> (n1, s2)))
         | _ \<Rightarrow> (n, s))))"

definition py_int :: "pyval \<Rightarrow> exn + int" where
  "py_int v = (case int_or_none v of
     Some i \<Rightarrow> Inr i
   | None \<Rightarrow> Inl (case v of VStr t \<Rightarrow> ValueErr t | VFloat FNan \<Rightarrow> ValueErr [] | VFloat _ \<Rightarrow> OverflowErr
                        | VDec DNan \<Rightarrow> ValueErr [] | VDec _ \<Rightarrow> OverflowErr | _ \<Rightarrow> TypeErr))"

text \<open>\<open>level.get("after_minutes") or 0\<close> is converted outside the \<open>try\<close>: its exception ends the sweep.\<close>

definition chain_clock :: "env \<Rightarrow> int \<Rightarrow> int \<Rightarrow> int \<times> db \<Rightarrow> (exn + int) \<times> db" where
  "chain_clock env now i st = (case st of (n, s) \<Rightarrow>
     (case get_clock s i of
        None \<Rightarrow> (Inr n, s)
      | Some c \<Rightarrow>
        (case (get_policy s (ck_policy_id c), table_by_phys s (ck_table_phys c), ck_breached_at c) of
           (Some p, Some t, Some b) \<Rightarrow>
             if maint_active s t now \<noteq> None then (Inr n, s)
             else let levels = escalation_levels p; idx = ck_escalation_level c in
               if int (length levels) \<le> idx then (Inr n, s)
               else let level = levels ! nat idx; av = rget level ''after_minutes'' in
                 (case (if truthy av then py_int av else Inr 0) of
                    Inl e \<Rightarrow> (Inl e, s)
                  | Inr after \<Rightarrow>
                    if now < b + after * usec_per_min then (Inr n, s)
                    else (case bindC (row_or_empty (t_phys_name t) (VStr (ck_row_pk c)))
                                 (\<lambda>r. fire_escalation env t c r level) s of
                            (Inl e, s1) \<Rightarrow> (Inr n, rollback_to s s1)
                          | (Inr _, s1) \<Rightarrow>
                            (Inr (n + 1),
                             put_clock (c\<lparr>ck_escalation_level := idx + 1, ck_updated_at := now\<rparr>) s1)))
         | _ \<Rightarrow> (Inr n, s))))"

fun chain_all :: "env \<Rightarrow> int \<Rightarrow> int list \<Rightarrow> int \<times> db \<Rightarrow> (exn + int) \<times> db" where
  "chain_all env now [] st = (Inr (fst st), snd st)"
| "chain_all env now (i # is) st = (case chain_clock env now i st of
     (Inl e, s) \<Rightarrow> (Inl e, s) | (Inr n, s) \<Rightarrow> chain_all env now is (n, s))"

definition in_state :: "db \<Rightarrow> pystr \<Rightarrow> int list" where
  "in_state s st = map ck_id (filter (\<lambda>c. ck_state c = st) (d_clocks s))"

definition sweep_all :: "env \<Rightarrow> int \<Rightarrow> db \<Rightarrow> int \<times> db" where
  "sweep_all env now s = fold (sweep_clock env now) (in_state s RUNNING) (0, s)"

definition run_breach_sweep :: "env \<Rightarrow> int \<Rightarrow> int comp" where
  "run_breach_sweep env now s =
     (case sweep_all env now s of (n, s1) \<Rightarrow> chain_all env now (in_state s1 BREACHED) (n, s1))"

subsection \<open>Panels\<close>

definition humanize :: "int option \<Rightarrow> pystr option" where
  "humanize secs = (case secs of
     None \<Rightarrow> None
   | Some x \<Rightarrow>
     (let m = \<bar>x\<bar> div 60; txt = (if m < 120 then str_int m @ ''m'' else str_int (m div 60) @ ''h'')
      in Some (if 0 \<le> x then txt @ '' left'' else ''overdue '' @ txt)))"

definition remaining_of :: "sla_clock \<Rightarrow> int \<Rightarrow> int option" where
  "remaining_of c now = (case ck_due_at c of None \<Rightarrow> None
     | Some d \<Rightarrow> Some (if now \<le> d then (d - now) div usec else - ((now - d) div usec)))"

record clock_panel =
  cp_name :: pystr
  cp_state :: pystr
  cp_token :: pystr
  cp_due_at :: "int option"
  cp_remaining :: "int option"
  cp_target :: int

fun clocks_for_record_aux :: "env \<Rightarrow> db \<Rightarrow> pystr \<Rightarrow> pyval \<Rightarrow> sla_policy list \<Rightarrow> exn + clock_panel list" where
  "clocks_for_record_aux env s t pk [] = Inr []"
| "clocks_for_record_aux env s t pk (p # ps) = (case clock_of s p t pk of
     None \<Rightarrow> clocks_for_record_aux env s t pk ps
   | Some c \<Rightarrow>
     (case state_token env s c p (e_now env) of
        Inl e \<Rightarrow> Inl e
      | Inr tok \<Rightarrow>
        (case clocks_for_record_aux env s t pk ps of
           Inl e \<Rightarrow> Inl e
         | Inr rest \<Rightarrow> Inr (\<lparr>cp_name = sp_name p, cp_state = ck_state c,
              cp_token = (case tok of None \<Rightarrow> ck_state c | Some x \<Rightarrow> x), cp_due_at = ck_due_at c,
              cp_remaining = remaining_of c (e_now env), cp_target = sp_target_minutes p\<rparr> # rest))))"

definition clocks_for_record :: "env \<Rightarrow> db \<Rightarrow> int \<Rightarrow> pystr \<Rightarrow> pyval \<Rightarrow> exn + clock_panel list" where
  "clocks_for_record env s table_id t pk = clocks_for_record_aux env s t pk (policies_for s table_id)"


subsection \<open>Time\<close>

text \<open>
  A pause never gives time away: after pausing at \<open>t1\<close> and resuming at \<open>t2\<close> a clock that
  was not overdue has at most the time it had left, and less than a second less.
\<close>

theorem pause_resume_fair:
  assumes "ck_due_at c = Some d" and "t1 \<le> d"
  shows "\<exists>d'. ck_due_at (resume_clock (pause_clock c t1) t2) = Some d' \<and>
    d' - t2 \<le> d - t1 \<and> d - t1 < d' - t2 + usec"
proof -
  have "(d - t1) div usec * usec \<le> d - t1" "d - t1 < (d - t1) div usec * usec + usec"
    using div_mult_mod_eq [of "d - t1" usec] pos_mod_bound [of usec "d - t1"]
      pos_mod_sign [of usec "d - t1"] by linarith+
  with assms show ?thesis
    by (auto simp: resume_clock_def pause_clock_def seconds_left_def Let_def)
qed

definition sample_clock :: "pystr \<Rightarrow> int option \<Rightarrow> sla_clock" where
  "sample_clock st due = \<lparr>ck_id = 1, ck_policy_id = 1, ck_table_phys = ''tickets'', ck_row_pk = ''1'',
     ck_state = st, ck_started_at = Some 0, ck_due_at = due, ck_remaining_seconds = None,
     ck_breached_at = None, ck_breach_notified = False, ck_escalation_level = 0, ck_updated_at = 0\<rparr>"

theorem pause_resume_fair_witness:
  "\<exists>d'. ck_due_at (resume_clock (pause_clock (sample_clock RUNNING (Some 3500000)) 1000000) 9000000) = Some d' \<and>
    d' - 9000000 \<le> 3500000 - 1000000 \<and> 3500000 - 1000000 < d' - 9000000 + usec"
  by (rule pause_resume_fair) (simp_all add: sample_clock_def)

text \<open>
  At the very instant of the deadline the two rules differ: the panel and the sweep say
  breached, a stop in that instant says met.
\<close>

theorem deadline_instant:
  assumes "ck_state c = RUNNING" "ck_due_at c = Some now"
  shows "state_token env s c p now = Inr (Some BREACHED) \<and> ck_state (stop_clock c now) = MET"
  using assms by (simp add: state_token_def stop_clock_def Let_def)

theorem deadline_instant_witness:
  "ck_state (stop_clock (sample_clock RUNNING (Some 5)) 5) = MET"
  by (rule deadline_instant [THEN conjunct2]) (simp_all add: sample_clock_def)

subsection \<open>The state machine\<close>

inductive clock_step :: "pystr \<Rightarrow> pystr \<Rightarrow> bool" where
  pause: "clock_step RUNNING PAUSED"
| resume: "clock_step PAUSED RUNNING"
| meet: "clock_step RUNNING MET"
| meet_paused: "clock_step PAUSED MET"
| breach: "clock_step RUNNING BREACHED"
| breach_paused: "clock_step PAUSED BREACHED"
| stop: "clock_step RUNNING STOPPED"
| stop_paused: "clock_step PAUSED STOPPED"

inductive_cases clock_stepE: "clock_step st st'"

inductive_simps clock_step_terminal: "clock_step MET st" "clock_step BREACHED st" "clock_step STOPPED st"

lemma terminal_stays: "clock_step\<^sup>*\<^sup>* st st' \<Longrightarrow> terminal st \<Longrightarrow> st' = st"
  by (induction rule: converse_rtranclp_induct) (auto simp: terminal_def clock_step_terminal)

definition known_state :: "pystr \<Rightarrow> bool" where
  "known_state st = (st \<in> {RUNNING, PAUSED, MET, BREACHED, STOPPED})"

definition clock_moves :: "sla_clock \<Rightarrow> sla_clock \<Rightarrow> bool" where
  "clock_moves c c' \<longleftrightarrow> ck_id c' = ck_id c \<and>
     (known_state (ck_state c) \<longrightarrow> known_state (ck_state c') \<and>
        clock_step\<^sup>*\<^sup>* (ck_state c) (ck_state c') \<and> (terminal (ck_state c) \<longrightarrow> c' = c))"

lemma clock_moves_refl [simp]: "clock_moves c c"
  by (simp add: clock_moves_def)

lemma clock_moves_trans: "clock_moves a b \<Longrightarrow> clock_moves b c \<Longrightarrow> clock_moves a c"
  unfolding clock_moves_def by (metis rtranclp_trans)

lemma move_clock_moves: "clock_moves c (move_clock g now c)"
  unfolding clock_moves_def move_clock_def
  by (auto simp: terminal_def known_state_def stop_clock_def pause_clock_def resume_clock_def
      end_clock_def Let_def split: option.splits goal.splits
      intro: clock_step.intros r_into_rtranclp)

lemma end_clock_moves: "ck_state c = RUNNING \<or> ck_state c = PAUSED \<Longrightarrow> clock_moves c (end_clock c now)"
  by (auto simp: clock_moves_def end_clock_def known_state_def terminal_def
      intro: clock_step.intros r_into_rtranclp)

text \<open>The clocks of the state after: those before, each moved, and new ones.\<close>

definition advances :: "db \<Rightarrow> db \<Rightarrow> bool" where
  "advances s s' \<longleftrightarrow> (distinct (map ck_id (d_clocks s)) \<longrightarrow> distinct (map ck_id (d_clocks s')) \<and>
     (\<exists>cs new. d_clocks s' = cs @ new \<and> list_all2 clock_moves (d_clocks s) cs))"

lemma moves_self [simp]: "list_all2 clock_moves cs cs"
  by (rule list_all2_refl) simp

lemma advancesI:
  "distinct (map ck_id (d_clocks s')) \<Longrightarrow> d_clocks s' = cs @ new \<Longrightarrow>
     list_all2 clock_moves (d_clocks s) cs \<Longrightarrow> advances s s'"
  by (auto simp: advances_def)

lemma advances_same: "d_clocks s' = d_clocks s \<Longrightarrow> advances s s'"
  unfolding advances_def by (metis append_Nil2 moves_self)

lemma list_all2_moves_trans:
  "list_all2 clock_moves as bs \<Longrightarrow> list_all2 clock_moves bs cs \<Longrightarrow> list_all2 clock_moves as cs"
  by (rule list_all2_trans [of clock_moves clock_moves clock_moves]) (auto intro: clock_moves_trans)

interpretation clocks: action_frame advances
proof
  fix s t u n p x and tn :: pystr
  show "advances s s" by (rule advances_same) simp
  show "advances s (add_notif n s)" "advances s (put_phys tn p s)" "advances s (s\<lparr>d_outbox := x\<rparr>)"
    by (rule advances_same, simp add: add_notif_def put_phys_def)+
  assume st: "advances s t" and tu: "advances t u"
  show "advances s u"
    unfolding advances_def
  proof
    assume d: "distinct (map ck_id (d_clocks s))"
    with st obtain cs new where t: "d_clocks t = cs @ new" "list_all2 clock_moves (d_clocks s) cs"
      and dt: "distinct (map ck_id (d_clocks t))" by (auto simp: advances_def)
    with tu obtain ds new' where u: "d_clocks u = ds @ new'" "list_all2 clock_moves (cs @ new) ds"
      and du: "distinct (map ck_id (d_clocks u))" by (auto simp: advances_def)
    from u(2) obtain d1 d2 where "ds = d1 @ d2" "list_all2 clock_moves cs d1"
      by (auto simp: list_all2_append1)
    then have "d_clocks u = d1 @ (d2 @ new')" "list_all2 clock_moves (d_clocks s) d1"
      using t(2) u(1) by (simp_all add: list_all2_moves_trans)
    with du show "distinct (map ck_id (d_clocks u)) \<and>
        (\<exists>cs new. d_clocks u = cs @ new \<and> list_all2 clock_moves (d_clocks s) cs)"
      by blast
  qed
qed

lemma put_clock_advances:
  assumes "c \<in> set (d_clocks s)" "clock_moves c c'"
  shows "advances s (put_clock c' s)"
  unfolding advances_def
proof
  assume d: "distinct (map ck_id (d_clocks s))"
  have id: "ck_id c' = ck_id c" using assms(2) by (simp add: clock_moves_def)
  have "x = c" if "x \<in> set (d_clocks s)" "ck_id x = ck_id c" for x
    using d assms(1) that by (auto simp: distinct_map inj_on_def)
  then have "list_all2 clock_moves (d_clocks s) (d_clocks (put_clock c' s))"
    using assms(2) by (auto simp: put_clock_def upd_where_def list_all2_map2 id intro!: list.rel_refl_strong)
  moreover have "map ck_id (d_clocks (put_clock c' s)) = map ck_id (d_clocks s)"
    by (auto simp: put_clock_def upd_where_def)
  ultimately show "distinct (map ck_id (d_clocks (put_clock c' s))) \<and>
      (\<exists>cs new. d_clocks (put_clock c' s) = cs @ new \<and> list_all2 clock_moves (d_clocks s) cs)"
    using d by auto
qed

lemma add_clock_advances: "ck_id c = next_id ck_id (d_clocks s) \<Longrightarrow> advances s (add_clock c s)"
proof -
  assume id: "ck_id c = next_id ck_id (d_clocks s)"
  have "ck_id c \<notin> ck_id ` set (d_clocks s)"
    using next_id_fresh [where key = ck_id and rs = "d_clocks s"] id by fastforce
  then show ?thesis
    unfolding advances_def by (auto simp: add_clock_def intro: moves_self)
qed

lemma writeback_advances: "keeps advances (writeback env t p pk c now)"
  unfolding writeback_def Let_def by (intro clocks.keeps clocks.keeps_update)

lemma bind_mod_advances:
  "advances s (h s) \<Longrightarrow> keeps advances m \<Longrightarrow> advances s (snd (bindC (modC h) (\<lambda>_. m) s))"
  by (auto simp: comp_simps keeps_def intro: clocks.trans)

lemma apply_policy_advances: "keeps advances (apply_policy env t p event pk r)"
  unfolding apply_policy_def Let_def
proof (rule keeps_dep)
  fix s
  let ?now = "e_now env" and ?g = "\<lambda>a. if a then classify p (status_value p t r) else None"
  show "advances s (snd ((if event = ''delete''
      then case clock_of s p (t_phys_name t) pk of None \<Rightarrow> retC ()
           | Some c \<Rightarrow> whenC (ck_state c = RUNNING \<or> ck_state c = PAUSED) (modC (put_clock (end_clock c ?now)))
      else bindC (liftC (sla_applies p t r)) (\<lambda>applies.
        case clock_of s p (t_phys_name t) pk of
          None \<Rightarrow>
            if applies \<and> (?g applies = Some Run \<or> ?g applies = Some Pause) \<and> (event \<noteq> ''create'' \<or> sp_start_on_create p)
            then bindC (getC (\<lambda>s. new_clock s p (t_phys_name t) pk ?now)) (\<lambda>c0.
                   bindC (modC (add_clock (if ?g applies = Some Pause then pause_clock (start_clock c0 p ?now) ?now
                      else start_clock c0 p ?now)))
                     (\<lambda>_. writeback env t p pk (if ?g applies = Some Pause then pause_clock (start_clock c0 p ?now) ?now
                      else start_clock c0 p ?now) ?now))
            else retC ()
        | Some c \<Rightarrow> bindC (modC (put_clock (move_clock (?g applies) ?now c)))
            (\<lambda>_. writeback env t p pk (move_clock (?g applies) ?now c) ?now))) s))"
  proof (cases "clock_of s p (t_phys_name t) pk")
    case None
    have "advances s (snd (bindC (getC (\<lambda>s. new_clock s p (t_phys_name t) pk ?now)) (\<lambda>c0.
        bindC (modC (add_clock (if b then pause_clock (start_clock c0 p ?now) ?now else start_clock c0 p ?now)))
          (\<lambda>_. writeback env t p pk (if b then pause_clock (start_clock c0 p ?now) ?now
             else start_clock c0 p ?now) ?now)) s))" for b
      unfolding bindC_get(1)
      by (intro bind_mod_advances add_clock_advances writeback_advances)
        (simp add: new_clock_def start_clock_def pause_clock_def)
    with None show ?thesis
      by (cases "sla_applies p t r") (auto simp: bindC_def comp_simps clocks.refl)
  next
    case (Some c)
    then have c: "c \<in> set (d_clocks s)" by (auto simp: clock_of_def dest: find_Some_set)
    have "advances s (snd (bindC (modC (put_clock (move_clock g ?now c)))
        (\<lambda>_. writeback env t p pk (move_clock g ?now c) ?now) s))" for g
      by (intro bind_mod_advances put_clock_advances [OF c] move_clock_moves writeback_advances)
    moreover have "advances s (snd (whenC (ck_state c = RUNNING \<or> ck_state c = PAUSED)
        (modC (put_clock (end_clock c ?now))) s))"
      by (auto simp: whenC_def comp_simps clocks.refl intro!: put_clock_advances [OF c] end_clock_moves)
    ultimately show ?thesis using Some
      by (cases "sla_applies p t r") (simp_all add: bindC_def comp_simps clocks.refl)
  qed
qed

lemma sla_event_moves: "keeps advances (sla_event env t event pk old)"
  unfolding sla_event_def
  by (intro clocks.keeps clocks.keeps_get apply_policy_advances clocks.keeps_notif)

text \<open>
  C2: A record event moves every clock along the edges of the state machine only, leaves a
  terminal clock as it is, and removes none.
\<close>

theorem sla_event_advances: "keeps advances (sla_event env t event pk old)"
  by (rule sla_event_moves)


text \<open>
  SLA handling never breaks the write: when the record's table can be read, the handler
  returns whatever a policy raises.
\<close>

theorem sla_event_never_raises:
  assumes "dget (d_phys s) (t_phys_name t) \<noteq> None"
  shows "\<exists>s'. sla_event env t event pk old s = (Inr (), s')"
proof -
  have each: "raise_free (eachC (\<lambda>p. tryC (apply_policy env t p event pk r)
      (\<lambda>e. add_notifC (sla_error env (t_phys_name t) pk e))) ps)" for r ps
    by (intro raise_free_each raise_free_try raise_free_notif)
  show ?thesis
    using row_or_empty_raise_free [OF assms] raise_freeE [OF each]
    by (auto simp: sla_event_def comp_simps bindC_Inr)
qed

theorem sla_event_never_raises_witness:
  "\<exists>s'. sla_event plain_env sample_table ''update'' (VInt 1) None sample_db = (Inr (), s')"
  by (rule sla_event_never_raises) (simp add: sample_db_def sample_table_def dget_Cons)

subsection \<open>The sweep\<close>

text \<open>
  The escalation chain of a breached clock fires at most one level per pass, the next one
  in order, and only when its delay after the breach has passed; otherwise the clocks are as
  before.
\<close>

theorem chain_fires_in_order:
  assumes "chain_clock env now i (n, s) = (Inr m, s')" and "m \<noteq> n"
  shows "\<exists>c p b after. get_clock s i = Some c \<and> get_policy s (ck_policy_id c) = Some p \<and>
    ck_breached_at c = Some b \<and> ck_escalation_level c < int (length (escalation_levels p)) \<and>
    m = n + 1 \<and> b + after * usec_per_min \<le> now \<and>
    (let av = rget (escalation_levels p ! nat (ck_escalation_level c)) ''after_minutes'' in
       (if truthy av then py_int av else Inr 0) = Inr after)"
  using assms
  by (auto simp: chain_clock_def Let_def split: option.splits if_splits sum.splits prod.splits)

definition sample_policy :: sla_policy where
  "sample_policy = \<lparr>sp_id = 1, sp_table_id = 1, sp_name = ''P1'', sp_active = True, sp_target_minutes = 60,
     sp_warn_minutes = Some 10, sp_status_field_id = None, sp_start_on_create = True, sp_start_states = None,
     sp_pause_states = None, sp_stop_states = None, sp_cond_field_id = None, sp_cond_op = None,
     sp_cond_value = None, sp_state_field_id = Some 1, sp_due_field_id = None, sp_breach_in_app = False,
     sp_breach_notify_target = None, sp_breach_notify_user_id = None, sp_breach_message = None,
     sp_breach_email_to = Some ''boss@example.org'', sp_breach_email_subject = None,
     sp_breach_email_body = None, sp_breach_set_field_id = None, sp_breach_set_value = None,
     sp_escalations = JEmpty\<rparr>"

definition sla_db :: db where
  "sla_db = sample_db\<lparr>d_tables := [sample_table], d_policies := [sample_policy],
     d_clocks := [sample_clock RUNNING (Some 5)]\<rparr>"

definition mail_env :: env where
  "mail_env = plain_env\<lparr>e_testing := False, e_config := (\<lambda>_. VStr ''smtp'')\<rparr>"

theorem chain_fires_in_order_witness:
  "\<exists>c p b after. get_clock (sla_db\<lparr>d_clocks := [(sample_clock BREACHED (Some 5))\<lparr>ck_breached_at := Some 5\<rparr>],
      d_policies := [sample_policy\<lparr>sp_escalations := JDoc (VList [VDict [(''email_to'', VStr ''a@b.c'')]])\<rparr>]\<rparr>) 1 = Some c \<and>
    get_policy (sla_db\<lparr>d_clocks := [(sample_clock BREACHED (Some 5))\<lparr>ck_breached_at := Some 5\<rparr>],
      d_policies := [sample_policy\<lparr>sp_escalations := JDoc (VList [VDict [(''email_to'', VStr ''a@b.c'')]])\<rparr>]\<rparr>)
      (ck_policy_id c) = Some p \<and>
    ck_breached_at c = Some b \<and> ck_escalation_level c < int (length (escalation_levels p)) \<and>
    (1::int) = 0 + 1 \<and> b + after * usec_per_min \<le> 6 \<and>
    (let av = rget (escalation_levels p ! nat (ck_escalation_level c)) ''after_minutes'' in
       (if truthy av then py_int av else Inr 0) = Inr after)"
proof (rule chain_fires_in_order)
  let ?s = "sla_db\<lparr>d_clocks := [(sample_clock BREACHED (Some 5))\<lparr>ck_breached_at := Some 5\<rparr>],
      d_policies := [sample_policy\<lparr>sp_escalations := JDoc (VList [VDict [(''email_to'', VStr ''a@b.c'')]])\<rparr>]\<rparr>"
  show "chain_clock mail_env 6 1 (0, ?s) = (Inr 1, snd (chain_clock mail_env 6 1 (0, ?s)))"
    by code_simp
qed simp

text \<open>
  ``Escalate once'' fails with the write-back: when writing the state to the record raises
  (here the state field has no column), the rollback forgets the breach, the mail is already
  out, and every further sweep sends it again.
\<close>

theorem sweep_resends:
  "let sweep = (\<lambda>s. snd (run_breach_sweep mail_env 10 s)); s2 = sweep (sweep sla_db) in
     d_outbox s2 = [Mail ''boss@example.org'' ''SLA breached'' [], Mail ''boss@example.org'' ''SLA breached'' []] \<and>
     map ck_state (d_clocks s2) = [RUNNING]"
  by code_simp

text \<open>
  A level of the chain whose delay is not a number ends the whole sweep with an exception:
  the conversion stands before the \<open>try\<close>.
\<close>

theorem sweep_stopped_by_bad_level:
  "fst (run_breach_sweep mail_env 10 (sla_db\<lparr>
     d_clocks := [(sample_clock BREACHED (Some 5))\<lparr>ck_breached_at := Some 5\<rparr>],
     d_policies := [sample_policy\<lparr>sp_escalations :=
        JDoc (VList [VDict [(''after_minutes'', VStr ''soon'')]])\<rparr>]\<rparr>)) = Inl (ValueErr ''soon'')"
  by code_simp

end
