(* ===== verification/Jobs.thy ===== *)
theory Jobs
  imports Models
begin

text \<open>
  \<open>app/jobs.py\<close>: the claim of a scheduled job. The UPDATE is one atomic step over the rows of
  the model, so workers that race for a job are a sequence of claims in some order. The
  locale \<open>schedulable\<close> is what the claim needs of a model class: an id, a last-run stamp and
  the assignment of the stamp. Triggers, feeds, pull sources, mailboxes, recurring records and reports
  have them.

  Shown: of the claims of one job, in any order of their clocks, each winner ran at least the
  schedule after the winner before it; a job that is due is won by the first to claim it.
\<close>

definition claim_cutoff :: "int \<Rightarrow> int \<Rightarrow> int" where
  "claim_cutoff minutes now = now - minutes * usec_per_min"

definition is_due :: "('r \<Rightarrow> int option) \<Rightarrow> int \<Rightarrow> int \<Rightarrow> 'r \<Rightarrow> bool" where
  "is_due lastrun minutes now r =
     (case lastrun r of None \<Rightarrow> True | Some t \<Rightarrow> t \<le> claim_cutoff minutes now)"

definition claim_due ::
  "('r \<Rightarrow> int) \<Rightarrow> ('r \<Rightarrow> int option) \<Rightarrow> (int \<Rightarrow> 'r \<Rightarrow> 'r) \<Rightarrow> 'r list \<Rightarrow> int \<Rightarrow> int option \<Rightarrow> int \<Rightarrow>
     bool \<times> 'r list" where
  "claim_due key lastrun stamp rows i minutes now =
     (case minutes of None \<Rightarrow> (False, rows)
      | Some m \<Rightarrow>
        if m \<le> 0 then (False, rows)
        else
          let hit = (\<lambda>r. key r = i \<and> is_due lastrun m now r);
              rowcount = length (filter hit rows)
          in (rowcount = 1, upd_where hit (stamp now) rows))"

definition claim_trigger :: "db \<Rightarrow> int \<Rightarrow> int option \<Rightarrow> int \<Rightarrow> bool \<times> db" where
  "claim_trigger s i minutes now =
     (case claim_due tr_id tr_last_run_at (\<lambda>t. tr_last_run_at_update (\<lambda>_. Some t))
             (d_triggers s) i minutes now of
        (won, rows) \<Rightarrow> (won, s\<lparr>d_triggers := rows\<rparr>))"

definition claim_feed :: "db \<Rightarrow> int \<Rightarrow> int option \<Rightarrow> int \<Rightarrow> bool \<times> db" where
  "claim_feed s i minutes now =
     (case claim_due fd_id fd_last_run_at (\<lambda>t. fd_last_run_at_update (\<lambda>_. Some t))
             (d_feeds s) i minutes now of
        (won, rows) \<Rightarrow> (won, s\<lparr>d_feeds := rows\<rparr>))"

definition claim_pull :: "db \<Rightarrow> int \<Rightarrow> int option \<Rightarrow> int \<Rightarrow> bool \<times> db" where
  "claim_pull s i minutes now =
     (case claim_due pu_id pu_last_run_at (\<lambda>t. pu_last_run_at_update (\<lambda>_. Some t))
             (d_pulls s) i minutes now of
        (won, rows) \<Rightarrow> (won, s\<lparr>d_pulls := rows\<rparr>))"

definition claim_mailbox :: "db \<Rightarrow> int \<Rightarrow> int option \<Rightarrow> int \<Rightarrow> bool \<times> db" where
  "claim_mailbox s i minutes now =
     (case claim_due mb_id mb_last_run_at (\<lambda>t. mb_last_run_at_update (\<lambda>_. Some t))
             (d_mailboxes s) i minutes now of
        (won, rows) \<Rightarrow> (won, s\<lparr>d_mailboxes := rows\<rparr>))"

definition claim_recurring :: "db \<Rightarrow> int \<Rightarrow> int option \<Rightarrow> int \<Rightarrow> bool \<times> db" where
  "claim_recurring s i minutes now =
     (case claim_due rr_id rr_last_run_at (\<lambda>t. rr_last_run_at_update (\<lambda>_. Some t))
             (d_recurring s) i minutes now of
        (won, rows) \<Rightarrow> (won, s\<lparr>d_recurring := rows\<rparr>))"

definition claim_report :: "db \<Rightarrow> int \<Rightarrow> int option \<Rightarrow> int \<Rightarrow> bool \<times> db" where
  "claim_report s i minutes now =
     (case claim_due rd_id rd_last_run_at (\<lambda>t. rd_last_run_at_update (\<lambda>_. Some t))
             (d_reports s) i minutes now of
        (won, rows) \<Rightarrow> (won, s\<lparr>d_reports := rows\<rparr>))"

subsection \<open>Claims over any model class\<close>

text \<open>A worker claims the job at each of the times in turn; the winners' times are logged.\<close>

fun claims ::
  "('r \<Rightarrow> int) \<Rightarrow> ('r \<Rightarrow> int option) \<Rightarrow> (int \<Rightarrow> 'r \<Rightarrow> 'r) \<Rightarrow> 'r list \<Rightarrow> int \<Rightarrow> int \<Rightarrow> int list \<Rightarrow> int list"
where
  "claims key lastrun stamp rows i m [] = []"
| "claims key lastrun stamp rows i m (t # ts) =
     (case claim_due key lastrun stamp rows i (Some m) t of
        (won, rows') \<Rightarrow> (if won then [t] else []) @ claims key lastrun stamp rows' i m ts)"

text \<open>Successive elements lie at least \<open>gap\<close> apart.\<close>

fun spaced :: "int \<Rightarrow> int list \<Rightarrow> bool" where
  "spaced gap (x # y # r) = (x + gap \<le> y \<and> spaced gap (y # r))"
| "spaced gap _ = True"

lemma spaced_Cons: "spaced gap (x # xs) \<longleftrightarrow> (xs \<noteq> [] \<longrightarrow> x + gap \<le> hd xs) \<and> spaced gap xs"
  by (cases xs) auto

locale schedulable =
  fixes key :: "'r \<Rightarrow> int" and lastrun :: "'r \<Rightarrow> int option" and stamp :: "int \<Rightarrow> 'r \<Rightarrow> 'r"
  assumes key_stamp: "key (stamp t r) = key r"
    and lastrun_stamp: "lastrun (stamp t r) = Some t"
begin

definition stamped :: "'r list \<Rightarrow> int \<Rightarrow> int \<Rightarrow> bool" where
  "stamped rows i t = (distinct (map key rows) \<and> (\<forall>r\<in>set rows. key r = i \<longrightarrow> lastrun r = Some t))"

lemma keys_claim: "map key (snd (claim_due key lastrun stamp rows i m now)) = map key rows"
  by (auto simp: claim_due_def upd_where_def key_stamp Let_def split: option.splits)

lemma filter_key_single:
  "distinct (map key rows) \<Longrightarrow> length (filter (\<lambda>r. key r = i \<and> P r) rows) \<le> 1"
proof (induction rows)
  case (Cons r rows)
  show ?case
  proof (cases "key r = i \<and> P r")
    case True
    with Cons.prems have "filter (\<lambda>r. key r = i \<and> P r) rows = []"
      by (simp add: filter_empty_conv) (metis image_eqI)
    with True show ?thesis by simp
  qed (use Cons in auto)
qed simp

lemma won_stamps:
  assumes "distinct (map key rows)" "claim_due key lastrun stamp rows i (Some m) now = (won, rows')"
    and "won"
  shows "stamped rows' i now"
proof -
  let ?hit = "\<lambda>r. key r = i \<and> is_due lastrun m now r"
  from assms(2,3) have rows': "rows' = upd_where ?hit (stamp now) rows"
    and one: "length (filter ?hit rows) = 1"
    by (auto simp: claim_due_def Let_def split: if_splits)
  from one have "filter ?hit rows \<noteq> []" by (metis list.size(3) zero_neq_one)
  then obtain r where r: "r \<in> set rows" "?hit r" by (auto simp: filter_empty_conv)
  have only: "x = r" if "x \<in> set rows" "key x = i" for x
    using assms(1) that r by (auto simp: distinct_map inj_on_def)
  have "lastrun x = Some now" if x: "x \<in> set rows'" "key x = i" for x
  proof -
    from x(1) obtain y where y: "y \<in> set rows" "x = (if ?hit y then stamp now y else y)"
      by (auto simp: rows' upd_where_def)
    with x(2) have "key y = i" by (auto simp: key_stamp split: if_splits)
    with only y r(2) show ?thesis by (auto simp: lastrun_stamp)
  qed
  moreover have "distinct (map key rows')"
    using assms(1,2) keys_claim [of rows i "Some m" now] by simp
  ultimately show ?thesis by (simp add: stamped_def)
qed

lemma stamped_claim:
  assumes "stamped rows i t" "claim_due key lastrun stamp rows i (Some m) now = (won, rows')"
  shows "won \<Longrightarrow> t + m * usec_per_min \<le> now" and "\<not> won \<Longrightarrow> stamped rows' i t"
proof -
  let ?hit = "\<lambda>r. key r = i \<and> is_due lastrun m now r"
  show "t + m * usec_per_min \<le> now" if won
  proof -
    from assms(2) that have "length (filter ?hit rows) = 1"
      by (auto simp: claim_due_def Let_def split: if_splits)
    then have "filter ?hit rows \<noteq> []" by (metis list.size(3) zero_neq_one)
    then obtain r where "r \<in> set rows" "?hit r" by (auto simp: filter_empty_conv)
    with assms(1) show ?thesis by (auto simp: stamped_def is_due_def claim_cutoff_def)
  qed
  show "stamped rows' i t" if "\<not> won"
  proof (cases "m \<le> 0")
    case True
    with assms show ?thesis by (auto simp: claim_due_def Let_def)
  next
    case False
    with assms(2) that have "length (filter ?hit rows) \<noteq> 1"
      and rows': "rows' = upd_where ?hit (stamp now) rows"
      by (auto simp: claim_due_def Let_def)
    moreover have "length (filter ?hit rows) \<le> 1"
      using assms(1) filter_key_single by (simp add: stamped_def)
    ultimately have "filter ?hit rows = []" by (cases "filter ?hit rows") auto
    then have "rows' = rows" by (auto simp: rows' filter_empty_conv intro: upd_where_none)
    with assms(1) show ?thesis by simp
  qed
qed

lemma claims_after_stamp:
  "stamped rows i t \<Longrightarrow> spaced (m * usec_per_min) (t # claims key lastrun stamp rows i m ts)"
proof (induction ts arbitrary: rows t)
  case (Cons u ts)
  obtain won rows' where c: "claim_due key lastrun stamp rows i (Some m) u = (won, rows')"
    by fastforce
  show ?case
  proof (cases won)
    case True
    have "distinct (map key rows)" using Cons.prems by (simp add: stamped_def)
    with won_stamps [OF _ c True] stamped_claim(1) [OF Cons.prems c True] Cons.IH [of rows' u] True
    show ?thesis by (simp add: c)
  next
    case False
    with stamped_claim(2) [OF Cons.prems c False] Cons.IH [of rows' t] show ?thesis
      by (simp add: c)
  qed
qed simp

lemma claims_spaced:
  "distinct (map key rows) \<Longrightarrow> spaced (m * usec_per_min) (claims key lastrun stamp rows i m ts)"
proof (induction ts arbitrary: rows)
  case (Cons u ts)
  obtain won rows' where c: "claim_due key lastrun stamp rows i (Some m) u = (won, rows')"
    by fastforce
  have "distinct (map key rows')" using Cons.prems keys_claim [of rows i "Some m" u] by (simp add: c)
  with Cons.IH [of rows'] won_stamps [OF Cons.prems c] claims_after_stamp [of rows' i u m ts]
  show ?case by (auto simp: c)
qed simp

lemma due_is_won:
  assumes "distinct (map key rows)" "r \<in> set rows" "key r = i" "is_due lastrun m now r" "0 < m"
  shows "fst (claim_due key lastrun stamp rows i (Some m) now)"
proof -
  let ?hit = "\<lambda>r. key r = i \<and> is_due lastrun m now r"
  have "filter ?hit rows \<noteq> []" using assms by (auto simp: filter_empty_conv)
  moreover have "length (filter ?hit rows) \<le> 1" using assms(1) by (rule filter_key_single)
  ultimately have "length (filter ?hit rows) = 1" by (cases "filter ?hit rows") auto
  with assms(5) show ?thesis by (simp add: claim_due_def Let_def)
qed

end

interpretation tr: schedulable tr_id tr_last_run_at "\<lambda>t. tr_last_run_at_update (\<lambda>_. Some t)"
  by unfold_locales simp_all

interpretation fd: schedulable fd_id fd_last_run_at "\<lambda>t. fd_last_run_at_update (\<lambda>_. Some t)"
  by unfold_locales simp_all

interpretation pu: schedulable pu_id pu_last_run_at "\<lambda>t. pu_last_run_at_update (\<lambda>_. Some t)"
  by unfold_locales simp_all

interpretation mb: schedulable mb_id mb_last_run_at "\<lambda>t. mb_last_run_at_update (\<lambda>_. Some t)"
  by unfold_locales simp_all

interpretation rr: schedulable rr_id rr_last_run_at "\<lambda>t. rr_last_run_at_update (\<lambda>_. Some t)"
  by unfold_locales simp_all

interpretation rd: schedulable rd_id rd_last_run_at "\<lambda>t. rd_last_run_at_update (\<lambda>_. Some t)"
  by unfold_locales simp_all

abbreviation trigger_claims :: "db \<Rightarrow> int \<Rightarrow> int \<Rightarrow> int list \<Rightarrow> int list" where
  "trigger_claims s \<equiv> claims tr_id tr_last_run_at (\<lambda>t. tr_last_run_at_update (\<lambda>_. Some t)) (d_triggers s)"



lemma claim_trigger_due:
  assumes "distinct (map tr_id (d_triggers s))"
    and "r \<in> set (d_triggers s)" "tr_id r = i" "is_due tr_last_run_at m now r" "0 < m"
  shows "fst (claim_trigger s i (Some m) now)"
  using tr.due_is_won [OF assms] by (simp add: claim_trigger_def case_prod_unfold)

lemma claim_feed_due:
  assumes "distinct (map fd_id (d_feeds s))"
    and "r \<in> set (d_feeds s)" "fd_id r = i" "is_due fd_last_run_at m now r" "0 < m"
  shows "fst (claim_feed s i (Some m) now)"
  using fd.due_is_won [OF assms] by (simp add: claim_feed_def case_prod_unfold)

end
