(* ===== verification/Feeds.thy ===== *)
theory Feeds
  imports Triggers Jobs
begin

text \<open>
  \<open>app/connectors.py\<close> and \<open>app/feeds.py\<close>: changed records go to a peer instance, on
  an event, on a schedule (rows above a watermark) or by hand. The HTTP transport is the
  environment's; under TESTING with the default transport nothing is sent.

  Shown: a feed never breaks the write; the loop guard keeps writes that came through the API
  at home; a scheduled run leaves the watermark at the highest id pushed, whatever the peer
  answered, and raises on a table whose key is not called \<open>id\<close>.
\<close>

subsection \<open>The peer\<close>

definition api_base :: "connection \<Rightarrow> pystr" where
  "api_base c = rstrip_by (\<lambda>x. x = CHR ''/'') (cn_base_url c) @ ''/api/v1''"

text \<open>The answer's JSON; text that does not parse is wrapped, an empty answer is \<^const>\<open>VNone\<close>.\<close>

definition body_data :: "env \<Rightarrow> pystr \<Rightarrow> pyval" where
  "body_data env text = (if text = [] then VNone
     else case e_loads env text of JDoc v \<Rightarrow> v | _ \<Rightarrow> VDict [(''raw'', VStr (take 300 text))])"

definition request_headers :: "connection \<Rightarrow> bool \<Rightarrow> row" where
  "request_headers c json = [(''Authorization'', VStr (''Bearer '' @ text_or (cn_token c) [])),
     (''Accept'', VStr ''application/json'')] @
     (if json then [(''Content-Type'', VStr ''application/json'')] else [])"

definition request ::
  "env \<Rightarrow> connection \<Rightarrow> pystr \<Rightarrow> pystr \<Rightarrow> (pystr \<times> pystr) list \<Rightarrow> pyval option \<Rightarrow> pystr + int \<times> pyval" where
  "request env c meth path params payload =
     (let url = api_base c @ path @ (if params = [] then [] else ''?'' @ e_urlencode env params) in
      case e_http env meth url (request_headers c (payload \<noteq> None)) (map_option json_dumps payload) of
        Inl err \<Rightarrow> Inl err
      | Inr (status, text) \<Rightarrow> Inr (status, body_data env text))"

subsection \<open>Reading from a peer\<close>

text \<open>\<open>ping\<close>; a list of tables that is not one of objects with a name raises.\<close>

fun table_names :: "pyval list \<Rightarrow> exn + pyval list" where
  "table_names [] = Inr []"
| "table_names (v # vs) = (case v of
     VDict d \<Rightarrow> (case dget d ''name'' of
        None \<Rightarrow> Inl (KeyErr ''name'')
      | Some n \<Rightarrow> (case table_names vs of Inl e \<Rightarrow> Inl e | Inr ns \<Rightarrow> Inr (n # ns)))
   | _ \<Rightarrow> Inl TypeErr)"

definition ping :: "env \<Rightarrow> connection \<Rightarrow> exn + (bool \<times> pystr \<times> pyval list)" where
  "ping env c =
     (if e_testing env then Inr (False, ''skipped (testing)'', [])
      else case request env c ''GET'' ''/'' [] None of
             Inl err \<Rightarrow> Inr (False, take 255 err, [])
           | Inr (status, VDict d) \<Rightarrow>
             (if status \<noteq> 200 then Inr (False, ''HTTP '' @ str_int status, [])
              else case (case dget d ''tables'' of None \<Rightarrow> VList [] | Some v \<Rightarrow> v) of
                     VList vs \<Rightarrow> (case table_names vs of
                        Inl e \<Rightarrow> Inl e | Inr ns \<Rightarrow> Inr (True, ''OK'', ns))
                   | VDict [] \<Rightarrow> Inr (True, ''OK'', [])
                   | VStr [] \<Rightarrow> Inr (True, ''OK'', [])
                   | _ \<Rightarrow> Inl TypeErr)
           | Inr (status, _) \<Rightarrow> Inr (False, ''HTTP '' @ str_int status, []))"

definition remote_fields :: "env \<Rightarrow> connection \<Rightarrow> pystr \<Rightarrow> pyval" where
  "remote_fields env c table =
     (if e_testing env then VList []
      else case request env c ''GET'' (''/'' @ table @ ''/fields'') [] None of
             Inr (status, VDict d) \<Rightarrow>
               (if status \<noteq> 200 then VList []
                else case dget d ''fields'' of None \<Rightarrow> VList [] | Some v \<Rightarrow> v)
           | _ \<Rightarrow> VList [])"

definition fetch :: "env \<Rightarrow> connection \<Rightarrow> pystr \<Rightarrow> (pystr \<times> pystr) list \<Rightarrow> int \<times> pyval" where
  "fetch env c table params =
     (if e_testing env then (0, VNone)
      else case request env c ''GET'' (''/'' @ table) params None of
             Inl err \<Rightarrow> (0, VDict [(''error'', VStr (take 255 err))])
           | Inr r \<Rightarrow> r)"

text \<open>
  \<open>fetch_url\<close>. An address that is no text raises where a query is to be added to it; without one
  the transport refuses it, which is answered like any failure of the transport.
\<close>

definition with_query :: "env \<Rightarrow> pystr \<Rightarrow> (pystr \<times> pystr) list \<Rightarrow> pystr" where
  "with_query env url params = (if params = [] then url
     else url @ (if CHR ''?'' \<in> set url then ''&'' else ''?'') @ e_urlencode env params)"

definition url_headers :: "row \<Rightarrow> bool \<Rightarrow> row" where
  "url_headers headers body =
     (let h = dupdate [(''Accept'', VStr ''application/json'')] headers
      in if body \<and> \<not> dhas h ''Content-Type'' then dset ''Content-Type'' (VStr ''application/json'') h else h)"

definition fetch_url ::
  "env \<Rightarrow> pyval \<Rightarrow> row \<Rightarrow> (pystr \<times> pystr) list \<Rightarrow> pystr \<Rightarrow> pystr option \<Rightarrow> exn + (int \<times> pyval)" where
  "fetch_url env url headers params meth body =
     (if e_testing env then Inr (0, VNone)
      else case url of
        VStr u \<Rightarrow>
          (case e_http env meth (with_query env u params) (url_headers headers (body \<noteq> None)) body of
             Inl err \<Rightarrow> Inr (0, VDict [(''error'', VStr (take 255 err))])
           | Inr (status, text) \<Rightarrow> Inr (status, body_data env text))
      | _ \<Rightarrow> if params \<noteq> [] then Inl TypeErr else Inr (0, VDict [(''error'', VStr [])]))"

subsection \<open>Pushing to a peer\<close>

text \<open>\<open>data["data"][0].get("id")\<close> of a list answer; \<^const>\<open>None\<close> where Python raises.\<close>

definition first_id :: "pyval \<Rightarrow> pyval option" where
  "first_id v = (case v of VList (VDict d # _) \<Rightarrow> Some (rget d ''id'') | _ \<Rightarrow> None)"

definition existing_id ::
  "env \<Rightarrow> connection \<Rightarrow> pystr \<Rightarrow> row \<Rightarrow> pystr option \<Rightarrow> pystr + pyval" where
  "existing_id env c table payload match_field =
     (if filled match_field \<and> \<not> blank (rget payload (the match_field)) then
        (case request env c ''GET'' (''/'' @ table)
                [(the match_field, py_str (rget payload (the match_field)))] None of
           Inl err \<Rightarrow> Inl err
         | Inr (status, VDict d) \<Rightarrow>
           if status = 200 \<and> truthy (rget d ''data'')
           then (case first_id (rget d ''data'') of None \<Rightarrow> Inl ''answer'' | Some i \<Rightarrow> Inr i)
           else Inr VNone
         | Inr _ \<Rightarrow> Inr VNone)
      else Inr VNone)"

definition push_call ::
  "env \<Rightarrow> connection \<Rightarrow> pystr \<Rightarrow> row \<Rightarrow> pystr option \<Rightarrow> pystr + (pyval \<times> bool \<times> int \<times> pyval)" where
  "push_call env c table payload match_field =
     (case existing_id env c table payload match_field of
        Inl err \<Rightarrow> Inl err
      | Inr i \<Rightarrow>
        (case (if truthy i then request env c ''PATCH'' (''/'' @ table @ ''/'' @ py_str i) [] (Some (VDict payload))
               else request env c ''POST'' (''/'' @ table) [] (Some (VDict payload))) of
           Inl err \<Rightarrow> Inl err
         | Inr (status, data) \<Rightarrow> Inr (i, status = (if truthy i then 200 else 201), status, data)))"

record push_result =
  pr_status :: pystr
  pr_remote :: pyval
  pr_detail :: pystr

definition push ::
  "env \<Rightarrow> connection \<Rightarrow> pystr \<Rightarrow> row \<Rightarrow> pystr option \<Rightarrow> push_result comp" where
  "push env c table payload match_field s =
     (if e_testing env
      then (Inr \<lparr>pr_status = ''skipped'', pr_remote = VNone, pr_detail = ''skipped (testing)''\<rparr>, s)
      else case push_call env c table payload match_field of
             Inl err \<Rightarrow> (Inr \<lparr>pr_status = ''failed'', pr_remote = VNone, pr_detail = take 255 err\<rparr>, s)
           | Inr (i, ok, status, data) \<Rightarrow>
             (let s' = s\<lparr>d_outbox := d_outbox s @ [Hook (api_base c @ ''/'' @ table) (VDict payload)]\<rparr> in
              if ok then
                (case (if truthy data then data else VDict []) of
                   VDict d \<Rightarrow> (Inr \<lparr>pr_status = ''sent'',
                      pr_remote = (case dget d ''id'' of None \<Rightarrow> i | Some v \<Rightarrow> v),
                      pr_detail = ''HTTP '' @ str_int status\<rparr>, s')
                 | _ \<Rightarrow> (Inl TypeErr, s'))
              else
                (let err = (case data of VDict d \<Rightarrow> rget d ''error'' | _ \<Rightarrow> VNone) in
                 (Inr \<lparr>pr_status = ''failed'', pr_remote = i,
                    pr_detail = py_strip (''HTTP '' @ str_int status @ '': '' @
                      (if truthy err then py_str err else []))\<rparr>, s'))))"

subsection \<open>One feed\<close>

definition feed_matcher :: "feed \<Rightarrow> matcher" where
  "feed_matcher f = \<lparr>ma_event = fd_event f, ma_field_id = fd_field_id f,
     ma_from_state = fd_from_state f, ma_to_state = fd_to_state f,
     ma_cond_field_id = fd_cond_field_id f, ma_cond_op = fd_cond_op f, ma_cond_value = fd_cond_value f\<rparr>"

fun payload_of :: "row \<Rightarrow> pyval list \<Rightarrow> row \<Rightarrow> exn + row" where
  "payload_of r [] acc = Inr acc"
| "payload_of r (m # ms) acc = (case m of
     VDict d \<Rightarrow>
       (let target = rget d ''target''; source = rget d ''source'' in
        if \<not> truthy target \<or> blank source then payload_of r ms acc
        else case target of
               VStr k \<Rightarrow>
                 if CHR 0x7B \<in> set (py_str source)
                 then (case source of
                         VStr t \<Rightarrow> payload_of r ms (dset k (VStr (render (Some t) r)) acc)
                       | _ \<Rightarrow> Inl TypeErr)
                 else payload_of r ms (dset k (case source of VStr c \<Rightarrow> rget r c | _ \<Rightarrow> VNone) acc)
             | _ \<Rightarrow> Inl TypeErr)
   | _ \<Rightarrow> Inl TypeErr)"

definition build_payload :: "feed \<Rightarrow> row \<Rightarrow> exn + row" where
  "build_payload f r = (case loads_or (VList []) (fd_field_map f) of
     None \<Rightarrow> Inl (ValueErr ''json'') | Some v \<Rightarrow> payload_of r (as_list v) [])"

definition none_if_empty :: "pystr \<Rightarrow> pystr option" where
  "none_if_empty t = (if t = [] then None else Some t)"

definition feed_log ::
  "feed \<Rightarrow> pystr \<Rightarrow> pystr \<Rightarrow> row \<Rightarrow> pyval \<Rightarrow> pystr \<Rightarrow> notification" where
  "feed_log f stat target payload pk det = (new_notif ''feed'' stat)\<lparr>n_event := Some ''feed'',
     n_table_phys := Some (fd_target_table f), n_row_pk := pk, n_target := none_if_empty (take 400 target),
     n_subject := clip 255 (fd_name f),
     n_body := (if payload = [] then None else Some (json_dumps (VDict payload))),
     n_detail := none_if_empty (take 300 det)\<rparr>"

definition get_conn :: "db \<Rightarrow> int \<Rightarrow> connection option" where
  "get_conn s i = find (\<lambda>c. cn_id c = i) (d_conns s)"

definition feed_run_one :: "env \<Rightarrow> feed \<Rightarrow> row \<Rightarrow> pystr comp" where
  "feed_run_one env f r =
     bindC (getC (\<lambda>s. get_conn s (fd_connection_id f))) (\<lambda>conn.
     case (case conn of None \<Rightarrow> None | Some c \<Rightarrow> if cn_active c then Some c else None) of
       None \<Rightarrow> bindC (add_notifC (feed_log f ''skipped'' [] [] (rget r ''id'')
                  ''connection missing or inactive'')) (\<lambda>_. retC ''skipped'')
     | Some c \<Rightarrow>
       bindC (liftC (build_payload f r)) (\<lambda>payload.
       bindC (push env c (fd_target_table f) payload
                (if fd_mode f = ''upsert'' then fd_match_target_field f else None)) (\<lambda>res.
       bindC (add_notifC (feed_log f (pr_status res) (cn_base_url c @ '' -> '' @ fd_target_table f) payload
                (rget r ''id'') (pr_detail res @ '' remote_id='' @ py_str (pr_remote res)))) (\<lambda>_.
       retC (pr_status res)))))"

subsection \<open>Events, by hand, on a schedule\<close>

definition feeds_for :: "db \<Rightarrow> int \<Rightarrow> pystr list \<Rightarrow> feed list" where
  "feeds_for s table_id events = sort_key fd_id
     (filter (\<lambda>f. fd_source_table_id f = table_id \<and> fd_active f \<and>
        (case fd_event f of None \<Rightarrow> False | Some e \<Rightarrow> e \<in> set events)) (d_feeds s))"

definition feed_event_one ::
  "env \<Rightarrow> meta_table \<Rightarrow> pystr \<Rightarrow> pyval \<Rightarrow> row option \<Rightarrow> row \<Rightarrow> feed \<Rightarrow> unit comp" where
  "feed_event_one env t event pk old new f =
     (if e_via_api env \<and> fd_skip_api_writes f then retC ()
      else tryC (bindC (if matches (feed_matcher f) event t (old_or_empty old) new
                        then liftC (condition_ok (feed_matcher f) t new) else retC False) (\<lambda>ok.
                   if ok then bindC (feed_run_one env f new) (\<lambda>_. retC ()) else retC ()))
             (\<lambda>e. add_notifC (feed_log f ''failed'' [] [] pk (e_msg env e))))"

definition feed_event ::
  "env \<Rightarrow> meta_table \<Rightarrow> pystr \<Rightarrow> pyval \<Rightarrow> row option \<Rightarrow> unit comp" where
  "feed_event env t event pk old =
     bindC (getC (\<lambda>s. feeds_for s (t_id t) (events_of event))) (\<lambda>fs.
       if fs = [] then retC ()
       else bindC (if event = ''delete'' then retC (old_or_empty old) else row_or_empty (t_phys_name t) pk) (\<lambda>new.
            eachC (feed_event_one env t event pk old new) fs))"

fun feed_manual :: "env \<Rightarrow> feed \<Rightarrow> meta_table \<Rightarrow> pyval list \<Rightarrow> pystr list comp" where
  "feed_manual env f t [] = retC []"
| "feed_manual env f t (pk # pks) =
     bindC (get_row (t_phys_name t) pk) (\<lambda>r.
       case r of
         None \<Rightarrow> feed_manual env f t pks
       | Some x \<Rightarrow> bindC (if x = [] then retC [] else bindC (feed_run_one env f x) (\<lambda>st. retC [st])) (\<lambda>sts.
                   bindC (feed_manual env f t pks) (\<lambda>rest. retC (sts @ rest))))"

definition feed_due :: "feed \<Rightarrow> int \<Rightarrow> bool" where
  "feed_due f now = (case some_id (fd_schedule_minutes f) of
     None \<Rightarrow> False
   | Some m \<Rightarrow> (case fd_last_run_at f of None \<Rightarrow> True | Some l \<Rightarrow> m * usec_per_min \<le> now - l))"

text \<open>\<open>max(r["id"] for r in rows)\<close>\<close>

fun max_id :: "row list \<Rightarrow> exn + int" where
  "max_id [] = Inl (ValueErr ''max'')"
| "max_id (r # rs) = (case dget r ''id'' of
     None \<Rightarrow> Inl (KeyErr ''id'')
   | Some (VInt i) \<Rightarrow> (if rs = [] then Inr i
        else case max_id rs of Inl e \<Rightarrow> Inl e | Inr j \<Rightarrow> Inr (max i j))
   | Some _ \<Rightarrow> Inl TypeErr)"

definition put_feed :: "int \<Rightarrow> (feed \<Rightarrow> feed) \<Rightarrow> db \<Rightarrow> db" where
  "put_feed i g s = s\<lparr>d_feeds := upd_where (\<lambda>f. fd_id f = i) g (d_feeds s)\<rparr>"

definition feed_push_rows :: "env \<Rightarrow> feed \<Rightarrow> row list \<Rightarrow> unit comp" where
  "feed_push_rows env f rows = eachC (\<lambda>r. bindC (feed_run_one env f r) (\<lambda>_. retC ())) rows"

definition feed_scheduled_one :: "env \<Rightarrow> bool \<Rightarrow> feed \<Rightarrow> int \<Rightarrow> int comp" where
  "feed_scheduled_one env only f n =
     bindC (if only then retC True
            else (\<lambda>s. case claim_feed s (fd_id f) (fd_schedule_minutes f) (e_now env) of (b, s') \<Rightarrow> (Inr b, s'))) (\<lambda>go.
     if \<not> go then retC n
     else bindC (getC (\<lambda>s. get_table s (fd_source_table_id f))) (\<lambda>mt.
       case mt of
         None \<Rightarrow> retC n
       | Some t \<Rightarrow>
         bindC (list_rows_after (t_phys_name t) (VInt (fd_watermark f)) 500) (\<lambda>rows.
         bindC (feed_push_rows env f rows) (\<lambda>_.
         bindC (if rows = [] then retC (fd_watermark f) else liftC (max_id rows)) (\<lambda>wm.
         bindC (modC (put_feed (fd_id f) (\<lambda>x. x\<lparr>fd_watermark := (if rows = [] then fd_watermark x else wm),
                                              fd_last_run_at := Some (e_now env)\<rparr>))) (\<lambda>_.
         retC (n + int (length rows))))))))"

definition feed_scheduled :: "env \<Rightarrow> int option \<Rightarrow> int comp" where
  "feed_scheduled env only =
     bindC (getC (\<lambda>s. case some_id only of
        Some i \<Rightarrow> filter (\<lambda>f. fd_id f = i) (d_feeds s)
      | None \<Rightarrow> sort_key fd_id (filter fd_active (d_feeds s)))) (\<lambda>fs.
     foldC (feed_scheduled_one env (some_id only \<noteq> None)) fs 0)"


subsection \<open>What feeds touch\<close>

context action_frame
begin

lemma keeps_push: "keeps R (push env c table payload mf)"
  by (auto simp: keeps_def push_def Let_def refl outbox split: sum.split prod.split pyval.split)

lemma keeps_feed_run_one: "keeps R (feed_run_one env f r)"
  unfolding feed_run_one_def by (auto intro!: keeps keeps_notif keeps_push)

lemma keeps_feed_push_rows: "keeps R (feed_push_rows env f rows)"
  unfolding feed_push_rows_def by (auto intro!: keeps keeps_feed_run_one)

lemma keeps_feed_event: "keeps R (feed_event env t event pk old)"
  unfolding feed_event_def feed_event_one_def
  by (auto intro!: keeps keeps_get keeps_notif keeps_feed_run_one)

end

lemma feed_event_one_raise_free: "raise_free (feed_event_one env t event pk old new f)"
  by (auto simp: feed_event_one_def)

text \<open>
  A feed never breaks the write: when the record's table can be read, the handler returns,
  whatever the peer or the feed's configuration does.
\<close>

theorem feed_event_never_raises:
  assumes "dget (d_phys s) (t_phys_name t) \<noteq> None"
  shows "\<exists>s'. feed_event env t event pk old s = (Inr (), s')"
proof -
  have each: "raise_free (eachC (feed_event_one env t event pk old new) fs)" for new fs
    by (intro raise_free_each feed_event_one_raise_free)
  show ?thesis
    using row_or_empty_raise_free [OF assms] raise_freeE [OF each]
    by (auto simp: feed_event_def comp_simps bindC_Inr)
qed

theorem feed_event_never_raises_witness:
  "\<exists>s'. feed_event plain_env sample_table ''create'' (VInt 1) None sample_db = (Inr (), s')"
  by (rule feed_event_never_raises) (simp add: sample_db_def sample_table_def dget_Cons)

text \<open>
  The loop guard: a write that came in through the API leaves nothing behind in feeds that
  skip such writes, no push and no log entry.
\<close>

theorem feed_loop_guard:
  assumes "e_via_api env" and "list_all fd_skip_api_writes (feeds_for s (t_id t) (events_of event))"
  shows "snd (feed_event env t event pk old s) = s"
proof -
  have each: "list_all fd_skip_api_writes fs \<Longrightarrow> eachC (feed_event_one env t ev pk old new) fs s = (Inr (), s)"
    for new fs ev
    by (induction fs) (simp_all add: feed_event_one_def assms(1) comp_simps)
  have read: "snd (row_or_empty (t_phys_name t) pk s) = s"
    by (simp add: row_or_empty_def get_row_def read_phys_def bindC_def retC_def split: sum.splits)
  show ?thesis
  proof (cases "row_or_empty (t_phys_name t) pk s")
    case (Pair r s1)
    with read assms(2) show ?thesis
      by (cases r) (auto simp: feed_event_def comp_simps bindC_def each)
  qed
qed

definition sample_feed :: feed where
  "sample_feed = \<lparr>fd_id = 1, fd_name = ''f'', fd_active = True, fd_source_table_id = 1,
     fd_connection_id = 1, fd_target_table = ''remote'', fd_mode = ''insert'', fd_match_target_field = None,
     fd_field_map = JDoc (VList []), fd_event = Some ''create'', fd_field_id = None, fd_from_state = None,
     fd_to_state = None, fd_cond_field_id = None, fd_cond_op = None, fd_cond_value = None,
     fd_schedule_minutes = Some 5, fd_allow_manual = True, fd_skip_api_writes = True,
     fd_last_run_at = None, fd_watermark = 0\<rparr>"

definition sample_conn :: connection where
  "sample_conn = \<lparr>cn_id = 1, cn_name = ''peer'', cn_base_url = ''http://peer'', cn_token = None,
     cn_active = True, cn_last_check_at = None, cn_last_status = None\<rparr>"

theorem feed_loop_guard_witness:
  "snd (feed_event (plain_env\<lparr>e_via_api := True\<rparr>) sample_table ''create'' (VInt 1) None
      (sample_db\<lparr>d_feeds := [sample_feed]\<rparr>)) = sample_db\<lparr>d_feeds := [sample_feed]\<rparr>"
  by (rule feed_loop_guard) (simp_all add: feeds_for_def sample_feed_def)

definition same_feeds :: "db \<Rightarrow> db \<Rightarrow> bool" where
  "same_feeds s s' \<longleftrightarrow> d_feeds s' = d_feeds s"

interpretation feeds: action_frame same_feeds
  by unfold_locales (simp_all add: same_feeds_def add_notif_def put_phys_def)

text \<open>
  A scheduled run that finishes leaves the feed's watermark at the highest id of the rows
  it took, whether the peer accepted them or not: a row is offered to the peer once.
\<close>

theorem scheduled_watermark:
  assumes "feed_scheduled_one env True f n s = (Inr m, s')"
    and "get_table s (fd_source_table_id f) = Some t"
    and "list_rows_after (t_phys_name t) (VInt (fd_watermark f)) 500 s = (Inr rows, s)" and "rows \<noteq> []"
    and "f' \<in> set (d_feeds s')" and "fd_id f' = fd_id f"
  shows "max_id rows = Inr (fd_watermark f') \<and> fd_last_run_at f' = Some (e_now env) \<and> m = n + int (length rows)"
proof -
  obtain s1 where push: "feed_push_rows env f rows s = (Inr (), s1)"
    using assms(1-4) by (auto simp: feed_scheduled_one_def comp_simps bindC_Inr elim!: bindC_InrE)
  obtain wm where wm: "max_id rows = Inr wm"
    using assms(1-4) push
    by (cases "max_id rows") (auto simp: feed_scheduled_one_def comp_simps bindC_Inr bindC_Inl)
  have "s' = put_feed (fd_id f) (\<lambda>x. x\<lparr>fd_watermark := wm, fd_last_run_at := Some (e_now env)\<rparr>) s1 \<and>
      m = n + int (length rows)"
    using assms(1-4) push wm by (auto simp: feed_scheduled_one_def comp_simps bindC_Inr)
  with assms(5,6) wm show ?thesis
    by (auto simp: put_feed_def upd_where_def split: if_splits)
qed

definition feed_db :: db where
  "feed_db = sample_db\<lparr>d_tables := [sample_table], d_feeds := [sample_feed], d_conns := [sample_conn]\<rparr>"

theorem scheduled_watermark_witness:
  "max_id [[(''id'', VInt 1), (''state'', VStr ''new'')]] = Inr 1"
proof -
  let ?s' = "snd (feed_scheduled_one plain_env True sample_feed 0 feed_db)"
  let ?f' = "sample_feed\<lparr>fd_watermark := 1, fd_last_run_at := Some 0\<rparr>"
  have "max_id [[(''id'', VInt 1), (''state'', VStr ''new'')]] = Inr (fd_watermark ?f') \<and>
      fd_last_run_at ?f' = Some (e_now plain_env) \<and> 1 = 0 + int (length [[(''id'', VInt 1), (''state'', VStr ''new'')]])"
  proof (rule scheduled_watermark)
    show "feed_scheduled_one plain_env True sample_feed 0 feed_db = (Inr 1, ?s')" by code_simp
    show "get_table feed_db (fd_source_table_id sample_feed) = Some sample_table" by code_simp
    show "list_rows_after (t_phys_name sample_table) (VInt (fd_watermark sample_feed)) 500 feed_db =
        (Inr [[(''id'', VInt 1), (''state'', VStr ''new'')]], feed_db)" by code_simp
    have "d_feeds ?s' = [?f']" by code_simp
    then show "?f' \<in> set (d_feeds ?s')" by simp
  qed (simp_all add: sample_feed_def)
  then show ?thesis by (simp add: sample_feed_def)
qed

text \<open>
  On a table whose key column has another name the scheduled run pushes its rows and then
  raises for want of \<open>id\<close>: the watermark stays, and the next run pushes the same rows again.
\<close>

theorem scheduled_needs_id:
  "let s = feed_db\<lparr>d_phys := [(''tickets'', \<lparr>ph_cols = [(''ref'', CInt, False)], ph_pk = ''ref'',
          ph_rows = [[(''ref'', VInt 1)]], ph_uniq = [], ph_next = 2\<rparr>)]\<rparr>;
       r = feed_scheduled plain_env (Some 1) s
   in fst r = Inl (KeyErr ''id'') \<and> map fd_watermark (d_feeds (snd r)) = [0] \<and> length (d_notifs (snd r)) = 1"
  by code_simp

end
