(* ===== verification/Watch.thy ===== *)
theory Watch
  imports Triggers
begin

text \<open>
  \<open>app/watch.py\<close>: watching a record, and \<open>app/comments.py\<close>: the conversation on a record. Both
  notify the accounts with a stake in it; the sets of account ids of the source are lists
  without repetition. Only ids that are whole numbers can name an account, so a creator of any
  other kind is no recipient. The ellipsis that ends a long snippet is written \<open>...\<close>.

  Shown: a change is announced to the active watchers other than the actor and to nobody else,
  and to none during maintenance; an internal note reaches no portal account, neither as a
  notification nor as mail, and the portal's view of the thread does not hold it.
\<close>

subsection \<open>Watching\<close>

definition AUDIT_COLS :: "pystr list" where
  "AUDIT_COLS = [''created_by'', ''created_at'', ''updated_by'', ''updated_at'', ''deleted_by'', ''deleted_at'']"

definition watches :: "int \<Rightarrow> pystr \<Rightarrow> pyval \<Rightarrow> watch \<Rightarrow> bool" where
  "watches uid t pk w = (wa_user_id w = uid \<and> wa_table_phys w = t \<and> wa_row_pk w = py_str pk)"

definition is_watching :: "db \<Rightarrow> int \<Rightarrow> pystr \<Rightarrow> pyval \<Rightarrow> bool" where
  "is_watching s uid t pk = list_ex (watches uid t pk) (d_watches s)"

definition toggle :: "int \<Rightarrow> pystr \<Rightarrow> pyval \<Rightarrow> db \<Rightarrow> bool \<times> db" where
  "toggle uid t pk s =
     (case find (watches uid t pk) (d_watches s) of
        Some w \<Rightarrow> (False, s\<lparr>d_watches := filter (\<lambda>x. wa_id x \<noteq> wa_id w) (d_watches s)\<rparr>)
      | None \<Rightarrow> (True, s\<lparr>d_watches := d_watches s @
          [\<lparr>wa_id = next_id wa_id (d_watches s), wa_user_id = uid, wa_table_phys = t, wa_row_pk = py_str pk\<rparr>]\<rparr>))"

definition watchers :: "db \<Rightarrow> pystr \<Rightarrow> pyval \<Rightarrow> int list" where
  "watchers s t pk = remdups (map wa_user_id
     (filter (\<lambda>w. wa_table_phys w = t \<and> wa_row_pk w = py_str pk) (d_watches s)))"

definition record_link :: "env \<Rightarrow> db \<Rightarrow> pystr \<Rightarrow> int \<Rightarrow> pyval \<Rightarrow> pystr" where
  "record_link env s path table_id pk =
     (let base = base_url env s in
      if base = [] then [] else [CHR 0x0A, CHR 0x0A] @ base @ path @ str_int table_id @ ''/'' @ py_str pk)"

text \<open>An in-app notification of an account, with mail, as watching, comments and assignment send.\<close>

definition tell :: "env \<Rightarrow> app_user \<Rightarrow> notification \<Rightarrow> pystr \<Rightarrow> pystr \<Rightarrow> unit comp" where
  "tell env u n subj body = bindC (add_notifC n) (\<lambda>_. email_userC env (Some u) subj body)"

definition person_notif :: "pystr \<Rightarrow> pyval \<Rightarrow> pystr \<Rightarrow> int \<Rightarrow> pystr \<Rightarrow> pystr \<Rightarrow> notification" where
  "person_notif t pk event uid subj body = (new_notif ''in_app'' ''unread'')\<lparr>n_table_phys := Some t,
     n_row_pk := opt_int (int_or_none pk), n_event := Some event, n_user_id := VInt uid,
     n_subject := Some subj, n_body := Some body\<rparr>"

definition actor_name :: "db \<Rightarrow> int option \<Rightarrow> pystr" where
  "actor_name s user_id = (case (case some_id user_id of None \<Rightarrow> None | Some i \<Rightarrow> get_user s i) of
     None \<Rightarrow> ''someone'' | Some u \<Rightarrow> u_username u)"

definition tell_user :: "env \<Rightarrow> (app_user \<Rightarrow> bool) \<Rightarrow> (app_user \<Rightarrow> notification \<times> pystr \<times> pystr) \<Rightarrow> int \<Rightarrow> unit comp" where
  "tell_user env allow msg uid =
     bindC (getC (\<lambda>s. get_user s uid)) (\<lambda>u. case u of
       None \<Rightarrow> retC ()
     | Some x \<Rightarrow> if is_active x \<and> allow x
                then (case msg x of (n, subj, body) \<Rightarrow> tell env x n subj body) else retC ())"

definition changed_cols :: "row \<Rightarrow> pystr list" where
  "changed_cols vs = sort_by (\<lambda>a b. text_cmp a b \<noteq> Higher) (filter (\<lambda>k. k \<notin> set AUDIT_COLS) (dkeys vs))"

definition notify_update :: "env \<Rightarrow> meta_table \<Rightarrow> pyval \<Rightarrow> row \<Rightarrow> int option \<Rightarrow> unit comp" where
  "notify_update env t pk vs user_id s =
     (if maint_active s t (e_now env) \<noteq> None then (Inr (), s)
      else
        let ids = filter (\<lambda>i. Some i \<noteq> user_id) (watchers s (t_phys_name t) pk);
            changed = changed_cols vs;
            body = actor_name s user_id @ '' changed: '' @
              (if changed = [] then ''record'' else join_with '', '' changed);
            subj = t_label t @ '' #'' @ py_str pk @ '' was updated'';
            link = record_link env s ''/u/view/'' (t_id t) pk
        in eachC (tell_user env (\<lambda>_. True) (\<lambda>u.
             (person_notif (t_phys_name t) pk ''watch'' (u_id u) subj body, subj, body @ link))) ids s)"

subsection \<open>Comments\<close>

abbreviation SNIPPET_LEN :: nat where "SNIPPET_LEN \<equiv> 140"

definition on_record :: "pystr \<Rightarrow> pyval \<Rightarrow> comment \<Rightarrow> bool" where
  "on_record t pk c = (cm_table_phys c = t \<and> cm_row_pk c = py_str pk)"

definition list_for :: "db \<Rightarrow> pystr \<Rightarrow> pyval \<Rightarrow> bool \<Rightarrow> (comment \<times> pystr) list" where
  "list_for s t pk include_internal =
     map (\<lambda>c. (c, case cm_user_id c of
            None \<Rightarrow> ''email''
          | Some i \<Rightarrow> (case get_user s i of None \<Rightarrow> ''?'' | Some u \<Rightarrow> u_username u)))
       (sort_key cm_id (filter (\<lambda>c. on_record t pk c \<and> (include_internal \<or> \<not> cm_internal c)) (d_comments s)))"

definition creator_id :: "row option \<Rightarrow> int list" where
  "creator_id r = (case r of None \<Rightarrow> [] | Some x \<Rightarrow>
     (case rget x ''created_by'' of VInt i \<Rightarrow> if i = 0 then [] else [i] | _ \<Rightarrow> []))"

definition participants :: "db \<Rightarrow> pystr \<Rightarrow> pyval \<Rightarrow> row option \<Rightarrow> int list" where
  "participants s t pk r = remdups
     (List.map_filter cm_user_id (filter (on_record t pk) (d_comments s)) @ creator_id r @ watchers s t pk)"

definition ticket_number :: "meta_table option \<Rightarrow> row option \<Rightarrow> pystr option" where
  "ticket_number t r = (case (t, r) of
     (Some mt, Some x) \<Rightarrow>
       (case find (\<lambda>f. f_data_type f = ''autonumber'') (t_fields mt) of
          None \<Rightarrow> None
        | Some f \<Rightarrow> let v = rget x (f_phys_name f) in if blank v then None else Some (py_str v))
   | _ \<Rightarrow> None)"

definition add_comment_row :: "pystr \<Rightarrow> pyval \<Rightarrow> app_user option \<Rightarrow> pystr \<Rightarrow> bool \<Rightarrow> db \<Rightarrow> comment" where
  "add_comment_row t pk u body internal s = \<lparr>cm_id = next_id cm_id (d_comments s), cm_table_phys = t,
     cm_row_pk = py_str pk, cm_user_id = map_option u_id u, cm_body = body, cm_internal = internal\<rparr>"

definition comment_link :: "env \<Rightarrow> db \<Rightarrow> meta_table option \<Rightarrow> pyval \<Rightarrow> app_user \<Rightarrow> pystr" where
  "comment_link env s t pk u = (case t of
     None \<Rightarrow> []
   | Some mt \<Rightarrow> record_link env s (if u_role u = role_portal then ''/portal/ticket/'' else ''/u/view/'') (t_id mt) pk)"

text \<open>The loop over the recipients; \<open>s0\<close> is the state the thread was read in.\<close>

definition tell_participants ::
  "env \<Rightarrow> db \<Rightarrow> pystr \<Rightarrow> pyval \<Rightarrow> app_user option \<Rightarrow> pystr \<Rightarrow> bool \<Rightarrow> row option \<Rightarrow> pystr option \<Rightarrow> unit comp" where
  "tell_participants env s0 t pk u body internal r label =
     (let recipients = filter (\<lambda>i. Some i \<noteq> map_option u_id u) (participants s0 t pk r);
          author = (case u of None \<Rightarrow> ''email'' | Some x \<Rightarrow> u_username x);
          mt = table_by_phys s0 t;
          subj = (case ticket_number mt r of None \<Rightarrow> [] | Some n \<Rightarrow> if n = [] then [] else ''['' @ n @ ''] '')
                   @ ''New comment on '' @ text_or label t;
          snippet = (if length body \<le> SNIPPET_LEN then body else take (SNIPPET_LEN - 1) body @ ''...'')
      in eachC (tell_user env (\<lambda>x. \<not> (u_role x = role_portal \<and> internal)) (\<lambda>x.
           (person_notif t pk ''comment'' (u_id x) subj (author @ '': '' @ snippet), subj,
            author @ '' wrote:'' @ [CHR 0x0A, CHR 0x0A] @ body @ comment_link env s0 mt pk x))) recipients)"

definition add_comment ::
  "env \<Rightarrow> pystr \<Rightarrow> pyval \<Rightarrow> app_user option \<Rightarrow> pystr option \<Rightarrow> bool \<Rightarrow> row option \<Rightarrow> pystr option \<Rightarrow>
     comment comp" where
  "add_comment env t pk u body0 internal r label s =
     (let body = py_strip (text_or body0 []) in
      if body = [] then (Inl (ValueErr ''Comment is empty.''), s)
      else
        let c = add_comment_row t pk u body internal s
        in bindC (modC (\<lambda>s. s\<lparr>d_comments := d_comments s @ [c]\<rparr>)) (\<lambda>_.
           bindC (tell_participants env s t pk u body internal r label) (\<lambda>_. retC c)) s)"

subsection \<open>Who is told\<close>

text \<open>
  The notifications and mails of a change: each new notification belongs to an account
  that \<open>Q\<close> admits, and so does each mail's address.
\<close>

definition told_only :: "(app_user \<Rightarrow> bool) \<Rightarrow> db \<Rightarrow> db \<Rightarrow> bool" where
  "told_only Q s s' \<longleftrightarrow> d_users s' = d_users s \<and>
     (\<exists>ns ms. d_notifs s' = d_notifs s @ ns \<and> d_outbox s' = d_outbox s @ ms \<and>
       list_all (\<lambda>n. \<exists>u\<in>set (d_users s). Q u \<and> n_user_id n = VInt (u_id u)) ns \<and>
       list_all (\<lambda>m. \<exists>u\<in>set (d_users s). Q u \<and> wants_mail u \<and> (\<exists>b c. m = Mail (the (u_email u)) b c)) ms)"

interpretation told: frame "told_only Q"
proof
  fix s t u
  show "told_only Q s s" by (auto simp: told_only_def)
  assume st: "told_only Q s t" and tu: "told_only Q t u"
  from st obtain ns ms where 1: "d_users t = d_users s" "d_notifs t = d_notifs s @ ns" "d_outbox t = d_outbox s @ ms"
    "list_all (\<lambda>n. \<exists>u\<in>set (d_users s). Q u \<and> n_user_id n = VInt (u_id u)) ns"
    "list_all (\<lambda>m. \<exists>u\<in>set (d_users s). Q u \<and> wants_mail u \<and> (\<exists>b c. m = Mail (the (u_email u)) b c)) ms"
    unfolding told_only_def by blast
  from tu obtain ns' ms' where 2: "d_users u = d_users t" "d_notifs u = d_notifs t @ ns'" "d_outbox u = d_outbox t @ ms'"
    "list_all (\<lambda>n. \<exists>u\<in>set (d_users t). Q u \<and> n_user_id n = VInt (u_id u)) ns'"
    "list_all (\<lambda>m. \<exists>u\<in>set (d_users t). Q u \<and> wants_mail u \<and> (\<exists>b c. m = Mail (the (u_email u)) b c)) ms'"
    unfolding told_only_def by blast
  from 1 2 have "d_users u = d_users s" "d_notifs u = d_notifs s @ (ns @ ns')" "d_outbox u = d_outbox s @ (ms @ ms')"
    "list_all (\<lambda>n. \<exists>u\<in>set (d_users s). Q u \<and> n_user_id n = VInt (u_id u)) (ns @ ns')"
    "list_all (\<lambda>m. \<exists>u\<in>set (d_users s). Q u \<and> wants_mail u \<and> (\<exists>b c. m = Mail (the (u_email u)) b c)) (ms @ ms')"
    by simp_all
  then show "told_only Q s u" unfolding told_only_def by blast
qed

lemma told_tell:
  assumes "u \<in> set (d_users s)" "Q u" "n_user_id n = VInt (u_id u)"
  shows "told_only Q s (snd (tell env u n subj body s))"
proof -
  let ?s1 = "add_notif n s" and ?s2 = "snd (email_user env (Some u) subj body (add_notif n s))"
  have out: "d_outbox ?s2 = d_outbox s \<or>
      wants_mail u \<and> d_outbox ?s2 = d_outbox s @ [Mail (the (u_email u)) subj body]"
    using email_user_only [of env "Some u" subj body ?s1] by (auto simp: add_notif_def)
  have "d_notifs ?s2 = d_notifs s @ [n\<lparr>n_id := next_id n_id (d_notifs s)\<rparr>]" "d_users ?s2 = d_users s"
    by (simp_all add: add_notif_def)
  moreover obtain ms where "d_outbox ?s2 = d_outbox s @ ms"
    "list_all (\<lambda>m. \<exists>u\<in>set (d_users s). Q u \<and> wants_mail u \<and> (\<exists>b c. m = Mail (the (u_email u)) b c)) ms"
    using out assms(1,2) by fastforce
  ultimately have "told_only Q s ?s2"
    unfolding told_only_def using assms by auto
  then show ?thesis by (simp add: tell_def add_notifC_def email_userC_def comp_simps)
qed

lemma get_user_mem: "get_user s i = Some u \<Longrightarrow> u \<in> set (d_users s) \<and> u_id u = i"
  unfolding get_user_def by (drule find_Some_set) simp

lemma told_tell_user:
  assumes "\<And>x n a b. is_active x \<Longrightarrow> allow x \<Longrightarrow> u_id x = uid \<Longrightarrow> msg x = (n, a, b) \<Longrightarrow>
      Q x \<and> n_user_id n = VInt (u_id x)"
  shows "keeps (told_only Q) (tell_user env allow msg uid)"
  unfolding tell_user_def
proof (rule keeps_dep)
  fix s
  show "told_only Q s (snd ((case get_user s uid of None \<Rightarrow> retC ()
     | Some x \<Rightarrow> if is_active x \<and> allow x
                then (case msg x of (n, subj, body) \<Rightarrow> tell env x n subj body) else retC ()) s))"
    by (cases "get_user s uid")
      (auto simp: comp_simps told.refl dest!: get_user_mem dest: assms intro: told_tell split: prod.split)
qed


text \<open>
  A change is announced, in the application and by mail, only to active accounts that
  watch the record and are not the one who made it, and to none while alarms are held.
\<close>

theorem notify_update_only_watchers:
  "told_only (\<lambda>u. is_active u \<and> u_id u \<in> set (watchers s (t_phys_name t) pk) \<and> Some (u_id u) \<noteq> user_id \<and>
      maint_active s t (e_now env) = None) s (snd (notify_update env t pk vs user_id s))"
proof (cases "maint_active s t (e_now env) = None")
  case True
  let ?Q = "\<lambda>u. is_active u \<and> u_id u \<in> set (watchers s (t_phys_name t) pk) \<and> Some (u_id u) \<noteq> user_id"
  have "keeps (told_only ?Q) (eachC (tell_user env (\<lambda>_. True) (\<lambda>u.
      (person_notif (t_phys_name t) pk ''watch'' (u_id u) (subj u) (body u), m1 u, m2 u)))
      (filter (\<lambda>i. Some i \<noteq> user_id) (watchers s (t_phys_name t) pk)))" for subj body m1 m2
    by (intro told.keeps_each told_tell_user) (auto simp: person_notif_def new_notif_def)
  with True show ?thesis by (simp add: notify_update_def Let_def keeps_def)
next
  case False
  then show ?thesis by (simp add: notify_update_def told.refl)
qed

definition same_comments :: "db \<Rightarrow> db \<Rightarrow> bool" where
  "same_comments s s' \<longleftrightarrow> d_comments s' = d_comments s"

interpretation comments: frame same_comments
  by unfold_locales (simp_all add: same_comments_def)

lemma email_user_comments [simp]: "d_comments (snd (email_user env u subj body s)) = d_comments s"
  by (subst email_user_state) simp

lemma tell_user_comments: "keeps same_comments (tell_user env allow msg uid)"
  unfolding tell_user_def tell_def add_notifC_def email_userC_def
  by (auto intro!: comments.keeps simp: same_comments_def add_notif_def split: option.split prod.split)

definition staff :: app_user where
  "staff = \<lparr>u_id = 1, u_username = ''ann'', u_password_hash = [], u_role = role_user,
     u_is_active_flag = True, u_company_id = None, u_email = Some ''ann@x.org'', u_notify_email = True,
     u_totp_secret = None, u_mfa_enabled = False, u_mfa_backup_codes = JEmpty, u_oidc_subject = None\<rparr>"

definition customer :: app_user where
  "customer = staff\<lparr>u_id := 2, u_username := ''bob'', u_role := role_portal, u_email := Some ''bob@y.org''\<rparr>"

text \<open>
  An internal note reaches staff only: every notification and mail of it goes to an active
  account that is not a portal account and not the author, and the thread as the portal lists
  it does not contain it.
\<close>

theorem internal_note_stays_internal:
  assumes "add_comment env t pk u body True r label s = (Inr c, s')"
  shows "told_only (\<lambda>x. is_active x \<and> \<not> is_portal x \<and> Some (u_id x) \<noteq> map_option u_id u) s s' \<and>
    c \<in> set (d_comments s') \<and> c \<notin> fst ` set (list_for s' t pk False)"
proof -
  let ?Q = "\<lambda>x. is_active x \<and> \<not> is_portal x \<and> Some (u_id x) \<noteq> map_option u_id u"
  define b where "b = py_strip (text_or body [])"
  define c0 where "c0 = add_comment_row t pk u b True s"
  let ?s1 = "s\<lparr>d_comments := d_comments s @ [c0]\<rparr>"
  let ?tell = "tell_participants env s t pk u b True r label"
  have tells: "keeps (told_only ?Q) ?tell" "keeps same_comments ?tell"
    unfolding tell_participants_def Let_def
    by (intro told.keeps_each told_tell_user comments.keeps_each tell_user_comments;
        auto simp: person_notif_def new_notif_def is_portal_def)+
  have "bindC (modC (\<lambda>s. s\<lparr>d_comments := d_comments s @ [c0]\<rparr>)) (\<lambda>_. bindC ?tell (\<lambda>_. retC c0)) s = (Inr c, s')"
    using assms by (simp add: add_comment_def Let_def c0_def b_def split: if_splits)
  then have each: "?tell ?s1 = (Inr (), s')" and c: "c = c0"
    by (auto simp: comp_simps elim!: bindC_InrE)
  have "told_only ?Q ?s1 s'" by (rule keepsD [OF tells(1) each])
  then have told: "told_only ?Q s s'" by (simp add: told_only_def)
  have "same_comments ?s1 s'" by (rule keepsD [OF tells(2) each])
  then have "d_comments s' = d_comments s @ [c0]" by (simp add: same_comments_def)
  moreover have "cm_internal c" by (simp add: c c0_def add_comment_row_def)
  ultimately show ?thesis using told c by (auto simp: list_for_def)
qed

theorem internal_note_stays_internal_witness:
  "told_only (\<lambda>x. is_active x \<and> \<not> is_portal x \<and> Some (u_id x) \<noteq> map_option u_id (None :: app_user option))
     (sample_db\<lparr>d_users := [staff, customer]\<rparr>)
     (snd (add_comment plain_env ''tickets'' (VInt 1) None (Some ''call back'') True
        (Some [(''created_by'', VInt 2)]) None (sample_db\<lparr>d_users := [staff, customer]\<rparr>)))"
proof -
  let ?a = "add_comment plain_env ''tickets'' (VInt 1) None (Some ''call back'') True
        (Some [(''created_by'', VInt 2)]) None (sample_db\<lparr>d_users := [staff, customer]\<rparr>)"
  have "?a = (Inr \<lparr>cm_id = 1, cm_table_phys = ''tickets'', cm_row_pk = ''1'', cm_user_id = None,
      cm_body = ''call back'', cm_internal = True\<rparr>, snd ?a)"
    by code_simp
  then show ?thesis by (rule internal_note_stays_internal [THEN conjunct1])
qed

text \<open>The watch switch: after a toggle the record is watched exactly when it was not.\<close>

lemma toggle_watching:
  assumes "distinct (map wa_id (d_watches s))"
    and "\<And>v w. v \<in> set (d_watches s) \<Longrightarrow> w \<in> set (d_watches s) \<Longrightarrow> watches uid t pk v \<Longrightarrow> watches uid t pk w \<Longrightarrow> v = w"
  shows "is_watching (snd (toggle uid t pk s)) uid t pk = (\<not> is_watching s uid t pk) \<and>
    fst (toggle uid t pk s) = is_watching (snd (toggle uid t pk s)) uid t pk"
proof (cases "find (watches uid t pk) (d_watches s)")
  case None
  then have "\<not> list_ex (watches uid t pk) (d_watches s)" by (auto simp: list_ex_iff find_None_iff)
  with None show ?thesis by (simp add: toggle_def is_watching_def) (simp add: watches_def)
next
  case (Some w)
  then have w: "w \<in> set (d_watches s)" "watches uid t pk w" by (auto dest: find_Some_set)
  have "\<not> list_ex (watches uid t pk) (filter (\<lambda>x. wa_id x \<noteq> wa_id w) (d_watches s))"
    using assms(2) w by (auto simp: list_ex_iff)
  moreover have "list_ex (watches uid t pk) (d_watches s)" using w by (auto simp: list_ex_iff)
  ultimately show ?thesis using Some by (simp add: toggle_def is_watching_def)
qed

end
