(* ===== verification/Companies.thy ===== *)
theory Companies
  imports Models
begin

text \<open>
  \<open>app/companies.py\<close>: the tree of companies and what a user may see of it.

  Shown: \<open>subtree_ids\<close> ends on any parent relation, cycles included, and computes exactly the
  companies reachable by chains of parents; a scoped user sees at least the own company;
  \<open>get_or_create\<close> is idempotent.
\<close>

definition children_of :: "company list \<Rightarrow> int \<Rightarrow> int set" where
  "children_of cs p = set (map co_id (filter (\<lambda>c. co_parent_id c = Some p) cs))"

text \<open>The while loop: \<open>ids\<close> seen so far, \<open>frontier\<close> the ones added last.\<close>

function subtree_loop :: "company list \<Rightarrow> int set \<Rightarrow> int set \<Rightarrow> int set" where
  "subtree_loop cs ids frontier =
     (if frontier = {} then ids
      else let nxt = (\<Union>cid\<in>frontier. children_of cs cid) - ids
           in subtree_loop cs (ids \<union> nxt) nxt)"
  by pat_completeness auto

lemma children_of_ids: "children_of cs p \<subseteq> co_id ` set cs"
  by (auto simp: children_of_def)

text \<open>Every round with a new company lowers the number of companies not seen; a round with none is the last.\<close>

termination subtree_loop
proof (relation "measure (\<lambda>(cs, ids, fr). card (co_id ` set cs - ids) + (if fr = {} then 0 else 1))", goal_cases)
  case 1
  then show ?case by simp
next
  case (2 cs ids fr nxt)
  show ?case
  proof (cases "nxt = {}")
    case True
    with 2 show ?thesis by simp
  next
    case False
    then obtain x where "x \<in> nxt" by blast
    with 2 have "x \<in> co_id ` set cs - ids" "x \<notin> co_id ` set cs - (ids \<union> nxt)"
      using children_of_ids by blast+
    then have "co_id ` set cs - (ids \<union> nxt) \<subset> co_id ` set cs - ids" by blast
    then have "card (co_id ` set cs - (ids \<union> nxt)) < card (co_id ` set cs - ids)"
      by (simp add: psubset_card_mono)
    with 2 False show ?thesis by simp
  qed
qed

declare subtree_loop.simps [simp del]

definition subtree_ids :: "db \<Rightarrow> int \<Rightarrow> int set" where
  "subtree_ids s root = subtree_loop (d_companies s) {root} {root}"

text \<open>\<open>None\<close> is a user without a scope.\<close>

definition allowed_for_user :: "db \<Rightarrow> int option \<Rightarrow> int set option" where
  "allowed_for_user s user_id =
     (case some_id user_id of
        None \<Rightarrow> None
      | Some i \<Rightarrow>
        (case get_user s i of
           None \<Rightarrow> None
         | Some u \<Rightarrow>
           (case some_id (u_company_id u) of
              None \<Rightarrow> None
            | Some c \<Rightarrow> Some (subtree_ids s c))))"

definition get_or_create :: "db \<Rightarrow> pystr option \<Rightarrow> company option \<times> db" where
  "get_or_create s name =
     (let nm = py_strip (text_or name []) in
      if nm = [] then (None, s)
      else case find (\<lambda>c. co_name c = nm) (d_companies s) of
             Some c \<Rightarrow> (Some c, s)
           | None \<Rightarrow>
             let c = \<lparr>co_id = next_id co_id (d_companies s), co_name = nm, co_parent_id = None\<rparr>
             in (Some c, s\<lparr>d_companies := d_companies s @ [c]\<rparr>))"

subsection \<open>Reachability\<close>

definition parent_edges :: "company list \<Rightarrow> (int \<times> int) set" where
  "parent_edges cs = {(p, c). c \<in> children_of cs p}"

text \<open>
  The invariant of the loop: what is seen is reachable, the frontier is seen, and only the
  frontier can have children that are not.
\<close>

definition loop_inv :: "company list \<Rightarrow> int \<Rightarrow> int set \<Rightarrow> int set \<Rightarrow> bool" where
  "loop_inv cs root ids fr \<longleftrightarrow>
     root \<in> ids \<and> ids \<subseteq> (parent_edges cs)\<^sup>* `` {root} \<and> fr \<subseteq> ids \<and>
     (\<forall>p\<in>ids - fr. children_of cs p \<subseteq> ids)"

lemma loop_inv_step:
  assumes "loop_inv cs root ids fr" and "nxt = (\<Union>p\<in>fr. children_of cs p) - ids"
  shows "loop_inv cs root (ids \<union> nxt) nxt"
proof -
  have "c \<in> (parent_edges cs)\<^sup>* `` {root}" if c: "c \<in> nxt" for c
  proof -
    from c assms(2) obtain p where p: "p \<in> fr" "c \<in> children_of cs p" by blast
    with assms(1) have "(root, p) \<in> (parent_edges cs)\<^sup>*" by (auto simp: loop_inv_def)
    moreover from p have "(p, c) \<in> parent_edges cs" by (simp add: parent_edges_def)
    ultimately show ?thesis by (simp add: rtrancl.rtrancl_into_rtrancl)
  qed
  moreover have "children_of cs p \<subseteq> ids \<union> nxt" if "p \<in> ids - nxt" for p
    using assms that by (cases "p \<in> fr") (auto simp: loop_inv_def)
  ultimately show ?thesis using assms(1) by (auto simp: loop_inv_def)
qed

lemma subtree_loop_reach:
  "loop_inv cs root ids fr \<Longrightarrow> subtree_loop cs ids fr = (parent_edges cs)\<^sup>* `` {root}"
proof (induction cs ids fr rule: subtree_loop.induct)
  case (1 cs ids fr)
  show ?case
  proof (cases "fr = {}")
    case True
    with 1(2) have closed: "\<forall>p\<in>ids. children_of cs p \<subseteq> ids" and root: "root \<in> ids"
      and sub: "ids \<subseteq> (parent_edges cs)\<^sup>* `` {root}"
      by (auto simp: loop_inv_def)
    have "c \<in> ids" if "(root, c) \<in> (parent_edges cs)\<^sup>*" for c
      using that by (induction rule: rtrancl_induct) (use root closed in \<open>auto simp: parent_edges_def\<close>)
    with sub True show ?thesis by (auto simp: subtree_loop.simps)
  next
    case False
    with 1(1) [OF False refl loop_inv_step [OF 1(2) refl]] show ?thesis
      by (subst subtree_loop.simps) (simp add: Let_def)
  qed
qed

text \<open>
  The visible companies below a company are exactly those that chains of \<open>parent_id\<close> lead
  to, on every parent relation, cycles included.
\<close>

theorem subtree_ids_reachable:
  "subtree_ids s root = {c. (root, c) \<in> (parent_edges (d_companies s))\<^sup>*}"
  using subtree_loop_reach [of "d_companies s" root "{root}" "{root}"]
  by (auto simp: subtree_ids_def loop_inv_def)

lemma finite_subtree_loop: "finite ids \<Longrightarrow> finite (subtree_loop cs ids fr)"
proof (induction cs ids fr rule: subtree_loop.induct)
  case (1 cs ids fr)
  have "finite ((\<Union>cid\<in>fr. children_of cs cid) - ids)"
    by (rule finite_subset [of _ "co_id ` set cs"]) (use children_of_ids in auto)
  with 1 show ?case by (subst subtree_loop.simps) (simp add: Let_def)
qed

lemma finite_subtree [simp]: "finite (subtree_ids s root)"
  by (simp add: subtree_ids_def finite_subtree_loop)

lemma subtree_ids_root: "root \<in> subtree_loop (d_companies s) {root} {root}"
  using subtree_loop_reach [of "d_companies s" root "{root}" "{root}"] by (auto simp: loop_inv_def)

lemma subtree_ids_mono:
  assumes "c \<in> subtree_ids s root" shows "subtree_ids s c \<subseteq> subtree_ids s root"
  using assms subtree_loop_reach [of "d_companies s" root "{root}" "{root}"]
    subtree_loop_reach [of "d_companies s" c "{c}" "{c}"]
  by (auto simp: subtree_ids_def loop_inv_def intro: rtrancl_trans)

lemma allowed_own_company:
  assumes "allowed_for_user s (Some i) = Some cs" "get_user s i = Some u"
  shows "\<exists>c. u_company_id u = Some c \<and> c \<in> cs"
  using assms subtree_ids_root
  by (auto simp: allowed_for_user_def subtree_ids_def some_id_def split: option.splits if_splits)

lemma get_or_create_name:
  "get_or_create s name = (Some c, s') \<Longrightarrow> co_name c = py_strip (text_or name []) \<and> c \<in> set (d_companies s')"
  by (auto simp: get_or_create_def Let_def dest: find_Some_set split: if_splits option.splits)

lemma get_or_create_idem:
  assumes "get_or_create s name = (r, s')"
  shows "get_or_create s' name = (r, s')"
proof (cases "find (\<lambda>c. co_name c = py_strip (text_or name [])) (d_companies s)")
  case None
  with assms show ?thesis by (auto simp: get_or_create_def Let_def find_append)
next
  case (Some c)
  with assms have "s' = s" by (auto simp: get_or_create_def Let_def split: if_splits)
  with assms show ?thesis by simp
qed

end
