(* ===== verification/Access.thy ===== *)
theory Access
  imports Data_Service Companies
begin

text \<open>
  \<open>app/access.py\<close>: who may read and write tables, forms, fields and rows. The user is the
  authenticated account, or none. Sets of names are lists.

  Shown: what may be written may be read; a portal account reads and writes nothing here; a
  designer everything; and a missing permission row means \<open>write\<close>.
\<close>

subsection \<open>Levels\<close>

definition access_full :: pystr where "access_full = ''full''"

definition can_read :: "pystr \<Rightarrow> bool" where
  "can_read a = (a \<in> {access_full, access_write, access_read})"

definition can_write :: "pystr \<Rightarrow> bool" where
  "can_write a = (a \<in> {access_full, access_write})"

subsection \<open>Forms and tables\<close>

definition form_permission :: "db \<Rightarrow> pystr \<Rightarrow> int \<Rightarrow> pystr" where
  "form_permission s role form_id =
     (case find (\<lambda>p. pm_role p = role \<and> pm_form_id p = form_id) (d_perms s) of
        None \<Rightarrow> access_write | Some p \<Rightarrow> pm_access p)"

definition form_access :: "db \<Rightarrow> app_user option \<Rightarrow> int \<Rightarrow> pystr" where
  "form_access s user form_id = (case user of
     None \<Rightarrow> access_none
   | Some u \<Rightarrow> if is_portal u then access_none
               else if is_designer u then access_full
               else form_permission s (u_role u) form_id)"

definition forms_of :: "db \<Rightarrow> meta_table \<Rightarrow> meta_form list" where
  "forms_of s t = filter (\<lambda>f. fm_table_id f = t_id t) (d_forms s)"

definition table_readable :: "db \<Rightarrow> app_user option \<Rightarrow> meta_table \<Rightarrow> bool" where
  "table_readable s user t = (case user of
     None \<Rightarrow> False
   | Some u \<Rightarrow> if is_portal u then False
               else if is_designer u then True
               else list_ex (\<lambda>f. can_read (form_access s user (fm_id f))) (forms_of s t))"

definition table_writable :: "db \<Rightarrow> app_user option \<Rightarrow> meta_table \<Rightarrow> bool" where
  "table_writable s user t = (case user of
     None \<Rightarrow> False
   | Some u \<Rightarrow> if is_portal u then False
               else if is_designer u then True
               else list_ex (\<lambda>f. can_write (form_access s user (fm_id f))) (forms_of s t))"

subsection \<open>Fields\<close>

definition field_access :: "db \<Rightarrow> app_user option \<Rightarrow> meta_field \<Rightarrow> pystr" where
  "field_access s user f = (case user of
     None \<Rightarrow> access_none
   | Some u \<Rightarrow>
     if is_designer u then access_full
     else case find (\<lambda>p. fp_role p = u_role u \<and> fp_field_id p = f_id f) (d_fperms s) of
            None \<Rightarrow> access_write | Some p \<Rightarrow> fp_access p)"

text \<open>The permissions of a role as a dict: a later row for a field replaces an earlier one.\<close>

definition field_perm_map :: "db \<Rightarrow> pystr \<Rightarrow> (int, pystr) dict" where
  "field_perm_map s role =
     fold (\<lambda>p d. dset (fp_field_id p) (fp_access p) d) (filter (\<lambda>p. fp_role p = role) (d_fperms s)) []"

definition perm_of :: "(int, pystr) dict \<Rightarrow> meta_field \<Rightarrow> pystr" where
  "perm_of d f = (case dget d (f_id f) of None \<Rightarrow> access_write | Some a \<Rightarrow> a)"

definition fields_with :: "(pystr \<Rightarrow> bool) \<Rightarrow> db \<Rightarrow> app_user option \<Rightarrow> meta_table \<Rightarrow> pystr list" where
  "fields_with ok s user t = (case user of
     None \<Rightarrow> []
   | Some u \<Rightarrow>
     if is_portal u then []
     else if is_designer u then map f_phys_name (t_fields t)
     else let d = field_perm_map s (u_role u)
          in map f_phys_name (filter (\<lambda>f. ok (perm_of d f)) (t_fields t)))"

definition readable_fields :: "db \<Rightarrow> app_user option \<Rightarrow> meta_table \<Rightarrow> pystr list" where
  "readable_fields = fields_with (\<lambda>a. a \<in> {access_write, access_read})"

definition writable_fields :: "db \<Rightarrow> app_user option \<Rightarrow> meta_table \<Rightarrow> pystr list" where
  "writable_fields = fields_with (\<lambda>a. a = access_write)"

subsection \<open>Rows\<close>

text \<open>The scope of a company user: a column and the companies it may hold.\<close>

type_synonym scope = "(pystr \<times> int set) option"

definition in_scope :: "scope \<Rightarrow> row \<Rightarrow> bool" where
  "in_scope sc r = (case sc of None \<Rightarrow> True | Some (c, ids) \<Rightarrow> (\<exists>i\<in>ids. py_eq (rget r c) (VInt i)))"

definition row_readable ::
  "meta_table \<Rightarrow> row option \<Rightarrow> int option \<Rightarrow> bool \<Rightarrow> bool \<Rightarrow> scope \<Rightarrow> bool" where
  "row_readable t row user_id designer allow_deleted sc = (case row of
     None \<Rightarrow> False
   | Some r \<Rightarrow>
     if r = [] then False
     else if t_soft_delete t \<and> \<not> allow_deleted \<and> rget r ''deleted_at'' \<noteq> VNone then False
     else if t_row_owned t \<and> \<not> designer \<and> \<not> py_eq (rget r ''created_by'') (opt_int user_id) then False
     else in_scope sc r)"

subsection \<open>The portal\<close>

text \<open>The accounts whose tickets a portal account sees: its company's portal accounts and itself.\<close>

definition portal_members :: "db \<Rightarrow> app_user \<Rightarrow> int list" where
  "portal_members s u = (case some_id (u_company_id u) of
     None \<Rightarrow> [u_id u]
   | Some c \<Rightarrow>
     map u_id (filter (\<lambda>x. (case u_company_id x of None \<Rightarrow> False | Some k \<Rightarrow> k \<in> subtree_ids s c) \<and>
        u_role x = role_portal) (d_users s)) @ [u_id u])"

subsection \<open>Facts\<close>

lemma levels [simp]:
  "can_read access_full" "can_read access_write" "can_read access_read" "\<not> can_read access_none"
  "can_write access_full" "can_write access_write" "\<not> can_write access_read" "\<not> can_write access_none"
  by code_simp+

lemma can_write_read: "can_write a \<Longrightarrow> can_read a"
  by (auto simp: can_write_def)

lemma writable_readable: "set (writable_fields s user t) \<subseteq> set (readable_fields s user t)"
  by (auto simp: writable_fields_def readable_fields_def fields_with_def Let_def split: option.splits)

lemma table_writable_readable: "table_writable s user t \<Longrightarrow> table_readable s user t"
  by (auto simp: table_writable_def table_readable_def list_ex_iff split: option.splits if_splits
      intro: can_write_read)

lemma unlisted_form:
  "\<not> (\<exists>p\<in>set (d_perms s). pm_role p = r \<and> pm_form_id p = i) \<Longrightarrow> form_permission s r i = access_write"
proof -
  assume "\<not> (\<exists>p\<in>set (d_perms s). pm_role p = r \<and> pm_form_id p = i)"
  then have "find (\<lambda>p. pm_role p = r \<and> pm_form_id p = i) (d_perms s) = None"
    unfolding find_None_iff by blast
  then show ?thesis by (simp add: form_permission_def)
qed

text \<open>
  Whoever may write may read, tables and fields alike; a portal account and an
  unauthenticated visitor may do neither, a designer both; and without a permission row
  a form is writable.
\<close>

theorem access_levels:
  "set (writable_fields s user t) \<subseteq> set (readable_fields s user t) \<and>
   (table_readable s user t = (table_writable s user t \<or> table_readable s user t)) \<and>
   (if user = None \<or> is_portal (the user)
    then \<not> table_readable s user t \<and> readable_fields s user t = [] \<and> \<not> can_read (form_access s user i)
    else if is_designer (the user)
    then table_writable s user t \<and> writable_fields s user t = map f_phys_name (t_fields t) \<and>
      can_write (form_access s user i)
    else (\<exists>p\<in>set (d_perms s). pm_role p = u_role (the user) \<and> pm_form_id p = i) \<or>
      can_write (form_access s user i))"
proof (intro conjI)
  show "table_readable s user t = (table_writable s user t \<or> table_readable s user t)"
    using table_writable_readable by blast
next
  show "if user = None \<or> is_portal (the user)
    then \<not> table_readable s user t \<and> readable_fields s user t = [] \<and> \<not> can_read (form_access s user i)
    else if is_designer (the user)
    then table_writable s user t \<and> writable_fields s user t = map f_phys_name (t_fields t) \<and>
      can_write (form_access s user i)
    else (\<exists>p\<in>set (d_perms s). pm_role p = u_role (the user) \<and> pm_form_id p = i) \<or>
      can_write (form_access s user i)"
  proof (cases user)
    case (Some u)
    then show ?thesis
      using unlisted_form [of s "u_role u" i]
      by (cases "form_permission s (u_role u) i = access_write")
        (auto simp: table_writable_def table_readable_def writable_fields_def readable_fields_def
          fields_with_def form_access_def)
  qed (simp add: table_readable_def readable_fields_def fields_with_def form_access_def)
qed (rule writable_readable)

end
