(* ===== verification/Record_Service.thy ===== *)
theory Record_Service
  imports Formula Sla Feeds Watch Access Importer
begin

text \<open>
  \<open>app/record_service.py\<close>: create, update, delete, restore and destroy a record with generated
  values, audit columns, the audit log, and what a write sets off: trigger rules, feeds, SLA
  clocks, watchers, assignees and the recomputation of related formulas. The creation of records
  by trigger rules nests at most \<open>_MAX_CREATE_DEPTH\<close> = 3 levels; \<open>create_at n\<close> is \<open>create\<close> with
  \<open>n\<close> levels left, and its argument to the rules is \<open>create_at (n - 1)\<close>. The deletion of files
  from the disk is not modelled.

  Shown: the reactions to a write never raise, so a write that reaches its row succeeds, and
  one that fails in the row leaves no reaction behind; notifications and audit entries are never
  lost; every successful write of an audited table is logged once with its changes; automatic numbers
  are never given twice; and the two read paths, the list and the single record, show the same rows.
\<close>

subsection \<open>Audit log\<close>

definition MANAGED :: "pystr list" where
  "MANAGED = [''created_by'', ''created_at'', ''updated_by'', ''updated_at'', ''deleted_at'', ''deleted_by'']"

definition has_audit_cols :: "meta_table \<Rightarrow> bool" where
  "has_audit_cols t = (t_track_audit t \<or> t_row_owned t)"

type_synonym changes = "(pystr \<times> pyval \<times> pyval) list"

definition audit_entry :: "db \<Rightarrow> meta_table \<Rightarrow> pyval \<Rightarrow> pystr \<Rightarrow> int option \<Rightarrow> changes option \<Rightarrow> audit_log" where
  "audit_entry s t pk act user_id ch = \<lparr>al_id = next_id al_id (d_audit s), al_table_phys = t_phys_name t,
     al_row_pk = pk, al_action = act, al_user_id = user_id,
     al_changes = (case ch of None \<Rightarrow> None | Some c \<Rightarrow> if c = [] then None else Some c)\<rparr>"

definition log_change :: "meta_table \<Rightarrow> pyval \<Rightarrow> pystr \<Rightarrow> int option \<Rightarrow> changes option \<Rightarrow> unit comp" where
  "log_change t pk act user_id ch =
     whenC (t_track_audit t) (modC (\<lambda>s. s\<lparr>d_audit := d_audit s @ [audit_entry s t pk act user_id ch]\<rparr>))"

subsection \<open>Generated values\<close>

definition DEFAULT_TOKENS :: "pystr list" where
  "DEFAULT_TOKENS = [''now'', ''today'', ''current_user'', ''me'']"

definition default_token :: "meta_field \<Rightarrow> pystr" where
  "default_token f = py_lower (py_strip (text_or (f_default_value f) []))"

definition seq_of :: "db \<Rightarrow> int \<Rightarrow> sequence option" where
  "seq_of s fid = find (\<lambda>q. sq_field_id q = fid) (d_seqs s)"

text \<open>The upsert, the increment and the read of the counter are one atomic step of the database.\<close>

definition next_autonumber :: "meta_field \<Rightarrow> db \<Rightarrow> int \<times> db" where
  "next_autonumber f s =
     (let seqs = (if seq_of s (f_id f) = None
                  then d_seqs s @ [\<lparr>sq_id = next_id sq_id (d_seqs s), sq_field_id = f_id f, sq_next = 1\<rparr>]
                  else d_seqs s);
          seqs' = upd_where (\<lambda>q. sq_field_id q = f_id f) (\<lambda>q. q\<lparr>sq_next := sq_next q + 1\<rparr>) seqs
      in (case find (\<lambda>q. sq_field_id q = f_id f) seqs' of None \<Rightarrow> 0 | Some q \<Rightarrow> sq_next q - 1,
          s\<lparr>d_seqs := seqs'\<rparr>))"

definition autonumber_text :: "meta_field \<Rightarrow> int \<Rightarrow> pystr" where
  "autonumber_text f n = text_or (f_default_value f) [] @ pad 4 n"

definition next_autonumberC :: "meta_field \<Rightarrow> pyval comp" where
  "next_autonumberC f s = (case next_autonumber f s of (n, s') \<Rightarrow> (Inr (VStr (autonumber_text f n)), s'))"

definition user_of :: "db \<Rightarrow> int option \<Rightarrow> app_user option" where
  "user_of s user_id = (case some_id user_id of None \<Rightarrow> None | Some i \<Rightarrow> get_user s i)"

definition eval_default_token :: "env \<Rightarrow> db \<Rightarrow> meta_field \<Rightarrow> int option \<Rightarrow> pyval" where
  "eval_default_token env s f user_id =
     (let tok = default_token f in
      if tok = ''now'' then VDateTime (e_now env)
      else if tok = ''today'' then VDate (e_today env)
      else if tok \<in> {''current_user'', ''me''} then
        (if f_data_type f = ''user'' then opt_int user_id
         else case user_of s user_id of None \<Rightarrow> VNone | Some u \<Rightarrow> VStr (u_username u))
      else VNone)"

definition NO_DEFAULT_TYPES :: "pystr list" where
  "NO_DEFAULT_TYPES = [''file'', ''image'', ''formula'']"

definition generate_field :: "env \<Rightarrow> int option \<Rightarrow> meta_field \<Rightarrow> row \<Rightarrow> row comp" where
  "generate_field env user_id f vs =
     (if \<not> blank (rget vs (f_phys_name f)) then retC vs
      else if f_data_type f = ''autonumber''
        then bindC (next_autonumberC f) (\<lambda>v. retC (dset (f_phys_name f) v vs))
      else if default_token f \<in> set DEFAULT_TOKENS
        then bindC (getC (\<lambda>s. eval_default_token env s f user_id)) (\<lambda>v.
               retC (if v = VNone then vs else dset (f_phys_name f) v vs))
      else if \<not> dhas vs (f_phys_name f) \<and> filled (f_default_value f) \<and> f_data_type f \<notin> set NO_DEFAULT_TYPES
        then bindC (liftC (coerce_value env f (f_default_value f) None)) (\<lambda>v.
               retC (dset (f_phys_name f) v vs))
      else retC vs)"

definition apply_generated :: "env \<Rightarrow> meta_table \<Rightarrow> row \<Rightarrow> int option \<Rightarrow> row comp" where
  "apply_generated env t vs user_id = foldC (generate_field env user_id) (t_fields t) vs"

definition company_field :: "meta_table \<Rightarrow> meta_field option" where
  "company_field t = find (\<lambda>f. f_data_type f = ''company'') (t_fields t)"

definition apply_company_default :: "meta_table \<Rightarrow> row \<Rightarrow> int option \<Rightarrow> row comp" where
  "apply_company_default t vs user_id = getC (\<lambda>s. case company_field t of
     None \<Rightarrow> vs
   | Some cf \<Rightarrow>
     if \<not> blank (rget vs (f_phys_name cf)) then vs
     else case user_of s user_id of
            None \<Rightarrow> vs
          | Some u \<Rightarrow> (case some_id (u_company_id u) of
              None \<Rightarrow> vs | Some c \<Rightarrow> dset (f_phys_name cf) (VInt c) vs))"

definition has_formulas :: "meta_table \<Rightarrow> bool" where
  "has_formulas t = list_ex (\<lambda>f. f_data_type f = FORMULA_TYPE) (t_fields t)"

definition compute_self :: "env \<Rightarrow> meta_table \<Rightarrow> row \<Rightarrow> pyval \<Rightarrow> row comp" where
  "compute_self env t ctx pk = tryC (compute_values env t ctx pk) (\<lambda>_. retC [])"

definition ripple :: "env \<Rightarrow> meta_table \<Rightarrow> row option \<Rightarrow> unit comp" where
  "ripple env t r = tryC (recompute_related env t r) (\<lambda>_. retC ())"

subsection \<open>What a write sets off\<close>

definition best_effort :: "unit comp \<Rightarrow> unit comp" where
  "best_effort m = tryC m (\<lambda>_. retC ())"

definition fire_all ::
  "env \<Rightarrow> creator option \<Rightarrow> meta_table \<Rightarrow> pystr \<Rightarrow> pyval \<Rightarrow> row option \<Rightarrow> int option \<Rightarrow> unit comp" where
  "fire_all env cr t event pk old user_id =
     bindC (best_effort (fire env cr t event pk old user_id)) (\<lambda>_.
     bindC (best_effort (feed_event env t event pk old)) (\<lambda>_.
     best_effort (sla_event env t event pk old)))"

definition notify_watchers :: "env \<Rightarrow> meta_table \<Rightarrow> pyval \<Rightarrow> row \<Rightarrow> int option \<Rightarrow> unit comp" where
  "notify_watchers env t pk vs user_id = best_effort (notify_update env t pk vs user_id)"

definition same_value :: "pyval \<Rightarrow> int option \<Rightarrow> bool" where
  "same_value v user_id = py_eq v (opt_int user_id)"

definition notify_assignee :: "env \<Rightarrow> meta_table \<Rightarrow> pyval \<Rightarrow> row \<Rightarrow> row \<Rightarrow> int option \<Rightarrow> meta_field \<Rightarrow> unit comp" where
  "notify_assignee env t pk vs old user_id f =
     (let new = rget vs (f_phys_name f) in
      if f_data_type f \<noteq> ''user'' \<or> \<not> dhas vs (f_phys_name f) then retC ()
      else if \<not> truthy new \<or> same_value new user_id \<or> py_eq (rget old (f_phys_name f)) new then retC ()
      else bindC (getC (\<lambda>s. (case new of VInt i \<Rightarrow> get_user s i | _ \<Rightarrow> None, actor_name s user_id,
                             record_link env s ''/u/view/'' (t_id t) pk))) (\<lambda>(u, actor, link).
             case u of
               None \<Rightarrow> retC ()
             | Some x \<Rightarrow>
               whenC (is_active x)
                 (let subj = t_label t @ '' #'' @ py_str pk @ '' assigned to you'';
                      body = actor @ '' set '' @ f_label f @ '' to you.''
                  in tell env x (person_notif (t_phys_name t) pk ''assign'' (u_id x) subj body) subj (body @ link))))"

definition notify_assignees :: "env \<Rightarrow> meta_table \<Rightarrow> pyval \<Rightarrow> row \<Rightarrow> row option \<Rightarrow> int option \<Rightarrow> unit comp" where
  "notify_assignees env t pk vs old user_id =
     best_effort (eachC (notify_assignee env t pk vs (old_or_empty old) user_id) (t_fields t))"

subsection \<open>Create\<close>

definition audit_stamp :: "env \<Rightarrow> int option \<Rightarrow> row" where
  "audit_stamp env user_id = [(''created_by'', opt_int user_id), (''created_at'', VDateTime (e_now env)),
     (''updated_by'', opt_int user_id), (''updated_at'', VDateTime (e_now env))]"

definition prepare_values :: "env \<Rightarrow> meta_table \<Rightarrow> row \<Rightarrow> int option \<Rightarrow> row comp" where
  "prepare_values env t vs0 user_id =
     bindC (apply_generated env t vs0 user_id) (\<lambda>vs1.
     bindC (apply_company_default t vs1 user_id) (\<lambda>vs2.
     bindC (if has_formulas t
            then bindC (compute_self env t vs2 VNone) (\<lambda>c. retC (dupdate vs2 c)) else retC vs2) (\<lambda>vs3.
     retC (if has_audit_cols t then dupdate vs3 (audit_stamp env user_id) else vs3))))"

definition create_changes :: "meta_table \<Rightarrow> row \<Rightarrow> changes option" where
  "create_changes t vs = (if t_track_audit t
     then Some (map (\<lambda>(k, v). (k, VNone, v)) (filter (\<lambda>(k, v). k \<notin> set MANAGED) vs)) else None)"

definition after_create ::
  "env \<Rightarrow> creator option \<Rightarrow> meta_table \<Rightarrow> row \<Rightarrow> int option \<Rightarrow> pyval \<Rightarrow> unit comp" where
  "after_create env cr t vs user_id pk =
     bindC (fire_all env cr t ''create'' pk None user_id) (\<lambda>_.
     bindC (notify_assignees env t pk vs None user_id) (\<lambda>_.
     ripple env t (Some (dset (t_pk_col t) pk vs))))"

definition create_with :: "env \<Rightarrow> creator option \<Rightarrow> creator" where
  "create_with env cr t vs0 user_id =
     bindC (prepare_values env t vs0 user_id) (\<lambda>vs.
     bindC (insert_row (t_phys_name t) vs) (\<lambda>pk.
     bindC (log_change t pk ''create'' user_id (create_changes t vs)) (\<lambda>_.
     bindC (after_create env cr t vs user_id pk) (\<lambda>_.
     retC pk))))"

fun create_at :: "nat \<Rightarrow> env \<Rightarrow> creator" where
  "create_at 0 env = create_with env None"
| "create_at (Suc n) env = create_with env (Some (create_at n env))"

abbreviation MAX_CREATE_DEPTH :: nat where "MAX_CREATE_DEPTH \<equiv> 3"

definition create :: "env \<Rightarrow> creator" where
  "create env = create_at MAX_CREATE_DEPTH env"

text \<open>The creator the rules of an outermost write get.\<close>

definition nested :: "env \<Rightarrow> creator option" where
  "nested env = Some (create_at (MAX_CREATE_DEPTH - 1) env)"

subsection \<open>Update\<close>

definition needs_old :: "db \<Rightarrow> meta_table \<Rightarrow> row \<Rightarrow> bool" where
  "needs_old s t vs = (t_track_audit t \<or> has_rules s (t_id t) \<or> has_formulas t \<or>
     list_ex (\<lambda>f. f_data_type f = ''user'' \<and> dhas vs (f_phys_name f)) (t_fields t))"

definition old_row :: "meta_table \<Rightarrow> pyval \<Rightarrow> row \<Rightarrow> row option comp" where
  "old_row t pk vs = bindC (getC (\<lambda>s. needs_old s t vs)) (\<lambda>b.
     if b then bindC (row_or_empty (t_phys_name t) pk) (\<lambda>r. retC (Some r)) else retC None)"

definition update_changes :: "meta_table \<Rightarrow> row option \<Rightarrow> row \<Rightarrow> changes option" where
  "update_changes t old vs = (if t_track_audit t
     then Some (map (\<lambda>(k, v). (k, rget (old_or_empty old) k, v))
       (filter (\<lambda>(k, v). \<not> py_eq (rget (old_or_empty old) k) v) vs)) else None)"

definition update_stamp :: "env \<Rightarrow> int option \<Rightarrow> row" where
  "update_stamp env user_id = [(''updated_by'', opt_int user_id), (''updated_at'', VDateTime (e_now env))]"

text \<open>The row for the ripple: the one stored, else the old one with the new values, for which there must be one.\<close>

definition row_after :: "meta_table \<Rightarrow> pyval \<Rightarrow> row \<Rightarrow> row option \<Rightarrow> row comp" where
  "row_after t pk vs old = bindC (row_or_empty (t_phys_name t) pk) (\<lambda>r.
     if r \<noteq> [] then retC r
     else case old of None \<Rightarrow> failC TypeErr
                    | Some r0 \<Rightarrow> retC (dset (t_pk_col t) pk (dupdate r0 vs)))"

definition after_update ::
  "env \<Rightarrow> creator option \<Rightarrow> meta_table \<Rightarrow> pyval \<Rightarrow> row \<Rightarrow> row option \<Rightarrow> int option \<Rightarrow> unit comp" where
  "after_update env cr t pk vs old user_id =
     bindC (fire_all env cr t ''update'' pk old user_id) (\<lambda>_.
     bindC (notify_watchers env t pk vs user_id) (\<lambda>_.
     bindC (notify_assignees env t pk vs old user_id) (\<lambda>_.
     bindC (row_after t pk vs old) (\<lambda>r. ripple env t (Some r)))))"

text \<open>The first half, up to the row: the old row, the values asked for with the computed ones, the values written.\<close>

definition write_update :: "env \<Rightarrow> meta_table \<Rightarrow> pyval \<Rightarrow> row \<Rightarrow> int option \<Rightarrow> (row option \<times> row \<times> row) comp" where
  "write_update env t pk vs0 user_id =
     bindC (old_row t pk vs0) (\<lambda>old.
     bindC (if has_formulas t
            then bindC (compute_self env t (dupdate (old_or_empty old) vs0) pk) (\<lambda>c. retC (dupdate vs0 c))
            else retC vs0) (\<lambda>vs1.
     let vs = (if has_audit_cols t then dupdate vs1 (update_stamp env user_id) else vs1) in
     bindC (update_row (t_phys_name t) pk vs) (\<lambda>_. retC (old, vs1, vs))))"

definition update :: "env \<Rightarrow> meta_table \<Rightarrow> pyval \<Rightarrow> row \<Rightarrow> int option \<Rightarrow> unit comp" where
  "update env t pk vs0 user_id =
     bindC (write_update env t pk vs0 user_id) (\<lambda>(old, vs1, vs).
     bindC (log_change t pk ''update'' user_id (update_changes t old vs1)) (\<lambda>_.
     after_update env (nested env) t pk vs old user_id))"

subsection \<open>Related objects\<close>

record m1_link =
  ml_child :: meta_table
  ml_fk :: pystr
  ml_rel :: meta_relation

definition incoming_m1 :: "db \<Rightarrow> meta_table \<Rightarrow> m1_link list" where
  "incoming_m1 s t = List.map_filter (\<lambda>r.
     case (get_table s (r_from_table_id r),
           case some_id (r_from_field_id r) of None \<Rightarrow> None | Some i \<Rightarrow> get_field s i) of
       (Some c, Some f) \<Rightarrow> Some \<lparr>ml_child = c, ml_fk = f_phys_name f, ml_rel = r\<rparr>
     | _ \<Rightarrow> None)
     (filter (\<lambda>r. r_kind r = ''m1'' \<and> r_to_table_id r = t_id t) (d_rels s))"

record mn_link =
  mn_rel :: meta_relation
  mn_junction :: pystr
  mn_this :: pystr
  mn_other :: pystr
  mn_table :: meta_table

definition mn_links_of :: "db \<Rightarrow> meta_table \<Rightarrow> meta_relation \<Rightarrow> mn_link list" where
  "mn_links_of s t r = (case (get_table s (r_from_table_id r), get_table s (r_to_table_id r)) of
     (Some a, Some b) \<Rightarrow>
       (let j = junction_name (t_phys_name a) (t_phys_name b) in
        case link_cols (t_phys_name a) (t_phys_name b) of (left, right) \<Rightarrow>
          (if t_id a = t_id t then [\<lparr>mn_rel = r, mn_junction = j, mn_this = left, mn_other = right, mn_table = b\<rparr>] else []) @
          (if t_id b = t_id t then [\<lparr>mn_rel = r, mn_junction = j, mn_this = right, mn_other = left, mn_table = a\<rparr>] else []))
   | _ \<Rightarrow> [])"

definition mn_links :: "db \<Rightarrow> meta_table \<Rightarrow> mn_link list" where
  "mn_links s t = concat (map (mn_links_of s t) (filter (\<lambda>r. r_kind r = ''mn'') (d_rels s)))"

definition purge_attachments :: "meta_table \<Rightarrow> pyval \<Rightarrow> db \<Rightarrow> db" where
  "purge_attachments t pk s =
     (let ids = map f_id (filter (\<lambda>f. f_data_type f \<in> set FILE_TYPES) (t_fields t)) in
      if ids = [] then s
      else s\<lparr>d_attachments := filter (\<lambda>a. \<not> (am_field_id a \<in> set ids \<and> py_eq (am_row_pk a) pk)) (d_attachments s)\<rparr>)"

subsection \<open>What a deletion would affect\<close>

abbreviation SAMPLE :: nat where "SAMPLE \<equiv> 25"

record impact_child =
  ic_label :: pystr
  ic_count :: int
  ic_action :: pystr
  ic_samples :: "pystr list"

record impact_link =
  il_rel :: int
  il_label :: pystr
  il_count :: int
  il_samples :: "pystr list"

record impact =
  im_children :: "impact_child list"
  im_links :: "impact_link list"
  im_blocked :: bool

definition child_action :: "bool \<Rightarrow> m1_link \<Rightarrow> pystr comp" where
  "child_action hard l =
     (if hard then retC (py_upper (text_or (r_on_delete (ml_rel l)) ''SET NULL''))
      else bindC (column_nullable (t_phys_name (ml_child l)) (ml_fk l)) (\<lambda>n.
             retC (if n then ''set NULL'' else ''delete'')))"

definition impact_of_child :: "bool \<Rightarrow> pyval \<Rightarrow> m1_link \<Rightarrow> impact_child list \<Rightarrow> impact_child list comp" where
  "impact_of_child hard pk l acc =
     (let c = ml_child l in
      bindC (count_rows (t_phys_name c) (ml_fk l) pk) (\<lambda>n.
      if n = 0 then retC acc
      else bindC (child_action hard l) (\<lambda>act.
           bindC (getC (\<lambda>s. display_field_name s (Some c))) (\<lambda>disp.
           bindC (sample_labels (t_phys_name c) (ml_fk l) pk [disp] SAMPLE) (\<lambda>smp.
           retC (acc @ [\<lparr>ic_label = t_label c, ic_count = n, ic_action = act, ic_samples = smp\<rparr>]))))))"

definition add_link :: "meta_relation \<Rightarrow> meta_table \<Rightarrow> int \<Rightarrow> pystr list \<Rightarrow> impact_link list \<Rightarrow> impact_link list" where
  "add_link r other n labels ls =
     (let ls' = (if list_ex (\<lambda>l. il_rel l = r_id r) ls then ls
                 else ls @ [\<lparr>il_rel = r_id r, il_label = (if r_name r = [] then t_label other else r_name r),
                             il_count = 0, il_samples = []\<rparr>])
      in upd_where (\<lambda>l. il_rel l = r_id r)
           (\<lambda>l. l\<lparr>il_count := il_count l + n, il_samples := il_samples l @ labels\<rparr>) ls')"

definition impact_of_link :: "pyval \<Rightarrow> mn_link \<Rightarrow> impact_link list \<Rightarrow> impact_link list comp" where
  "impact_of_link pk l acc =
     bindC (count_rows (mn_junction l) (mn_this l) pk) (\<lambda>n.
     if n = 0 then retC acc
     else bindC (get_links (mn_junction l) (mn_this l) pk (mn_other l)) (\<lambda>ids.
          bindC (getC (\<lambda>s. display_field_name s (Some (mn_table l)))) (\<lambda>disp.
          bindC (labels_for (t_phys_name (mn_table l)) (take SAMPLE ids) [disp]) (\<lambda>labels.
          retC (add_link (mn_rel l) (mn_table l) n labels acc)))))"

definition delete_impact :: "meta_table \<Rightarrow> pyval \<Rightarrow> bool \<Rightarrow> impact comp" where
  "delete_impact t pk hard =
     bindC (getC (\<lambda>s. (incoming_m1 s t, mn_links s t))) (\<lambda>(m1, mn).
     bindC (foldC (impact_of_child hard pk) m1 []) (\<lambda>cs.
     bindC (foldC (impact_of_link pk) mn []) (\<lambda>ls.
     retC \<lparr>im_children = cs, im_links = map (\<lambda>l. l\<lparr>il_samples := take SAMPLE (il_samples l)\<rparr>) ls,
           im_blocked = (hard \<and> list_ex (\<lambda>c. ic_action c = ''RESTRICT'') cs)\<rparr>)))"

subsection \<open>Delete, restore, destroy\<close>

definition drop_links :: "pyval \<Rightarrow> mn_link \<Rightarrow> unit comp" where
  "drop_links pk l = delete_where (mn_junction l) (mn_this l) pk"

definition detach_child :: "pyval \<Rightarrow> m1_link \<Rightarrow> unit comp" where
  "detach_child pk l =
     (let c = t_phys_name (ml_child l) in
      bindC (column_nullable c (ml_fk l)) (\<lambda>n.
        if n then clear_fk c (ml_fk l) pk else delete_where c (ml_fk l) pk))"

definition trash_row :: "env \<Rightarrow> meta_table \<Rightarrow> pyval \<Rightarrow> int option \<Rightarrow> unit comp" where
  "trash_row env t pk user_id =
     bindC (getC (\<lambda>s. (mn_links s t, incoming_m1 s t))) (\<lambda>(mn, m1).
     bindC (eachC (drop_links pk) mn) (\<lambda>_.
     bindC (eachC (detach_child pk) m1) (\<lambda>_.
     update_row (t_phys_name t) pk [(''deleted_at'', VDateTime (e_now env)), (''deleted_by'', opt_int user_id)])))"

definition erase_row :: "meta_table \<Rightarrow> pyval \<Rightarrow> unit comp" where
  "erase_row t pk = bindC (delete_row (t_phys_name t) pk) (\<lambda>_. modC (purge_attachments t pk))"

definition remove :: "env \<Rightarrow> meta_table \<Rightarrow> pyval \<Rightarrow> int option \<Rightarrow> unit comp" where
  "remove env t pk user_id =
     bindC (get_row (t_phys_name t) pk) (\<lambda>old.
     bindC (if t_soft_delete t then trash_row env t pk user_id else erase_row t pk) (\<lambda>_.
     bindC (log_change t pk ''delete'' user_id None) (\<lambda>_.
     bindC (fire_all env (nested env) t ''delete'' pk old user_id) (\<lambda>_.
     ripple env t old))))"

definition restore :: "meta_table \<Rightarrow> pyval \<Rightarrow> int option \<Rightarrow> unit comp" where
  "restore t pk user_id =
     bindC (update_row (t_phys_name t) pk [(''deleted_at'', VNone), (''deleted_by'', VNone)]) (\<lambda>_.
     log_change t pk ''restore'' user_id None)"

definition destroy :: "meta_table \<Rightarrow> pyval \<Rightarrow> int option \<Rightarrow> unit comp" where
  "destroy t pk user_id =
     bindC (erase_row t pk) (\<lambda>_. log_change t pk ''delete'' user_id None)"

subsection \<open>Reads\<close>

definition company_scope :: "db \<Rightarrow> meta_table \<Rightarrow> int option \<Rightarrow> bool \<Rightarrow> scope" where
  "company_scope s t user_id designer =
     (if designer \<or> some_id user_id = None then None
      else case company_field t of
        None \<Rightarrow> None
      | Some cf \<Rightarrow> (case allowed_for_user s user_id of
          None \<Rightarrow> None | Some ids \<Rightarrow> Some (f_phys_name cf, ids)))"

definition scope_filters :: "db \<Rightarrow> meta_table \<Rightarrow> int option \<Rightarrow> bool \<Rightarrow> bool \<Rightarrow> filt list" where
  "scope_filters s t user_id designer include_deleted =
     (if t_soft_delete t
      then [FCond ''deleted_at'' (Some (if include_deleted then ''not_empty'' else ''empty'')) VNone False] else []) @
     (if t_row_owned t \<and> \<not> designer
      then [FCond ''created_by'' (Some ''eq'') (opt_int user_id) False] else []) @
     (case company_scope s t user_id designer of
        None \<Rightarrow> []
      | Some (c, ids) \<Rightarrow> [FCond c (Some ''in'') (VList (map VInt (sorted_list_of_set ids))) False])"

definition list_records ::
  "meta_table \<Rightarrow> int option \<Rightarrow> bool \<Rightarrow> bool \<Rightarrow> filt list \<Rightarrow> pystr option \<Rightarrow> pystr \<Rightarrow> int \<Rightarrow> int option \<Rightarrow>
     (row list \<times> int) comp" where
  "list_records t user_id designer include_deleted filters sort_col order page per_page =
     bindC (getC (\<lambda>s. scope_filters s t user_id designer include_deleted)) (\<lambda>extra.
       list_rows (t_phys_name t) (filters @ extra) sort_col order page per_page)"

definition get_record :: "meta_table \<Rightarrow> pyval \<Rightarrow> int option \<Rightarrow> bool \<Rightarrow> bool \<Rightarrow> row option comp" where
  "get_record t pk user_id designer allow_deleted =
     bindC (get_row (t_phys_name t) pk) (\<lambda>r.
     getC (\<lambda>s. if row_readable t r user_id designer allow_deleted (company_scope s t user_id designer)
               then r else None))"

subsection \<open>What a write touches\<close>

context action_frame
begin

lemma keeps_email_user: "keeps R (email_userC env u subj body)"
  unfolding email_userC_def
  by (rule keeps_mod) (use send_mail_outbox outbox refl in
    \<open>auto simp: email_user_def split: option.split; metis prod.collapse\<close>)

lemma keeps_tell: "keeps R (tell env u n subj body)"
  unfolding tell_def by (intro keeps keeps_notif keeps_email_user)

lemma keeps_writeback: "keeps R (writeback env t p pk c now)"
  unfolding writeback_def Let_def by (intro keeps keeps_update)

lemma keeps_sla_event:
  assumes "\<And>s cs. R s (s\<lparr>d_clocks := cs\<rparr>)"
  shows "keeps R (sla_event env t event pk old)"
  unfolding sla_event_def apply_policy_def Let_def put_clock_def add_clock_def
  by (intro keeps keeps_get keeps_notif keeps_writeback assms)

lemma keeps_compute: "keeps R (compute_values env t ctx pk)"
  by (simp add: keeps_def compute_values_def refl)

lemma keeps_recompute_row: "keeps R (recompute_row env t r)"
  unfolding recompute_row_def Let_def by (intro keeps keeps_compute keeps_update)

lemma keeps_recompute_related: "keeps R (recompute_related env t r)"
  unfolding recompute_related_def recompute_parent_def recompute_children_def recompute_linked_def
    Let_def list_rows_def get_links_def
  by (intro keeps keeps_get keeps_read keeps_recompute_row)

lemma keeps_ripple: "keeps R (ripple env t r)"
  unfolding ripple_def by (intro keeps keeps_recompute_related)

lemma keeps_best_effort: "keeps R m \<Longrightarrow> keeps R (best_effort m)"
  unfolding best_effort_def by (intro keeps)

lemma keeps_tell_all: "keeps R (eachC (tell_user env allow msg) ids)"
  unfolding tell_user_def by (intro keeps keeps_tell)

lemma keeps_notify_watchers: "keeps R (notify_watchers env t pk vs user_id)"
  unfolding notify_watchers_def
  by (rule keeps_best_effort)
    (use keeps_tell_all in \<open>simp add: keeps_def notify_update_def Let_def refl\<close>)

lemma keeps_notify_assignees: "keeps R (notify_assignees env t pk vs old user_id)"
  unfolding notify_assignees_def notify_assignee_def Let_def
  by (intro keeps_best_effort keeps keeps_tell)

end

text \<open>A relation that also an audit entry, a drawn number, a purged attachment and SLA handling respect.\<close>

locale write_frame = action_frame +
  assumes audit: "R s (s\<lparr>d_audit := d_audit s @ [a]\<rparr>)"
    and seqs: "R s (s\<lparr>d_seqs := q\<rparr>)"
    and attachments: "R s (s\<lparr>d_attachments := x\<rparr>)"
    and sla: "keeps R (sla_event env t ev pk old)"
begin

lemma keeps_log: "keeps R (log_change t pk act user_id ch)"
  unfolding log_change_def by (intro keeps audit)

lemma keeps_fire_all:
  assumes "\<And>c tt vs u. cr = Some c \<Longrightarrow> keeps R (c tt vs u)"
  shows "keeps R (fire_all env cr t event pk old user_id)"
  unfolding fire_all_def
  by (intro keeps keeps_best_effort keeps_fire keeps_feed_event sla assms)

lemma keeps_number: "keeps R (next_autonumberC f)"
  by (simp add: keeps_def next_autonumberC_def next_autonumber_def Let_def seqs)

lemma keeps_prepare: "keeps R (prepare_values env t vs user_id)"
  unfolding prepare_values_def apply_generated_def generate_field_def apply_company_default_def compute_self_def
  by (intro keeps keeps_number keeps_compute)

lemma keeps_insert: "keeps R (insert_row t vs)"
  unfolding insert_row_def by (rule keeps_with) (rule phys)

lemma keeps_create_with:
  assumes "\<And>c tt vs u. cr = Some c \<Longrightarrow> keeps R (c tt vs u)"
  shows "keeps R (create_with env cr t vs user_id)"
  unfolding create_with_def after_create_def
  by (intro keeps keeps_prepare keeps_insert keeps_log keeps_fire_all keeps_notify_assignees keeps_ripple assms)

lemma keeps_create_at: "keeps R (create_at n env t vs user_id)"
proof (induction n arbitrary: t vs user_id)
  case 0
  show ?case unfolding create_at.simps by (rule keeps_create_with) simp
next
  case (Suc n)
  then show ?case by (auto intro: keeps_create_with)
qed

lemma keeps_nested: "nested env = Some c \<Longrightarrow> keeps R (c tt vs u)"
  by (auto simp: nested_def keeps_create_at)

lemma keeps_create: "keeps R (create env t vs user_id)"
  by (simp add: create_def keeps_create_at)

lemma keeps_update_record: "keeps R (update env t pk vs user_id)"
  unfolding update_def write_update_def old_row_def compute_self_def after_update_def row_after_def Let_def
  by (intro keeps keeps_get keeps_compute keeps_update keeps_log keeps_fire_all keeps_nested
      keeps_notify_watchers keeps_notify_assignees keeps_ripple)

lemma keeps_delete_where: "keeps R (delete_where t c v)" "keeps R (clear_fk t c v)" "keeps R (delete_row t pk)"
  unfolding delete_where_def clear_fk_def delete_row_def by (rule keeps_with, rule phys)+

lemma keeps_erase: "keeps R (erase_row t pk)"
  unfolding erase_row_def
  by (intro keeps keeps_delete_where) (simp add: purge_attachments_def Let_def attachments refl)

lemma keeps_trash: "keeps R (trash_row env t pk user_id)"
  unfolding trash_row_def drop_links_def detach_child_def column_nullable_def Let_def
  by (intro keeps keeps_delete_where keeps_read keeps_update)

lemma keeps_remove: "keeps R (remove env t pk user_id)"
  unfolding remove_def
  by (intro keeps keeps_get keeps_trash keeps_erase keeps_log keeps_fire_all keeps_nested keeps_ripple)

lemma keeps_restore: "keeps R (restore t pk user_id)" "keeps R (destroy t pk user_id)"
  unfolding restore_def destroy_def by (intro keeps keeps_update keeps_log keeps_erase)+

lemmas writes_kept = keeps_create keeps_update_record keeps_remove keeps_restore

end

interpretation users: write_frame same_users
  by unfold_locales (simp_all add: same_users_def users.keeps_sla_event)

interpretation design: write_frame same_design
  by unfold_locales (simp_all add: same_design_def design.keeps_sla_event)

interpretation approvals: write_frame same_approvals
  by unfold_locales (simp_all add: same_approvals_def approvals.keeps_sla_event)

interpretation grow: write_frame grows
  by unfold_locales (simp_all add: grows_def grow.keeps_sla_event)

interpretation clocks: write_frame advances
  by unfold_locales (simp_all add: advances_same sla_event_moves)

definition undisturbed :: "db \<Rightarrow> db \<Rightarrow> bool" where
  "undisturbed s s' \<longleftrightarrow> grows s s' \<and> same_users s s' \<and> same_design s s' \<and> same_approvals s s' \<and> advances s s'"

lemma keeps_undisturbed:
  "keeps grows m \<Longrightarrow> keeps same_users m \<Longrightarrow> keeps same_design m \<Longrightarrow> keeps same_approvals m \<Longrightarrow>
     keeps advances m \<Longrightarrow> keeps undisturbed m"
  by (simp add: keeps_def undisturbed_def)

text \<open>
  C8: Whatever a write sets off (rules that create further records, feeds, mail, SLA clocks) and
  whether it succeeds or raises: no notification and no audit entry is lost or changed, no
  account, no part of the design and no approval request is touched, and no SLA clock leaves its
  state machine.
\<close>

theorem writes_respect_frames:
  "keeps undisturbed (create env t vs u) \<and> keeps undisturbed (update env t pk vs u) \<and>
   keeps undisturbed (remove env t pk u) \<and> keeps undisturbed (restore t pk u) \<and> keeps undisturbed (destroy t pk u)"
  by (intro conjI keeps_undisturbed users.writes_kept design.writes_kept approvals.writes_kept
      grow.writes_kept clocks.writes_kept)

subsection \<open>What decides the outcome\<close>

lemma best_effort_raise_free [intro, simp]: "raise_free (best_effort m)"
  unfolding best_effort_def by (intro raise_free_try raise_free_intros)

lemma ripple_raise_free [intro, simp]: "raise_free (ripple env t r)"
  unfolding ripple_def by (intro raise_free_try raise_free_intros)

lemma fire_all_raise_free [intro, simp]: "raise_free (fire_all env cr t ev pk old u)"
  unfolding fire_all_def by (intro raise_free_bind best_effort_raise_free)

lemma notify_raise_free [intro, simp]:
  "raise_free (notify_watchers env t pk vs u)" "raise_free (notify_assignees env t pk vs old u)"
  "raise_free (log_change t pk act u ch)"
  unfolding notify_watchers_def notify_assignees_def log_change_def by auto

lemma after_create_raise_free [intro, simp]: "raise_free (after_create env cr t vs u pk)"
  unfolding after_create_def by (intro raise_free_bind) simp_all

lemma fst_bind_raise_free:
  "(\<And>x. raise_free (f x)) \<Longrightarrow> fst (bindC m (\<lambda>x. bindC (f x) (\<lambda>_. retC (g x))) s) = map_sum id g (fst (m s))"
  by (auto simp: bindC_def retC_def raise_free_def map_sum_def split: prod.splits sum.splits)
    (metis Inl_Inr_False fst_conv isl_def)+

lemma bindC_assoc: "bindC (bindC m f) g = bindC m (\<lambda>x. bindC (f x) g)"
  by (auto simp: bindC_def fun_eq_iff split: prod.splits sum.splits)

lemma create_with_outcome:
  "fst (create_with env cr t vs u s) = fst (bindC (prepare_values env t vs u) (insert_row (t_phys_name t)) s)"
proof -
  have *: "fst (bindC (insert_row (t_phys_name t) v) (\<lambda>pk.
      bindC (log_change t pk ''create'' u (create_changes t v)) (\<lambda>_.
      bindC (after_create env cr t v u pk) (\<lambda>_. retC pk))) s1) = fst (insert_row (t_phys_name t) v s1)" for v s1
  proof -
    have "raise_free (bindC (log_change t pk ''create'' u (create_changes t v)) (\<lambda>_. after_create env cr t v u pk))" for pk
      by (intro raise_free_bind) simp_all
    from fst_bind_raise_free [OF this, where m = "insert_row (t_phys_name t) v" and g = "\<lambda>pk. pk" and s = s1]
    show ?thesis by (simp add: bindC_assoc sum.map_ident id_def)
  qed
  show ?thesis
    unfolding create_with_def bindC_def [of "prepare_values env t vs u"]
    by (auto simp: * split: prod.splits sum.splits)
qed

text \<open>
  Whether a record is created, and under which key, is decided by its values and the
  insertion of its row alone: nothing the creation sets off can make it fail.
\<close>

theorem create_outcome:
  "fst (create env t vs u s) = fst (bindC (prepare_values env t vs u) (insert_row (t_phys_name t)) s)"
  by (simp add: create_def numeral_3_eq_3 create_with_outcome)

text \<open>The table is not dropped.\<close>

definition still_there :: "pystr \<Rightarrow> db \<Rightarrow> db \<Rightarrow> bool" where
  "still_there t s s' \<longleftrightarrow> (dget (d_phys s) t \<noteq> None \<longrightarrow> dget (d_phys s') t \<noteq> None)"

lemma still_there_same: "d_phys s' = d_phys s \<Longrightarrow> still_there t s s'"
  by (simp add: still_there_def)

interpretation there: action_frame "still_there t" for t
  by unfold_locales (auto simp: still_there_def add_notif_def put_phys_def)

interpretation there: write_frame "still_there t" for t
  by unfold_locales (simp_all add: still_there_same there.keeps_sla_event)

lemma update_row_there: "update_row t pk vs s = (Inr x, s') \<Longrightarrow> dget (d_phys s') t \<noteq> None"
  by (auto simp: update_row_def with_phys_def reflect_def put_phys_def split: option.splits sum.splits prod.splits)

lemma raise_free_bind_fst: "raise_free m \<Longrightarrow> \<exists>x. bindC m f s = f x (snd (m s))"
  by (auto simp: bindC_def raise_free_def split: prod.splits sum.splits) (metis fst_conv isl_def)

lemma write_update_old:
  assumes "write_update env t pk vs u s = (Inr (old, vs1, vs2), s')" "needs_old s t vs"
  shows "old \<noteq> None" "dget (d_phys s') (t_phys_name t) \<noteq> None"
  using assms
  by (auto simp: write_update_def old_row_def Let_def comp_simps retC_def elim!: bindC_InrE
      dest: update_row_there split: if_splits)


subsection \<open>The audit log of a write\<close>

lemma log_change_entry:
  "t_track_audit t \<Longrightarrow> log_change t pk act u ch s =
     (Inr (), s\<lparr>d_audit := d_audit s @ [audit_entry s t pk act u ch]\<rparr>)"
  by (simp add: log_change_def whenC_def comp_simps)

lemma grows_audit: "keeps grows m \<Longrightarrow> a \<in> set (d_audit s) \<Longrightarrow> a \<in> set (d_audit (snd (m s)))"
  by (auto simp: keeps_def grows_def dest!: spec [of _ s] set_mono_prefix)

text \<open>
  A record created in an audited table leaves an entry of the log with its key, its author and
  every value that was written, the audit columns excepted.
\<close>

theorem create_logged:
  assumes "create env t vs u s = (Inr pk, s')" "t_track_audit t"
  shows "\<exists>v s1 s2. prepare_values env t vs u s = (Inr v, s1) \<and> insert_row (t_phys_name t) v s1 = (Inr pk, s2) \<and>
    (\<exists>a\<in>set (d_audit s'). al_table_phys a = t_phys_name t \<and> al_row_pk a = pk \<and> al_action a = ''create'' \<and>
      al_user_id a = u \<and> (case al_changes a of
        None \<Rightarrow> set (dkeys v) \<subseteq> set MANAGED
      | Some ch \<Rightarrow> set ch = {(k, VNone, w) |k w. (k, w) \<in> set v \<and> k \<notin> set MANAGED}))"
proof -
  from assms(1) obtain v s1 s2 where v: "prepare_values env t vs u s = (Inr v, s1)"
    "insert_row (t_phys_name t) v s1 = (Inr pk, s2)"
    and rest: "s' = snd (after_create env (nested env) t v u pk
      (s2\<lparr>d_audit := d_audit s2 @ [audit_entry s2 t pk ''create'' u (create_changes t v)]\<rparr>))"
    by (auto simp: create_def nested_def numeral_3_eq_3 numeral_2_eq_2 create_with_def retC_def
        log_change_entry [OF assms(2)] bindC_Inr elim!: bindC_InrE)
  let ?a = "audit_entry s2 t pk ''create'' u (create_changes t v)"
  have "keeps grows (after_create env (nested env) t v u pk)"
    unfolding after_create_def
    by (intro grow.keeps grow.keeps_fire_all grow.keeps_nested grow.keeps_notify_assignees grow.keeps_ripple)
  from grows_audit [OF this] have "?a \<in> set (d_audit s')" by (simp add: rest)
  moreover have "case al_changes ?a of None \<Rightarrow> set (dkeys v) \<subseteq> set MANAGED
      | Some ch \<Rightarrow> set ch = {(k, VNone, w) |k w. (k, w) \<in> set v \<and> k \<notin> set MANAGED}"
    using assms(2)
    by (force simp: audit_entry_def create_changes_def dkeys_def filter_empty_conv)
  ultimately show ?thesis
    using v by (intro exI conjI bexI [of _ ?a]) (simp_all add: audit_entry_def)
qed

subsection \<open>Automatic numbers\<close>

definition counter :: "db \<Rightarrow> int \<Rightarrow> int" where
  "counter s fid = (case seq_of s fid of None \<Rightarrow> 1 | Some q \<Rightarrow> sq_next q)"

text \<open>Numbers drawn for fields one after the other.\<close>

fun draw :: "meta_field list \<Rightarrow> db \<Rightarrow> (int \<times> int) list" where
  "draw [] s = []"
| "draw (f # fs) s = (case next_autonumber f s of (n, s') \<Rightarrow> (f_id f, n) # draw fs s')"

lemma find_upd_where:
  "(\<And>x. P (g x) = P x) \<Longrightarrow> (\<And>x. Q x \<Longrightarrow> P x) \<Longrightarrow>
     find P (upd_where Q g xs) = map_option (\<lambda>x. if Q x then g x else x) (find P xs)"
  by (induction xs) (auto simp: upd_where_def)

lemma next_autonumber_counter:
  "fst (next_autonumber f s) = counter s (f_id f) \<and>
   counter (snd (next_autonumber f s)) i = counter s i + (if i = f_id f then 1 else 0)"
proof -
  let ?q = "\<lparr>sq_id = next_id sq_id (d_seqs s), sq_field_id = f_id f, sq_next = 1\<rparr>"
  let ?seqs = "if seq_of s (f_id f) = None then d_seqs s @ [?q] else d_seqs s"
  have upd: "find (\<lambda>q. sq_field_id q = i) (upd_where (\<lambda>q. sq_field_id q = f_id f) (\<lambda>q. q\<lparr>sq_next := sq_next q + 1\<rparr>) qs)
      = map_option (\<lambda>q. if sq_field_id q = f_id f then q\<lparr>sq_next := sq_next q + 1\<rparr> else q)
          (find (\<lambda>q. sq_field_id q = i) qs)" for i qs
    by (induction qs) (auto simp: upd_where_def)
  have app: "find (\<lambda>q. sq_field_id q = i) (d_seqs s @ [?q]) =
      (case find (\<lambda>q. sq_field_id q = i) (d_seqs s) of Some q \<Rightarrow> Some q
       | None \<Rightarrow> if i = f_id f then Some ?q else None)" for i
    by (simp add: find_append split: option.splits)
  have field: "find (\<lambda>q. sq_field_id q = i) qs = Some q \<Longrightarrow> sq_field_id q = i" for i qs q
    by (induction qs) (auto split: if_splits)
  show ?thesis
    by (auto simp: next_autonumber_def Let_def counter_def seq_of_def upd app dest: field split: option.splits)
qed

lemma draw_above: "(i, n) \<in> set (draw fs s) \<Longrightarrow> counter s i \<le> n"
proof (induction fs arbitrary: s)
  case (Cons f fs)
  obtain m s' where m: "next_autonumber f s = (m, s')" by (cases "next_autonumber f s")
  with next_autonumber_counter [of f s i] have "counter s i \<le> counter s' i" "i = f_id f \<Longrightarrow> m = counter s i"
    by auto
  with Cons m show ?case by fastforce
qed simp

text \<open>No automatic number of a field is given twice, in whatever order the numbers of the fields are drawn.\<close>

theorem autonumbers_distinct: "distinct (draw fs s)"
proof (induction fs arbitrary: s)
  case (Cons f fs)
  obtain m s' where m: "next_autonumber f s = (m, s')" by (cases "next_autonumber f s")
  with next_autonumber_counter [of f s "f_id f"] have "counter s' (f_id f) = m + 1" by simp
  then have "(f_id f, m) \<notin> set (draw fs s')" using draw_above by fastforce
  with m Cons show ?case by simp
qed simp

subsection \<open>The list and the record\<close>

lemma set_insert_by [simp]: "set (insert_by le x ys) = insert x (set ys)"
  by (induction ys) auto

lemma set_order_by [simp]: "set (order_by c d rows) = set rows"
proof -
  have "set (sort_by le xs) = set xs" for le and xs :: "row list"
    by (induction xs) (simp_all add: sort_by_def)
  then show ?thesis by (simp add: order_by_def)
qed

lemma find_first_row:
  assumes "phys_ok p" "r \<in> set (ph_rows p)" "rget r (ph_pk p) = VInt k" "col_type p (ph_pk p) = CInt"
  shows "find (is_row p (VInt k)) (ph_rows p) = Some r"
proof -
  have key: "is_row p (VInt k) x \<longleftrightarrow> sql_eq (rget x (ph_pk p)) (VInt k)" for x
    using assms(4) by (simp add: is_row_def pk_value_def coerce_col_def)
  have "find (is_row p (VInt k)) rows = Some r"
    if "sorted_wrt (\<lambda>x y. \<not> clash p x y) rows" "r \<in> set rows" for rows
    using that
  proof (induction rows)
    case (Cons x rows)
    show ?case
    proof (cases "is_row p (VInt k) x")
      case True
      then have "\<not> (r \<in> set rows)" using Cons.prems(1) assms(3) by (auto simp: clash_def key)
      with Cons.prems(2) True show ?thesis by simp
    next
      case False
      then have "x \<noteq> r" using assms(3) by (auto simp: key)
      with False Cons show ?thesis by simp
    qed
  qed simp
  with assms(1,2) show ?thesis by (simp add: phys_ok_def)
qed

text \<open>A value that a user or company column holds.\<close>

definition id_value :: "pyval \<Rightarrow> bool" where
  "id_value v = (case v of VNone \<Rightarrow> True | VInt _ \<Rightarrow> True | _ \<Rightarrow> False)"

lemma id_value_eq: "id_value v \<Longrightarrow> sql_eq v (VInt i) \<longleftrightarrow> v = VInt i"
  "id_value v \<Longrightarrow> sql_eq (VInt i) v \<longleftrightarrow> v = VInt i"
  "id_value v \<Longrightarrow> py_eq v (VInt i) \<longleftrightarrow> v = VInt i"
  by (auto simp: id_value_def split: pyval.splits)

text \<open>The three conditions a scope can have, on a table with their column.\<close>

lemma scope_test_simps:
  assumes "has_col p c"
  shows "filter_test p (FCond c (Some ''empty'') VNone False) = Some (\<lambda>r. rget r c = VNone)"
    and "filter_test p (FCond c (Some ''eq'') (VInt i) False) = Some (\<lambda>r. sql_eq (VInt i) (rget r c))"
    and "filter_test p (FCond c (Some ''in'') (VList vs) False) =
      Some (\<lambda>r. rget r c \<noteq> VNone \<and> list_ex (sql_eq (rget r c)) vs)"
  using assms
  by (auto simp: filter_test_def clause_for_def Let_def text_or_def NO_VALUE_OPS_def build_clause_def
      clause_true_def cmp3_def sql_eq_def as_list_def blank_def fun_eq_iff)

lemma company_scope_finite: "company_scope s t u d = Some (c, ids) \<Longrightarrow> finite ids"
  by (auto simp: company_scope_def allowed_for_user_def split: if_splits option.splits)

lemma scope_tests:
  assumes "list_all (\<lambda>f. has_col p (fc_col f) \<and> (fc_op f = Some ''empty'' \<or> id_value (rget r (fc_col f))))
      (scope_filters s t (Some u) d False)" and "r \<noteq> []"
  shows "list_all (\<lambda>c. c r) (List.map_filter (filter_test p) (scope_filters s t (Some u) d False)) \<longleftrightarrow>
    row_readable t (Some r) (Some u) d False (company_scope s t (Some u) d)"
proof -
  have comp: "list_ex (sql_eq v) (map VInt (sorted_list_of_set ids)) \<longleftrightarrow> (\<exists>i\<in>ids. py_eq v (VInt i))"
    if "id_value v" "finite ids" for v ids
    using that by (auto simp: list_ex_iff id_value_eq)
  have none: "\<not> (\<exists>i\<in>ids. py_eq VNone (VInt i))" for ids by simp
  show ?thesis
  proof (cases "company_scope s t (Some u) d")
    case None
    with assms show ?thesis
      by (auto simp: scope_filters_def row_readable_def in_scope_def opt_int_def scope_test_simps
          id_value_eq List.map_filter_simps)
  next
    case (Some ci)
    obtain c ids where ci: "ci = (c, ids)" by (cases ci)
    with Some have "finite ids" using company_scope_finite by blast
    with assms Some ci show ?thesis
      by (auto simp: scope_filters_def row_readable_def in_scope_def opt_int_def scope_test_simps
          id_value_eq List.map_filter_simps comp none simp del: set_map)
  qed
qed

text \<open>
  C10: The two ways to a record agree: on a table whose scope columns exist and hold account and
  company ids, the list of a user contains a row exactly when the user gets that row by its
  key, trash, row ownership and company scope included.
\<close>

theorem list_get_agree:
  assumes "dget (d_phys s) (t_phys_name t) = Some p" "phys_ok p" "r \<in> set (ph_rows p)"
    and "rget r (ph_pk p) = VInt k" "col_type p (ph_pk p) = CInt"
    and "list_all (\<lambda>f. has_col p (fc_col f) \<and> (fc_op f = Some ''empty'' \<or> id_value (rget r (fc_col f))))
      (scope_filters s t (Some u) d False)"
  shows "(\<exists>rows n. list_records t (Some u) d False [] None ''asc'' 1 None s = (Inr (rows, n), s) \<and> r \<in> set rows) \<longleftrightarrow>
    get_record t (VInt k) (Some u) d False s = (Inr (Some r), s)"
proof -
  have r: "r \<noteq> []" using assms(4) by (auto)
  have "get_row (t_phys_name t) (VInt k) s = (Inr (Some r), s)"
    using find_first_row [OF assms(2-5)] assms(1) by (simp add: get_row_def read_phys_def reflect_def)
  then have "get_record t (VInt k) (Some u) d False s = (Inr (Some r), s) \<longleftrightarrow>
      row_readable t (Some r) (Some u) d False (company_scope s t (Some u) d)"
    by (simp add: get_record_def bindC_Inr comp_simps)
  also have "\<dots> \<longleftrightarrow> r \<in> set (apply_filters p (scope_filters s t (Some u) d False) (ph_rows p))"
    using scope_tests [OF assms(6) r] assms(3) by (simp add: apply_filters_def)
  also have "\<dots> \<longleftrightarrow> (\<exists>rows n. list_records t (Some u) d False [] None ''asc'' 1 None s = (Inr (rows, n), s) \<and> r \<in> set rows)"
    using assms(1) by (simp add: list_records_def comp_simps list_rows_def read_phys_def reflect_def Let_def page_of_def)
  finally show ?thesis by blast
qed

subsection \<open>Instances\<close>


theorem create_logged_witness:
  "\<exists>v s1 s2. prepare_values plain_env sample_table [(''state'', VStr ''a'')] None sample_db = (Inr v, s1) \<and>
    insert_row (t_phys_name sample_table) v s1 = (Inr (VInt 2), s2) \<and>
    (\<exists>a\<in>set (d_audit (snd (create plain_env sample_table [(''state'', VStr ''a'')] None sample_db))).
      al_table_phys a = t_phys_name sample_table \<and> al_row_pk a = VInt 2 \<and> al_action a = ''create'' \<and>
      al_user_id a = None \<and> (case al_changes a of
        None \<Rightarrow> set (dkeys v) \<subseteq> set MANAGED
      | Some ch \<Rightarrow> set ch = {(k, VNone, w) |k w. (k, w) \<in> set v \<and> k \<notin> set MANAGED}))"
proof (rule create_logged)
  have "fst (create plain_env sample_table [(''state'', VStr ''a'')] None sample_db) = Inr (VInt 2)"
    by code_simp
  then show "create plain_env sample_table [(''state'', VStr ''a'')] None sample_db =
      (Inr (VInt 2), snd (create plain_env sample_table [(''state'', VStr ''a'')] None sample_db))"
    by (metis prod.collapse)
qed (simp add: sample_table_def)

text \<open>A table whose rows belong to their creators.\<close>

definition owned_table :: meta_table where
  "owned_table = sample_table\<lparr>t_row_owned := True\<rparr>"

definition owned_phys :: phys where
  "owned_phys = \<lparr>ph_cols = [(''id'', CInt, False), (''created_by'', CInt, True)], ph_pk = ''id'',
     ph_rows = [[(''id'', VInt 1), (''created_by'', VInt 7)], [(''id'', VInt 2), (''created_by'', VInt 8)]],
     ph_uniq = [], ph_next = 3\<rparr>"

definition owned_db :: db where
  "owned_db = empty_db\<lparr>d_phys := [(''tickets'', owned_phys)]\<rparr>"

theorem list_get_agree_witness:
  "(\<exists>rows n. list_records owned_table (Some 7) False False [] None ''asc'' 1 None owned_db = (Inr (rows, n), owned_db) \<and>
      [(''id'', VInt 1), (''created_by'', VInt 7)] \<in> set rows) \<longleftrightarrow>
    get_record owned_table (VInt 1) (Some 7) False False owned_db =
      (Inr (Some [(''id'', VInt 1), (''created_by'', VInt 7)]), owned_db)"
proof (rule list_get_agree)
  show "dget (d_phys owned_db) (t_phys_name owned_table) = Some owned_phys"
    by (simp add: owned_db_def owned_table_def sample_table_def dget_Cons)
  show "phys_ok owned_phys" by code_simp
  show "list_all (\<lambda>f. has_col owned_phys (fc_col f) \<and> (fc_op f = Some ''empty'' \<or>
      id_value (rget [(''id'', VInt 1), (''created_by'', VInt 7)] (fc_col f))))
      (scope_filters owned_db owned_table (Some 7) False False)"
    by code_simp
qed (simp_all add: owned_phys_def rget_Cons col_type_def)

end
