(* ===== verification/Workflow.thy ===== *)
theory Workflow
  imports Effects
begin

text \<open>
  \<open>app/workflow.py\<close>: the allowed transitions between the states of an enum field and the role
  gate on each. The column \<open>transitions\<close> holds a JSON list; entries that are not dicts or lack
  one of their ends are skipped.

  Shown: what \<open>check\<close> accepts; that the choices the form offers contain everything \<open>check\<close>
  lets through, and the converse when no transition is listed twice. With a duplicate entry
  under another role the form offers a move that \<open>check\<close> refuses.
\<close>

type_synonym transition = row

definition is_transition :: "pyval \<Rightarrow> transition option" where
  "is_transition v = (case v of
     VDict t \<Rightarrow> if truthy (rget t ''from'') \<and> truthy (rget t ''to'') then Some t else None
   | _ \<Rightarrow> None)"

definition transitions :: "workflow \<Rightarrow> transition list" where
  "transitions w = (case loads_or (VList []) (wf_transitions w) of
     None \<Rightarrow> []
   | Some data \<Rightarrow> List.map_filter is_transition (as_list data))"

definition layout :: "workflow \<Rightarrow> pyval" where
  "layout w = (case loads_or (VDict []) (wf_layout w) of None \<Rightarrow> VDict [] | Some v \<Rightarrow> v)"

text \<open>The dict \<open>field_id \<rightarrow> workflow\<close> of a table: a later row with the same field replaces an earlier one.\<close>

definition workflows_for :: "db \<Rightarrow> int \<Rightarrow> (int, workflow) dict" where
  "workflows_for s table_id =
     fold (\<lambda>w d. dset (wf_field_id w) w d) (filter (\<lambda>w. wf_table_id w = table_id) (d_workflows s)) []"

definition match_transition :: "workflow \<Rightarrow> pyval \<Rightarrow> pyval \<Rightarrow> transition option" where
  "match_transition w frm to =
     find (\<lambda>t. py_eq (rget t ''from'') frm \<and> py_eq (rget t ''to'') to) (transitions w)"

definition role_ok :: "transition \<Rightarrow> app_user \<Rightarrow> bool" where
  "role_ok t u = (let roles = rget t ''roles'' in
     if \<not> truthy roles then True
     else if is_designer u then True
     else case roles of
            VList rs \<Rightarrow> VStr (u_role u) \<in> set rs
          | VStr r \<Rightarrow> py_contains (u_role u) r
          | VDict d \<Rightarrow> dhas d (u_role u)
          | _ \<Rightarrow> False)"

definition py_in :: "pyval \<Rightarrow> pyval list \<Rightarrow> bool" where
  "py_in v vs = list_ex (\<lambda>w. py_eq w v) vs"

definition allowed_choices :: "workflow \<Rightarrow> pyval \<Rightarrow> app_user \<Rightarrow> pyval list" where
  "allowed_choices w current u =
     fold (\<lambda>t out. if py_eq (rget t ''from'') current \<and> role_ok t u \<and> \<not> py_in (rget t ''to'') out
                   then out @ [rget t ''to''] else out)
       (transitions w) (if current = VNone then [] else [current])"

datatype workflow_error = NotAllowed pystr pyval pyval | RoleMayNot pystr pyval pyval

text \<open>The field of a workflow: of the table's own, else by id.\<close>

definition workflow_field :: "db \<Rightarrow> meta_table \<Rightarrow> int \<Rightarrow> meta_field option" where
  "workflow_field s t fid = (case field_by_id t fid of Some f \<Rightarrow> Some f | None \<Rightarrow> get_field s fid)"

definition check_one ::
  "db \<Rightarrow> meta_table \<Rightarrow> row \<Rightarrow> row \<Rightarrow> app_user \<Rightarrow> int \<times> workflow \<Rightarrow> workflow_error option" where
  "check_one s t old new u p = (case p of (fid, w) \<Rightarrow>
     (case workflow_field s t fid of
        None \<Rightarrow> None
      | Some f \<Rightarrow>
        (case dget new (f_phys_name f) of
           None \<Rightarrow> None
         | Some v \<Rightarrow>
           let o' = rget old (f_phys_name f) in
           if py_eq v o' \<or> blank v then None
           else case match_transition w o' v of
                  None \<Rightarrow> Some (NotAllowed (f_label f) o' v)
                | Some tr \<Rightarrow>
                  if role_ok tr u then None else Some (RoleMayNot (f_label f) o' v))))"

text \<open>\<open>check\<close>: the first violation in the order of the dict, or none.\<close>

definition check ::
  "db \<Rightarrow> meta_table \<Rightarrow> row \<Rightarrow> row \<Rightarrow> app_user \<Rightarrow> workflow_error + unit" where
  "check s t old new u = (case first_some (check_one s t old new u) (workflows_for s (t_id t)) of
     None \<Rightarrow> Inr () | Some e \<Rightarrow> Inl e)"

subsection \<open>Facts\<close>

lemma wf_workflows_for [simp]: "wf_dict (workflows_for s i)"
  by (simp add: workflows_for_def wf_dict_fold_dset)

lemma match_transitionD:
  "match_transition w frm to = Some t \<Longrightarrow>
     t \<in> set (transitions w) \<and> py_eq (rget t ''from'') frm \<and> py_eq (rget t ''to'') to"
  unfolding match_transition_def by (drule find_Some_set) simp

lemma transitions_ends:
  "t \<in> set (transitions w) \<Longrightarrow> truthy (rget t ''from'') \<and> truthy (rget t ''to'')"
  by (auto simp: transitions_def is_transition_def List.map_filter_def split: option.splits pyval.splits if_splits)

definition sample_workflow :: "row list \<Rightarrow> workflow" where
  "sample_workflow ts = \<lparr>wf_id = 1, wf_table_id = 1, wf_field_id = 1, wf_initial_state = None,
     wf_transitions = JDoc (VList (map VDict ts)), wf_layout = JEmpty\<rparr>"

definition sample_user :: "pystr \<Rightarrow> app_user" where
  "sample_user r = \<lparr>u_id = 1, u_username = ''ann'', u_password_hash = [], u_role = r,
     u_is_active_flag = True, u_company_id = None, u_email = None, u_notify_email = False,
     u_totp_secret = None, u_mfa_enabled = False, u_mfa_backup_codes = JEmpty, u_oidc_subject = None\<rparr>"

lemma check_accepted:
  "check s t old new u = Inr () \<longleftrightarrow>
     (\<forall>(fid, w) \<in> set (workflows_for s (t_id t)). \<forall>f v.
        workflow_field s t fid = Some f \<longrightarrow> dget new (f_phys_name f) = Some v \<longrightarrow>
        py_eq v (rget old (f_phys_name f)) \<or> blank v \<or>
        (\<exists>tr. match_transition w (rget old (f_phys_name f)) v = Some tr \<and> role_ok tr u))"
proof -
  have "check s t old new u = Inr () \<longleftrightarrow>
      (\<forall>p \<in> set (workflows_for s (t_id t)). check_one s t old new u p = None)"
    by (cases "first_some (check_one s t old new u) (workflows_for s (t_id t))")
      (simp_all add: check_def flip: first_some_None)
  moreover have "check_one s t old new u (fid, w) = None \<longleftrightarrow>
      (\<forall>f v. workflow_field s t fid = Some f \<longrightarrow> dget new (f_phys_name f) = Some v \<longrightarrow>
        py_eq v (rget old (f_phys_name f)) \<or> blank v \<or>
        (\<exists>tr. match_transition w (rget old (f_phys_name f)) v = Some tr \<and> role_ok tr u))"
    for fid w
    by (auto simp: check_one_def Let_def split: option.splits)
  ultimately show ?thesis by (simp add: case_prod_unfold) (metis prod.collapse)
qed


text \<open>A table with one workflow: the state \<open>new\<close> may move to \<open>done\<close> only.\<close>

definition workflow_table :: meta_table where
  "workflow_table = \<lparr>t_id = 1, t_phys_name = ''tickets'', t_label = ''Ticket'', t_description = None,
     t_display_field_id = None, t_track_audit = True, t_soft_delete = False, t_row_owned = False,
     t_managed = True, t_source_id = None, t_pk_col = ''id'', t_fields = [\<lparr>f_id = 1, f_table_id = 1,
     f_phys_name = ''state'', f_label = ''State'', f_data_type = ''enum'', f_length = None,
     f_precision = None, f_scale = None, f_nullable = True, f_default_value = None,
     f_is_unique = False, f_position = 1, f_enum_options = JEmpty, f_enum_colors = JEmpty,
     f_related_table_id = None, f_on_delete = None, f_min_length = None, f_max_length = None,
     f_min_value = None, f_max_value = None, f_pattern = None, f_formula = None,
     f_result_type = None\<rparr>]\<rparr>"

definition workflow_db :: db where
  "workflow_db = empty_db\<lparr>d_workflows :=
     [sample_workflow [[(''from'', VStr ''new''), (''to'', VStr ''done'')]]]\<rparr>"


lemma role_ok_designer: "is_designer u \<Longrightarrow> role_ok t u"
  by (simp add: role_ok_def Let_def)

abbreviation offer :: "(transition \<Rightarrow> bool) \<Rightarrow> transition \<Rightarrow> pyval list \<Rightarrow> pyval list" where
  "offer P t out \<equiv>
     (if P t \<and> \<not> py_in (rget t ''to'') out then out @ [rget t ''to''] else out)"

lemma offer_str: "VStr v \<in> set (offer P t out) \<longleftrightarrow> VStr v \<in> set out \<or> P t \<and> rget t ''to'' = VStr v"
  by (auto simp: py_in_def list_ex_iff)

lemma offers_str:
  "VStr v \<in> set (fold (offer P) ts out) \<longleftrightarrow>
     VStr v \<in> set out \<or> (\<exists>t\<in>set ts. P t \<and> rget t ''to'' = VStr v)"
proof (induction ts arbitrary: out)
  case (Cons t ts)
  have "VStr v \<in> set (fold (offer P) (t # ts) out) \<longleftrightarrow>
      VStr v \<in> set (offer P t out) \<or> (\<exists>t\<in>set ts. P t \<and> rget t ''to'' = VStr v)"
    by (simp only: fold_Cons comp_apply Cons.IH)
  then show ?case unfolding offer_str by auto
qed simp

lemma allowed_choices_str:
  "VStr v \<in> set (allowed_choices w (VStr c) u) \<longleftrightarrow> v = c \<or>
     (\<exists>t\<in>set (transitions w). rget t ''from'' = VStr c \<and> role_ok t u \<and> rget t ''to'' = VStr v)"
  using offers_str [of v "\<lambda>t. py_eq (rget t ''from'') (VStr c) \<and> role_ok t u" "transitions w" "[VStr c]"]
  by (auto simp: allowed_choices_def conj_assoc)

text \<open>
  The form never hides a move the gate would let through, and offers nothing else when no
  two entries of the workflow have the same ends.
\<close>

theorem allowed_choices_agree:
  assumes "\<And>t t'. t \<in> set (transitions w) \<Longrightarrow> t' \<in> set (transitions w) \<Longrightarrow>
      rget t ''from'' = rget t' ''from'' \<Longrightarrow> rget t ''to'' = rget t' ''to'' \<Longrightarrow> t = t'"
  shows "VStr v \<in> set (allowed_choices w (VStr c) u) \<longleftrightarrow>
      v = c \<or> (\<exists>t. match_transition w (VStr c) (VStr v) = Some t \<and> role_ok t u)"
proof -
  have "(\<exists>t. match_transition w (VStr c) (VStr v) = Some t \<and> role_ok t u) \<longleftrightarrow>
      (\<exists>t\<in>set (transitions w). rget t ''from'' = VStr c \<and> role_ok t u \<and> rget t ''to'' = VStr v)"
    (is "?L \<longleftrightarrow> ?R")
  proof
    assume ?L
    then obtain t where "match_transition w (VStr c) (VStr v) = Some t" "role_ok t u" by blast
    with match_transitionD [OF this(1)] show ?R by auto
  next
    assume ?R
    then obtain t where t: "t \<in> set (transitions w)" "rget t ''from'' = VStr c"
      "rget t ''to'' = VStr v" "role_ok t u" by auto
    then have "match_transition w (VStr c) (VStr v) = Some t"
      unfolding match_transition_def
      by (intro find_unique) (auto intro: assms)
    with t(4) show ?L by auto
  qed
  then show ?thesis by (simp add: allowed_choices_str)
qed

lemma transitions_sample:
  "transitions (sample_workflow ts) =
     filter (\<lambda>t. truthy (rget t ''from'') \<and> truthy (rget t ''to'')) ts"
  by (induction ts) (auto simp: transitions_def sample_workflow_def as_list_def
      List.map_filter_simps is_transition_def)

theorem allowed_choices_agree_witness:
  "VStr ''done'' \<in> set (allowed_choices
      (sample_workflow [[(''from'', VStr ''new''), (''to'', VStr ''done'')]])
      (VStr ''new'') (sample_user ''user''))"
  by (subst allowed_choices_agree)
    (auto simp: transitions_sample rget_Cons match_transition_def role_ok_def Let_def)

text \<open>
  With two entries for one move, under different roles, the form offers it to the role of
  the second entry and the gate, which reads the first, refuses it.
\<close>

theorem duplicate_transition_refused:
  "\<exists>w u. VStr ''b'' \<in> set (allowed_choices w (VStr ''a'') u) \<and>
     (\<exists>t. match_transition w (VStr ''a'') (VStr ''b'') = Some t \<and> \<not> role_ok t u)"
proof (intro exI conjI)
  let ?w = "sample_workflow [[(''from'', VStr ''a''), (''to'', VStr ''b''), (''roles'', VList [VStr ''agent''])],
     [(''from'', VStr ''a''), (''to'', VStr ''b''), (''roles'', VList [VStr ''user''])]]"
  show "VStr ''b'' \<in> set (allowed_choices ?w (VStr ''a'') (sample_user ''user''))"
    by (simp add: allowed_choices_str transitions_sample rget_Cons role_ok_def Let_def sample_user_def)
  show "match_transition ?w (VStr ''a'') (VStr ''b'') =
      Some [(''from'', VStr ''a''), (''to'', VStr ''b''), (''roles'', VList [VStr ''agent''])]"
    by (simp add: match_transition_def transitions_sample rget_Cons)
  show "\<not> role_ok [(''from'', VStr ''a''), (''to'', VStr ''b''), (''roles'', VList [VStr ''agent''])]
      (sample_user ''user'')"
    by (simp add: role_ok_def Let_def rget_Cons sample_user_def is_designer_def)
qed

end
