(* ===== verification/Approvals.thy ===== *)
theory Approvals
  imports Record_Service Workflow
begin

text \<open>
  \<open>app/approvals.py\<close>: sign-off of workflow transitions. A transition with approval steps is
  taken out of the write (\<open>plan_diversions\<close>) and becomes a request; the steps are grouped
  by position, the groups act one after the other, the steps of a group in any order; an approval
  signs one step, a rejection ends the request, the last approval applies the move through
  \<open>record_service.update\<close>. \<open>act\<close> gets the request as the session has loaded it.

  The order of the notified accounts, in the source that of a set, is the order in which they are
  found; the dash and the arrow in the text of a notification are written in ASCII.

  Shown: what is left of a write after the diversion needs no approval; \<open>act\<close> implements the
  abstract sign-off sheet \<open>sheet_approve\<close>; in every state that requests and actions lead to, an approved
  request has a signature of an eligible account for each step, a pending one has a step a designer
  can sign, and no move of a record is pending twice; a request completes after as many approvals as
  it has unsigned steps; the inbox query misses no request. A failure to write the record leaves
  an approved request whose move never happened.
\<close>

subsection \<open>Steps\<close>

definition step_of :: "int \<Rightarrow> pyval \<Rightarrow> pyval \<Rightarrow> approval_step \<Rightarrow> bool" where
  "step_of w frm to st \<longleftrightarrow>
     st_workflow_id st = w \<and> sql_eq (VStr (st_from_state st)) frm \<and> sql_eq (VStr (st_to_state st)) to"

definition steps_for :: "db \<Rightarrow> int \<Rightarrow> pyval \<Rightarrow> pyval \<Rightarrow> approval_step list" where
  "steps_for s w frm to = sort_key st_position (sort_key st_id (filter (step_of w frm to) (d_steps s)))"

definition requires_approval :: "db \<Rightarrow> int \<Rightarrow> pyval \<Rightarrow> pyval \<Rightarrow> bool" where
  "requires_approval s w frm to = list_ex (step_of w frm to) (d_steps s)"

definition extra_choices :: "db \<Rightarrow> workflow \<Rightarrow> pyval \<Rightarrow> pyval list" where
  "extra_choices s w current = map (\<lambda>t. rget t ''to'')
     (filter (\<lambda>t. py_eq (rget t ''from'') current \<and> requires_approval s (wf_id w) current (rget t ''to''))
       (transitions w))"

definition eligible :: "approval_step \<Rightarrow> app_user \<Rightarrow> bool" where
  "eligible st u =
     (if is_designer u then True
      else if some_id (st_approver_user_id st) = Some (u_id u) then True
      else filled (st_approver_role st) \<and> st_approver_role st = Some (u_role u))"

definition approver_user_ids :: "db \<Rightarrow> approval_step list \<Rightarrow> int list" where
  "approver_user_ids s sts =
     (let ids = List.map_filter (\<lambda>st. some_id (st_approver_user_id st)) sts;
          roles = List.map_filter (\<lambda>st. if filled (st_approver_role st) then st_approver_role st else None) sts
      in remdups (ids @ map u_id (filter (\<lambda>u. u_role u \<in> set roles) (d_users s))))"

subsection \<open>Diversion of a write\<close>

record diversion =
  dv_wf :: workflow
  dv_field :: meta_field
  dv_frm :: pyval
  dv_to :: pyval

text \<open>Whether the workflow \<open>w\<close> of the field \<open>fid\<close> holds its change back, and which change that is.\<close>

definition divert_one :: "db \<Rightarrow> meta_table \<Rightarrow> row \<Rightarrow> row \<Rightarrow> int \<times> workflow \<Rightarrow> diversion option" where
  "divert_one s t old vs p = (case p of (fid, w) \<Rightarrow>
     (case workflow_field s t fid of
        None \<Rightarrow> None
      | Some f \<Rightarrow>
        (case dget vs (f_phys_name f) of
           None \<Rightarrow> None
         | Some to \<Rightarrow>
           let frm = rget old (f_phys_name f) in
           if py_eq to frm \<or> blank to then None
           else if match_transition w frm to \<noteq> None \<and> requires_approval s (wf_id w) frm to
             then Some \<lparr>dv_wf = w, dv_field = f, dv_frm = frm, dv_to = to\<rparr>
           else None)))"

definition plan_step ::
  "db \<Rightarrow> meta_table \<Rightarrow> row \<Rightarrow> int \<times> workflow \<Rightarrow> diversion list \<times> row \<Rightarrow> diversion list \<times> row" where
  "plan_step s t old p acc = (case acc of (out, vs) \<Rightarrow>
     (case divert_one s t old vs p of
        None \<Rightarrow> (out, vs)
      | Some d \<Rightarrow> (out @ [d], ddel (f_phys_name (dv_field d)) vs)))"

definition plan_diversions :: "db \<Rightarrow> meta_table \<Rightarrow> row option \<Rightarrow> row \<Rightarrow> diversion list \<times> row" where
  "plan_diversions s t old vs =
     fold (plan_step s t (old_or_empty old)) (workflows_for s (t_id t)) ([], vs)"

subsection \<open>Notifications\<close>

definition approval_notif :: "pystr \<Rightarrow> pystr \<Rightarrow> int \<Rightarrow> pystr \<Rightarrow> notification" where
  "approval_notif t pk uid body = (new_notif ''in_app'' ''unread'')\<lparr>n_table_phys := Some t,
     n_row_pk := opt_int (int_or_none (VStr pk)), n_event := Some ''approval'', n_user_id := VInt uid,
     n_body := Some body\<rparr>"

definition move_text :: "approval_request \<Rightarrow> pystr" where
  "move_text q = py_str (rq_from_state q) @ '' -> '' @ py_str (rq_to_state q)"

definition steps_at :: "db \<Rightarrow> approval_request \<Rightarrow> int \<Rightarrow> approval_step list" where
  "steps_at s q pos =
     filter (\<lambda>st. st_position st = pos) (steps_for s (rq_workflow_id q) (rq_from_state q) (rq_to_state q))"

definition notify_position :: "meta_table \<Rightarrow> approval_request \<Rightarrow> int \<Rightarrow> db \<Rightarrow> db" where
  "notify_position t q pos s =
     (let msg = ''Approval needed: '' @ t_label t @ '' #'' @ rq_row_pk q @ '' - '' @ move_text q in
      fold (\<lambda>uid. add_notif (approval_notif (t_phys_name t) (rq_row_pk q) uid msg))
        (approver_user_ids s (steps_at s q pos)) s)"

definition notify_requester :: "approval_request \<Rightarrow> pystr \<Rightarrow> db \<Rightarrow> db" where
  "notify_requester q what s =
     (case some_id (rq_requested_by q) of
        None \<Rightarrow> s
      | Some uid \<Rightarrow>
        let label = (case table_by_phys s (rq_table_phys q) of None \<Rightarrow> rq_table_phys q | Some t \<Rightarrow> t_label t) in
        add_notif (approval_notif (rq_table_phys q) (rq_row_pk q) uid
          (''Your request '' @ move_text q @ '' on '' @ label @ '' #'' @ rq_row_pk q @ '' was '' @ what @ ''.'')) s)"

subsection \<open>Requests\<close>

abbreviation PENDING :: pystr where "PENDING \<equiv> ''pending''"
abbreviation APPROVED :: pystr where "APPROVED \<equiv> ''approved''"
abbreviation REJECTED :: pystr where "REJECTED \<equiv> ''rejected''"

definition same_request :: "int \<Rightarrow> pystr \<Rightarrow> pystr \<Rightarrow> pyval \<Rightarrow> pyval \<Rightarrow> approval_request \<Rightarrow> bool" where
  "same_request w tp pk frm to q \<longleftrightarrow> rq_workflow_id q = w \<and> rq_table_phys q = tp \<and> rq_row_pk q = pk \<and>
     sql_eq (rq_from_state q) frm \<and> sql_eq (rq_to_state q) to \<and> rq_state q = PENDING"

definition new_request :: "db \<Rightarrow> meta_table \<Rightarrow> workflow \<Rightarrow> pyval \<Rightarrow> pyval \<Rightarrow> pyval \<Rightarrow> app_user \<Rightarrow> approval_request" where
  "new_request s t w pk frm to u = \<lparr>rq_id = next_id rq_id (d_reqs s), rq_workflow_id = wf_id w,
     rq_table_phys = t_phys_name t, rq_row_pk = py_str pk, rq_from_state = frm, rq_to_state = to,
     rq_state = PENDING,
     rq_current_position = (case steps_for s (wf_id w) frm to of [] \<Rightarrow> 1 | st # _ \<Rightarrow> st_position st),
     rq_requested_by = Some (u_id u), rq_decided_at = None\<rparr>"

text \<open>The columns of the states are NOT NULL.\<close>

definition request_transition ::
  "meta_table \<Rightarrow> workflow \<Rightarrow> pyval \<Rightarrow> pyval \<Rightarrow> pyval \<Rightarrow> app_user \<Rightarrow> approval_request comp" where
  "request_transition t w pk frm to u s =
     (case find (same_request (wf_id w) (t_phys_name t) (py_str pk) frm to) (d_reqs s) of
        Some q \<Rightarrow> (Inr q, s)
      | None \<Rightarrow>
        if frm = VNone \<or> to = VNone then (Inl (DBErr ''null value''), s)
        else let q = new_request s t w pk frm to u in
             (Inr q, notify_position t q (rq_current_position q) (s\<lparr>d_reqs := d_reqs s @ [q]\<rparr>)))"

subsection \<open>Acting on a request\<close>

definition signed_steps :: "db \<Rightarrow> approval_request \<Rightarrow> int option set" where
  "signed_steps s q =
     set (map ac_step_id (filter (\<lambda>a. ac_request_id a = rq_id q \<and> ac_decision a = ''approve'') (d_actions s)))"

definition open_steps :: "db \<Rightarrow> approval_request \<Rightarrow> approval_step list" where
  "open_steps s q = filter (\<lambda>st. Some (st_id st) \<notin> signed_steps s q) (steps_at s q (rq_current_position q))"

definition can_act :: "db \<Rightarrow> approval_request \<Rightarrow> app_user \<Rightarrow> bool" where
  "can_act s q u = (rq_state q = PENDING \<and> list_ex (\<lambda>st. eligible st u) (open_steps s q))"

definition new_action ::
  "env \<Rightarrow> db \<Rightarrow> approval_request \<Rightarrow> approval_step \<Rightarrow> app_user \<Rightarrow> pystr \<Rightarrow> pystr option \<Rightarrow> approval_action" where
  "new_action env s q st u decision msg = \<lparr>ac_id = next_id ac_id (d_actions s), ac_request_id = rq_id q,
     ac_step_id = Some (st_id st), ac_position = rq_current_position q, ac_user_id = Some (u_id u),
     ac_decision = (if decision = ''reject'' then ''reject'' else ''approve''),
     ac_comment = (if filled msg then msg else None), ac_at = e_now env\<rparr>"

definition add_action :: "approval_action \<Rightarrow> db \<Rightarrow> db" where
  "add_action a s = s\<lparr>d_actions := d_actions s @ [a]\<rparr>"

text \<open>The flush of a changed request.\<close>

definition put_request :: "approval_request \<Rightarrow> db \<Rightarrow> db" where
  "put_request q s = s\<lparr>d_reqs := upd_where (\<lambda>r. rq_id r = rq_id q) (\<lambda>_. q) (d_reqs s)\<rparr>"

definition next_position :: "db \<Rightarrow> approval_request \<Rightarrow> int option" where
  "next_position s q = find (\<lambda>p. p > rq_current_position q)
     (sort (remdups (map st_position (steps_for s (rq_workflow_id q) (rq_from_state q) (rq_to_state q)))))"

definition get_workflow :: "db \<Rightarrow> int \<Rightarrow> workflow option" where
  "get_workflow s i = find (\<lambda>x. wf_id x = i) (d_workflows s)"

definition apply_move :: "env \<Rightarrow> approval_request \<Rightarrow> unit comp" where
  "apply_move env q s =
     (case get_workflow s (rq_workflow_id q) of
        None \<Rightarrow> (Inr (), s)
      | Some w \<Rightarrow>
        (case (get_table s (wf_table_id w), get_field s (wf_field_id w)) of
           (Some t, Some f) \<Rightarrow>
             update env t (VStr (rq_row_pk q)) [(f_phys_name f, rq_to_state q)] (rq_requested_by q) s
         | _ \<Rightarrow> (Inr (), s)))"

definition finish_approved :: "env \<Rightarrow> approval_request \<Rightarrow> approval_request comp" where
  "finish_approved env q =
     (let q' = q\<lparr>rq_state := APPROVED, rq_decided_at := Some (e_now env)\<rparr> in
      bindC (modC (put_request q')) (\<lambda>_.
      bindC (apply_move env q') (\<lambda>_.
      bindC (modC (notify_requester q' ''approved'')) (\<lambda>_. retC q'))))"

definition advance_to :: "approval_request \<Rightarrow> int \<Rightarrow> approval_request comp" where
  "advance_to q nxt =
     (let q' = q\<lparr>rq_current_position := nxt\<rparr> in
      bindC (modC (put_request q')) (\<lambda>_.
      bindC (modC (\<lambda>s. case table_by_phys s (rq_table_phys q') of
                         None \<Rightarrow> s | Some t \<Rightarrow> notify_position t q' nxt s)) (\<lambda>_. retC q')))"

definition finish_rejected :: "env \<Rightarrow> approval_request \<Rightarrow> approval_request comp" where
  "finish_rejected env q =
     (let q' = q\<lparr>rq_state := REJECTED, rq_decided_at := Some (e_now env)\<rparr> in
      bindC (modC (put_request q')) (\<lambda>_.
      bindC (modC (notify_requester q' ''rejected'')) (\<lambda>_. retC q')))"

definition act ::
  "env \<Rightarrow> approval_request \<Rightarrow> app_user \<Rightarrow> pystr \<Rightarrow> pystr option \<Rightarrow> approval_request comp" where
  "act env q u decision msg s =
     (if rq_state q \<noteq> PENDING then (Inl (ValueErr ''This approval has already been decided.''), s)
      else case filter (\<lambda>st. eligible st u) (open_steps s q) of
        [] \<Rightarrow> (Inl (ValueErr ''You are not an eligible approver for the current step.''), s)
      | st # _ \<Rightarrow>
        let s1 = add_action (new_action env s q st u decision msg) s in
        if decision = ''reject'' then finish_rejected env q s1
        else if open_steps s1 q \<noteq> [] then (Inr q, s1)
        else case next_position s1 q of
               None \<Rightarrow> finish_approved env q s1
             | Some nxt \<Rightarrow> advance_to q nxt s1)"

subsection \<open>Queries\<close>

definition candidate :: "db \<Rightarrow> app_user \<Rightarrow> approval_request \<Rightarrow> bool" where
  "candidate s u q \<longleftrightarrow> rq_state q = PENDING \<and>
     list_ex (\<lambda>st. step_of (rq_workflow_id q) (rq_from_state q) (rq_to_state q) st \<and>
         st_position st = rq_current_position q \<and>
         (is_designer u \<or> st_approver_user_id st = Some (u_id u) \<or> st_approver_role st = Some (u_role u)))
       (d_steps s)"

definition newest_first :: "approval_request list \<Rightarrow> approval_request list" where
  "newest_first = sort_key (\<lambda>q. - rq_id q)"

definition candidate_requests :: "db \<Rightarrow> app_user \<Rightarrow> approval_request list" where
  "candidate_requests s u = newest_first (filter (candidate s u) (d_reqs s))"

definition pending_for_user :: "db \<Rightarrow> app_user \<Rightarrow> approval_request list" where
  "pending_for_user s u = filter (\<lambda>q. can_act s q u) (candidate_requests s u)"

definition pending_count_for_user :: "db \<Rightarrow> app_user \<Rightarrow> nat" where
  "pending_count_for_user s u = length (pending_for_user s u)"

record signature =
  sg_user :: "pystr option"
  sg_decision :: pystr
  sg_comment :: "pystr option"
  sg_at :: int
  sg_position :: int

record request_view =
  rv_req :: approval_request
  rv_n_steps :: nat
  rv_positions :: "int list"
  rv_actions :: "signature list"

text \<open>A signature of an unknown account has no name (a dash on the page).\<close>

definition signature_of :: "db \<Rightarrow> approval_action \<Rightarrow> signature" where
  "signature_of s a = \<lparr>sg_user = (case ac_user_id a of None \<Rightarrow> None | Some i \<Rightarrow> map_option u_username (get_user s i)),
     sg_decision = ac_decision a, sg_comment = ac_comment a, sg_at = ac_at a, sg_position = ac_position a\<rparr>"

definition view_request :: "db \<Rightarrow> approval_request \<Rightarrow> request_view" where
  "view_request s q =
     (let sts = steps_for s (rq_workflow_id q) (rq_from_state q) (rq_to_state q) in
      \<lparr>rv_req = q, rv_n_steps = length sts, rv_positions = sort (remdups (map st_position sts)),
       rv_actions = map (signature_of s)
         (sort_key ac_id (filter (\<lambda>a. ac_request_id a = rq_id q) (d_actions s)))\<rparr>)"

definition requests_for_record :: "db \<Rightarrow> pystr \<Rightarrow> pyval \<Rightarrow> request_view list" where
  "requests_for_record s tp pk = map (view_request s)
     (newest_first (filter (\<lambda>q. rq_table_phys q = tp \<and> rq_row_pk q = py_str pk) (d_reqs s)))"

subsection \<open>What notifications leave alone\<close>

context frame
begin

lemma fold_notifs: "(\<And>n s. R s (add_notif n s)) \<Longrightarrow> R s (fold (\<lambda>i. add_notif (f i)) xs s)"
  by (induction xs arbitrary: s) (auto intro: refl trans)

lemma notified:
  assumes "\<And>n s. R s (add_notif n s)"
  shows "R s (notify_position t q p s)" "R s (notify_requester q what s)"
  using assms by (auto simp: notify_position_def notify_requester_def Let_def refl
      intro!: fold_notifs split: option.split)

end

lemmas design_notified = design.notified [OF add_notif_frames(2)]
lemmas approvals_notified = approvals.notified [OF add_notif_frames(3)]

definition same_steps :: "db \<Rightarrow> db \<Rightarrow> bool" where
  "same_steps s s' \<longleftrightarrow> d_steps s' = d_steps s \<and> d_reqs s' = d_reqs s \<and> d_actions s' = d_actions s"

lemma same_stepsI: "same_design s s' \<Longrightarrow> same_approvals s s' \<Longrightarrow> same_steps s s'"
  by (simp add: same_steps_def same_design_def same_approvals_def)

lemma same_steps_notified [simp]:
  "same_steps s (notify_position t q p s)" "same_steps s (notify_requester q what s)"
  by (simp_all add: same_stepsI design_notified approvals_notified)

lemma same_steps_apply: "same_steps s (snd (apply_move env q s))"
proof -
  have "same_steps s (snd (update env t pk vs u s))" for t pk vs u
    using design.keeps_update_record approvals.keeps_update_record by (simp add: keeps_def same_stepsI)
  then show ?thesis by (auto simp: apply_move_def same_steps_def split: option.splits)
qed

subsection \<open>The effect of an action\<close>

text \<open>The request as \<open>act\<close> leaves it, once the action is recorded.\<close>

definition acted :: "env \<Rightarrow> db \<Rightarrow> approval_request \<Rightarrow> pystr \<Rightarrow> approval_request" where
  "acted env s1 q decision =
     (if decision = ''reject'' then q\<lparr>rq_state := REJECTED, rq_decided_at := Some (e_now env)\<rparr>
      else if open_steps s1 q \<noteq> [] then q
      else case next_position s1 q of
             None \<Rightarrow> q\<lparr>rq_state := APPROVED, rq_decided_at := Some (e_now env)\<rparr>
           | Some p \<Rightarrow> q\<lparr>rq_current_position := p\<rparr>)"

lemma acted_keys [simp]:
  "rq_id (acted env s1 q d) = rq_id q" "rq_workflow_id (acted env s1 q d) = rq_workflow_id q"
  "rq_from_state (acted env s1 q d) = rq_from_state q" "rq_to_state (acted env s1 q d) = rq_to_state q"
  "rq_table_phys (acted env s1 q d) = rq_table_phys q" "rq_row_pk (acted env s1 q d) = rq_row_pk q"
  by (auto simp: acted_def split: option.splits)

lemma put_request_same:
  assumes "q \<in> set (d_reqs s)" "distinct (map rq_id (d_reqs s))"
  shows "put_request q s = s"
proof -
  have "upd_where (\<lambda>r. rq_id r = rq_id q) (\<lambda>_. q) (d_reqs s) = d_reqs s"
    using assms by (intro nth_equalityI) (auto simp: upd_where_def in_set_conv_nth distinct_conv_nth)
  then show ?thesis by (simp add: put_request_def)
qed

lemma act_cases:
  assumes "act env q u d msg s = (r, s')" "q \<in> set (d_reqs s)" "distinct (map rq_id (d_reqs s))"
  obtains (refused) e where "r = Inl (ValueErr e)" "s' = s" "\<not> can_act s q u"
  | (recorded) st s1 where "rq_state q = PENDING" "st \<in> set (open_steps s q)" "eligible st u"
      "s1 = add_action (new_action env s q st u d msg) s"
      "same_steps (put_request (acted env s1 q d) s1) s'" "\<And>q'. r = Inr q' \<Longrightarrow> q' = acted env s1 q d"
      "\<exists>sts. filter (\<lambda>st. eligible st u) (open_steps s q) = st # sts"
      "\<And>e. r = Inl e \<Longrightarrow> rq_state (acted env s1 q d) = APPROVED"
proof (cases "rq_state q = PENDING \<and> filter (\<lambda>st. eligible st u) (open_steps s q) \<noteq> []")
  case False
  then have "\<not> can_act s q u" by (auto simp: can_act_def list_ex_iff filter_empty_conv)
  moreover have "\<exists>e. act env q u d msg s = (Inl (ValueErr e), s)"
    using False by (cases "filter (\<lambda>st. eligible st u) (open_steps s q)") (simp_all add: act_def)
  ultimately show ?thesis using assms(1) refused by auto
next
  case True
  then obtain st sts where st: "filter (\<lambda>st. eligible st u) (open_steps s q) = st # sts"
    by (cases "filter (\<lambda>st. eligible st u) (open_steps s q)") auto
  then have "st \<in> set (filter (\<lambda>st. eligible st u) (open_steps s q))" by simp
  then have mem: "st \<in> set (open_steps s q)" "eligible st u" by simp_all
  let ?s1 = "add_action (new_action env s q st u d msg) s"
  let ?q = "acted env ?s1 q d"
  have run: "act env q u d msg s = (if d = ''reject'' then finish_rejected env q ?s1
      else if open_steps ?s1 q \<noteq> [] then (Inr q, ?s1)
      else case next_position ?s1 q of None \<Rightarrow> finish_approved env q ?s1 | Some nxt \<Rightarrow> advance_to q nxt ?s1)"
    using True st by (simp add: act_def Let_def)
  have keep: "put_request q ?s1 = ?s1" using put_request_same assms(2,3) by (simp add: add_action_def)
  have "same_steps (put_request ?q ?s1) s' \<and> (\<forall>q'. r = Inr q' \<longrightarrow> q' = ?q) \<and>
      (\<forall>e. r = Inl e \<longrightarrow> rq_state ?q = APPROVED)"
  proof (cases "d = ''reject'' \<or> open_steps ?s1 q \<noteq> [] \<or> next_position ?s1 q \<noteq> None")
    case True
    show ?thesis using True assms(1) same_steps_notified
      by (auto simp: run acted_def finish_rejected_def advance_to_def Let_def comp_simps retC_def keep
          same_steps_def split: if_splits option.splits)
  next
    case False
    then have q: "?q = q\<lparr>rq_state := APPROVED, rq_decided_at := Some (e_now env)\<rparr>"
      and fin: "(r, s') = finish_approved env q ?s1" using assms(1) by (auto simp: run acted_def)
    obtain r1 s2 where m: "apply_move env ?q (put_request ?q ?s1) = (r1, s2)"
      by (cases "apply_move env ?q (put_request ?q ?s1)")
    have "same_steps (put_request ?q ?s1) s2" using same_steps_apply [of "put_request ?q ?s1" env ?q] m by simp
    with fin m show ?thesis unfolding q using same_steps_notified(2)
      by (cases r1) (auto simp: finish_approved_def Let_def comp_simps bindC_def retC_def modC_def same_steps_def)
  qed
  then show ?thesis using True mem st by (intro recorded [of st ?s1]) auto
qed

subsection \<open>Signatures\<close>

abbreviation steps_of :: "db \<Rightarrow> approval_request \<Rightarrow> approval_step list" where
  "steps_of s q \<equiv> steps_for s (rq_workflow_id q) (rq_from_state q) (rq_to_state q)"

definition signed :: "db \<Rightarrow> approval_request \<Rightarrow> approval_step \<Rightarrow> bool" where
  "signed s q st \<longleftrightarrow> Some (st_id st) \<in> signed_steps s q"

lemma sorted_steps: "sorted (map st_position (steps_of s q))"
  by (simp add: steps_for_def)

lemma set_steps_for [simp]: "set (steps_for s w frm to) = {st \<in> set (d_steps s). step_of w frm to st}"
  by (simp add: steps_for_def)

lemma open_steps_iff:
  "st \<in> set (open_steps s q) \<longleftrightarrow>
     st \<in> set (steps_of s q) \<and> st_position st = rq_current_position q \<and> \<not> signed s q st"
  by (auto simp: open_steps_def steps_at_def signed_def)

lemma same_steps_simps:
  assumes "same_steps s s'"
  shows "steps_for s' = steps_for s" "signed s' = signed s" "open_steps s' = open_steps s"
  using assms by (auto simp: same_steps_def steps_for_def signed_def signed_steps_def open_steps_def steps_at_def fun_eq_iff)

lemma put_request_simps [simp]:
  "steps_for (put_request q s) = steps_for s" "signed (put_request q s) = signed s"
  "open_steps (put_request q s) = open_steps s" "d_steps (put_request q s) = d_steps s"
  "d_actions (put_request q s) = d_actions s"
  by (auto simp: put_request_def steps_for_def signed_def signed_steps_def open_steps_def steps_at_def fun_eq_iff)

lemma add_action_simps [simp]:
  "steps_for (add_action a s) = steps_for s" "d_steps (add_action a s) = d_steps s"
  "d_reqs (add_action a s) = d_reqs s" "d_actions (add_action a s) = d_actions s @ [a]"
  "next_position (add_action a s) = next_position s"
  by (simp_all add: add_action_def steps_for_def next_position_def fun_eq_iff)

lemma signed_add_action:
  "signed (add_action (new_action env s q st u d msg) s) r x \<longleftrightarrow>
     signed s r x \<or> rq_id r = rq_id q \<and> d \<noteq> ''reject'' \<and> st_id x = st_id st"
  by (auto simp: signed_def signed_steps_def new_action_def)

lemma find_sorted:
  fixes xs :: "int list"
  assumes "sorted xs"
  shows "find (\<lambda>p. p > c) xs = Some n \<Longrightarrow> n \<in> set xs \<and> c < n \<and> (\<forall>m\<in>set xs. c < m \<longrightarrow> n \<le> m)"
    and "find (\<lambda>p. p > c) xs = None \<Longrightarrow> \<forall>m\<in>set xs. m \<le> c"
  using assms by (induction xs) (auto split: if_splits)

lemma next_positionD:
  "next_position s q = Some n \<Longrightarrow> (\<exists>st\<in>set (steps_of s q). st_position st = n) \<and> rq_current_position q < n \<and>
     (\<forall>st\<in>set (steps_of s q). rq_current_position q < st_position st \<longrightarrow> n \<le> st_position st)"
  "next_position s q = None \<Longrightarrow> st \<in> set (steps_of s q) \<Longrightarrow> st_position st \<le> rq_current_position q"
proof -
  let ?ps = "sort (remdups (map st_position (steps_of s q)))"
  have ps: "set ?ps = st_position ` set (steps_of s q)" "sorted ?ps" by auto
  show "next_position s q = Some n \<Longrightarrow> (\<exists>st\<in>set (steps_of s q). st_position st = n) \<and> rq_current_position q < n \<and>
     (\<forall>st\<in>set (steps_of s q). rq_current_position q < st_position st \<longrightarrow> n \<le> st_position st)"
    using find_sorted(1) [OF ps(2)] unfolding next_position_def ps(1) by blast
  show "next_position s q = None \<Longrightarrow> st \<in> set (steps_of s q) \<Longrightarrow> st_position st \<le> rq_current_position q"
    using find_sorted(2) [OF ps(2)] unfolding next_position_def ps(1) by blast
qed

subsection \<open>Reachable states\<close>

text \<open>
  The states that requests and actions lead to from a database without requests, while the
  steps are not edited; anything else that leaves steps, requests and actions alone may happen in between.
\<close>

inductive approvals_reach :: "db \<Rightarrow> bool" where
  start: "d_reqs s = [] \<Longrightarrow> d_actions s = [] \<Longrightarrow> distinct (map st_id (d_steps s)) \<Longrightarrow> approvals_reach s"
| request: "approvals_reach s \<Longrightarrow> requires_approval s (wf_id w) frm to \<Longrightarrow>
    request_transition t w pk frm to u s = (r, s') \<Longrightarrow> approvals_reach s'"
| action: "approvals_reach s \<Longrightarrow> q \<in> set (d_reqs s) \<Longrightarrow> act env q u d msg s = (r, s') \<Longrightarrow> approvals_reach s'"
| other: "approvals_reach s \<Longrightarrow> same_steps s s' \<Longrightarrow> approvals_reach s'"

definition request_inv :: "db \<Rightarrow> approval_request \<Rightarrow> bool" where
  "request_inv s q \<longleftrightarrow> rq_state q \<in> {PENDING, APPROVED, REJECTED} \<and>
     (rq_state q = PENDING \<longrightarrow> open_steps s q \<noteq> [] \<and>
       (\<forall>st\<in>set (steps_of s q). (st_position st < rq_current_position q \<longrightarrow> signed s q st) \<and>
                                (rq_current_position q < st_position st \<longrightarrow> \<not> signed s q st))) \<and>
     (rq_state q = APPROVED \<longrightarrow> (\<forall>st\<in>set (steps_of s q). signed s q st))"

definition action_inv :: "db \<Rightarrow> approval_action \<Rightarrow> bool" where
  "action_inv s a \<longleftrightarrow> ac_request_id a \<in> rq_id ` set (d_reqs s) \<and>
     (\<exists>st\<in>set (d_steps s). ac_step_id a = Some (st_id st) \<and> (\<exists>u. eligible st u \<and> ac_user_id a = Some (u_id u)))"

definition request_key :: "approval_request \<Rightarrow> int \<times> pystr \<times> pystr \<times> pyval \<times> pyval" where
  "request_key q = (rq_workflow_id q, rq_table_phys q, rq_row_pk q, rq_from_state q, rq_to_state q)"

definition text_states :: "approval_request \<Rightarrow> bool" where
  "text_states q \<longleftrightarrow> sql_eq (rq_from_state q) (rq_from_state q) \<and> sql_eq (rq_to_state q) (rq_to_state q)"

definition pending_unique :: "approval_request set \<Rightarrow> bool" where
  "pending_unique qs \<longleftrightarrow> (\<forall>q\<in>qs. \<forall>q'\<in>qs. rq_state q = PENDING \<longrightarrow> rq_state q' = PENDING \<longrightarrow>
     text_states q \<longrightarrow> request_key q = request_key q' \<longrightarrow> q = q')"

definition approvals_inv :: "db \<Rightarrow> bool" where
  "approvals_inv s \<longleftrightarrow> distinct (map st_id (d_steps s)) \<and> distinct (map rq_id (d_reqs s)) \<and>
     (\<forall>q\<in>set (d_reqs s). request_inv s q) \<and> (\<forall>a\<in>set (d_actions s). action_inv s a) \<and>
     pending_unique (set (d_reqs s))"

lemma text_states_key: "request_key q = request_key q' \<Longrightarrow> text_states q = text_states q'"
  by (simp add: request_key_def text_states_def)

lemma pending_unique_insert:
  assumes "pending_unique qs" "\<And>y. y \<in> qs \<Longrightarrow> \<not> (request_key y = request_key q \<and> text_states y \<and> rq_state y = PENDING)"
  shows "pending_unique (insert q qs)"
  using assms text_states_key [of q] unfolding pending_unique_def by (metis insert_iff)

lemma pending_unique_replace:
  assumes "pending_unique qs" "q \<in> qs" "rq_state q = PENDING" "request_key q' = request_key q"
  shows "pending_unique (insert q' (qs - {q}))"
proof (rule pending_unique_insert)
  show "pending_unique (qs - {q})" using assms(1) by (auto simp: pending_unique_def)
  fix y assume "y \<in> qs - {q}"
  with assms show "\<not> (request_key y = request_key q' \<and> text_states y \<and> rq_state y = PENDING)"
    by (auto simp: pending_unique_def)
qed

lemma request_inv_same:
  assumes "request_inv s q" "steps_for s' = steps_for s" "\<And>st. signed s' q st = signed s q st"
  shows "request_inv s' q"
proof -
  have "set (open_steps s' q) = set (open_steps s q)" using assms(2,3) by (auto simp: open_steps_iff)
  then have "open_steps s' q = [] \<longleftrightarrow> open_steps s q = []" by (metis set_empty)
  with assms show ?thesis by (simp add: request_inv_def)
qed

lemma approvals_inv_same: "approvals_inv s \<Longrightarrow> same_steps s s' \<Longrightarrow> approvals_inv s'"
  using same_steps_simps [of s s'] request_inv_same [of s _ s']
  by (auto simp: approvals_inv_def same_steps_def action_inv_def)

text \<open>The request an action touched is in order again.\<close>

lemma open_steps_empty:
  "open_steps s q = [] \<longleftrightarrow>
     (\<forall>st\<in>set (steps_of s q). st_position st = rq_current_position q \<longrightarrow> signed s q st)"
proof -
  have "open_steps s q = [] \<longleftrightarrow> (\<forall>st. st \<notin> set (open_steps s q))" by (metis all_not_in_conv set_empty)
  then show ?thesis unfolding open_steps_iff by blast
qed

lemma acted_inv:
  assumes inv: "request_inv s q" and pend: "rq_state q = PENDING" and st: "st \<in> set (open_steps s q)"
    and ids: "inj_on st_id (set (d_steps s))"
    and s1: "s1 = add_action (new_action env s q st u d msg) s"
  shows "request_inv s1 (acted env s1 q d)"
proof -
  have sg: "signed s1 q x \<longleftrightarrow> signed s q x \<or> d \<noteq> ''reject'' \<and> st_id x = st_id st" for x
    by (simp add: s1 signed_add_action)
  have same: "signed s1 (q\<lparr>rq_current_position := p\<rparr>) = signed s1 q"
    "signed s1 (q\<lparr>rq_state := z, rq_decided_at := y\<rparr>) = signed s1 q" for p z y
    by (simp_all add: signed_def signed_steps_def fun_eq_iff)
  have steps: "steps_for s1 = steps_for s" by (simp add: s1)
  have below: "signed s1 q x" if "x \<in> set (steps_of s q)" "st_position x < rq_current_position q" for x
    using that inv pend by (simp add: request_inv_def sg)
  have above: "\<not> signed s1 q x" if x: "x \<in> set (steps_of s q)" "rq_current_position q < st_position x" for x
  proof
    assume "signed s1 q x"
    moreover have "\<not> signed s q x" using x inv pend by (simp add: request_inv_def)
    ultimately have "st_id x = st_id st" by (simp add: sg)
    moreover have "x \<in> set (d_steps s)" "st \<in> set (d_steps s)" "st_position st = rq_current_position q"
      using x st by (simp_all add: open_steps_iff)
    ultimately have "x = st" and "st_position st = rq_current_position q" by (auto dest: inj_onD [OF ids])
    with x(2) show False by simp
  qed
  consider "d = ''reject''" | "d \<noteq> ''reject''" "open_steps s1 q \<noteq> []"
    | "d \<noteq> ''reject''" "open_steps s1 q = []" "next_position s1 q = None"
    | p where "d \<noteq> ''reject''" "open_steps s1 q = []" "next_position s1 q = Some p" by fastforce
  then show ?thesis
  proof cases
    case 1
    then show ?thesis by (simp add: acted_def request_inv_def)
  next
    case 2
    then have "acted env s1 q d = q" by (simp add: acted_def)
    then show ?thesis using pend 2(2) below above unfolding request_inv_def steps by auto
  next
    case 3
    have "signed s1 q x" if "x \<in> set (steps_of s q)" for x
      using next_positionD(2) [OF 3(3), of x] that below [of x] 3(2)
      by (cases "st_position x = rq_current_position q") (auto simp: steps open_steps_empty)
    with 3 show ?thesis by (simp add: acted_def request_inv_def steps same)
  next
    case 4
    note p = next_positionD(1) [OF 4(3)]
    let ?q = "q\<lparr>rq_current_position := p\<rparr>"
    have low: "signed s1 q x" if "x \<in> set (steps_of s q)" "st_position x < p" for x
      using that p below [of x] 4(2)
      by (cases "st_position x = rq_current_position q") (force simp: steps open_steps_empty)+
    from p obtain x where x: "x \<in> set (steps_of s q)" "st_position x = p" by (auto simp: steps)
    then have "x \<in> set (open_steps s1 ?q)" using above [of x] p by (auto simp: open_steps_iff steps same)
    then have "open_steps s1 ?q \<noteq> []" by auto
    moreover have "\<not> signed s1 q y" if "y \<in> set (steps_of s q)" "p < st_position y" for y
      using above [of y] p that by simp
    ultimately show ?thesis using 4 pend low by (simp add: acted_def request_inv_def steps same)
  qed
qed

lemma action_inv_ids:
  "action_inv s a \<Longrightarrow> rq_id ` set (d_reqs s) \<subseteq> rq_id ` set (d_reqs s') \<Longrightarrow> d_steps s' = d_steps s \<Longrightarrow> action_inv s' a"
  by (auto simp: action_inv_def)

lemma request_keeps_inv:
  assumes inv: "approvals_inv s" and req: "requires_approval s (wf_id w) frm to"
    and run: "request_transition t w pk frm to u s = (r, s')"
  shows "approvals_inv s'"
proof (cases "find (same_request (wf_id w) (t_phys_name t) (py_str pk) frm to) (d_reqs s) \<noteq> None \<or> frm = VNone \<or> to = VNone")
  case True
  with run have "s' = s" by (auto simp: request_transition_def split: option.splits if_splits)
  with inv show ?thesis by simp
next
  case False
  let ?q = "new_request s t w pk frm to u" and ?s = "s\<lparr>d_reqs := d_reqs s @ [new_request s t w pk frm to u]\<rparr>"
  from False run have s': "s' = notify_position t ?q (rq_current_position ?q) ?s"
    by (auto simp: request_transition_def Let_def split: option.splits)
  have q: "rq_workflow_id ?q = wf_id w" "rq_from_state ?q = frm" "rq_to_state ?q = to" "rq_state ?q = PENDING"
    "rq_id ?q = next_id rq_id (d_reqs s)" "rq_table_phys ?q = t_phys_name t" "rq_row_pk ?q = py_str pk"
    by (simp_all add: new_request_def)
  have fresh: "rq_id ?q \<notin> rq_id ` set (d_reqs s)" by (auto simp: q dest: next_id_fresh [of _ "d_reqs s" rq_id])
  have same: "steps_for ?s = steps_for s" "signed ?s = signed s" "open_steps ?s = open_steps s"
    by (auto simp: steps_for_def signed_def signed_steps_def open_steps_def steps_at_def fun_eq_iff)
  have unsigned: "\<not> signed s ?q x" for x
  proof -
    have "ac_request_id a \<in> rq_id ` set (d_reqs s)" if "a \<in> set (d_actions s)" for a
      using that inv by (simp add: approvals_inv_def action_inv_def)
    with fresh have "ac_request_id a \<noteq> rq_id ?q" if "a \<in> set (d_actions s)" for a using that by metis
    then show ?thesis by (auto simp: signed_def signed_steps_def)
  qed
  from req obtain x where "x \<in> set (steps_for s (wf_id w) frm to)"
    by (auto simp: requires_approval_def list_ex_iff)
  then obtain st sts where hd: "steps_for s (wf_id w) frm to = st # sts" by (cases "steps_for s (wf_id w) frm to") auto
  then have cur: "rq_current_position ?q = st_position st" by (simp add: new_request_def)
  have first: "\<not> st_position x < st_position st" if "x \<in> set (steps_of s ?q)" for x
    using sorted_steps [of s ?q] that unfolding q hd by auto
  have "st \<in> set (open_steps s ?q)" unfolding open_steps_iff q hd cur by (simp add: unsigned)
  then have "open_steps s ?q \<noteq> []" by auto
  then have "request_inv ?s ?q" using first unsigned
    by (auto simp: request_inv_def same q cur simp del: set_steps_for)
  moreover have "request_inv ?s y" if "y \<in> set (d_reqs s)" for y
    using that inv request_inv_same [of s y ?s] by (simp add: approvals_inv_def same)
  moreover have "action_inv ?s a" if "a \<in> set (d_actions s)" for a
  proof (rule action_inv_ids)
    show "action_inv s a" using that inv by (simp add: approvals_inv_def)
  qed auto
  moreover have "\<not> (request_key y = request_key ?q \<and> text_states y \<and> rq_state y = PENDING)" if "y \<in> set (d_reqs s)" for y
  proof
    assume "request_key y = request_key ?q \<and> text_states y \<and> rq_state y = PENDING"
    then have "same_request (wf_id w) (t_phys_name t) (py_str pk) frm to y"
      by (auto simp: request_key_def q same_request_def text_states_def)
    with False that show False by (auto simp: find_None_iff)
  qed
  ultimately have "\<forall>y\<in>set (d_reqs ?s). request_inv ?s y" "\<forall>a\<in>set (d_actions ?s). action_inv ?s a"
    "pending_unique (set (d_reqs ?s))"
    using inv pending_unique_insert by (auto simp: approvals_inv_def)
  with inv fresh have "approvals_inv ?s" by (simp add: approvals_inv_def)
  then show ?thesis unfolding s' by (rule approvals_inv_same) simp
qed

lemma act_keeps_inv:
  assumes inv: "approvals_inv s" and q: "q \<in> set (d_reqs s)" and run: "act env q u d msg s = (r, s')"
  shows "approvals_inv s'"
proof -
  have ids: "distinct (map rq_id (d_reqs s))" "inj_on st_id (set (d_steps s))" "request_inv s q"
    using inv q by (auto simp: approvals_inv_def distinct_map)
  show ?thesis using run q ids(1)
  proof (cases rule: act_cases)
    case refused
    with inv show ?thesis by simp
  next
    case (recorded st s1)
    let ?q = "acted env s1 q d"
    let ?s = "put_request ?q s1"
    have inv1: "request_inv s1 ?q" using acted_inv [OF ids(3) recorded(1,2) ids(2) recorded(4)] .
    have reqs: "set (d_reqs ?s) = insert ?q (set (d_reqs s) - {q})"
      using q ids(1) by (auto simp: put_request_def recorded(4) set_upd_where distinct_map inj_on_def)
    have "map rq_id (d_reqs ?s) = map rq_id (d_reqs s)"
      by (simp add: put_request_def recorded(4)) (auto simp: upd_where_def)
    moreover have "request_inv ?s y" if "y \<in> set (d_reqs ?s)" for y
    proof (cases "y = ?q")
      case True
      then show ?thesis using inv1 by (auto intro: request_inv_same [of s1])
    next
      case False
      with that have y: "y \<in> set (d_reqs s)" "y \<noteq> q" by (auto simp: reqs)
      then have "rq_id y \<noteq> rq_id q" using ids(1) q by (auto simp: distinct_map inj_on_def)
      then have "signed ?s y x = signed s y x" for x by (simp add: recorded(4) signed_add_action)
      moreover have "request_inv s y" using inv y(1) by (simp add: approvals_inv_def)
      ultimately show ?thesis by (elim request_inv_same) (simp add: recorded(4))
    qed
    moreover have "action_inv ?s a" if "a \<in> set (d_actions ?s)" for a
    proof -
      have *: "rq_id ` set (d_reqs ?s) = rq_id ` set (d_reqs s)" using q by (auto simp: reqs)
      from that consider "a \<in> set (d_actions s)" | "a = new_action env s q st u d msg"
        by (auto simp: recorded(4))
      then show ?thesis
      proof cases
        case 1
        then show ?thesis using inv * by (auto simp: approvals_inv_def action_inv_def recorded(4))
      next
        case 2
        have "st \<in> set (d_steps s)" using recorded(2) by (simp add: open_steps_iff)
        with 2 q recorded(3) * show ?thesis by (auto simp: action_inv_def new_action_def recorded(4))
      qed
    qed
    moreover have "pending_unique (set (d_reqs ?s))"
      using inv q recorded(1) unfolding reqs
      by (intro pending_unique_replace) (simp_all add: approvals_inv_def request_key_def)
    ultimately have "approvals_inv ?s" using inv by (simp add: approvals_inv_def recorded(4))
    then show ?thesis by (rule approvals_inv_same) (rule recorded(5))
  qed
qed

lemma reach_inv: "approvals_reach s \<Longrightarrow> approvals_inv s"
proof (induction rule: approvals_reach.induct)
  case (start s)
  then show ?case by (simp add: approvals_inv_def pending_unique_def)
qed (rule request_keeps_inv act_keeps_inv approvals_inv_same; assumption)+


text \<open>
  No move of a record waits for approval twice: two pending requests of one workflow, record and
  pair of states are the same request.
\<close>

theorem pending_moves_distinct:
  assumes "approvals_reach s" "q \<in> set (d_reqs s)" "q' \<in> set (d_reqs s)"
    and "rq_state q = PENDING" "rq_state q' = PENDING" "request_key q = request_key q'"
    and "rq_from_state q = VStr a" "rq_to_state q = VStr b"
  shows "q = q'"
proof -
  have "pending_unique (set (d_reqs s))" using reach_inv [OF assms(1)] by (simp add: approvals_inv_def)
  moreover have "text_states q" using assms(7,8) by (simp add: text_states_def)
  ultimately show ?thesis using assms(2-6) unfolding pending_unique_def by blast
qed

subsection \<open>The sign-off sheet\<close>

text \<open>
  What the component promises: a sheet of unsigned steps in the order of their positions. Only
  the steps at the first position can be signed; the first of them the account is eligible for
  is taken off; the sheet is done when none is left.
\<close>

datatype sheet = Unsigned "approval_step list" | Done | Refused

definition front :: "approval_step list \<Rightarrow> approval_step list" where
  "front sts = (case sts of [] \<Rightarrow> [] | st # _ \<Rightarrow> filter (\<lambda>x. st_position x = st_position st) sts)"

definition sheet_sign :: "bool \<Rightarrow> app_user \<Rightarrow> sheet \<Rightarrow> sheet option" where
  "sheet_sign approve u sh = (case sh of
     Unsigned sts \<Rightarrow>
       (case find (\<lambda>st. eligible st u) (front sts) of
          None \<Rightarrow> None
        | Some st \<Rightarrow>
          if \<not> approve then Some Refused
          else let rest = filter (\<lambda>x. st_id x \<noteq> st_id st) sts in
               Some (if rest = [] then Done else Unsigned rest))
   | _ \<Rightarrow> None)"

definition unsigned_steps :: "db \<Rightarrow> approval_request \<Rightarrow> approval_step list" where
  "unsigned_steps s q =
     filter (\<lambda>st. rq_current_position q \<le> st_position st \<and> \<not> signed s q st) (steps_of s q)"

definition sheet_of :: "db \<Rightarrow> approval_request \<Rightarrow> sheet" where
  "sheet_of s q = (if rq_state q = PENDING then Unsigned (unsigned_steps s q)
     else if rq_state q = APPROVED then Done else Refused)"

lemma open_steps_filter:
  "open_steps s q = filter (\<lambda>st. st_position st = rq_current_position q) (unsigned_steps s q)"
  unfolding open_steps_def steps_at_def unsigned_steps_def filter_filter signed_def
  by (rule filter_cong) auto

lemma front_unsigned:
  assumes "open_steps s q \<noteq> []"
  shows "front (unsigned_steps s q) = open_steps s q"
proof -
  have "sorted (map st_position (unsigned_steps s q))"
    unfolding unsigned_steps_def by (rule sorted_filter) (rule sorted_steps)
  moreover obtain st sts where us: "unsigned_steps s q = st # sts"
    using assms by (cases "unsigned_steps s q") (simp_all add: open_steps_filter)
  moreover have "rq_current_position q \<le> st_position st"
    using us by (metis (mono_tags, lifting) list.set_intros(1) mem_Collect_eq set_filter unsigned_steps_def)
  moreover obtain x where "x \<in> set (unsigned_steps s q)" "st_position x = rq_current_position q"
    using assms by (auto simp: open_steps_filter filter_empty_conv)
  ultimately have "st_position st = rq_current_position q" by fastforce
  then show ?thesis by (simp add: front_def us open_steps_filter)
qed

lemma find_filter: "find P xs = (case filter P xs of [] \<Rightarrow> None | x # _ \<Rightarrow> Some x)"
  by (induction xs) auto

lemma sheet_sign_pending:
  assumes "rq_state q = PENDING" "open_steps s q \<noteq> []"
  shows "sheet_sign ap u (sheet_of s q) = (case filter (\<lambda>st. eligible st u) (open_steps s q) of
     [] \<Rightarrow> None
   | st # _ \<Rightarrow> if \<not> ap then Some Refused
       else let rest = filter (\<lambda>x. st_id x \<noteq> st_id st) (unsigned_steps s q) in
            Some (if rest = [] then Done else Unsigned rest))"
  using assms by (simp add: sheet_sign_def sheet_of_def front_unsigned find_filter split: list.splits)

lemma acted_sheet:
  assumes inv: "request_inv s q" and pend: "rq_state q = PENDING" and st: "st \<in> set (open_steps s q)"
    and ids: "inj_on st_id (set (d_steps s))"
    and s1: "s1 = add_action (new_action env s q st u d msg) s"
    and rest: "rest = filter (\<lambda>x. st_id x \<noteq> st_id st) (unsigned_steps s q)"
  shows "sheet_of s1 (acted env s1 q d) =
    (if d = ''reject'' then Refused else if rest = [] then Done else Unsigned rest)"
proof -
  have steps: "steps_for s1 = steps_for s" by (simp add: s1)
  have same: "signed s1 (q\<lparr>rq_current_position := p\<rparr>) = signed s1 q" for p
    by (simp add: signed_def signed_steps_def fun_eq_iff)
  have rest1: "rest = unsigned_steps s1 q" if "d \<noteq> ''reject''"
    using that by (auto simp: rest unsigned_steps_def steps s1 signed_add_action intro: filter_cong)
  consider "d = ''reject''" | "d \<noteq> ''reject''" "open_steps s1 q \<noteq> []"
    | "d \<noteq> ''reject''" "open_steps s1 q = []" "next_position s1 q = None"
    | p where "d \<noteq> ''reject''" "open_steps s1 q = []" "next_position s1 q = Some p" by fastforce
  then show ?thesis
  proof cases
    case 1
    then show ?thesis by (simp add: acted_def sheet_of_def)
  next
    case 2
    then have "unsigned_steps s1 q \<noteq> []" by (auto simp: open_steps_filter)
    with 2 pend show ?thesis by (simp add: acted_def sheet_of_def rest1)
  next
    case 3
    have "unsigned_steps s1 q = []"
      using next_positionD(2) [OF 3(3)] 3(2) unfolding open_steps_empty
      by (force simp: unsigned_steps_def filter_empty_conv simp del: set_steps_for)
    with 3 show ?thesis by (simp add: acted_def sheet_of_def rest1)
  next
    case 4
    note p = next_positionD(1) [OF 4(3)]
    let ?q = "q\<lparr>rq_current_position := p\<rparr>"
    have "open_steps s1 ?q \<noteq> []" using acted_inv [OF inv pend st ids s1] 4 pend
      by (simp add: acted_def request_inv_def)
    then have "unsigned_steps s1 ?q \<noteq> []" by (auto simp: open_steps_filter)
    moreover have "unsigned_steps s1 q = unsigned_steps s1 ?q"
    proof -
      have "(rq_current_position q \<le> st_position x \<and> \<not> signed s1 q x) = (p \<le> st_position x \<and> \<not> signed s1 q x)"
        if "x \<in> set (steps_of s1 q)" for x
        using that p 4(2) unfolding open_steps_empty by (cases "rq_current_position q = st_position x") force+
      then show ?thesis
        by (auto simp: unsigned_steps_def same simp del: set_steps_for intro!: filter_cong)
    qed
    ultimately show ?thesis using 4 pend by (simp add: acted_def sheet_of_def rest1)
  qed
qed

lemma act_sheet:
  assumes reach: "approvals_reach s" and q: "q \<in> set (d_reqs s)"
  shows "case sheet_sign (d \<noteq> ''reject'') u (sheet_of s q) of
     None \<Rightarrow> \<exists>e. act env q u d msg s = (Inl (ValueErr e), s)
   | Some sh \<Rightarrow> \<exists>q'\<in>set (d_reqs (snd (act env q u d msg s))).
       rq_id q' = rq_id q \<and> sheet_of (snd (act env q u d msg s)) q' = sh \<and>
       (\<forall>x. fst (act env q u d msg s) = Inr x \<longrightarrow> x = q') \<and>
       (\<forall>e. fst (act env q u d msg s) = Inl e \<longrightarrow> sh = Done)"
proof -
  from reach_inv [OF reach] q have inv: "request_inv s q" "distinct (map rq_id (d_reqs s))"
    "inj_on st_id (set (d_steps s))" by (simp_all add: approvals_inv_def distinct_map)
  obtain r s' where run: "act env q u d msg s = (r, s')" by (cases "act env q u d msg s")
  show ?thesis using run q inv(2)
  proof (cases rule: act_cases)
    case refused
    have "sheet_sign (d \<noteq> ''reject'') u (sheet_of s q) = None"
    proof (cases "rq_state q = PENDING")
      case True
      then have "filter (\<lambda>st. eligible st u) (open_steps s q) = []" "open_steps s q \<noteq> []"
        using refused(3) inv(1) by (simp_all add: can_act_def list_ex_iff filter_empty_conv request_inv_def)
      then show ?thesis by (simp add: sheet_sign_pending [OF True])
    next
      case False
      then show ?thesis by (simp add: sheet_of_def sheet_sign_def)
    qed
    with refused run show ?thesis by simp
  next
    case (recorded st s1)
    let ?q = "acted env s1 q d"
    have open_ne: "open_steps s q \<noteq> []" using recorded(2) by auto
    have q': "sheet_of s' ?q = sheet_of s1 ?q"
      by (simp add: sheet_of_def unsigned_steps_def same_steps_simps [OF recorded(5)])
    have "d_reqs s' = upd_where (\<lambda>r. rq_id r = rq_id q) (\<lambda>_. ?q) (d_reqs s)"
      using recorded(5) by (simp add: same_steps_def put_request_def recorded(4))
    with q have stored: "?q \<in> set (d_reqs s')" by (auto simp: set_upd_where)
    let ?rest = "filter (\<lambda>x. st_id x \<noteq> st_id st) (unsigned_steps s q)"
    have "sheet_sign (d \<noteq> ''reject'') u (sheet_of s q) =
        Some (if d = ''reject'' then Refused else if ?rest = [] then Done else Unsigned ?rest)"
      using recorded(7) by (auto simp: sheet_sign_pending [OF recorded(1) open_ne] Let_def)
    also have "\<dots> = Some (sheet_of s1 ?q)"
      by (simp only: acted_sheet [OF inv(1) recorded(1,2) inv(3) recorded(4) HOL.refl])
    finally have "sheet_sign (d \<noteq> ''reject'') u (sheet_of s q) = Some (sheet_of s1 ?q)" .
    moreover have "sheet_of s1 ?q = Done" if "r = Inl e" for e
      using recorded(8) [OF that] by (simp add: sheet_of_def)
    ultimately show ?thesis using run q' stored recorded(6) by (auto intro!: bexI [of _ ?q])
  qed
qed

text \<open>
  C13: \<open>act\<close> implements the sign-off sheet. In every reachable state, an approval or rejection that
  the sheet of the request does not allow raises a \<open>ValueError\<close> and changes nothing, and one that
  it allows leaves the request with the sheet signed, whatever applying the move does.
\<close>

theorem act_refines_sheet:
  assumes "approvals_reach s" "q \<in> set (d_reqs s)"
  shows "case sheet_sign (d \<noteq> ''reject'') u (sheet_of s q) of
     None \<Rightarrow> \<exists>e. act env q u d msg s = (Inl (ValueErr e), s)
   | Some sh \<Rightarrow> \<exists>q'\<in>set (d_reqs (snd (act env q u d msg s))).
       rq_id q' = rq_id q \<and> sheet_of (snd (act env q u d msg s)) q' = sh"
  using act_sheet [OF assms, where d = d and u = u and env = env and msg = msg] by (auto split: option.splits)

subsection \<open>Completion\<close>

fun sign_off :: "env \<Rightarrow> app_user list \<Rightarrow> approval_request \<Rightarrow> approval_request comp" where
  "sign_off env [] q = retC q"
| "sign_off env (u # us) q = bindC (act env q u ''approve'' None) (sign_off env us)"

lemma unsigned_ids: "distinct (map st_id (d_steps s)) \<Longrightarrow> distinct (map st_id (unsigned_steps s q))"
  by (simp add: unsigned_steps_def steps_for_def distinct_map inj_on_def)

lemma length_without:
  assumes "distinct (map st_id xs)" "st \<in> set xs"
  shows "length (filter (\<lambda>x. st_id x \<noteq> st_id st) xs) + 1 = length xs"
  using assms
proof (induction xs)
  case (Cons x xs)
  show ?case
  proof (cases "st_id x = st_id st")
    case True
    then have "filter (\<lambda>y. st_id y \<noteq> st_id st) xs = xs" using Cons.prems(1) by (auto simp: filter_id_conv image_iff)
    with True show ?thesis by simp
  next
    case False
    with Cons show ?thesis by auto
  qed
qed simp

text \<open>
  A request is decided by signatures alone. From any reachable state, with \<open>n\<close> unsigned steps,
  approvals by designers are all accepted, the request stays pending before the \<open>n\<close>-th and is
  approved by it.
\<close>

theorem sign_off_completes:
  assumes "approvals_reach s" "q \<in> set (d_reqs s)" "rq_state q = PENDING"
    and "list_all is_designer us" "length us \<le> length (unsigned_steps s q)"
  shows "\<exists>q'\<in>set (d_reqs (snd (sign_off env us q s))). rq_id q' = rq_id q \<and>
    rq_state q' = (if length us = length (unsigned_steps s q) then APPROVED else PENDING)"
  using assms
proof (induction us arbitrary: s q)
  case Nil
  have "open_steps s q \<noteq> []" using reach_inv [OF Nil(1)] Nil(2,3) by (simp add: approvals_inv_def request_inv_def)
  then have "unsigned_steps s q \<noteq> []" by (auto simp: open_steps_filter)
  with Nil show ?case by (auto simp: retC_def)
next
  case (Cons u us)
  let ?r = "act env q u ''approve'' None s"
  have inv: "approvals_inv s" using reach_inv [OF Cons.prems(1)] .
  then have ne: "open_steps s q \<noteq> []" using Cons.prems(2,3) by (simp add: approvals_inv_def request_inv_def)
  have des: "is_designer u" using Cons.prems(4) by simp
  then have el: "filter (\<lambda>st. eligible st u) (open_steps s q) = open_steps s q"
    by (simp add: eligible_def)
  obtain st sts where st: "open_steps s q = st # sts" using ne by (cases "open_steps s q") auto
  let ?rest = "filter (\<lambda>x. st_id x \<noteq> st_id st) (unsigned_steps s q)"
  have mem: "st \<in> set (unsigned_steps s q)" using st
    by (metis filter_is_subset in_mono list.set_intros(1) open_steps_filter)
  have len: "length ?rest + 1 = length (unsigned_steps s q)"
    using inv by (intro length_without unsigned_ids mem) (simp add: approvals_inv_def)
  have "sheet_sign True u (sheet_of s q) = Some (if ?rest = [] then Done else Unsigned ?rest)"
    using el by (simp add: sheet_sign_pending [OF Cons.prems(3) ne] st)
  with act_sheet [OF Cons.prems(1,2), where d = "''approve''" and u = u and env = env and msg = None]
  obtain q' where q': "q' \<in> set (d_reqs (snd ?r))" "rq_id q' = rq_id q"
    "sheet_of (snd ?r) q' = (if ?rest = [] then Done else Unsigned ?rest)"
    "\<And>x. fst ?r = Inr x \<Longrightarrow> x = q'" "\<And>e. fst ?r = Inl e \<Longrightarrow> ?rest = []"
    by (auto split: if_splits)
  have reach: "approvals_reach (snd ?r)"
    using approvals_reach.action [OF Cons.prems(1,2)] by (metis prod.collapse)
  show ?case
  proof (cases "?rest = []")
    case True
    with len Cons.prems(5) have "us = []" by simp
    moreover have "rq_state q' = APPROVED" using q'(3) True by (simp add: sheet_of_def split: if_splits)
    moreover have "snd (bindC (act env q u ''approve'' None) retC s) = snd ?r"
      by (simp add: bindC_def retC_def split: prod.splits sum.splits)
    ultimately show ?thesis using q'(1,2) len True by (auto simp: bindC_def retC_def split: prod.splits sum.splits)
  next
    case False
    then have pend: "rq_state q' = PENDING" and us: "unsigned_steps (snd ?r) q' = ?rest"
      using q'(3) by (auto simp: sheet_of_def split: if_splits)
    from False q'(4,5) have run: "act env q u ''approve'' None s = (Inr q', snd ?r)"
      by (cases "fst ?r") (auto simp: prod_eq_iff)
    have "length us \<le> length (unsigned_steps (snd ?r) q')" using Cons.prems(5) len us by simp
    with Cons.IH [OF reach q'(1) pend] Cons.prems(4)
    obtain z where "z \<in> set (d_reqs (snd (sign_off env us q' (snd ?r))))" "rq_id z = rq_id q'"
      "rq_state z = (if length us = length ?rest then APPROVED else PENDING)" by (auto simp: us)
    moreover have "sign_off env (u # us) q s = sign_off env us q' (snd ?r)"
      by (simp add: bindC_Inr [where m = "act env q u ''approve'' None" and s = s, OF run])
    moreover have "length us = length ?rest \<longleftrightarrow> length (u # us) = length (unsigned_steps s q)"
      unfolding len [symmetric] by simp
    ultimately show ?thesis using q'(2) by metis
  qed
qed

subsection \<open>A move that cannot be written\<close>

text \<open>
  An approval that raises anything after it was accepted has already decided the request:
  the request is approved, the exception came from writing the record, and no
  further action on the request is possible, so the move stays undone.
\<close>

theorem approved_though_not_moved:
  assumes "approvals_reach s" "q \<in> set (d_reqs s)" "act env q u d msg s = (Inl e, s')" "can_act s q u"
  shows "\<exists>q'\<in>set (d_reqs s'). rq_id q' = rq_id q \<and> rq_state q' = APPROVED \<and> \<not> can_act s' q' v \<and>
    act env' q' v d' msg' s' = (Inl (ValueErr ''This approval has already been decided.''), s')"
proof -
  have "sheet_sign (d \<noteq> ''reject'') u (sheet_of s q) \<noteq> None"
  proof
    assume none: "sheet_sign (d \<noteq> ''reject'') u (sheet_of s q) = None"
    from assms(4) have "rq_state q = PENDING" "filter (\<lambda>st. eligible st u) (open_steps s q) \<noteq> []" "open_steps s q \<noteq> []"
      by (auto simp: can_act_def list_ex_iff filter_empty_conv)
    with none show False by (auto simp: sheet_sign_pending Let_def split: list.splits if_splits)
  qed
  then obtain sh where "sheet_sign (d \<noteq> ''reject'') u (sheet_of s q) = Some sh" by blast
  with act_sheet [OF assms(1,2), where d = d and u = u and env = env and msg = msg] assms(3)
  obtain q' where "q' \<in> set (d_reqs s')" "rq_id q' = rq_id q" "sheet_of s' q' = Done" by auto
  then show ?thesis by (intro bexI [of _ q']) (auto simp: sheet_of_def act_def can_act_def split: if_splits)
qed

subsection \<open>What the diversion leaves\<close>

lemma divert_oneD:
  assumes "divert_one s t old vs (fid, w) = Some d"
  shows "workflow_field s t fid = Some (dv_field d)" "dget vs (f_phys_name (dv_field d)) = Some (dv_to d)"
    and "requires_approval s (wf_id (dv_wf d)) (dv_frm d) (dv_to d)" "dv_wf d = w"
  using assms by (auto simp: divert_one_def Let_def split: option.splits if_splits)

lemma divert_one_none:
  "divert_one s t old vs (fid, w) = None \<longleftrightarrow>
     (\<forall>f v. workflow_field s t fid = Some f \<longrightarrow> dget vs (f_phys_name f) = Some v \<longrightarrow>
       py_eq v (rget old (f_phys_name f)) \<or> blank v \<or> match_transition w (rget old (f_phys_name f)) v = None \<or>
       \<not> requires_approval s (wf_id w) (rget old (f_phys_name f)) v)"
  by (auto simp: divert_one_def Let_def split: option.splits)

lemma plan_step_run:
  "divert_one s t old vs p = None \<Longrightarrow> plan_step s t old p (out, vs) = (out, vs)"
  "divert_one s t old vs p = Some d \<Longrightarrow>
     plan_step s t old p (out, vs) = (out @ [d], ddel (f_phys_name (dv_field d)) vs)"
  by (simp_all add: plan_step_def)

lemma plan_fold:
  assumes "fold (plan_step s t old) ps (out0, vs0) = (out, vs)"
  shows "\<exists>ds. out = out0 @ ds \<and>
    (\<forall>k. dget vs k = (if k \<in> (\<lambda>d. f_phys_name (dv_field d)) ` set ds then None else dget vs0 k)) \<and>
    (\<forall>p\<in>set ps. divert_one s t old vs p = None) \<and>
    (\<forall>d\<in>set ds. dget vs0 (f_phys_name (dv_field d)) = Some (dv_to d) \<and>
       requires_approval s (wf_id (dv_wf d)) (dv_frm d) (dv_to d))"
  using assms
proof (induction ps arbitrary: out0 vs0)
  case (Cons p ps)
  obtain fid w where p: "p = (fid, w)" by (cases p)
  show ?case
  proof (cases "divert_one s t old vs0 p")
    case None
    with Cons.prems have "fold (plan_step s t old) ps (out0, vs0) = (out, vs)" by (simp add: plan_step_run)
    from Cons.IH [OF this] obtain ds where ds: "out = out0 @ ds"
      "\<And>k. dget vs k = (if k \<in> (\<lambda>d. f_phys_name (dv_field d)) ` set ds then None else dget vs0 k)"
      "\<forall>p\<in>set ps. divert_one s t old vs p = None"
      "\<forall>d\<in>set ds. dget vs0 (f_phys_name (dv_field d)) = Some (dv_to d) \<and>
         requires_approval s (wf_id (dv_wf d)) (dv_frm d) (dv_to d)" by blast
    have "divert_one s t old vs p = None"
      using None unfolding p divert_one_none ds(2) by (auto split: if_splits)
    with ds show ?thesis by (intro exI [of _ ds]) auto
  next
    case (Some d)
    let ?c = "f_phys_name (dv_field d)"
    from Some Cons.prems have "fold (plan_step s t old) ps (out0 @ [d], ddel ?c vs0) = (out, vs)"
      by (simp add: plan_step_run)
    from Cons.IH [OF this] obtain ds where ds: "out = out0 @ d # ds"
      "\<And>k. dget vs k = (if k \<in> (\<lambda>d. f_phys_name (dv_field d)) ` set ds then None else dget (ddel ?c vs0) k)"
      "\<forall>p\<in>set ps. divert_one s t old vs p = None"
      "\<forall>d\<in>set ds. dget (ddel ?c vs0) (f_phys_name (dv_field d)) = Some (dv_to d) \<and>
         requires_approval s (wf_id (dv_wf d)) (dv_frm d) (dv_to d)" by auto
    note d = divert_oneD [OF Some [unfolded p]]
    have "dget vs ?c = None" by (simp add: ds(2))
    then have "divert_one s t old vs p = None" using d(1) by (simp add: p divert_one_none)
    moreover have "dget vs k = (if k \<in> (\<lambda>d. f_phys_name (dv_field d)) ` set (d # ds) then None else dget vs0 k)" for k
      by (simp add: ds(2))
    moreover have "\<forall>x\<in>set ds. dget vs0 (f_phys_name (dv_field x)) = Some (dv_to x) \<and>
         requires_approval s (wf_id (dv_wf x)) (dv_frm x) (dv_to x)"
      using ds(4) by (metis dget_ddel option.distinct(1))
    ultimately show ?thesis using ds(1,3) d(2,3) by (intro exI [of _ "d # ds"]) auto
  qed
qed auto

lemma diversions:
  assumes "plan_diversions s t old vs = (ds, rest)"
  shows "(\<forall>(fid, w)\<in>set (workflows_for s (t_id t)). \<forall>f v. workflow_field s t fid = Some f \<longrightarrow>
      dget rest (f_phys_name f) = Some v \<longrightarrow> py_eq v (rget (old_or_empty old) (f_phys_name f)) \<or> blank v \<or>
      match_transition w (rget (old_or_empty old) (f_phys_name f)) v = None \<or>
      \<not> requires_approval s (wf_id w) (rget (old_or_empty old) (f_phys_name f)) v) \<and>
    (\<forall>k. dget rest k = (if k \<in> (\<lambda>d. f_phys_name (dv_field d)) ` set ds then None else dget vs k)) \<and>
    (\<forall>d\<in>set ds. requires_approval s (wf_id (dv_wf d)) (dv_frm d) (dv_to d))"
  using plan_fold [OF assms [unfolded plan_diversions_def]]
  by (simp add: divert_one_none case_prod_unfold) (metis prod.collapse divert_one_none)

text \<open>
  C14: No move that needs approval gets past the diversion: every workflow field still in the write is
  unchanged, blank, off the graph (and refused by the gate) or free of approval steps. The write
  loses exactly the fields held back, and each of these needs approval.
\<close>

theorem diversion_complete:
  assumes "plan_diversions s t old vs = (ds, rest)"
  shows "(\<forall>(fid, w)\<in>set (workflows_for s (t_id t)). \<forall>f v. workflow_field s t fid = Some f \<longrightarrow>
      dget rest (f_phys_name f) = Some v \<longrightarrow> py_eq v (rget (old_or_empty old) (f_phys_name f)) \<or> blank v \<or>
      match_transition w (rget (old_or_empty old) (f_phys_name f)) v = None \<or>
      \<not> requires_approval s (wf_id w) (rget (old_or_empty old) (f_phys_name f)) v) \<and>
    (\<forall>k. dget rest k = (if k \<in> (\<lambda>d. f_phys_name (dv_field d)) ` set ds then None else dget vs k)) \<and>
    (\<forall>d\<in>set ds. requires_approval s (wf_id (dv_wf d)) (dv_frm d) (dv_to d))"
  using assms by (rule diversions)

subsection \<open>The inbox\<close>

lemma can_act_candidate: "can_act s q u \<Longrightarrow> candidate s u q"
  by (fastforce simp: can_act_def candidate_def list_ex_iff open_steps_iff eligible_def some_id_def
      split: if_splits option.splits)

text \<open>
  The narrow query of the inbox loses nothing: it lists, newest first, exactly the requests the
  account can act on.
\<close>

theorem inbox_exact: "pending_for_user s u = newest_first (filter (\<lambda>q. can_act s q u) (d_reqs s))"
proof -
  have "filter (\<lambda>q. can_act s q u) (filter (candidate s u) (d_reqs s)) = filter (\<lambda>q. can_act s q u) (d_reqs s)"
    using can_act_candidate by (induction "d_reqs s") (auto intro: filter_cong)
  then show ?thesis by (simp add: pending_for_user_def candidate_requests_def newest_first_def filter_sort)
qed

subsection \<open>Instances\<close>

text \<open>
  A ticket of a table that is not there, whose move from \<open>new\<close> to \<open>done\<close> needs a lead and then the account 7.
\<close>

definition sample_step :: "int \<Rightarrow> pystr option \<Rightarrow> int option \<Rightarrow> approval_step" where
  "sample_step i r u = \<lparr>st_id = i, st_workflow_id = 1, st_from_state = ''new'', st_to_state = ''done'',
     st_position = i, st_name = None, st_approver_role = r, st_approver_user_id = u\<rparr>"

definition approval_db :: db where
  "approval_db = workflow_db\<lparr>d_steps := [sample_step 1 (Some ''lead'') None, sample_step 2 None (Some 7)],
     d_tables := [workflow_table], d_users := [sample_user ''lead'', (sample_user ''user'')\<lparr>u_id := 7\<rparr>]\<rparr>"

definition sample_flow :: workflow where
  "sample_flow = sample_workflow [[(''from'', VStr ''new''), (''to'', VStr ''done'')]]"

definition sample_request :: approval_request where
  "sample_request = new_request approval_db workflow_table sample_flow (VInt 5) (VStr ''new'') (VStr ''done'') (sample_user ''user'')"

definition asked_db :: db where
  "asked_db = snd (request_transition workflow_table sample_flow (VInt 5) (VStr ''new'') (VStr ''done'') (sample_user ''user'') approval_db)"

definition lead_db :: db where
  "lead_db = snd (act plain_env sample_request (sample_user ''lead'') ''approve'' None asked_db)"

definition final_db :: db where
  "final_db = snd (act plain_env (sample_request\<lparr>rq_current_position := 2\<rparr>) (sample_user ''designer'') ''approve'' None lead_db)"

lemma asked_reach: "approvals_reach asked_db"
proof (rule approvals_reach.request)
  show "approvals_reach approval_db" by (rule approvals_reach.start) code_simp+
  show "requires_approval approval_db (wf_id sample_flow) (VStr ''new'') (VStr ''done'')" by code_simp
  show "request_transition workflow_table sample_flow (VInt 5) (VStr ''new'') (VStr ''done'') (sample_user ''user'') approval_db =
      (fst (request_transition workflow_table sample_flow (VInt 5) (VStr ''new'') (VStr ''done'') (sample_user ''user'') approval_db), asked_db)"
    by (simp add: asked_db_def)
qed

lemma asked_requests: "d_reqs asked_db = [sample_request]"
  by code_simp

lemma lead_requests: "d_reqs lead_db = [sample_request\<lparr>rq_current_position := 2\<rparr>]"
  by code_simp

lemma final_requests: "map rq_state (d_reqs final_db) = [APPROVED]"
  by code_simp

lemma lead_reach: "approvals_reach lead_db"
  by (rule approvals_reach.action [OF asked_reach, of sample_request])
    (auto simp: asked_requests lead_db_def prod_eq_iff)

lemma final_reach: "approvals_reach final_db"
  by (rule approvals_reach.action [OF lead_reach, of "sample_request\<lparr>rq_current_position := 2\<rparr>"])
    (auto simp: lead_requests final_db_def prod_eq_iff)


theorem pending_moves_distinct_witness: "hd (d_reqs asked_db) = last (d_reqs asked_db)"
proof (rule pending_moves_distinct [OF asked_reach])
  show "hd (d_reqs asked_db) \<in> set (d_reqs asked_db)" "last (d_reqs asked_db) \<in> set (d_reqs asked_db)"
    by (simp_all add: asked_requests)
  show "rq_state (hd (d_reqs asked_db)) = PENDING" "rq_state (last (d_reqs asked_db)) = PENDING"
    "rq_from_state (hd (d_reqs asked_db)) = VStr ''new''" "rq_to_state (hd (d_reqs asked_db)) = VStr ''done''"
    "request_key (hd (d_reqs asked_db)) = request_key (last (d_reqs asked_db))"
    by (simp_all add: asked_requests sample_request_def new_request_def)
qed

theorem act_refines_sheet_witness:
  "sheet_sign True (sample_user ''lead'') (sheet_of asked_db sample_request) =
     Some (Unsigned [sample_step 2 None (Some 7)]) \<and>
   (\<exists>q'\<in>set (d_reqs lead_db). rq_id q' = 1 \<and> sheet_of lead_db q' = Unsigned [sample_step 2 None (Some 7)])"
proof -
  have s: "sheet_sign (''approve'' \<noteq> ''reject'') (sample_user ''lead'') (sheet_of asked_db sample_request) =
      Some (Unsigned [sample_step 2 None (Some 7)])"
    by code_simp
  moreover have "rq_id sample_request = 1" by code_simp
  ultimately show ?thesis
    using act_refines_sheet [OF asked_reach, of sample_request, where d = "''approve''" and u = "sample_user ''lead''" and env = plain_env and msg = None]
    by (simp add: asked_requests flip: lead_db_def)
qed

theorem sign_off_completes_witness:
  "\<exists>q'\<in>set (d_reqs (snd (sign_off plain_env [sample_user ''designer'', sample_user ''designer''] sample_request asked_db))).
     rq_id q' = 1 \<and> rq_state q' = APPROVED"
proof -
  have "rq_state sample_request = PENDING" "rq_id sample_request = 1"
    "length (unsigned_steps asked_db sample_request) = 2" "is_designer (sample_user ''designer'')"
    by code_simp+
  with sign_off_completes [OF asked_reach, of sample_request "[sample_user ''designer'', sample_user ''designer'']" plain_env]
  show ?thesis by (simp add: asked_requests)
qed

theorem approved_though_not_moved_witness:
  "\<exists>q'\<in>set (d_reqs final_db). rq_id q' = 1 \<and> rq_state q' = APPROVED \<and> \<not> can_act final_db q' (sample_user ''designer'') \<and>
    act plain_env q' (sample_user ''designer'') ''approve'' None final_db =
      (Inl (ValueErr ''This approval has already been decided.''), final_db)"
proof -
  let ?q = "sample_request\<lparr>rq_current_position := 2\<rparr>"
  have "rq_id ?q = 1" "can_act lead_db ?q (sample_user ''designer'')"
    "isl (fst (act plain_env ?q (sample_user ''designer'') ''approve'' None lead_db))"
    by code_simp+
  moreover from this obtain e where
    "act plain_env ?q (sample_user ''designer'') ''approve'' None lead_db = (Inl e, final_db)"
    by (auto simp: final_db_def isl_def prod_eq_iff)
  ultimately show ?thesis
    using approved_though_not_moved [OF lead_reach, of ?q] by (simp add: lead_requests)
qed

theorem diversion_complete_witness:
  "dget (snd (plan_diversions approval_db workflow_table (Some [(''state'', VStr ''new'')])
      [(''state'', VStr ''done''), (''note'', VStr ''x'')])) ''note'' = Some (VStr ''x'')"
proof -
  have "map (\<lambda>d. f_phys_name (dv_field d)) (fst (plan_diversions approval_db workflow_table
      (Some [(''state'', VStr ''new'')]) [(''state'', VStr ''done''), (''note'', VStr ''x'')])) = [''state'']"
    by code_simp
  then have "(\<lambda>d. f_phys_name (dv_field d)) ` set (fst (plan_diversions approval_db workflow_table
      (Some [(''state'', VStr ''new'')]) [(''state'', VStr ''done''), (''note'', VStr ''x'')])) = {''state''}"
    by (metis (no_types) list.set_map empty_set list.simps(15))
  with diversion_complete [OF prod.collapse [symmetric]] show ?thesis by (simp add: dget_Cons)
qed

end
