(* ===== verification/Rate_Limit.thy ===== *)
theory Rate_Limit
  imports Identifiers
begin

text \<open>
  \<open>app/rate_limit.py\<close>, the sliding-window limiter over the shared table of hits, and the
  sweep of old hits that \<open>app/scheduler.py\<close> runs. Windows are in seconds, times in
  microseconds.

  Shown: with a window of at most an hour, at most \<open>limit\<close> calls are let through in any
  window, whatever calls and sweeps come when; with a longer window the sweep forgets hits
  that still count, and the limit can be passed. A refused caller who waits longer than the
  advertised time is served.
\<close>

definition hits_in :: "rate_hit list \<Rightarrow> pystr \<Rightarrow> int \<Rightarrow> int \<Rightarrow> rate_hit list" where
  "hits_in hits key window now =
     filter (\<lambda>h. rh_key h = key \<and> now - window * usec \<le> rh_at h) hits"

definition min_at :: "rate_hit list \<Rightarrow> int option" where
  "min_at hs = (case hs of [] \<Rightarrow> None | h # r \<Rightarrow> Some (fold (\<lambda>x m. min m (rh_at x)) r (rh_at h)))"

definition window_state :: "db \<Rightarrow> pystr \<Rightarrow> int \<Rightarrow> int \<Rightarrow> int \<times> int option" where
  "window_state s key window now =
     (let hs = hits_in (d_hits s) key window now in (int (length hs), min_at hs))"

definition ceil_div :: "int \<Rightarrow> int \<Rightarrow> int" where
  "ceil_div a b = - ((- a) div b)"

definition retry_after :: "int option \<Rightarrow> int \<Rightarrow> int \<Rightarrow> int" where
  "retry_after oldest window now =
     (case oldest of None \<Rightarrow> 1 | Some t \<Rightarrow> max 1 (ceil_div (window * usec - (now - t)) usec))"

definition add_hit :: "pystr \<Rightarrow> int \<Rightarrow> db \<Rightarrow> db" where
  "add_hit key now s =
     s\<lparr>d_hits := d_hits s @ [\<lparr>rh_id = next_id rh_id (d_hits s), rh_key = key, rh_at = now\<rparr>]\<rparr>"

definition off :: "int option \<Rightarrow> bool" where
  "off limit = (case limit of None \<Rightarrow> True | Some l \<Rightarrow> l \<le> 0)"

definition hit_ok :: "pystr \<Rightarrow> int option \<Rightarrow> int \<Rightarrow> int \<Rightarrow> db \<Rightarrow> (bool \<times> int) \<times> db" where
  "hit_ok key limit window now s =
     (if off limit then ((True, 0), s)
      else case window_state s key window now of (count, oldest) \<Rightarrow>
        if the limit \<le> count then ((False, retry_after oldest window now), s)
        else ((True, 0), add_hit key now s))"

definition blocked :: "pystr \<Rightarrow> int option \<Rightarrow> int \<Rightarrow> int \<Rightarrow> db \<Rightarrow> bool \<times> int" where
  "blocked key limit window now s =
     (if off limit then (False, 0)
      else case window_state s key window now of (count, oldest) \<Rightarrow>
        if the limit \<le> count then (True, retry_after oldest window now) else (False, 0))"

definition record_hit :: "pystr \<Rightarrow> int \<Rightarrow> db \<Rightarrow> db" where
  "record_hit key now s = add_hit key now s"

text \<open>Step 4 of \<open>run_due\<close>: \<open>delete ... where RateHit.at < now - 1 hour\<close>.\<close>

definition sweep_hits :: "int \<Rightarrow> db \<Rightarrow> db" where
  "sweep_hits now s = s\<lparr>d_hits := filter (\<lambda>h. \<not> rh_at h < now - 3600 * usec) (d_hits s)\<rparr>"

subsection \<open>Runs\<close>

text \<open>
  What happens to one key over time: calls of \<open>hit_ok\<close> with fixed limit and window, and
  sweeps. The log keeps the times of the calls that were let through, which no sweep can
  remove.
\<close>

datatype rl_event = Call int | Sweep int

fun ev_time :: "rl_event \<Rightarrow> int" where
  "ev_time (Call t) = t"
| "ev_time (Sweep t) = t"

fun rl_step :: "pystr \<Rightarrow> int \<Rightarrow> int \<Rightarrow> rl_event \<Rightarrow> db \<times> int list \<Rightarrow> db \<times> int list" where
  "rl_step key limit window (Call t) (s, log) =
     (case hit_ok key (Some limit) window t s of ((ok, _), s') \<Rightarrow> (s', if ok then log @ [t] else log))"
| "rl_step key limit window (Sweep t) (s, log) = (sweep_hits t s, log)"

definition rl_run :: "pystr \<Rightarrow> int \<Rightarrow> int \<Rightarrow> rl_event list \<Rightarrow> db \<times> int list \<Rightarrow> db \<times> int list" where
  "rl_run key limit window es = fold (rl_step key limit window) es"

definition in_window :: "int \<Rightarrow> int \<Rightarrow> int list \<Rightarrow> int list" where
  "in_window window t log = filter (\<lambda>x. t - window * usec \<le> x \<and> x \<le> t) log"

subsection \<open>Facts\<close>

lemma hits_in_add_hit [simp]:
  "d_hits (add_hit key now s) = d_hits s @ [\<lparr>rh_id = next_id rh_id (d_hits s), rh_key = key, rh_at = now\<rparr>]"
  by (simp add: add_hit_def)

text \<open>
  The invariant of a run up to time \<open>T\<close>: nothing lies after \<open>T\<close>, the hits the table has
  for the key and the calls let through agree on everything a window ending at \<open>T\<close> or later
  can see, and no window holds more than \<open>limit\<close> of the calls let through.
\<close>

definition key_times :: "pystr \<Rightarrow> db \<Rightarrow> int list" where
  "key_times key s = map rh_at (filter (\<lambda>h. rh_key h = key) (d_hits s))"

definition rl_inv :: "pystr \<Rightarrow> int \<Rightarrow> int \<Rightarrow> int \<Rightarrow> db \<times> int list \<Rightarrow> bool" where
  "rl_inv key limit window T st = (case st of (s, log) \<Rightarrow>
     (\<forall>x\<in>set log. x \<le> T) \<and>
     filter (\<lambda>x. T - window * usec \<le> x) (key_times key s) = filter (\<lambda>x. T - window * usec \<le> x) log \<and>
     (\<forall>t. int (length (in_window window t log)) \<le> limit))"

lemma length_hits_in:
  "length (hits_in (d_hits s) key window now) =
     length (filter (\<lambda>x. now - window * usec \<le> x) (key_times key s))"
proof -
  have "filter (\<lambda>x. now - window * usec \<le> x) (key_times key s) =
      map rh_at (hits_in (d_hits s) key window now)"
    by (simp add: key_times_def hits_in_def filter_map comp_def conj_commute)
  then show ?thesis by simp
qed

lemma filter_later:
  assumes "filter (\<lambda>x. (a::int) \<le> x) xs = filter (\<lambda>x. a \<le> x) ys" and "a \<le> b"
  shows "filter (\<lambda>x. b \<le> x) xs = filter (\<lambda>x. b \<le> x) ys"
proof -
  have "filter (\<lambda>x. b \<le> x) zs = filter (\<lambda>x. b \<le> x) (filter (\<lambda>x. a \<le> x) zs)" for zs
    using assms(2) by (auto intro!: filter_cong)
  with assms(1) show ?thesis by metis
qed

lemma rl_inv_later: "rl_inv key limit window T st \<Longrightarrow> T \<le> T' \<Longrightarrow> rl_inv key limit window T' st"
  by (cases st) (auto simp: rl_inv_def intro: order_trans filter_later)

lemma rl_inv_sweep:
  assumes "rl_inv key limit window T (s, log)" and "window \<le> 3600"
  shows "rl_inv key limit window T (sweep_hits T s, log)"
proof -
  have "key_times key (sweep_hits T s) = filter (\<lambda>x. \<not> x < T - 3600 * usec) (key_times key s)"
    by (simp add: key_times_def sweep_hits_def filter_map comp_def conj_commute)
  moreover have "filter (\<lambda>x. T - window * usec \<le> x) (filter (\<lambda>x. \<not> x < T - 3600 * usec) xs)
      = filter (\<lambda>x. T - window * usec \<le> x) xs" for xs
    using assms(2) by (auto intro!: filter_cong)
  ultimately show ?thesis using assms(1) by (simp add: rl_inv_def)
qed

lemma rl_inv_call:
  assumes inv: "rl_inv key limit window T (s, log)" and "0 < limit" and "0 \<le> window"
  shows "rl_inv key limit window T (rl_step key limit window (Call T) (s, log))"
proof (cases "limit \<le> int (length (hits_in (d_hits s) key window T))")
  case True
  with inv \<open>0 < limit\<close> show ?thesis
    by (simp add: hit_ok_def off_def window_state_def Let_def)
next
  case False
  let ?W = "window * usec"
  have step: "rl_step key limit window (Call T) (s, log) = (add_hit key T s, log @ [T])"
    using False \<open>0 < limit\<close> by (simp add: hit_ok_def off_def window_state_def Let_def)
  from inv have le: "\<forall>x\<in>set log. x \<le> T"
    and eq: "filter (\<lambda>x. T - ?W \<le> x) (key_times key s) = filter (\<lambda>x. T - ?W \<le> x) log"
    and lim: "\<And>t. int (length (in_window window t log)) \<le> limit"
    by (auto simp: rl_inv_def)
  have few: "int (length (filter (\<lambda>x. T - ?W \<le> x) log)) < limit"
    using False eq by (simp add: length_hits_in)
  have "int (length (in_window window t (log @ [T]))) \<le> limit" for t
  proof (cases "T \<le> t")
    case True
    then have "length (in_window window t log) \<le> length (filter (\<lambda>x. T - ?W \<le> x) log)"
      unfolding in_window_def by (induction log) auto
    with few show ?thesis by (simp add: in_window_def)
  next
    case False
    with lim [of t] show ?thesis by (simp add: in_window_def)
  qed
  moreover have "key_times key (add_hit key T s) = key_times key s @ [T]"
    by (simp add: key_times_def)
  ultimately show ?thesis unfolding step using le eq by (simp add: rl_inv_def)
qed

lemma rl_inv_run:
  assumes "0 < limit" "0 \<le> window" "window \<le> 3600"
  shows "rl_inv key limit window T st \<Longrightarrow> sorted (map ev_time es) \<Longrightarrow>
    (\<forall>e\<in>set es. T \<le> ev_time e) \<Longrightarrow> \<exists>T'. rl_inv key limit window T' (rl_run key limit window es st)"
proof (induction es arbitrary: T st)
  case Nil
  then show ?case by (auto simp: rl_run_def)
next
  case (Cons e es)
  obtain s log where st: "st = (s, log)" by (cases st)
  from Cons.prems have "rl_inv key limit window (ev_time e) (s, log)"
    by (auto simp: st intro: rl_inv_later)
  then have "rl_inv key limit window (ev_time e) (rl_step key limit window e (s, log))"
    using assms by (cases e) (simp_all add: rl_inv_call rl_inv_sweep del: rl_step.simps(1))
  with Cons.IH [of "ev_time e" "rl_step key limit window e (s, log)"] Cons.prems
  show ?case by (simp add: rl_run_def st)
qed



text \<open>
  The sweep breaks a longer window: with a window of two hours and a limit of one, a second
  call 90 minutes after the first is let through once the sweep has run.
\<close>

theorem hit_ok_sweep_passes_limit:
  "\<exists>es. sorted (map ev_time es) \<and>
     in_window 7200 (5400 * usec) (snd (rl_run ''k'' 1 7200 es (empty_db, []))) = [0, 5400 * usec]"
proof (intro exI conjI)
  let ?es = "[Call 0, Sweep (5400 * usec), Call (5400 * usec)]"
  show "sorted (map ev_time ?es)" by simp
  show "in_window 7200 (5400 * usec) (snd (rl_run ''k'' 1 7200 ?es (empty_db, []))) = [0, 5400 * usec]"
    by (simp add: rl_run_def hit_ok_def off_def window_state_def hits_in_def add_hit_def
        empty_db_def sweep_hits_def in_window_def Let_def)
qed

lemma fold_min_at: "fold (\<lambda>x m. min m (rh_at x)) r a = Min (insert a (rh_at ` set r))"
proof -
  have "fold (\<lambda>x m. min m (rh_at x)) r a = fold min (map rh_at r) a"
    unfolding fold_map comp_def by (rule fold_cong) (auto simp: min.commute)
  also have "\<dots> = Min (set (a # map rh_at r))" by (simp only: Min.set_eq_fold)
  finally show ?thesis by simp
qed

lemma min_at_Min: "min_at hs = (if hs = [] then None else Some (Min (rh_at ` set hs)))"
  by (cases hs) (simp_all add: min_at_def fold_min_at)

lemma min_at_le: "h \<in> set hs \<Longrightarrow> \<exists>m. min_at hs = Some m \<and> m \<le> rh_at h"
  by (auto simp: min_at_Min)

lemma min_at_mem: "min_at hs = Some m \<Longrightarrow> \<exists>h\<in>set hs. rh_at h = m"
  using Min_in [of "rh_at ` set hs"] by (metis finite_imageI finite_set imageE image_is_empty
    min_at_Min option.distinct(1) option.inject set_empty)

lemma ceil_div_ge: "0 < b \<Longrightarrow> a \<le> ceil_div a b * b"
  unfolding ceil_div_def
  by (metis add.inverse_inverse add_uminus_conv_diff diff_0 div_mult_mod_eq le_minus_iff
      mult_minus_left neg_le_iff_le pos_mod_sign le_add_same_cancel1)

lemma filter_length_less:
  "x \<in> set xs \<Longrightarrow> Q x \<Longrightarrow> \<not> P x \<Longrightarrow> (\<And>y. P y \<Longrightarrow> Q y) \<Longrightarrow>
     length (filter P xs) < length (filter Q xs)"
proof (induction xs)
  case (Cons y ys)
  have "length (filter P ys) \<le> length (filter Q ys)"
    using Cons.prems(4) by (induction ys) auto
  with Cons show ?case by auto
qed simp

text \<open>
  The advertised wait is enough: when \<open>hit_ok\<close> refuses a call because exactly \<open>limit\<close> hits
  are in the window, a call later than \<open>retry_after\<close> seconds, with no hit recorded in
  between, is let through.
\<close>

theorem retry_after_sufficient:
  assumes refused: "hit_ok key (Some limit) window now s = ((False, ra), s)"
    and full: "int (length (hits_in (d_hits s) key window now)) = limit"
    and later: "now + ra * usec < now'"
  shows "fst (fst (hit_ok key (Some limit) window now' s)) = True"
proof -
  let ?hs = "hits_in (d_hits s) key window now"
  from refused have pos: "0 < limit" and ra: "ra = retry_after (min_at ?hs) window now"
    by (auto simp: hit_ok_def off_def window_state_def Let_def split: if_splits)
  with full obtain h where h: "h \<in> set ?hs" by (cases ?hs) auto
  obtain m where m: "min_at ?hs = Some m" using min_at_le [OF h] by blast
  then obtain x where x: "x \<in> set ?hs" "rh_at x = m" using min_at_mem by blast
  have wait: "window * usec - (now - m) \<le> ra * usec"
    using ceil_div_ge [of usec "window * usec - (now - m)"] by (simp add: ra m retry_after_def max_def)
  then have out: "\<not> now' - window * usec \<le> rh_at x" using later x(2) by simp
  have "0 \<le> ra" by (simp add: ra m retry_after_def)
  then have "now \<le> now'" using later by simp
  then have "length (hits_in (d_hits s) key window now') < length ?hs"
    unfolding hits_in_def using x out
    by (intro filter_length_less [of x]) (auto simp: hits_in_def)
  with full pos show ?thesis by (simp add: hit_ok_def off_def window_state_def Let_def)
qed

theorem retry_after_sufficient_witness:
  "fst (fst (hit_ok ''k'' (Some 1) 60 60000002 (add_hit ''k'' 1 empty_db))) = True"
proof (rule retry_after_sufficient [where now = 1 and ra = 60])
  show "hit_ok ''k'' (Some 1) 60 1 (add_hit ''k'' 1 empty_db) = ((False, 60), add_hit ''k'' 1 empty_db)"
    by (simp add: hit_ok_def off_def window_state_def hits_in_def add_hit_def empty_db_def
        min_at_def retry_after_def ceil_div_def Let_def)
qed (simp_all add: hits_in_def add_hit_def empty_db_def)

lemma blocked_iff_not_hit_ok: "fst (blocked key limit window now s) = (\<not> fst (fst (hit_ok key limit window now s)))"
  by (simp add: blocked_def hit_ok_def split: prod.splits)

end
