(* ===== verification/Form_Rules.thy ===== *)
theory Form_Rules
  imports PyArith Effects
begin

text \<open>
  \<open>app/form_rules.py\<close>: the conditions that show, require or lock the fields of a form. A rule is a
  JSON tree of \<open>all\<close> and \<open>any\<close> groups over comparisons of other fields; \<open>validate\<close> accepts a
  form's rules, \<open>order\<close> sorts the fields by dependency, \<open>states\<close> evaluates them in that order and
  resets the value of every field that is hidden or locked. Where the source iterates over a
  set of names the model takes them in the order of occurrence. The wrapping of WTForms classes
  (\<open>bind\<close>) is in \<open>Forms\<close>.

  Shown: validated rules always evaluate; the order exists exactly when the dependencies have no
  cycle; and the states are settled: every rule has the truth value that the final values
  give it, a hidden or locked field has its trusted value and any other the submitted one.
\<close>

definition NUMERIC :: "pystr list" where
  "NUMERIC = [''integer'', ''bigint'', ''float'', ''decimal'', ''currency'', ''percent'']"

definition OPS :: "pystr list" where
  "OPS = [''eq'', ''ne'', ''empty'', ''not_empty'', ''contains'', ''gt'', ''gte'', ''lt'', ''lte'']"

type_synonym rules = "(pystr, pyval) dict"

definition check_rules_dict :: "pyval \<Rightarrow> exn + rules" where
  "check_rules_dict v = (case v of
     VDict d \<Rightarrow> if set (dkeys d) \<subseteq> {''show'', ''require'', ''readonly''} then Inr d
       else Inl (ValueErr ''Rules must contain only show, require or readonly conditions.'')
   | _ \<Rightarrow> Inl (ValueErr ''Rules must contain only show, require or readonly conditions.''))"

text \<open>\<open>json.loads\<close> of text raises a \<open>ValueError\<close>; other values stand for themselves, a false one for no rules.\<close>

definition parse :: "env \<Rightarrow> pyval \<Rightarrow> exn + rules" where
  "parse env value = (case value of
     VStr t \<Rightarrow>
       if t = [] then Inr []
       else (case e_loads env t of JDoc v \<Rightarrow> check_rules_dict v | _ \<Rightarrow> Inl (ValueErr t))
   | _ \<Rightarrow> check_rules_dict (if truthy value then value else VDict []))"

subsection \<open>Conditions\<close>

definition rule_text :: "pyval \<Rightarrow> pystr" where
  "rule_text v = (case v of VNone \<Rightarrow> [] | VBool b \<Rightarrow> (if b then ''true'' else ''false'') | _ \<Rightarrow> py_str v)"

definition hashable :: "pyval \<Rightarrow> bool" where
  "hashable v = (case v of VList _ \<Rightarrow> False | VDict _ \<Rightarrow> False | _ \<Rightarrow> True)"

text \<open>
  The nodes of a group. A string or a dict is iterated by its characters or keys; the recursive call on such
  a string raises, with the exception of \<open>references('')\<close>.
\<close>

definition group_nodes :: "pyval \<Rightarrow> exn + pyval list" where
  "group_nodes v = (case v of
     VList cs \<Rightarrow> Inr cs
   | VStr [] \<Rightarrow> Inr []
   | VDict [] \<Rightarrow> Inr []
   | _ \<Rightarrow> Inl TypeErr)"

definition ref_nodes :: "pyval \<Rightarrow> exn + pyval list" where
  "ref_nodes v = (case v of
     VDict d \<Rightarrow> if set (dkeys d) \<subseteq> {[]} then Inr [] else Inl TypeErr
   | _ \<Rightarrow> group_nodes v)"

definition dget_or :: "('k, 'v) dict \<Rightarrow> 'k \<Rightarrow> 'v \<Rightarrow> 'v" where
  "dget_or d k v = (case dget d k of None \<Rightarrow> v | Some x \<Rightarrow> x)"

lemma dict_member_size: "dget d k = Some v \<Longrightarrow> size v < size (VDict d)"
proof -
  assume "dget d k = Some v"
  then have "(k, v) \<in> set d" by (simp add: dget_def map_of_SomeD)
  then have "size_prod (\<lambda>_. 0) size (k, v) \<le> size_list (size_prod (\<lambda>_. 0) size) d"
    by (intro size_list_estimation') auto
  then show ?thesis by simp
qed

lemma nodes_size:
  "group_nodes v = Inr cs \<Longrightarrow> size_list size cs \<le> size v"
  "ref_nodes v = Inr cs \<Longrightarrow> size_list size cs \<le> size v"
  by (auto simp: ref_nodes_def group_nodes_def split: pyval.splits list.splits if_splits)

function (sequential) references :: "pyval \<Rightarrow> exn + pyval list"
  and references_all :: "pyval list \<Rightarrow> exn + pyval list" where
  "references (VDict d) =
     (if d = [] then Inr []
      else case dget d ''field'' of
        Some v \<Rightarrow> if hashable v then Inr [v] else Inl TypeErr
      | None \<Rightarrow> (case ref_nodes (dget_or d ''all'' (dget_or d ''any'' (VList []))) of
          Inl e \<Rightarrow> Inl e | Inr cs \<Rightarrow> references_all cs))"
| "references v = (if truthy v then Inl TypeErr else Inr [])"
| "references_all [] = Inr []"
| "references_all (c # cs) = (case references c of
     Inl e \<Rightarrow> Inl e
   | Inr xs \<Rightarrow> (case references_all cs of Inl e \<Rightarrow> Inl e | Inr ys \<Rightarrow> Inr (xs @ ys)))"
  by pat_completeness auto

lemma dget_or_size: "size v < size (VDict d) \<Longrightarrow> size (dget_or d k v) < size (VDict d)"
  using dict_member_size [of d k] by (auto simp: dget_or_def split: option.split)

lemma group_size:
  "d \<noteq> [] \<Longrightarrow> ref_nodes (dget_or d ''all'' (dget_or d ''any'' (VList []))) = Inr cs \<Longrightarrow> size_list size cs < size (VDict d)"
proof -
  assume d: "d \<noteq> []" and cs: "ref_nodes (dget_or d ''all'' (dget_or d ''any'' (VList []))) = Inr cs"
  from d have "size (VList []) < size (VDict d)" by (cases d) auto
  then have "size (dget_or d ''all'' (dget_or d ''any'' (VList []))) < size (VDict d)"
    by (intro dget_or_size)
  with nodes_size(2) [OF cs] show ?thesis by simp
qed

termination references
proof (relation "measure (\<lambda>x. case x of Inl v \<Rightarrow> 2 * size v | Inr cs \<Rightarrow> 2 * size_list size cs + 1)")
  fix d cs
  assume "d \<noteq> []" "ref_nodes (dget_or d ''all'' (dget_or d ''any'' (VList []))) = Inr cs"
  then show "(Inr cs, Inl (VDict d)) \<in> measure (\<lambda>x. case x of Inl v \<Rightarrow> 2 * size v | Inr cs \<Rightarrow> 2 * size_list size cs + 1)"
    using group_size by fastforce
qed auto

definition is_finite :: "decimal \<Rightarrow> bool" where
  "is_finite x = (case x of DFin _ _ _ \<Rightarrow> True | _ \<Rightarrow> False)"

definition compare_by :: "pystr \<Rightarrow> bool \<Rightarrow> bool \<Rightarrow> bool option" where
  "compare_by op eq lt =
     (if op = ''eq'' then Some eq
      else if op = ''ne'' then Some (\<not> eq)
      else if op = ''gt'' then Some (\<not> lt \<and> \<not> eq)
      else if op = ''gte'' then Some (\<not> lt)
      else if op = ''lt'' then Some lt
      else if op = ''lte'' then Some (lt \<or> eq)
      else None)"

definition compare_op :: "pyval \<Rightarrow> bool \<Rightarrow> bool \<Rightarrow> exn + bool" where
  "compare_op op eq lt = (case op of
     VStr x \<Rightarrow> (case compare_by x eq lt of Some b \<Rightarrow> Inr b | None \<Rightarrow> Inl (KeyErr x))
   | _ \<Rightarrow> if hashable op then Inl (KeyErr (py_str op)) else Inl TypeErr)"

definition match_values :: "pystr option \<Rightarrow> pyval \<Rightarrow> pystr \<Rightarrow> pystr \<Rightarrow> exn + bool" where
  "match_values dtype op l r =
     (if op = VStr ''empty'' then Inr (l = [])
      else if op = VStr ''not_empty'' then Inr (l \<noteq> [])
      else if op = VStr ''contains'' then Inr (py_contains r l)
      else if dtype \<in> Some ` set NUMERIC then
        (case (parse_dec l, parse_dec r) of
           (Some x, Some y) \<Rightarrow>
             if \<not> is_finite x \<or> \<not> is_finite y then Inr False
             else compare_op op (num_rel exact_eq (exact_dec x) (exact_dec y))
                                (num_rel exact_lt (exact_dec x) (exact_dec y))
         | _ \<Rightarrow> Inr False)
      else compare_op op (l = r) (text_lt l r))"

definition match_leaf :: "(pystr, pystr) dict \<Rightarrow> row \<Rightarrow> (pystr, pyval) dict \<Rightarrow> exn + bool" where
  "match_leaf types vals d =
     (case (dget d ''field'', dget d ''op'') of
        (None, _) \<Rightarrow> Inl (KeyErr ''field'')
      | (_, None) \<Rightarrow> Inl (KeyErr ''op'')
      | (Some name, Some op) \<Rightarrow>
        (case name of
           VStr n \<Rightarrow>
             if \<not> dhas vals n then Inr False
             else match_values (dget types n) op (rule_text (rget vals n)) (rule_text (dget_or d ''value'' (VStr [])))
         | _ \<Rightarrow> if hashable name then Inr False else Inl TypeErr))"

function (sequential) matches :: "(pystr, pystr) dict \<Rightarrow> row \<Rightarrow> pyval \<Rightarrow> exn + bool"
  and matches_all :: "(pystr, pystr) dict \<Rightarrow> row \<Rightarrow> pyval list \<Rightarrow> exn + bool"
  and matches_any :: "(pystr, pystr) dict \<Rightarrow> row \<Rightarrow> pyval list \<Rightarrow> exn + bool" where
  "matches types vals (VDict d) =
     (case dget d ''all'' of
        Some v \<Rightarrow> (case group_nodes v of Inl e \<Rightarrow> Inl e | Inr cs \<Rightarrow> matches_all types vals cs)
      | None \<Rightarrow>
        (case dget d ''any'' of
           Some v \<Rightarrow> (case group_nodes v of Inl e \<Rightarrow> Inl e | Inr cs \<Rightarrow> matches_any types vals cs)
         | None \<Rightarrow> match_leaf types vals d))"
| "matches types vals v = Inl TypeErr"
| "matches_all types vals [] = Inr True"
| "matches_all types vals (c # cs) = (case matches types vals c of
     Inl e \<Rightarrow> Inl e | Inr b \<Rightarrow> if b then matches_all types vals cs else Inr False)"
| "matches_any types vals [] = Inr False"
| "matches_any types vals (c # cs) = (case matches types vals c of
     Inl e \<Rightarrow> Inl e | Inr b \<Rightarrow> if b then Inr True else matches_any types vals cs)"
  by pat_completeness auto

lemma child_size: "dget d k = Some v \<Longrightarrow> group_nodes v = Inr cs \<Longrightarrow> size_list size cs < size (VDict d)"
  using dict_member_size [of d k v] nodes_size(1) [of v cs] by simp

termination matches
proof (relation "measure (\<lambda>x. case x of Inl (_, _, v) \<Rightarrow> 2 * size v
    | Inr y \<Rightarrow> (case y of Inl (_, _, cs) \<Rightarrow> 2 * size_list size cs + 1 | Inr (_, _, cs) \<Rightarrow> 2 * size_list size cs + 1))")
qed (use child_size in \<open>fastforce+\<close>)

subsection \<open>Validation\<close>

definition NO_CONDITION_TYPES :: "pystr list" where
  "NO_CONDITION_TYPES = [''file'', ''image'', ''formula'', ''autonumber'', ''json'', ''tags'']"

definition CONTAINS_TYPES :: "pystr list" where
  "CONTAINS_TYPES = [''string'', ''text'', ''markdown'', ''email'', ''url'', ''phone'']"

definition scalar_value :: "pyval \<Rightarrow> bool" where
  "scalar_value v = (case v of VStr _ \<Rightarrow> True | VInt _ \<Rightarrow> True | VFloat _ \<Rightarrow> True | VBool _ \<Rightarrow> True | _ \<Rightarrow> False)"

definition check_condition_value :: "pystr \<Rightarrow> pystr \<Rightarrow> pyval \<Rightarrow> exn + unit" where
  "check_condition_value op dtype v =
     (if \<not> scalar_value v \<or> 1000 < length (py_str v)
      then Inl (ValueErr ''Condition values must be short scalar values.'')
      else if op \<notin> {''empty'', ''not_empty''} \<and> dtype \<in> set NUMERIC then
        (case parse_dec (py_str v) of
           None \<Rightarrow> Inl (ValueErr ''Use a numeric condition value.'')
         | Some x \<Rightarrow> if is_finite x then Inr () else Inl (ValueErr ''Use a finite number.''))
      else Inr ())"

definition check_leaf :: "(pystr, meta_field) dict \<Rightarrow> pystr \<Rightarrow> (pystr, pyval) dict \<Rightarrow> exn + unit" where
  "check_leaf flds target d =
     (let name = rget d ''field''; op = rget d ''op''; bad = Inl (ValueErr ''Choose another field on this form and a supported operator.'') in
      if \<not> hashable name then Inl TypeErr
      else case name of
        VStr n \<Rightarrow>
          (case dget flds n of
             None \<Rightarrow> bad
           | Some f \<Rightarrow>
             if n = target then bad
             else if \<not> hashable op then Inl TypeErr
             else case op of
               VStr x \<Rightarrow>
                 if x \<notin> set OPS then bad
                 else let dtype = f_data_type f in
                   if dtype \<in> set NO_CONDITION_TYPES then Inl (ValueErr ''This field type cannot control a condition.'')
                   else if x \<in> {''gt'', ''gte'', ''lt'', ''lte''} \<and> dtype \<notin> set NUMERIC
                     then Inl (ValueErr ''Numeric comparisons require a numeric field.'')
                   else if x = ''contains'' \<and> dtype \<notin> set CONTAINS_TYPES
                     then Inl (ValueErr ''Contains requires a text field.'')
                   else check_condition_value x dtype (dget_or d ''value'' (VStr []))
             | _ \<Rightarrow> bad)
      | _ \<Rightarrow> bad)"

function (sequential) visit_rule :: "(pystr, meta_field) dict \<Rightarrow> pystr \<Rightarrow> nat \<Rightarrow> pyval \<Rightarrow> exn + unit"
  and visit_rules :: "(pystr, meta_field) dict \<Rightarrow> pystr \<Rightarrow> nat \<Rightarrow> pyval list \<Rightarrow> exn + unit" where
  "visit_rule flds target depth (VDict d) =
     (if 5 < depth then Inl (ValueErr ''Condition groups may be nested at most five levels.'')
      else if dhas d ''all'' \<or> dhas d ''any'' then
        (let key = (if dhas d ''all'' then ''all'' else ''any'') in
         case rget d key of
           VList cs \<Rightarrow>
             if set (dkeys d) \<noteq> {key} \<or> \<not> (1 \<le> length cs \<and> length cs \<le> 20)
             then Inl (ValueErr ''Each AND/OR group needs 1-20 conditions.'')
             else visit_rules flds target (depth + 1) cs
         | _ \<Rightarrow> Inl (ValueErr ''Each AND/OR group needs 1-20 conditions.''))
      else check_leaf flds target d)"
| "visit_rule flds target depth v = Inl (ValueErr ''Condition groups may be nested at most five levels.'')"
| "visit_rules flds target depth [] = Inr ()"
| "visit_rules flds target depth (c # cs) = (case visit_rule flds target depth c of
     Inl e \<Rightarrow> Inl e | Inr _ \<Rightarrow> visit_rules flds target depth cs)"
  by pat_completeness auto

lemma rget_list_size: "rget d k = VList cs \<Longrightarrow> size_list size cs < size (VDict d)"
  using child_size [of d k "VList cs" cs] by (simp add: rget_def group_nodes_def split: option.splits)

termination visit_rule
proof (relation "measure (\<lambda>x. case x of Inl (_, _, _, v) \<Rightarrow> 2 * size v | Inr (_, _, _, cs) \<Rightarrow> 2 * size_list size cs + 1)")
qed (use rget_list_size in \<open>fastforce+\<close>)

definition validate_rules :: "env \<Rightarrow> pyval \<Rightarrow> (pystr, meta_field) dict \<Rightarrow> pystr \<Rightarrow> exn + unit" where
  "validate_rules env rls flds target = (case parse env rls of
     Inl e \<Rightarrow> Inl e
   | Inr d \<Rightarrow> visit_rules flds target 0 (map snd d))"

subsection \<open>Order of evaluation\<close>

record rule_item =
  ri_rules :: rules
  ri_type :: pystr
  ri_locked :: bool
  ri_required :: bool

type_synonym rule_config = "(pystr, rule_item) dict"

text \<open>
  The inner function of \<open>order\<close>, with the set \<open>active\<close> as the path to the name; \<open>visit_deps\<close> and
  \<open>visit_trees\<close> are its two loops.
\<close>

definition CYCLE :: exn where
  "CYCLE = ValueErr ''Conditional rules form a cycle.''"

definition in_config :: "rule_config \<Rightarrow> pyval \<Rightarrow> pystr option" where
  "in_config cfg v = (case v of VStr n \<Rightarrow> if dhas cfg n then Some n else None | _ \<Rightarrow> None)"

function (sequential) visit :: "rule_config \<Rightarrow> pystr list \<Rightarrow> pystr \<Rightarrow> pystr list \<Rightarrow> exn + pystr list"
  and visit_trees :: "rule_config \<Rightarrow> pystr list \<Rightarrow> pyval list \<Rightarrow> pystr list \<Rightarrow> exn + pystr list"
  and visit_deps :: "rule_config \<Rightarrow> pystr list \<Rightarrow> pystr list \<Rightarrow> pystr list \<Rightarrow> exn + pystr list" where
  "visit cfg active name res =
     (if name \<in> set active then Inl CYCLE
      else if name \<in> set res then Inr res
      else case dget cfg name of
        None \<Rightarrow> Inl (KeyErr name)
      | Some item \<Rightarrow>
        (case visit_trees cfg (name # active) (map snd (ri_rules item)) res of
           Inl e \<Rightarrow> Inl e | Inr res' \<Rightarrow> Inr (res' @ [name])))"
| "visit_trees cfg active [] res = Inr res"
| "visit_trees cfg active (t # ts) res = (case references t of
     Inl e \<Rightarrow> Inl e
   | Inr rs \<Rightarrow>
     (case visit_deps cfg active (List.map_filter (in_config cfg) rs) res of
        Inl e \<Rightarrow> Inl e | Inr res' \<Rightarrow> visit_trees cfg active ts res'))"
| "visit_deps cfg active [] res = Inr res"
| "visit_deps cfg active (d # ds) res = (case visit cfg active d res of
     Inl e \<Rightarrow> Inl e | Inr res' \<Rightarrow> visit_deps cfg active ds res')"
  by pat_completeness auto

definition unvisited :: "rule_config \<Rightarrow> pystr list \<Rightarrow> nat" where
  "unvisited cfg active = card (set (dkeys cfg) - set active)"

lemma unvisited_less:
  assumes "dget cfg name = Some item" "name \<notin> set active"
  shows "unvisited cfg (name # active) < unvisited cfg active"
proof -
  have "name \<in> set (dkeys cfg) - set active" using assms by (simp add: in_dkeys)
  then show ?thesis unfolding unvisited_def by (intro psubset_card_mono) auto
qed

termination visit
proof (relation "inv_image (less_than <*lex*> less_than <*lex*> less_than)
    (\<lambda>x. case x of Inl (cfg, act, _, _) \<Rightarrow> (unvisited cfg act, 0, 0)
       | Inr y \<Rightarrow> (case y of Inl (cfg, act, ts, _) \<Rightarrow> (unvisited cfg act, 2, length ts)
                           | Inr (cfg, act, ds, _) \<Rightarrow> (unvisited cfg act, 1, length ds)))")
  show "wf (inv_image (less_than <*lex*> less_than <*lex*> less_than)
    (\<lambda>x. case x of Inl (cfg, act, _, _) \<Rightarrow> (unvisited cfg act, 0::nat, 0::nat)
       | Inr y \<Rightarrow> (case y of Inl (cfg, act, ts, _) \<Rightarrow> (unvisited cfg act, 2, length ts)
                           | Inr (cfg, act, ds, _) \<Rightarrow> (unvisited cfg act, 1, length ds))))"
    by (intro wf_inv_image wf_lex_prod wf_less_than)
qed (auto simp: unvisited_less)

definition order :: "rule_config \<Rightarrow> exn + pystr list" where
  "order cfg = visit_deps cfg [] (dkeys cfg) []"

subsection \<open>States\<close>

record rule_state =
  rs_visible :: bool
  rs_readonly :: bool
  rs_required :: bool

definition rule_types :: "rule_config \<Rightarrow> (pystr, pystr) dict" where
  "rule_types cfg = map (\<lambda>(n, item). (n, ri_type item)) cfg"

definition lock_values :: "rule_config \<Rightarrow> row \<Rightarrow> row \<Rightarrow> row" where
  "lock_values cfg trusted vals =
     fold (\<lambda>(n, item) vs. if ri_locked item then dset n (rget trusted n) vs else vs) cfg vals"

text \<open>A rule that is there, else a default.\<close>

definition rule_or :: "(pystr, pystr) dict \<Rightarrow> row \<Rightarrow> rules \<Rightarrow> pystr \<Rightarrow> bool \<Rightarrow> exn + bool" where
  "rule_or types vals rls k b = (case dget rls k of None \<Rightarrow> Inr b | Some t \<Rightarrow> matches types vals t)"

definition item_state :: "(pystr, pystr) dict \<Rightarrow> row \<Rightarrow> rule_item \<Rightarrow> exn + rule_state" where
  "item_state types vals item =
     (case rule_or types vals (ri_rules item) ''show'' True of
        Inl e \<Rightarrow> Inl e
      | Inr visible \<Rightarrow>
        (case (if ri_locked item then Inr True else rule_or types vals (ri_rules item) ''readonly'' False) of
           Inl e \<Rightarrow> Inl e
         | Inr locked \<Rightarrow>
           (case (if ri_required item then Inr True else rule_or types vals (ri_rules item) ''require'' False) of
              Inl e \<Rightarrow> Inl e
            | Inr required \<Rightarrow> Inr \<lparr>rs_visible = visible, rs_readonly = locked,
                rs_required = required \<and> visible \<and> \<not> locked\<rparr>)))"

fun settle :: "rule_config \<Rightarrow> row \<Rightarrow> pystr list \<Rightarrow> row \<Rightarrow> (pystr, rule_state) dict \<Rightarrow> exn + (pystr, rule_state) dict \<times> row" where
  "settle cfg trusted [] vals acc = Inr (acc, vals)"
| "settle cfg trusted (n # ns) vals acc =
     (case dget cfg n of
        None \<Rightarrow> Inl (KeyErr n)
      | Some item \<Rightarrow>
        (case item_state (rule_types cfg) vals item of
           Inl e \<Rightarrow> Inl e
         | Inr st \<Rightarrow> settle cfg trusted ns
             (if \<not> rs_visible st \<or> rs_readonly st then dset n (rget trusted n) vals else vals)
             (dset n st acc)))"

definition states_run :: "rule_config \<Rightarrow> row \<Rightarrow> row \<Rightarrow> exn + (pystr, rule_state) dict \<times> row" where
  "states_run cfg vals trusted = (case order cfg of
     Inl e \<Rightarrow> Inl e
   | Inr ns \<Rightarrow> settle cfg trusted ns (lock_values cfg trusted vals) [])"

definition states :: "rule_config \<Rightarrow> row \<Rightarrow> row \<Rightarrow> exn + (pystr, rule_state) dict" where
  "states cfg vals trusted = map_sum id fst (states_run cfg vals trusted)"

subsection \<open>Validated rules\<close>

text \<open>What validation establishes of a condition: it refers to fields by name and reads these only, and it evaluates.\<close>

definition sound_tree :: "pyval \<Rightarrow> bool" where
  "sound_tree v \<longleftrightarrow> (\<exists>ns. references v = Inr (map VStr ns) \<and>
     (\<forall>types vals vals'. (\<forall>n\<in>set ns. dget vals n = dget vals' n) \<longrightarrow> matches types vals v = matches types vals' v) \<and>
     (\<forall>types vals. \<exists>b. matches types vals v = Inr b))"

definition sound_trees :: "pyval list \<Rightarrow> bool" where
  "sound_trees vs \<longleftrightarrow> (\<exists>ns. references_all vs = Inr (map VStr ns) \<and>
     (\<forall>types vals vals'. (\<forall>n\<in>set ns. dget vals n = dget vals' n) \<longrightarrow>
        matches_all types vals vs = matches_all types vals' vs \<and> matches_any types vals vs = matches_any types vals' vs) \<and>
     (\<forall>types vals. (\<exists>b. matches_all types vals vs = Inr b) \<and> (\<exists>b. matches_any types vals vs = Inr b)))"

lemma sound_trees_Cons: "sound_tree v \<Longrightarrow> sound_trees vs \<Longrightarrow> sound_trees (v # vs)"
proof -
  assume "sound_tree v" "sound_trees vs"
  then obtain ns ms where n: "references v = Inr (map VStr ns)" "references_all vs = Inr (map VStr ms)"
    and v: "\<And>types vals vals'. \<forall>n\<in>set ns. dget vals n = dget vals' n \<Longrightarrow> matches types vals v = matches types vals' v"
      "\<And>types vals. \<exists>b. matches types vals v = Inr b"
    and vs: "\<And>types vals vals'. \<forall>n\<in>set ms. dget vals n = dget vals' n \<Longrightarrow>
        matches_all types vals vs = matches_all types vals' vs \<and> matches_any types vals vs = matches_any types vals' vs"
      "\<And>types vals. (\<exists>b. matches_all types vals vs = Inr b) \<and> (\<exists>b. matches_any types vals vs = Inr b)"
    unfolding sound_tree_def sound_trees_def by blast
  have "references_all (v # vs) = Inr (map VStr (ns @ ms))" by (simp add: n)
  moreover have "matches_all types vals (v # vs) = matches_all types vals' (v # vs) \<and>
      matches_any types vals (v # vs) = matches_any types vals' (v # vs)"
    if "\<forall>n\<in>set (ns @ ms). dget vals n = dget vals' n" for types vals vals'
    using v(1) [of vals vals' types] vs(1) [of vals vals' types] that by (auto split: sum.splits)
  moreover have "(\<exists>b. matches_all types vals (v # vs) = Inr b) \<and> (\<exists>b. matches_any types vals (v # vs) = Inr b)" for types vals
    using v(2) [of types vals] vs(2) [of types vals] by auto
  ultimately show "sound_trees (v # vs)" unfolding sound_trees_def by blast
qed

lemma group_sound:
  assumes "set (dkeys d) = {key}" "rget d key = VList cs" "key \<in> {''all'', ''any''}" "sound_trees cs"
  shows "sound_tree (VDict d)"
proof -
  have "key \<in> set (dkeys d)" using assms(1) by simp
  then have get: "dget d key = Some (VList cs)" using assms(2) dhas_iff [of d key] by (auto simp: dhas_def rget_def)
  have none: "dget d k = None" if "k \<noteq> key" for k using assms(1) that dhas_iff [of d k] by (auto simp: dhas_def)
  have d: "d \<noteq> []" using get by auto
  have refs: "references (VDict d) = references_all cs"
    using assms(3) d get none by (auto simp: dget_or_def ref_nodes_def group_nodes_def)
  have m: "matches types vals (VDict d) = (if key = ''all'' then matches_all types vals cs else matches_any types vals cs)" for types vals
    using assms(3) get none by (auto simp: group_nodes_def)
  from assms(4) obtain ns where ns: "references_all cs = Inr (map VStr ns)"
    "\<And>types vals vals'. \<forall>n\<in>set ns. dget vals n = dget vals' n \<Longrightarrow>
      matches_all types vals cs = matches_all types vals' cs \<and> matches_any types vals cs = matches_any types vals' cs"
    "\<And>types vals. (\<exists>b. matches_all types vals cs = Inr b) \<and> (\<exists>b. matches_any types vals cs = Inr b)"
    unfolding sound_trees_def by blast
  show ?thesis unfolding sound_tree_def m refs
  proof (rule exI [of _ ns], intro conjI allI impI)
    show "references_all cs = Inr (map VStr ns)" by (rule ns(1))
    fix types and vals vals' :: row
    assume "\<forall>n\<in>set ns. dget vals n = dget vals' n"
    from ns(2) [OF this] show "(if key = ''all'' then matches_all types vals cs else matches_any types vals cs) =
        (if key = ''all'' then matches_all types vals' cs else matches_any types vals' cs)"
      by (cases "key = ''all''") simp_all
  next
    fix types vals
    show "\<exists>b. (if key = ''all'' then matches_all types vals cs else matches_any types vals cs) = Inr b"
      using ns(3) [of types vals] by (cases "key = ''all''") simp_all
  qed
qed

lemma match_values_total:
  assumes "x \<in> set OPS"
  shows "\<exists>b. match_values dt (VStr x) l r = Inr b"
proof (cases "x \<in> {''empty'', ''not_empty'', ''contains''}")
  case True
  then show ?thesis by (auto simp: match_values_def)
next
  case False
  with assms have "\<exists>b. compare_op (VStr x) eq lt = Inr b" for eq lt
    by (auto simp: OPS_def compare_op_def compare_by_def)
  then show ?thesis by (auto simp: match_values_def split: option.splits intro: exI [of _ False])
qed

lemma leaf_sound:
  assumes "check_leaf flds target d = Inr ()" "\<not> dhas d ''all''" "\<not> dhas d ''any''"
  shows "sound_tree (VDict d)"
proof -
  from assms(1) obtain n x where f: "rget d ''field'' = VStr n" "rget d ''op'' = VStr x" "x \<in> set OPS"
    by (auto simp: check_leaf_def Let_def split: pyval.splits option.splits if_splits)
  then have get: "dget d ''field'' = Some (VStr n)" "dget d ''op'' = Some (VStr x)"
    by (auto simp: rget_def split: option.splits)
  then have d: "d \<noteq> []" by auto
  have refs: "references (VDict d) = Inr (map VStr [n])" using d get by (simp add: hashable_def)
  have m: "matches types vals (VDict d) = match_leaf types vals d" for types vals
    using assms(2,3) by (simp add: dhas_iff)
  show ?thesis unfolding sound_tree_def m refs
  proof (rule exI [of _ "[n]"], intro conjI allI impI)
    show "(Inr (map VStr [n]) :: exn + pyval list) = Inr (map VStr [n])" ..
    fix types and vals vals' :: row
    assume "\<forall>m\<in>set [n]. dget vals m = dget vals' m"
    then show "match_leaf types vals d = match_leaf types vals' d" by (simp add: match_leaf_def get dhas_iff rget_def)
  next
    fix types vals
    show "\<exists>b. match_leaf types vals d = Inr b"
      using match_values_total [OF f(3)] by (cases "dhas vals n") (auto simp: match_leaf_def get intro: exI [of _ False])
  qed
qed

lemma visit_rule_sound:
  "visit_rule flds target depth v = Inr () \<Longrightarrow> sound_tree v"
  "visit_rules flds target depth vs = Inr () \<Longrightarrow> sound_trees vs \<and> (\<forall>v\<in>set vs. sound_tree v)"
proof (induction flds target depth v and flds target depth vs rule: visit_rule_visit_rules.induct)
  case (1 flds target depth d)
  show ?case
  proof (cases "dhas d ''all'' \<or> dhas d ''any''")
    case True
    let ?key = "if dhas d ''all'' then ''all'' else ''any''"
    from True 1(2) obtain cs where cs: "rget d ?key = VList cs" "set (dkeys d) = {?key}"
      "visit_rules flds target (depth + 1) cs = Inr ()" "\<not> 5 < depth" "1 \<le> length cs" "length cs \<le> 20"
      by (auto simp: Let_def split: pyval.splits if_splits)
    then have "sound_trees cs" using 1(1) [OF cs(4) True _ cs(1)] by auto
    then show ?thesis using group_sound [OF cs(2,1)] by auto
  next
    case False
    with 1(2) show ?thesis by (auto intro: leaf_sound split: if_splits)
  qed
next
  case (3 flds target depth)
  then show ?case by (auto simp: sound_trees_def intro: exI [of _ True] exI [of _ False])
qed (auto simp: sound_trees_Cons split: sum.splits)

subsection \<open>The order and the cycles\<close>

definition refers :: "rule_config \<Rightarrow> pystr \<Rightarrow> pystr \<Rightarrow> bool" where
  "refers cfg n m \<longleftrightarrow> dhas cfg m \<and> (\<exists>item t rs. dget cfg n = Some item \<and> t \<in> set (map snd (ri_rules item)) \<and>
     references t = Inr rs \<and> VStr m \<in> set rs)"

definition refers_rel :: "rule_config \<Rightarrow> (pystr \<times> pystr) set" where
  "refers_rel cfg = {(n, m). refers cfg n m}"

definition ordered :: "rule_config \<Rightarrow> pystr list \<Rightarrow> bool" where
  "ordered cfg res \<longleftrightarrow> distinct res \<and> set res \<subseteq> set (dkeys cfg) \<and>
     (\<forall>xs n ys. res = xs @ n # ys \<longrightarrow> {m. refers cfg n m} \<subseteq> set xs)"

lemma ordered_snoc:
  assumes "ordered cfg res" "n \<notin> set res" "dhas cfg n" "{m. refers cfg n m} \<subseteq> set res"
  shows "ordered cfg (res @ [n])"
proof -
  have "{m. refers cfg k m} \<subseteq> set xs" if "res @ [n] = xs @ k # ys" for xs k ys
  proof (cases ys rule: rev_cases)
    case Nil
    with that assms(4) show ?thesis by simp
  next
    case (snoc zs z)
    with that have "res = xs @ k # zs" by simp
    with assms(1) show ?thesis unfolding ordered_def by blast
  qed
  with assms show ?thesis by (auto simp: ordered_def dhas_def)
qed

lemma in_config_iff: "n \<in> set (List.map_filter (in_config cfg) rs) \<longleftrightarrow> VStr n \<in> set rs \<and> dhas cfg n"
  by (induction rs) (auto simp: List.map_filter_simps in_config_def split: pyval.splits option.splits if_splits)

lemma visit_ordered:
  "visit cfg act name res = Inr res' \<Longrightarrow> ordered cfg res \<Longrightarrow> set act \<inter> set res = {} \<Longrightarrow>
     ordered cfg res' \<and> set act \<inter> set res' = {} \<and> set res \<subseteq> set res' \<and> name \<in> set res'"
  "visit_trees cfg act ts res = Inr res' \<Longrightarrow> ordered cfg res \<Longrightarrow> set act \<inter> set res = {} \<Longrightarrow>
     ordered cfg res' \<and> set act \<inter> set res' = {} \<and> set res \<subseteq> set res' \<and>
     (\<forall>t\<in>set ts. \<forall>rs m. references t = Inr rs \<longrightarrow> VStr m \<in> set rs \<longrightarrow> dhas cfg m \<longrightarrow> m \<in> set res')"
  "visit_deps cfg act ds res = Inr res' \<Longrightarrow> ordered cfg res \<Longrightarrow> set act \<inter> set res = {} \<Longrightarrow>
     ordered cfg res' \<and> set act \<inter> set res' = {} \<and> set res \<subseteq> set res' \<and> set ds \<subseteq> set res'"
proof (induction cfg act name res and cfg act ts res and cfg act ds res
    arbitrary: res' and res' and res' rule: visit_visit_trees_visit_deps.induct)
  case (1 cfg act name res)
  show ?case
  proof (cases "name \<in> set res")
    case True
    with 1 show ?thesis by (auto split: if_splits)
  next
    case False
    from 1(2) False obtain item r where item: "name \<notin> set act" "dget cfg name = Some item"
      "visit_trees cfg (name # act) (map snd (ri_rules item)) res = Inr r" "res' = r @ [name]"
      by (auto split: if_splits option.splits sum.splits)
    from 1(1) [OF item(1) False item(2,3) 1(3)] False 1(4)
    have r: "ordered cfg r" "set (name # act) \<inter> set r = {}" "set res \<subseteq> set r"
      "\<forall>t\<in>set (map snd (ri_rules item)). \<forall>rs m. references t = Inr rs \<longrightarrow> VStr m \<in> set rs \<longrightarrow> dhas cfg m \<longrightarrow> m \<in> set r"
      by auto
    have "{m. refers cfg name m} \<subseteq> set r" using r(4) item(2) by (auto simp: refers_def)
    with r(1,2) item(2) have "ordered cfg res'" unfolding item(4) by (intro ordered_snoc) (auto simp: dhas_iff)
    with r item(1,4) show ?thesis by auto
  qed
next
  case (3 cfg act t ts res)
  from 3(3) obtain rs r where r: "references t = Inr rs"
    "visit_deps cfg act (List.map_filter (in_config cfg) rs) res = Inr r" "visit_trees cfg act ts r = Inr res'"
    by (auto split: sum.splits)
  note d = 3(1) [OF r(1,2) 3(4,5)]
  with 3(2) [OF r(1,2,3)] have "ordered cfg res' \<and> set act \<inter> set res' = {} \<and> set r \<subseteq> set res' \<and>
     (\<forall>t\<in>set ts. \<forall>rs m. references t = Inr rs \<longrightarrow> VStr m \<in> set rs \<longrightarrow> dhas cfg m \<longrightarrow> m \<in> set res')" by blast
  moreover have "m \<in> set r" if "VStr m \<in> set rs" "dhas cfg m" for m
    using d that in_config_iff [of m cfg rs] by blast
  ultimately show ?case using d r(1) by auto
next
  case (5 cfg act d ds res)
  from 5(3) obtain r where r: "visit cfg act d res = Inr r" "visit_deps cfg act ds r = Inr res'"
    by (auto split: sum.splits)
  from 5(1) [OF r(1) 5(4,5)] 5(2) [OF r] show ?case by auto
qed auto

text \<open>Rules that can be read, as validated ones can.\<close>

definition readable_rules :: "rule_config \<Rightarrow> bool" where
  "readable_rules cfg \<longleftrightarrow> (\<forall>n item. dget cfg n = Some item \<longrightarrow>
     (\<forall>t\<in>set (map snd (ri_rules item)). \<exists>rs. references t = Inr rs))"

lemma visit_cycle:
  "visit cfg act name res = Inl e \<Longrightarrow> readable_rules cfg \<Longrightarrow> dhas cfg name \<Longrightarrow>
     \<forall>a\<in>set act. (a, name) \<in> (refers_rel cfg)\<^sup>+ \<Longrightarrow> \<exists>x. (x, x) \<in> (refers_rel cfg)\<^sup>+"
  "visit_trees cfg act ts res = Inl e \<Longrightarrow> readable_rules cfg \<Longrightarrow> \<forall>t\<in>set ts. \<exists>rs. references t = Inr rs \<Longrightarrow>
     \<forall>t\<in>set ts. \<forall>rs m. references t = Inr rs \<longrightarrow> VStr m \<in> set rs \<longrightarrow> dhas cfg m \<longrightarrow>
       (\<forall>a\<in>set act. (a, m) \<in> (refers_rel cfg)\<^sup>+) \<Longrightarrow> \<exists>x. (x, x) \<in> (refers_rel cfg)\<^sup>+"
  "visit_deps cfg act ds res = Inl e \<Longrightarrow> readable_rules cfg \<Longrightarrow> \<forall>d\<in>set ds. dhas cfg d \<Longrightarrow>
     \<forall>d\<in>set ds. \<forall>a\<in>set act. (a, d) \<in> (refers_rel cfg)\<^sup>+ \<Longrightarrow> \<exists>x. (x, x) \<in> (refers_rel cfg)\<^sup>+"
proof (induction cfg act name res and cfg act ts res and cfg act ds res rule: visit_visit_trees_visit_deps.induct)
  case (1 cfg act name res)
  show ?case
  proof (cases "name \<in> set act")
    case True
    with 1(5) show ?thesis by blast
  next
    case False
    from 1(2,4) False obtain item where item: "name \<notin> set res" "dget cfg name = Some item"
      "visit_trees cfg (name # act) (map snd (ri_rules item)) res = Inl e"
      by (auto simp: dhas_iff split: if_splits option.splits sum.splits)
    have edge: "(name, m) \<in> refers_rel cfg"
      if "t \<in> set (map snd (ri_rules item))" "references t = Inr rs" "VStr m \<in> set rs" "dhas cfg m" for t rs m
      using that item(2) by (auto simp: refers_rel_def refers_def)
    show ?thesis
    proof (rule 1(1) [OF False item(1,2,3) 1(3)])
      show "\<forall>t\<in>set (map snd (ri_rules item)). \<exists>rs. references t = Inr rs"
        using 1(3) item(2) by (auto simp: readable_rules_def)
      show "\<forall>t\<in>set (map snd (ri_rules item)). \<forall>rs m. references t = Inr rs \<longrightarrow> VStr m \<in> set rs \<longrightarrow> dhas cfg m \<longrightarrow>
          (\<forall>a\<in>set (name # act). (a, m) \<in> (refers_rel cfg)\<^sup>+)"
        using edge 1(5) by (metis r_into_trancl' set_ConsD trancl.trancl_into_trancl)
    qed
  qed
next
  case (3 cfg act t ts res)
  from 3(5) obtain rs where rs: "references t = Inr rs" by auto
  let ?ds = "List.map_filter (in_config cfg) rs"
  show ?case
  proof (cases "visit_deps cfg act ?ds res")
    case (Inl e')
    show ?thesis
    proof (rule 3(1) [OF rs _ 3(4)])
      show "visit_deps cfg act ?ds res = Inl e" using 3(3) rs Inl by simp
      show "\<forall>d\<in>set ?ds. dhas cfg d" by (simp add: in_config_iff)
      show "\<forall>d\<in>set ?ds. \<forall>a\<in>set act. (a, d) \<in> (refers_rel cfg)\<^sup>+" using 3(6) rs by (auto simp: in_config_iff)
    qed
  next
    case (Inr r)
    with 3(3) rs have "visit_trees cfg act ts r = Inl e" by simp
    from 3(2) [OF rs Inr this 3(4)] 3(5,6) show ?thesis by simp
  qed
next
  case (5 cfg act d ds res)
  show ?case
  proof (cases "visit cfg act d res")
    case (Inl e')
    with 5(3) have "visit cfg act d res = Inl e" by simp
    from 5(1) [OF this 5(4)] 5(5,6) show ?thesis by simp
  next
    case (Inr r)
    with 5(3) have "visit_deps cfg act ds r = Inl e" by simp
    from 5(2) [OF Inr this 5(4)] 5(5,6) show ?thesis by simp
  qed
qed auto

lemma ordered_acyclic:
  assumes "ordered cfg ns" "set ns = set (dkeys cfg)"
  shows "acyclic (refers_rel cfg)"
proof -
  define pos where "pos n = length (takeWhile (\<lambda>x. x \<noteq> n) ns)" for n
  have less: "pos m < pos n" if "refers cfg n m" for n m
  proof -
    have "n \<in> set ns" using that assms(2) dhas_iff [of cfg n] by (auto simp: refers_def dhas_def)
    then obtain xs ys where ns: "ns = xs @ n # ys" "n \<notin> set xs" by (metis split_list_first)
    then have "m \<in> set xs" using assms(1) that unfolding ordered_def by blast
    have first: "length (takeWhile (\<lambda>x. x \<noteq> k) (us @ k # vs)) = length us" if "k \<notin> set us" for k us and vs :: "pystr list"
      using that by (subst takeWhile_append2) auto
    from \<open>m \<in> set xs\<close> obtain us vs where xs: "xs = us @ m # vs" "m \<notin> set us" by (metis split_list_first)
    have "pos n = length xs" using first [OF ns(2)] by (simp add: pos_def ns(1))
    moreover have "pos m = length us" using first [OF xs(2)] by (simp add: pos_def ns(1) xs(1))
    moreover have "length us < length xs" by (simp add: xs(1))
    ultimately show ?thesis by simp
  qed
  have "pos m < pos n" if "(n, m) \<in> (refers_rel cfg)\<^sup>+" for n m
    using that
  proof (induction rule: trancl.induct)
    case (trancl_into_trancl a b c)
    then show ?case using less [of b c] by (simp add: refers_rel_def)
  qed (use less in \<open>simp add: refers_rel_def\<close>)
  then show ?thesis unfolding acyclic_def by blast
qed

lemma order_cases:
  assumes "readable_rules cfg"
  shows "(\<exists>ns. order cfg = Inr ns \<and> ordered cfg ns \<and> set ns = set (dkeys cfg)) \<or>
    (\<exists>e. order cfg = Inl e \<and> \<not> acyclic (refers_rel cfg))"
proof (cases "order cfg")
  case (Inl e)
  have "\<forall>d\<in>set (dkeys cfg). dhas cfg d" by (simp add: dhas_def)
  then have "\<exists>x. (x, x) \<in> (refers_rel cfg)\<^sup>+"
    using visit_cycle(3) [OF Inl [unfolded order_def] assms] by simp
  with Inl show ?thesis by (auto simp: acyclic_def)
next
  case (Inr ns)
  have "ordered cfg []" by (simp add: ordered_def)
  from visit_ordered(3) [OF Inr [unfolded order_def] this]
  have "ordered cfg ns" "set (dkeys cfg) \<subseteq> set ns" by auto
  with Inr show ?thesis by (auto simp: ordered_def)
qed

text \<open>
  C15: The fields of a form can be put in an order exactly when their rules have no cycle of references;
  the order then contains every field once, after every field its rules refer to.
\<close>

theorem order_iff_acyclic:
  assumes "readable_rules cfg"
  shows "acyclic (refers_rel cfg) \<longleftrightarrow> (\<exists>ns. order cfg = Inr ns \<and> distinct ns \<and> set ns = set (dkeys cfg) \<and>
    (\<forall>xs n ys. ns = xs @ n # ys \<longrightarrow> (\<forall>m. refers cfg n m \<longrightarrow> m \<in> set xs)))"
proof
  assume "acyclic (refers_rel cfg)"
  with order_cases [OF assms] obtain ns where "order cfg = Inr ns" "ordered cfg ns" "set ns = set (dkeys cfg)" by blast
  then show "\<exists>ns. order cfg = Inr ns \<and> distinct ns \<and> set ns = set (dkeys cfg) \<and>
    (\<forall>xs n ys. ns = xs @ n # ys \<longrightarrow> (\<forall>m. refers cfg n m \<longrightarrow> m \<in> set xs))"
    unfolding ordered_def by blast
next
  assume "\<exists>ns. order cfg = Inr ns \<and> distinct ns \<and> set ns = set (dkeys cfg) \<and>
    (\<forall>xs n ys. ns = xs @ n # ys \<longrightarrow> (\<forall>m. refers cfg n m \<longrightarrow> m \<in> set xs))"
  with order_cases [OF assms] show "acyclic (refers_rel cfg)" using ordered_acyclic by auto
qed

subsection \<open>Settled states\<close>

text \<open>Every rule of the form has been validated for its field, against the fields \<open>flds\<close> of the form.\<close>

definition valid_config :: "(pystr, meta_field) dict \<Rightarrow> rule_config \<Rightarrow> bool" where
  "valid_config flds cfg = list_all (\<lambda>(n, item). visit_rules flds n 0 (map snd (ri_rules item)) = Inr ()) cfg"

lemma valid_sound:
  assumes "valid_config flds cfg" "dget cfg n = Some item" "t \<in> set (map snd (ri_rules item))"
  shows "sound_tree t"
proof -
  have "(n, item) \<in> set cfg" using assms(2) by (simp add: dget_def map_of_SomeD)
  with assms(1) have "visit_rules flds n 0 (map snd (ri_rules item)) = Inr ()" by (auto simp: valid_config_def list_all_iff)
  from visit_rule_sound(2) [OF this] assms(3) show ?thesis by blast
qed

lemma valid_readable: "valid_config flds cfg \<Longrightarrow> readable_rules cfg"
  unfolding readable_rules_def using valid_sound unfolding sound_tree_def by blast

lemma rule_or_sound:
  assumes "valid_config flds cfg" "dget cfg n = Some item"
  shows "\<exists>b. rule_or types vals (ri_rules item) k d = Inr b"
    and "(\<And>m. refers cfg n m \<or> \<not> dhas cfg m \<Longrightarrow> dget vals m = dget vals' m) \<Longrightarrow>
      rule_or types vals (ri_rules item) k d = rule_or types vals' (ri_rules item) k d"
proof -
  have sound: "sound_tree t \<and> t \<in> set (map snd (ri_rules item))" if "dget (ri_rules item) k = Some t" for t
  proof -
    from that have "(k, t) \<in> set (ri_rules item)" by (simp add: dget_def map_of_SomeD)
    then have "t \<in> set (map snd (ri_rules item))" by force
    with valid_sound [OF assms] show ?thesis by blast
  qed
  show "\<exists>b. rule_or types vals (ri_rules item) k d = Inr b"
    using sound by (auto simp: rule_or_def sound_tree_def split: option.splits)
  assume agree: "\<And>m. refers cfg n m \<or> \<not> dhas cfg m \<Longrightarrow> dget vals m = dget vals' m"
  show "rule_or types vals (ri_rules item) k d = rule_or types vals' (ri_rules item) k d"
  proof (cases "dget (ri_rules item) k")
    case (Some t)
    with sound obtain ns where ns: "references t = Inr (map VStr ns)" "t \<in> set (map snd (ri_rules item))"
      "\<forall>m\<in>set ns. dget vals m = dget vals' m \<Longrightarrow> matches types vals t = matches types vals' t"
      unfolding sound_tree_def by metis
    have "dget vals m = dget vals' m" if "m \<in> set ns" for m
      using that ns(1,2) assms(2) by (intro agree) (auto simp: refers_def intro!: bexI)
    with ns(3) Some show ?thesis by (simp add: rule_or_def)
  qed (simp add: rule_or_def)
qed

lemma item_state_sound:
  assumes "valid_config flds cfg" "dget cfg n = Some item"
  shows "\<exists>st. item_state types vals item = Inr st \<and> (ri_locked item \<longrightarrow> rs_readonly st)"
    and "item_state types vals item = Inr st \<Longrightarrow> ri_locked item \<Longrightarrow> rs_readonly st"
    and "(\<And>m. refers cfg n m \<or> \<not> dhas cfg m \<Longrightarrow> dget vals m = dget vals' m) \<Longrightarrow>
      item_state types vals item = item_state types vals' item"
proof -
  note total = rule_or_sound(1) [OF assms]
  obtain a b c where "rule_or types vals (ri_rules item) ''show'' True = Inr a"
    "rule_or types vals (ri_rules item) ''readonly'' False = Inr b"
    "rule_or types vals (ri_rules item) ''require'' False = Inr c"
    using total by metis
  then show "\<exists>st. item_state types vals item = Inr st \<and> (ri_locked item \<longrightarrow> rs_readonly st)"
    "item_state types vals item = Inr st \<Longrightarrow> ri_locked item \<Longrightarrow> rs_readonly st"
    by (auto simp: item_state_def split: sum.splits if_splits)
  assume "\<And>m. refers cfg n m \<or> \<not> dhas cfg m \<Longrightarrow> dget vals m = dget vals' m"
  from rule_or_sound(2) [OF assms this] show "item_state types vals item = item_state types vals' item"
    unfolding item_state_def by (simp only:)
qed

definition outcome :: "row \<Rightarrow> row \<Rightarrow> rule_state \<Rightarrow> pystr \<Rightarrow> pyval" where
  "outcome trusted vals st n = (if \<not> rs_visible st \<or> rs_readonly st then rget trusted n else rget vals n)"

lemma settle_settled:
  assumes valid: "valid_config flds cfg"
  shows "distinct ns \<Longrightarrow> set ns \<subseteq> set (dkeys cfg) \<Longrightarrow>
    (\<forall>xs n ys. ns = xs @ n # ys \<longrightarrow> {m. refers cfg n m} \<inter> set (n # ys) = {}) \<Longrightarrow>
    \<exists>acc' fin. settle cfg trusted ns vals acc = Inr (acc', fin) \<and>
      (\<forall>k. k \<notin> set ns \<longrightarrow> dget fin k = dget vals k \<and> dget acc' k = dget acc k) \<and>
      (\<forall>n\<in>set ns. \<forall>item. dget cfg n = Some item \<longrightarrow> (\<exists>st. dget acc' n = Some st \<and>
         item_state (rule_types cfg) fin item = Inr st \<and> rget fin n = outcome trusted vals st n))"
proof (induction ns arbitrary: vals acc)
  case (Cons n ns)
  from Cons.prems(2) obtain item where item: "dget cfg n = Some item"
    using dhas_iff [of cfg n] by (auto simp: dhas_def)
  obtain st where st: "item_state (rule_types cfg) vals item = Inr st"
    using item_state_sound(1) [OF valid item] by blast
  let ?vals = "if \<not> rs_visible st \<or> rs_readonly st then dset n (rget trusted n) vals else vals"
  have sub: "\<forall>xs k ys. ns = xs @ k # ys \<longrightarrow> {m. refers cfg k m} \<inter> set (k # ys) = {}"
    using Cons.prems(3) by (metis append_Cons)
  obtain acc' fin where run: "settle cfg trusted ns ?vals (dset n st acc) = Inr (acc', fin)"
    and rest: "\<And>k. k \<notin> set ns \<Longrightarrow> dget fin k = dget ?vals k \<and> dget acc' k = dget (dset n st acc) k"
    and settled: "\<And>k item. k \<in> set ns \<Longrightarrow> dget cfg k = Some item \<Longrightarrow> \<exists>st'. dget acc' k = Some st' \<and>
         item_state (rule_types cfg) fin item = Inr st' \<and> rget fin k = outcome trusted ?vals st' k"
    using Cons.IH [OF _ _ sub, of ?vals "dset n st acc"] Cons.prems(1,2) by auto
  have n: "n \<notin> set ns" using Cons.prems(1) by simp
  have apart: "m \<notin> set (n # ns)" if "refers cfg n m \<or> \<not> dhas cfg m" for m
  proof
    assume m: "m \<in> set (n # ns)"
    then have "dhas cfg m" using Cons.prems(2) by (auto simp: dhas_def)
    with that have "m \<in> {m. refers cfg n m}" by simp
    moreover have "{m. refers cfg n m} \<inter> set (n # ns) = {}" using Cons.prems(3) by (metis append_Nil)
    ultimately show False using m by blast
  qed
  have "item_state (rule_types cfg) fin item = item_state (rule_types cfg) vals item"
  proof (rule item_state_sound(3) [OF valid item])
    fix m assume "refers cfg n m \<or> \<not> dhas cfg m"
    from apart [OF this] show "dget fin m = dget vals m" using rest [of m] by auto
  qed
  moreover have "rget fin n = outcome trusted vals st n"
    using rest [OF n] by (simp add: rget_def outcome_def)
  moreover have "dget acc' n = Some st" using rest [OF n] by simp
  moreover have "rget ?vals k = rget vals k" if "k \<in> set ns" for k using that n by auto
  then have "outcome trusted ?vals st' k = outcome trusted vals st' k" if "k \<in> set ns" for st' k
    using that by (simp add: outcome_def)
  ultimately show ?case
    using run rest settled st item by (intro exI [of _ acc'] exI [of _ fin]) (auto simp: n)
qed simp

lemma rget_lock_values:
  "wf_dict cfg \<Longrightarrow> rget (lock_values cfg trusted vals) n =
     (case dget cfg n of Some item \<Rightarrow> if ri_locked item then rget trusted n else rget vals n | None \<Rightarrow> rget vals n)"
proof (induction cfg arbitrary: vals)
  case (Cons p cfg)
  obtain m item where p: "p = (m, item)" by (cases p)
  have "wf_dict cfg" "m \<notin> set (dkeys cfg)" using Cons.prems by (simp_all add: p wf_dict_def dkeys_def)
  then have "dget cfg m = None" using dhas_iff [of cfg m] by (simp add: dhas_def)
  with Cons.IH [OF \<open>wf_dict cfg\<close>] show ?case by (auto simp: lock_values_def p dget_Cons split: option.splits)
qed (simp add: lock_values_def)

text \<open>
  The states of a form are settled. For validated rules without cycles \<open>states\<close> returns a state
  for every field, and each is the one its rules have under the final values, in which a hidden or
  locked field has its trusted value and every other field what was submitted.
\<close>

theorem states_settled:
  assumes "valid_config flds cfg" "wf_dict cfg" "acyclic (refers_rel cfg)"
  shows "\<exists>res fin. states_run cfg vals trusted = Inr (res, fin) \<and> states cfg vals trusted = Inr res \<and>
    (\<forall>n item. dget cfg n = Some item \<longrightarrow> (\<exists>st. dget res n = Some st \<and>
       item_state (rule_types cfg) fin item = Inr st \<and>
       rget fin n = (if \<not> rs_visible st \<or> rs_readonly st then rget trusted n else rget vals n)))"
proof -
  from order_cases [OF valid_readable [OF assms(1)]] assms(3)
  obtain ns where ns: "order cfg = Inr ns" "ordered cfg ns" "set ns = set (dkeys cfg)" by blast
  have apart: "{m. refers cfg n m} \<inter> set (n # ys) = {}" if "ns = xs @ n # ys" for xs n ys
  proof -
    have "{m. refers cfg n m} \<subseteq> set xs" "distinct (xs @ n # ys)" using ns(2) that by (auto simp: ordered_def)
    then show ?thesis by auto
  qed
  obtain res fin where run: "settle cfg trusted ns (lock_values cfg trusted vals) [] = Inr (res, fin)"
    and settled: "\<And>n item. n \<in> set ns \<Longrightarrow> dget cfg n = Some item \<Longrightarrow> \<exists>st. dget res n = Some st \<and>
       item_state (rule_types cfg) fin item = Inr st \<and> rget fin n = outcome trusted (lock_values cfg trusted vals) st n"
    using settle_settled [OF assms(1), of ns trusted "lock_values cfg trusted vals" "[]"] apart ns(2)
    by (auto simp: ordered_def)
  have "\<exists>st. dget res n = Some st \<and> item_state (rule_types cfg) fin item = Inr st \<and>
       rget fin n = (if \<not> rs_visible st \<or> rs_readonly st then rget trusted n else rget vals n)"
    if n: "dget cfg n = Some item" for n item
  proof -
    have "n \<in> set ns" using n ns(3) dhas_iff [of cfg n] by (simp add: dhas_def)
    from settled [OF this n] obtain st where st: "dget res n = Some st" "item_state (rule_types cfg) fin item = Inr st"
      "rget fin n = outcome trusted (lock_values cfg trusted vals) st n" by blast
    from item_state_sound(2) [OF assms(1) n st(2)] have "ri_locked item \<longrightarrow> rs_readonly st" by blast
    with st show ?thesis by (auto simp: outcome_def rget_lock_values [OF assms(2)] n)
  qed
  moreover have "states_run cfg vals trusted = Inr (res, fin)" by (simp add: states_run_def ns(1) run)
  ultimately show ?thesis by (auto simp: states_def)
qed

subsection \<open>Instances\<close>

text \<open>A form that shows and requires the reason once the state is \<open>closed\<close>.\<close>

definition closed_rule :: pyval where
  "closed_rule = VDict [(''all'', VList [VDict [(''field'', VStr ''state''), (''op'', VStr ''eq''), (''value'', VStr ''closed'')]])]"

definition sample_config :: rule_config where
  "sample_config = [(''reason'', \<lparr>ri_rules = [(''show'', closed_rule), (''require'', closed_rule)], ri_type = ''string'',
     ri_locked = False, ri_required = False\<rparr>),
    (''state'', \<lparr>ri_rules = [], ri_type = ''string'', ri_locked = False, ri_required = True\<rparr>)]"

definition sample_flds :: "(pystr, meta_field) dict" where
  "sample_flds = [(''state'', \<lparr>f_id = 1, f_table_id = 1, f_phys_name = ''state'', f_label = ''State'',
     f_data_type = ''string'', f_length = None, f_precision = None, f_scale = None, f_nullable = True,
     f_default_value = None, f_is_unique = False, f_position = 1, f_enum_options = JEmpty, f_enum_colors = JEmpty,
     f_related_table_id = None, f_on_delete = None, f_min_length = None, f_max_length = None,
     f_min_value = None, f_max_value = None, f_pattern = None, f_formula = None, f_result_type = None\<rparr>)]"

lemma sample_valid: "valid_config sample_flds sample_config"
  by code_simp

lemma sample_order: "order sample_config = Inr [''state'', ''reason'']"
  by code_simp

lemma order_acyclic: "readable_rules cfg \<Longrightarrow> order cfg = Inr ns \<Longrightarrow> acyclic (refers_rel cfg)"
  using order_cases [of cfg] ordered_acyclic by auto

theorem order_iff_acyclic_witness: "acyclic (refers_rel sample_config) \<and> set [''state'', ''reason''] = set (dkeys sample_config)"
proof
  show "acyclic (refers_rel sample_config)"
  proof (subst order_iff_acyclic [OF valid_readable [OF sample_valid]], intro exI conjI)
    have ord: "ordered sample_config [''state'', ''reason'']"
      using order_cases [OF valid_readable [OF sample_valid]] sample_order by auto
    show "order sample_config = Inr [''state'', ''reason'']" by (rule sample_order)
    show "\<forall>xs n ys. [''state'', ''reason''] = xs @ n # ys \<longrightarrow> (\<forall>m. refers sample_config n m \<longrightarrow> m \<in> set xs)"
      using ord unfolding ordered_def by blast
  qed (code_simp+)
qed code_simp

theorem states_settled_witness:
  "\<exists>res. states sample_config [(''state'', VStr ''open''), (''reason'', VStr ''x'')] [] = Inr res \<and>
     map_option rs_visible (dget res ''reason'') = Some False"
proof -
  have "wf_dict sample_config" by code_simp
  from states_settled [OF sample_valid this order_acyclic [OF valid_readable [OF sample_valid] sample_order], of "[(''state'', VStr ''open''), (''reason'', VStr ''x'')]" "[]"]
  obtain res where "states sample_config [(''state'', VStr ''open''), (''reason'', VStr ''x'')] [] = Inr res" by blast
  moreover have "map_sum (\<lambda>_. ()) (\<lambda>r. map_option rs_visible (dget r ''reason''))
      (states sample_config [(''state'', VStr ''open''), (''reason'', VStr ''x'')] []) = Inr (Some False)"
    by code_simp
  ultimately show ?thesis by simp
qed

end
