(* ===== verification/Totp.thy ===== *)
theory Totp
  imports Effects "HOL-Library.Word"
begin

unbundle bit_operations_syntax

text \<open>
  \<open>app/totp.py\<close>: one-time codes (RFC 6238) and backup codes. What the module uses of the standard
  library is modelled on machine words: SHA-1, SHA-256 (FIPS 180-4), HMAC (RFC 2104) and the base32
  decoder of \<open>base64\<close>. A secret is ASCII text; the drawing of random secrets and the QR image are not
  modelled, the random backup codes are an argument.

  Shown: a code has six decimal digits; \<open>verify\<close> accepts exactly the codes of the counters within
  the window around the current one; a superscript digit, which \<open>isdigit\<close> lets through, makes it raise;
  a backup code is spent once.
\<close>

subsection \<open>Bytes and words\<close>

type_synonym byte = "8 word"

definition be_bytes :: "nat \<Rightarrow> int \<Rightarrow> byte list" where
  "be_bytes n x = map (\<lambda>i. word_of_int (x div 256 ^ (n - 1 - i))) [0..<n]"

definition be_int :: "byte list \<Rightarrow> int" where
  "be_int bs = fold (\<lambda>b acc. acc * 256 + uint b) bs 0"

function chunks :: "nat \<Rightarrow> 'a list \<Rightarrow> 'a list list" where
  "chunks n xs = (if n = 0 \<or> xs = [] then [] else take n xs # chunks n (drop n xs))"
  by pat_completeness auto
termination by (relation "measure (\<lambda>(n, xs). length xs)") auto

declare chunks.simps [simp del]

text \<open>The padding both hashes share: a set bit, zeros, and the length in bits as 64 bits.\<close>

definition hash_pad :: "byte list \<Rightarrow> byte list" where
  "hash_pad msg = msg @ [0x80] @ replicate ((119 - length msg mod 64) mod 64) 0 @ be_bytes 8 (8 * int (length msg))"

definition block_words :: "byte list \<Rightarrow> 32 word list" where
  "block_words blk = map (\<lambda>bs. word_of_int (be_int bs)) (chunks 4 blk)"

definition word_bytes :: "32 word list \<Rightarrow> byte list" where
  "word_bytes ws = concat (map (\<lambda>w. be_bytes 4 (uint w)) ws)"

subsection \<open>SHA-1\<close>

fun sha1_expand :: "nat \<Rightarrow> 32 word list \<Rightarrow> 32 word list" where
  "sha1_expand 0 ws = ws"
| "sha1_expand (Suc n) ws = (let i = length ws in
     sha1_expand n (ws @ [word_rotl 1 (ws ! (i - 3) XOR ws ! (i - 8) XOR ws ! (i - 14) XOR ws ! (i - 16))]))"

definition sha1_f :: "nat \<Rightarrow> 32 word \<Rightarrow> 32 word \<Rightarrow> 32 word \<Rightarrow> 32 word" where
  "sha1_f t b c d =
     (if t < 20 then (b AND c) OR ((NOT b) AND d)
      else if t < 40 then b XOR c XOR d
      else if t < 60 then (b AND c) OR (b AND d) OR (c AND d)
      else b XOR c XOR d)"

definition sha1_k :: "nat \<Rightarrow> 32 word" where
  "sha1_k t = (if t < 20 then 0x5A827999 else if t < 40 then 0x6ED9EBA1 else if t < 60 then 0x8F1BBCDC else 0xCA62C1D6)"

type_synonym sha1_state = "32 word \<times> 32 word \<times> 32 word \<times> 32 word \<times> 32 word"

definition sha1_round :: "nat \<times> 32 word \<Rightarrow> sha1_state \<Rightarrow> sha1_state" where
  "sha1_round p st = (case p of (t, w) \<Rightarrow> (case st of (a, b, c, d, e) \<Rightarrow>
     (word_rotl 5 a + sha1_f t b c d + e + w + sha1_k t, a, word_rotl 30 b, c, d)))"

definition sha1_block :: "byte list \<Rightarrow> sha1_state \<Rightarrow> sha1_state" where
  "sha1_block blk st = (case (fold sha1_round (zip [0..<80] (sha1_expand 64 (block_words blk))) st, st) of
     ((a, b, c, d, e), (a0, b0, c0, d0, e0)) \<Rightarrow> (a0 + a, b0 + b, c0 + c, d0 + d, e0 + e))"

definition sha1 :: "byte list \<Rightarrow> byte list" where
  "sha1 msg = (case fold sha1_block (chunks 64 (hash_pad msg))
       (0x67452301, 0xEFCDAB89, 0x98BADCFE, 0x10325476, 0xC3D2E1F0) of
     (a, b, c, d, e) \<Rightarrow> word_bytes [a, b, c, d, e])"

definition hmac_key :: "byte list \<Rightarrow> byte list" where
  "hmac_key key = (let k = (if 64 < length key then sha1 key else key) in k @ replicate (64 - length k) 0)"

definition hmac_sha1 :: "byte list \<Rightarrow> byte list \<Rightarrow> byte list" where
  "hmac_sha1 key msg = (let k = hmac_key key in
     sha1 (map (\<lambda>b. b XOR 0x5C) k @ sha1 (map (\<lambda>b. b XOR 0x36) k @ msg)))"

subsection \<open>SHA-256\<close>

text \<open>The first 32 bits of the fractional parts of the cube roots of the first 64 primes.\<close>

definition sha256_k :: "32 word list" where
  "sha256_k = [
     1116352408, 1899447441, 3049323471, 3921009573, 961987163, 1508970993, 2453635748, 2870763221,
     3624381080, 310598401, 607225278, 1426881987, 1925078388, 2162078206, 2614888103, 3248222580,
     3835390401, 4022224774, 264347078, 604807628, 770255983, 1249150122, 1555081692, 1996064986, 2554220882,
     2821834349, 2952996808, 3210313671, 3336571891, 3584528711, 113926993, 338241895, 666307205, 773529912,
     1294757372, 1396182291, 1695183700, 1986661051, 2177026350, 2456956037, 2730485921, 2820302411,
     3259730800, 3345764771, 3516065817, 3600352804, 4094571909, 275423344, 430227734, 506948616, 659060556,
     883997877, 958139571, 1322822218, 1537002063, 1747873779, 1955562222, 2024104815, 2227730452,
     2361852424, 2428436474, 2756734187, 3204031479, 3329325298]"

definition small_sigma :: "nat \<Rightarrow> nat \<Rightarrow> nat \<Rightarrow> 32 word \<Rightarrow> 32 word" where
  "small_sigma i j k w = word_rotr i w XOR word_rotr j w XOR drop_bit k w"

definition big_sigma :: "nat \<Rightarrow> nat \<Rightarrow> nat \<Rightarrow> 32 word \<Rightarrow> 32 word" where
  "big_sigma i j k w = word_rotr i w XOR word_rotr j w XOR word_rotr k w"

fun sha256_expand :: "nat \<Rightarrow> 32 word list \<Rightarrow> 32 word list" where
  "sha256_expand 0 ws = ws"
| "sha256_expand (Suc n) ws = (let i = length ws in
     sha256_expand n (ws @ [small_sigma 17 19 10 (ws ! (i - 2)) + ws ! (i - 7) + small_sigma 7 18 3 (ws ! (i - 15)) + ws ! (i - 16)]))"

definition sha256_round :: "32 word \<times> 32 word \<Rightarrow> 32 word list \<Rightarrow> 32 word list" where
  "sha256_round p st = (case p of (k, w) \<Rightarrow> (case st of
     [a, b, c, d, e, f, g, h] \<Rightarrow>
       let t1 = h + big_sigma 6 11 25 e + ((e AND f) XOR ((NOT e) AND g)) + k + w;
           t2 = big_sigma 2 13 22 a + ((a AND b) XOR (a AND c) XOR (b AND c))
       in [t1 + t2, a, b, c, d + t1, e, f, g]
   | _ \<Rightarrow> st))"

definition sha256_block :: "byte list \<Rightarrow> 32 word list \<Rightarrow> 32 word list" where
  "sha256_block blk st = map2 (+) st (fold sha256_round (zip sha256_k (sha256_expand 48 (block_words blk))) st)"

definition sha256 :: "byte list \<Rightarrow> byte list" where
  "sha256 msg = word_bytes (fold sha256_block (chunks 64 (hash_pad msg))
     [0x6a09e667, 0xbb67ae85, 0x3c6ef372, 0xa54ff53a, 0x510e527f, 0x9b05688c, 0x1f83d9ab, 0x5be0cd19])"

subsection \<open>Base32\<close>

definition b32_value :: "char \<Rightarrow> int option" where
  "b32_value c = (let n = code c in
     if 65 \<le> n \<and> n \<le> 90 then Some (n - 65) else if 50 \<le> n \<and> n \<le> 55 then Some (n - 24) else None)"

fun b32_acc :: "pystr \<Rightarrow> int \<Rightarrow> int option" where
  "b32_acc [] acc = Some acc"
| "b32_acc (c # cs) acc = (case b32_value c of None \<Rightarrow> None | Some v \<Rightarrow> b32_acc cs (acc * 32 + v))"

fun b32_quanta :: "pystr list \<Rightarrow> byte list \<Rightarrow> int \<Rightarrow> (byte list \<times> int) option" where
  "b32_quanta [] out acc = Some (out, acc)"
| "b32_quanta (q # qs) out acc =
     (case b32_acc q 0 of None \<Rightarrow> None | Some v \<Rightarrow> b32_quanta qs (out @ be_bytes 5 v) v)"

text \<open>\<open>base64.b32decode\<close>: every failure is a \<open>binascii.Error\<close>, a \<open>ValueError\<close>.\<close>

definition b32decode :: "pystr \<Rightarrow> exn + byte list" where
  "b32decode s =
     (if list_ex (\<lambda>c. 127 < code c) s \<or> length s mod 8 \<noteq> 0 then Inl (ValueErr s)
      else let body = rstrip_by (\<lambda>c. c = CHR ''='') s; padchars = length s - length body in
        case b32_quanta (chunks 8 body) [] 0 of
          None \<Rightarrow> Inl (ValueErr s)
        | Some (out, acc) \<Rightarrow>
          if padchars \<notin> {0, 1, 3, 4, 6} then Inl (ValueErr s)
          else if padchars = 0 \<or> out = [] then Inr out
          else Inr (take (length out - 5) out @
                 take ((43 - 5 * padchars) div 8) (be_bytes 5 (acc * 32 ^ padchars))))"

subsection \<open>One-time codes\<close>

abbreviation STEP :: int where "STEP \<equiv> 30"
abbreviation DIGITS :: nat where "DIGITS \<equiv> 6"

text \<open>\<open>struct.pack(">Q", counter)\<close> raises outside 64 bits.\<close>

definition pack_q :: "int \<Rightarrow> exn + byte list" where
  "pack_q n = (if 0 \<le> n \<and> n < 2 ^ 64 then Inr (be_bytes 8 n) else Inl OverflowErr)"

definition truncate_digest :: "byte list \<Rightarrow> int" where
  "truncate_digest digest =
     (let offset = nat (uint (last digest AND 0x0F)) in be_int (take 4 (drop offset digest)) mod 2 ^ 31)"

definition hotp :: "pystr \<Rightarrow> int \<Rightarrow> exn + pystr" where
  "hotp secret counter =
     (let pad_len = (8 - length secret mod 8) mod 8 in
      case b32decode (py_upper secret @ replicate pad_len (CHR ''='')) of
        Inl e \<Rightarrow> Inl e
      | Inr key \<Rightarrow>
        (case pack_q counter of
           Inl e \<Rightarrow> Inl e
         | Inr msg \<Rightarrow> Inr (pad DIGITS (truncate_digest (hmac_sha1 key msg) mod 10 ^ DIGITS))))"

definition counter_at :: "int \<Rightarrow> int" where
  "counter_at now = now div (STEP * usec)"

definition now_code :: "pystr \<Rightarrow> int \<Rightarrow> exn + pystr" where
  "now_code secret now = hotp secret (counter_at now)"

text \<open>\<open>hmac.compare_digest\<close> of texts raises when one of them is not ASCII.\<close>

definition compare_digest :: "pystr \<Rightarrow> pystr \<Rightarrow> exn + bool" where
  "compare_digest a b = (if list_ex (\<lambda>c. 127 < code c) (a @ b) then Inl TypeErr else Inr (a = b))"

fun verify_any :: "pystr \<Rightarrow> pystr \<Rightarrow> int list \<Rightarrow> exn + bool" where
  "verify_any secret cd [] = Inr False"
| "verify_any secret cd (c # cs) = (case hotp secret c of
     Inl e \<Rightarrow> Inl e
   | Inr h \<Rightarrow> (case compare_digest h cd of
       Inl e \<Rightarrow> Inl e | Inr b \<Rightarrow> if b then Inr True else verify_any secret cd cs))"

definition verify :: "pystr option \<Rightarrow> pystr option \<Rightarrow> int \<Rightarrow> int \<Rightarrow> exn + bool" where
  "verify secret cd window now =
     (case (secret, cd) of
        (Some sec, Some c) \<Rightarrow>
          if sec = [] \<or> c = [] then Inr False
          else let c' = py_strip c in
            if length c' \<noteq> DIGITS \<or> \<not> py_isdigit c' then Inr False
            else verify_any sec c' (map (\<lambda>d. counter_at now + d) [- window..window])
      | _ \<Rightarrow> Inr False)"

subsection \<open>Backup codes\<close>

definition hex_byte :: "byte \<Rightarrow> pystr" where
  "hex_byte b = [hex_digit (uint b div 16), hex_digit (uint b mod 16)]"

definition utf8 :: "pystr \<Rightarrow> byte list" where
  "utf8 s = concat (map (\<lambda>c. let n = code c in
     if n < 128 then [word_of_int n] else [word_of_int (192 + n div 64), word_of_int (128 + n mod 64)]) s)"

text \<open>\<open>urllib.parse.quote\<close>: letters, digits, \<open>_.-~/\<close> stay, every other byte is escaped.\<close>

definition url_safe :: "char \<Rightarrow> bool" where
  "url_safe c = (let n = code c in (48 \<le> n \<and> n \<le> 57) \<or> (65 \<le> n \<and> n \<le> 90) \<or> (97 \<le> n \<and> n \<le> 122) \<or> c \<in> set ''_.-~/'')"

definition url_quote :: "pystr \<Rightarrow> pystr" where
  "url_quote s = concat (map (\<lambda>c. if url_safe c then [c]
     else concat (map (\<lambda>b. CHR ''%'' # py_upper (hex_byte b)) (utf8 [c]))) s)"

definition provisioning_uri :: "pystr \<Rightarrow> pystr \<Rightarrow> pystr \<Rightarrow> pystr" where
  "provisioning_uri secret username issuer =
     ''otpauth://totp/'' @ url_quote (issuer @ '':'' @ username) @ ''?secret='' @ secret @
     ''&issuer='' @ url_quote issuer @ ''&digits='' @ str_int (int DIGITS) @ ''&period='' @ str_int STEP"

definition hash_code :: "pystr \<Rightarrow> pystr" where
  "hash_code c = concat (map hex_byte (sha256 (utf8 c)))"

definition make_backup_codes :: "pystr list \<Rightarrow> pystr list \<times> jcol" where
  "make_backup_codes codes = (codes, JDoc (VList (map (\<lambda>c. VStr (hash_code c)) codes)))"

text \<open>A stored document that is not a list has no \<open>remove\<close>, or no members at all.\<close>

definition consume_backup_code :: "jcol \<Rightarrow> pystr option \<Rightarrow> exn + bool \<times> jcol" where
  "consume_backup_code stored cd =
     (case (stored, cd) of
        (JDoc v, Some c) \<Rightarrow>
          if c = [] then Inr (False, stored)
          else let h = hash_code (py_strip c) in
            (case v of
               VList hs \<Rightarrow>
                 if VStr h \<in> set hs then Inr (True, JDoc (VList (remove1 (VStr h) hs))) else Inr (False, stored)
             | VStr t \<Rightarrow> if py_contains h t then Inl TypeErr else Inr (False, stored)
             | VDict d \<Rightarrow> if dhas d h then Inl TypeErr else Inr (False, stored)
             | _ \<Rightarrow> Inl TypeErr)
      | _ \<Rightarrow> Inr (False, stored))"

definition backup_count :: "jcol \<Rightarrow> nat" where
  "backup_count stored = (case stored of
     JDoc (VList hs) \<Rightarrow> length hs
   | JDoc (VStr t) \<Rightarrow> length t
   | JDoc (VDict d) \<Rightarrow> length d
   | _ \<Rightarrow> 0)"

subsection \<open>Six digits\<close>

lemma length_show_nat: "0 \<le> n \<Longrightarrow> n < 10 ^ Suc k \<Longrightarrow> length (show_nat n) \<le> Suc k"
proof (induction k arbitrary: n)
  case 0
  then have "show_nat n = [dec_char n]" by (subst show_nat.simps) simp
  then show ?case by simp
next
  case (Suc k)
  show ?case
  proof (cases "n < 10")
    case True
    then have "show_nat n = [dec_char n]" by (subst show_nat.simps) simp
    then show ?thesis by simp
  next
    case False
    then have n: "show_nat n = show_nat (n div 10) @ [dec_char (n mod 10)]" by (subst show_nat.simps) simp
    have "n div 10 < 10 ^ Suc k" "0 \<le> n div 10" using Suc.prems by simp_all
    from Suc.IH [OF this(2,1)] show ?thesis by (simp add: n)
  qed
qed

lemma pad_digits:
  assumes "0 \<le> n" "n < 10 ^ Suc k"
  shows "length (pad (Suc k) n) = Suc k" "list_all is_dec (pad (Suc k) n)"
proof -
  have d: "list_all is_dec (show_nat n)" "length (show_nat n) \<le> Suc k"
    using show_nat_dec length_show_nat assms by blast+
  have zero: "is_dec CHR ''0''" by code_simp
  have sign: "\<not> is_dec CHR ''-''" "\<not> is_dec CHR ''+''" by code_simp+
  have "length (pad (Suc k) n) = Suc k \<and> list_all is_dec (pad (Suc k) n)"
    using d zero sign assms(1)
    by (cases "show_nat n") (auto simp: pad_def str_int_def zfill_def list_all_iff)
  then show "length (pad (Suc k) n) = Suc k" "list_all is_dec (pad (Suc k) n)" by simp_all
qed

lemma six_digits:
  assumes "hotp secret c = Inr d"
  shows "length d = DIGITS" "list_all is_dec d"
proof -
  obtain x where d: "d = pad DIGITS (x mod 10 ^ DIGITS)"
    using assms unfolding hotp_def Let_def by (auto split: sum.splits simp del: power_numeral)
  have six: "DIGITS = Suc 5" by simp
  have "0 \<le> x mod 10 ^ Suc 5" "x mod 10 ^ Suc 5 < 10 ^ Suc 5" by simp_all
  from pad_digits [OF this] show "length d = DIGITS" "list_all is_dec d" unfolding d six by blast+
qed

text \<open>A one-time code is always six decimal digits, leading zeros included.\<close>

theorem hotp_six_digits:
  assumes "hotp secret c = Inr d"
  shows "length d = DIGITS \<and> list_all is_dec d"
  using six_digits [OF assms] by simp

subsection \<open>The window\<close>

lemma digits_ascii: "list_all is_dec s \<Longrightarrow> \<not> list_ex (\<lambda>c. 127 < code c) s"
  by (auto simp: list_all_iff list_ex_iff is_dec_def)

lemma verify_any_total:
  assumes "list_all (\<lambda>c. \<exists>h. hotp secret c = Inr h) cs" "list_all is_dec cd"
  shows "verify_any secret cd cs = Inr (\<exists>c\<in>set cs. hotp secret c = Inr cd)"
  using assms
proof (induction cs)
  case (Cons c cs)
  then obtain h where h: "hotp secret c = Inr h" by auto
  have "compare_digest h cd = Inr (h = cd)"
    using digits_ascii [OF six_digits(2) [OF h]] digits_ascii [OF Cons.prems(2)] by (simp add: compare_digest_def)
  with Cons h show ?case by auto
qed simp

lemma hotp_total:
  assumes "b32decode (py_upper secret @ replicate ((8 - length secret mod 8) mod 8) (CHR ''='')) = Inr key"
    and "0 \<le> c" "c < 2 ^ 64"
  shows "\<exists>h. hotp secret c = Inr h"
  using assms by (simp add: hotp_def pack_q_def)

lemma dec_is_digit: "list_all is_dec s \<Longrightarrow> s \<noteq> [] \<Longrightarrow> py_isdigit s"
  by (simp add: py_isdigit_def list_all_iff is_digit_def)

text \<open>
  With a secret that decodes, \<open>verify\<close> accepts six decimal digits exactly when they are the code of
  a counter at most \<open>window\<close> steps away from the current one.
\<close>

theorem verify_window:
  assumes "b32decode (py_upper secret @ replicate ((8 - length secret mod 8) mod 8) (CHR ''='')) = Inr key"
    and "secret \<noteq> []" "list_all is_dec (py_strip cd)" "length (py_strip cd) = DIGITS"
    and "window \<le> counter_at now" "counter_at now + window < 2 ^ 64"
  shows "verify (Some secret) (Some cd) window now =
    Inr (\<exists>c. \<bar>c - counter_at now\<bar> \<le> window \<and> hotp secret c = Inr (py_strip cd))"
proof -
  have ne: "py_strip cd \<noteq> []" using assms(4) by auto
  then have ne': "cd \<noteq> []" by (auto simp: py_strip_def strip_by_def lstrip_by_def rstrip_by_def)
  have "list_all (\<lambda>c. \<exists>h. hotp secret c = Inr h) (map (\<lambda>d. counter_at now + d) [- window..window])"
    using hotp_total [OF assms(1)] assms(5,6) by (auto simp: list_all_iff)
  from verify_any_total [OF this assms(3)]
  have "verify (Some secret) (Some cd) window now =
      Inr (\<exists>c\<in>set (map (\<lambda>d. counter_at now + d) [- window..window]). hotp secret c = Inr (py_strip cd))"
    using assms(2-4) ne' dec_is_digit [OF assms(3) ne] by (simp add: verify_def Let_def)
  moreover have "set (map (\<lambda>d. counter_at now + d) [- window..window]) = {c. \<bar>c - counter_at now\<bar> \<le> window}"
    by (auto simp: abs_le_iff image_iff)
  ultimately show ?thesis by simp
qed

definition superscripts :: pystr where
  "superscripts = replicate 6 CHR 0xB2"

text \<open>
  The check of the digits does not protect the comparison: a code of six superscript digits is
  digits for \<open>isdigit\<close>, and comparing it raises a \<open>TypeError\<close> instead of refusing it.
\<close>

theorem verify_superscript_raises:
  assumes "b32decode (py_upper secret @ replicate ((8 - length secret mod 8) mod 8) (CHR ''='')) = Inr key"
    and "secret \<noteq> []" "0 \<le> window" "window \<le> counter_at now" "counter_at now + window < 2 ^ 64"
  shows "verify (Some secret) (Some superscripts) window now = Inl TypeErr"
proof -
  have strip: "py_strip superscripts = superscripts" "py_isdigit superscripts"
    "list_ex (\<lambda>c. 127 < code c) superscripts" "length superscripts = DIGITS" "superscripts \<noteq> []"
    by code_simp+
  obtain h where h: "hotp secret (counter_at now - window) = Inr h"
    using hotp_total [OF assms(1), of "counter_at now - window"] assms(3-5) by auto
  have "[- window..window] = - window # [- window + 1..window]" using assms(3) by (simp add: upto_rec1)
  with h strip assms(2) show ?thesis by (simp add: verify_def Let_def compare_digest_def)
qed

subsection \<open>Backup codes are spent once\<close>

text \<open>
  A backup code works once: spending it leaves one code less, and the same code is refused on
  what is left.
\<close>

theorem backup_code_once:
  assumes "make_backup_codes codes = (plain, stored)" "distinct (map hash_code codes)"
    and "consume_backup_code stored (Some c) = Inr (True, stored')"
  shows "backup_count stored' + 1 = length codes \<and> consume_backup_code stored' (Some c) = Inr (False, stored')"
proof -
  let ?hs = "map (\<lambda>c. VStr (hash_code c)) codes"
  have st: "stored = JDoc (VList ?hs)" using assms(1) by (auto simp: make_backup_codes_def)
  from assms(3) have c: "c \<noteq> []" "VStr (hash_code (py_strip c)) \<in> set ?hs"
    "stored' = JDoc (VList (remove1 (VStr (hash_code (py_strip c))) ?hs))"
    by (auto simp: consume_backup_code_def st Let_def split: if_splits)
  have "distinct ?hs" using assms(2) by (simp add: distinct_map inj_on_def)
  then have "VStr (hash_code (py_strip c)) \<notin> set (remove1 (VStr (hash_code (py_strip c))) ?hs)" by simp
  moreover have "length (remove1 (VStr (hash_code (py_strip c))) ?hs) + 1 = length codes"
    using c(2) by (metis One_nat_def Suc_pred add.commute length_map length_pos_if_in_set length_remove1 plus_1_eq_Suc)
  ultimately show ?thesis using c(1,3) by (simp add: consume_backup_code_def backup_count_def)
qed

subsection \<open>Instances\<close>

definition sample_secret :: pystr where
  "sample_secret = ''GEZDGNBVGY3TQOJQGEZDGNBVGY3TQOJQ''"

lemma sample_secret_decodes:
  "\<exists>key. b32decode (py_upper sample_secret @ replicate ((8 - length sample_secret mod 8) mod 8) (CHR ''='')) = Inr key"
proof -
  have "\<not> isl (b32decode (py_upper sample_secret @ replicate ((8 - length sample_secret mod 8) mod 8) (CHR ''='')))"
    by code_simp
  then show ?thesis by (metis isl_def sum.exhaust)
qed

theorem hotp_six_digits_witness: "\<exists>d. hotp sample_secret 1 = Inr d \<and> length d = DIGITS \<and> list_all is_dec d"
proof -
  obtain key where "b32decode (py_upper sample_secret @ replicate ((8 - length sample_secret mod 8) mod 8) (CHR ''='')) = Inr key"
    using sample_secret_decodes by blast
  from hotp_total [OF this, of 1] obtain d where "hotp sample_secret 1 = Inr d" by auto
  with hotp_six_digits [OF this] show ?thesis by blast
qed

theorem verify_window_witness:
  "verify (Some sample_secret) (Some '' 287082'') 1 (59 * usec) =
     Inr (\<exists>c. \<bar>c - 1\<bar> \<le> 1 \<and> hotp sample_secret c = Inr ''287082'')"
proof -
  obtain key where key: "b32decode (py_upper sample_secret @ replicate ((8 - length sample_secret mod 8) mod 8) (CHR ''='')) = Inr key"
    using sample_secret_decodes by blast
  have "py_strip '' 287082'' = ''287082''" "list_all is_dec ''287082''" "counter_at (59 * usec) = 1"
    by code_simp+
  with verify_window [OF key, of "'' 287082''" 1 "59 * usec"] show ?thesis by (simp add: sample_secret_def)
qed

theorem verify_superscript_raises_witness:
  "verify (Some sample_secret) (Some superscripts) 1 (59 * usec) = Inl TypeErr"
proof -
  obtain key where key: "b32decode (py_upper sample_secret @ replicate ((8 - length sample_secret mod 8) mod 8) (CHR ''='')) = Inr key"
    using sample_secret_decodes by blast
  have "counter_at (59 * usec) = 1" by code_simp
  with verify_superscript_raises [OF key, of 1 "59 * usec"] show ?thesis by (simp add: sample_secret_def)
qed

theorem backup_code_once_witness:
  "consume_backup_code (JDoc (VList [])) (Some ''ab12-cd34'') = Inr (False, JDoc (VList []))"
proof -
  have "py_strip ''ab12-cd34'' = ''ab12-cd34''" by code_simp
  then have "consume_backup_code (snd (make_backup_codes [''ab12-cd34''])) (Some ''ab12-cd34'') = Inr (True, JDoc (VList []))"
    by (simp add: consume_backup_code_def make_backup_codes_def)
  with backup_code_once [of "[''ab12-cd34'']"] show ?thesis by (simp add: make_backup_codes_def)
qed

end
