(* ===== verification/Serialization.thy ===== *)
theory Serialization
  imports Importer
begin

text \<open>
  \<open>app/api/serialization.py\<close>, the way in: \<open>deserialize\<close> turns a JSON body into the values of a
  write (\<open>serialize_row\<close>, the way out, is in \<open>Triggers\<close>, whose webhooks use it). An
  \<open>ApiError\<close> is a \<open>ValueError\<close>.

  Shown: a body that is accepted sets only writable fields of the table, none of the managed
  columns, each to what coercion made of its text; a create has every required field.
\<close>

definition API_MANAGED :: "pystr list" where
  "API_MANAGED = [''id'', ''created_by'', ''created_at'', ''updated_by'', ''updated_at'', ''deleted_at'', ''deleted_by'']"

text \<open>The dict of the fields with a column: a later field of the same name replaces an earlier one.\<close>

definition api_fields :: "meta_table \<Rightarrow> (pystr, meta_field) dict" where
  "api_fields t = fold (\<lambda>f d. dset (f_phys_name f) f d) (filter (\<lambda>f. f_data_type f \<notin> set FILE_TYPES) (t_fields t)) []"

definition api_value :: "env \<Rightarrow> meta_field \<Rightarrow> pyval \<Rightarrow> pyval comp" where
  "api_value env f val =
     (if blank val then retC VNone
      else bindC (if f_data_type f = RELATION_TYPE
                  then bindC (make_relation_resolver f) (\<lambda>r. retC (Some r)) else retC None) (\<lambda>res.
           liftC (coerce_value env f (Some (py_str val)) res)))"

definition api_entry :: "env \<Rightarrow> (pystr, meta_field) dict \<Rightarrow> pystr list option \<Rightarrow> pystr \<times> pyval \<Rightarrow> row \<Rightarrow> row comp" where
  "api_entry env flds writable kv vs = (case kv of (key, val) \<Rightarrow>
     if key \<in> set API_MANAGED then failC (ValueErr (key @ '' is read-only.''))
     else case dget flds key of
       None \<Rightarrow> failC (ValueErr (''Unknown field '' @ key))
     | Some f \<Rightarrow>
       if (case writable of None \<Rightarrow> False | Some w \<Rightarrow> key \<notin> set w)
       then failC (ValueErr (key @ '' is read-only for your role.''))
       else bindC (api_value env f val) (\<lambda>v. retC (dset key v vs)))"

definition missing_required :: "(pystr, meta_field) dict \<Rightarrow> row \<Rightarrow> pystr option" where
  "missing_required flds vs = map_option fst
     (find (\<lambda>(n, f). \<not> f_nullable f \<and> \<not> filled (f_default_value f) \<and> rget vs n = VNone) flds)"

definition deserialize :: "env \<Rightarrow> meta_table \<Rightarrow> pyval \<Rightarrow> bool \<Rightarrow> pystr list option \<Rightarrow> row comp" where
  "deserialize env t body partial writable =
     (case body of
        VDict d \<Rightarrow>
          let flds = api_fields t in
          bindC (foldC (api_entry env flds writable) d []) (\<lambda>vs.
          if partial then retC vs
          else case missing_required flds vs of
                 None \<Rightarrow> retC vs
               | Some n \<Rightarrow> failC (ValueErr (n @ '' is required.'')))
      | _ \<Rightarrow> failC (ValueErr ''Request body must be a JSON object.''))"

subsection \<open>What is accepted\<close>

text \<open>A value of the write comes from an entry of the body, through the coercion of its field.\<close>

definition api_sound :: "env \<Rightarrow> (pystr, meta_field) dict \<Rightarrow> pystr list option \<Rightarrow> (pystr \<times> pyval) list \<Rightarrow> row \<Rightarrow> bool" where
  "api_sound env flds writable d vs \<longleftrightarrow> (\<forall>k v. dget vs k = Some v \<longrightarrow>
     (\<exists>val f. (k, val) \<in> set d \<and> dget flds k = Some f \<and> k \<notin> set API_MANAGED \<and>
        (case writable of None \<Rightarrow> True | Some w \<Rightarrow> k \<in> set w) \<and>
        (v = VNone \<or> (\<exists>res. coerce_value env f (Some (py_str val)) res = Inr v))))"

lemma api_entry_sound:
  assumes "api_entry env flds writable kv vs s = (Inr vs', s')"
  obtains key val f v where "kv = (key, val)" "dget flds key = Some f" "key \<notin> set API_MANAGED"
    "case writable of None \<Rightarrow> True | Some w \<Rightarrow> key \<in> set w" "vs' = dset key v vs"
    "v = VNone \<or> (\<exists>res. coerce_value env f (Some (py_str val)) res = Inr v)"
proof -
  obtain key val where kv: "kv = (key, val)" by (cases kv)
  from assms obtain f v s1 where f: "dget flds key = Some f" "key \<notin> set API_MANAGED"
    "case writable of None \<Rightarrow> True | Some w \<Rightarrow> key \<in> set w"
    "api_value env f val s = (Inr v, s1)" "vs' = dset key v vs"
    by (auto simp: api_entry_def kv failC_def retC_def elim!: bindC_InrE split: if_splits option.splits)
  from f(4) have "v = VNone \<or> (\<exists>res. coerce_value env f (Some (py_str val)) res = Inr v)"
    by (auto simp: api_value_def retC_def liftC_def elim!: bindC_InrE split: if_splits)
  with f kv show ?thesis by (intro that) auto
qed

lemma api_fold_sound:
  assumes "foldC (api_entry env flds writable) es vs s = (Inr vs', s')" "api_sound env flds writable d vs" "set es \<subseteq> set d"
  shows "api_sound env flds writable d vs'"
  using assms
proof (induction es arbitrary: vs s)
  case (Cons e es)
  from Cons.prems(1) obtain vs1 s1 where run: "api_entry env flds writable e vs s = (Inr vs1, s1)"
    "foldC (api_entry env flds writable) es vs1 s1 = (Inr vs', s')"
    by (auto elim: bindC_InrE)
  from run(1) have "api_sound env flds writable d vs1"
  proof (rule api_entry_sound)
    fix key val f v
    assume e: "e = (key, val)" "dget flds key = Some f" "key \<notin> set API_MANAGED"
      "case writable of None \<Rightarrow> True | Some w \<Rightarrow> key \<in> set w" "vs1 = dset key v vs"
      "v = VNone \<or> (\<exists>res. coerce_value env f (Some (py_str val)) res = Inr v)"
    have "(key, val) \<in> set d" using e(1) Cons.prems(3) by simp
    with e Cons.prems(2) show ?thesis unfolding api_sound_def by (simp add: e(5)) blast
  qed
  with Cons.IH [OF run(2)] Cons.prems(3) show ?case by simp
qed (auto simp: retC_def)

lemma api_field_of_table:
  assumes "dget (api_fields t) k = Some f"
  shows "f \<in> set (t_fields t) \<and> f_phys_name f = k \<and> f_data_type f \<notin> set FILE_TYPES"
proof -
  from assms have "find (\<lambda>f. f_phys_name f = k) (rev (filter (\<lambda>f. f_data_type f \<notin> set FILE_TYPES) (t_fields t))) = Some f"
    by (simp add: api_fields_def fold_dset_dget split: option.splits)
  from find_Some_set [OF this] show ?thesis by simp
qed

lemma deserialized:
  assumes "deserialize env t (VDict d) partial writable s = (Inr vs, s')"
  shows "(\<forall>k v. dget vs k = Some v \<longrightarrow>
      k \<notin> set API_MANAGED \<and> (case writable of None \<Rightarrow> True | Some w \<Rightarrow> k \<in> set w) \<and>
      (\<exists>val f. (k, val) \<in> set d \<and> f \<in> set (t_fields t) \<and> f_phys_name f = k \<and> f_data_type f \<notin> set FILE_TYPES \<and>
        (v = VNone \<or> (\<exists>res. coerce_value env f (Some (py_str val)) res = Inr v)))) \<and>
    (partial \<or> (\<forall>(n, f)\<in>set (api_fields t). f_nullable f \<or> filled (f_default_value f) \<or> rget vs n \<noteq> VNone))"
proof
  from assms obtain s1 where run: "foldC (api_entry env (api_fields t) writable) d [] s = (Inr vs, s1)"
    and req: "partial \<or> missing_required (api_fields t) vs = None"
    by (auto simp: deserialize_def Let_def failC_def retC_def elim!: bindC_InrE split: if_splits option.splits)
  have "api_sound env (api_fields t) writable d vs"
    by (rule api_fold_sound [OF run]) (simp_all add: api_sound_def)
  then show "\<forall>k v. dget vs k = Some v \<longrightarrow>
      k \<notin> set API_MANAGED \<and> (case writable of None \<Rightarrow> True | Some w \<Rightarrow> k \<in> set w) \<and>
      (\<exists>val f. (k, val) \<in> set d \<and> f \<in> set (t_fields t) \<and> f_phys_name f = k \<and> f_data_type f \<notin> set FILE_TYPES \<and>
        (v = VNone \<or> (\<exists>res. coerce_value env f (Some (py_str val)) res = Inr v)))"
    unfolding api_sound_def using api_field_of_table by blast
  show "partial \<or> (\<forall>(n, f)\<in>set (api_fields t). f_nullable f \<or> filled (f_default_value f) \<or> rget vs n \<noteq> VNone)"
    using req by (auto simp: missing_required_def find_None_iff)
qed

text \<open>
  What the API accepts. Every value of an accepted body was asked for by a key of the body that names
  a field of the table with a column, is not managed and is writable for the caller; it is absent or
  what coercion made of the text. A create has every required field.
\<close>

theorem deserialize_sound:
  assumes "deserialize env t (VDict d) partial writable s = (Inr vs, s')"
  shows "(\<forall>k v. dget vs k = Some v \<longrightarrow>
      k \<notin> set API_MANAGED \<and> (case writable of None \<Rightarrow> True | Some w \<Rightarrow> k \<in> set w) \<and>
      (\<exists>val f. (k, val) \<in> set d \<and> f \<in> set (t_fields t) \<and> f_phys_name f = k \<and> f_data_type f \<notin> set FILE_TYPES \<and>
        (v = VNone \<or> (\<exists>res. coerce_value env f (Some (py_str val)) res = Inr v)))) \<and>
    (partial \<or> (\<forall>(n, f)\<in>set (api_fields t). f_nullable f \<or> filled (f_default_value f) \<or> rget vs n \<noteq> VNone))"
  using assms by (rule deserialized)

theorem deserialize_sound_witness:
  "deserialize plain_env sample_table (VDict [(''x'', VStr '' 7 '')]) False None empty_db =
     (Inr [(''x'', VInt 7)], empty_db) \<and> ''x'' \<notin> set API_MANAGED"
proof
  show run: "deserialize plain_env sample_table (VDict [(''x'', VStr '' 7 '')]) False None empty_db =
     (Inr [(''x'', VInt 7)], empty_db)" by code_simp
  from deserialize_sound [OF run] show "''x'' \<notin> set API_MANAGED"
    by (simp add: dget_Cons)
qed

end
