(* ===== verification/Portal.thy ===== *)
theory Portal
  imports Record_Service
begin

text \<open>
  The last part of \<open>app/access.py\<close>: the record a portal account may open and the attachment any
  account may download, which rest on \<open>record_service.get_record\<close>. An abort is the exception
  \<open>Abort\<close> with its status.

  Shown: who gets a record through the portal is a designer or belongs to the circle of its author;
  an attachment is handed out only with its record and its field readable.
\<close>

definition portal_record :: "app_user \<Rightarrow> meta_table \<Rightarrow> pyval \<Rightarrow> row comp" where
  "portal_record u t pk =
     bindC (get_record t pk (Some (u_id u)) True False) (\<lambda>r.
     bindC (getC (\<lambda>s. portal_members s u)) (\<lambda>members.
     case r of
       None \<Rightarrow> failC (Abort 404)
     | Some x \<Rightarrow>
       if x = [] \<or> (\<not> is_designer u \<and> \<not> list_ex (\<lambda>i. py_eq (rget x ''created_by'') (VInt i)) members)
       then failC (Abort 404) else retC x))"

definition in_portal :: "db \<Rightarrow> meta_table \<Rightarrow> bool" where
  "in_portal s t = (list_ex (\<lambda>f. fm_table_id f = t_id t \<and> fm_in_catalog f \<and> fm_purpose f \<noteq> ''view'') (d_forms s) \<and>
     (t_track_audit t \<or> t_row_owned t))"

definition get_attachment :: "db \<Rightarrow> int \<Rightarrow> (attachment \<times> meta_field \<times> meta_table) option" where
  "get_attachment s i =
     (case find (\<lambda>a. am_id a = i) (d_attachments s) of
        None \<Rightarrow> None
      | Some a \<Rightarrow> (case get_field s (am_field_id a) of
          None \<Rightarrow> None
        | Some f \<Rightarrow> (case get_table s (f_table_id f) of None \<Rightarrow> None | Some t \<Rightarrow> Some (a, f, t))))"

definition attachment_row :: "app_user \<Rightarrow> attachment \<Rightarrow> meta_table \<Rightarrow> bool \<Rightarrow> unit comp" where
  "attachment_row u a t portal =
     (if portal then
        bindC (getC (\<lambda>s. in_portal s t)) (\<lambda>ok.
        if \<not> (is_portal u \<or> is_designer u) then failC (Abort 403)
        else if \<not> ok then failC (Abort 404)
        else bindC (portal_record u t (am_row_pk a)) (\<lambda>_. retC ()))
      else
        bindC (getC (\<lambda>s. table_readable s (Some u) t)) (\<lambda>ok.
        if is_portal u \<or> \<not> ok then failC (Abort 403)
        else bindC (get_record t (am_row_pk a) (Some (u_id u)) (is_designer u) True) (\<lambda>r.
             case r of None \<Rightarrow> failC (Abort 404) | Some x \<Rightarrow> if x = [] then failC (Abort 404) else retC ())))"

definition attachment_for :: "app_user option \<Rightarrow> int \<Rightarrow> bool \<Rightarrow> attachment comp" where
  "attachment_for user att_id portal =
     (case user of
        None \<Rightarrow> failC (Abort 401)
      | Some u \<Rightarrow>
        if \<not> is_active u then failC (Abort 401)
        else bindC (getC (\<lambda>s. get_attachment s att_id)) (\<lambda>found. case found of
          None \<Rightarrow> failC (Abort 404)
        | Some (a, f, t) \<Rightarrow>
          bindC (attachment_row u a t portal) (\<lambda>_.
          bindC (getC (\<lambda>s. field_access s user f)) (\<lambda>acc.
          if can_read acc then retC a else failC (Abort 403)))))"

subsection \<open>Who sees what\<close>

lemma get_record_state [simp]: "snd (get_record t pk u d del s) = s"
  by (auto simp: get_record_def get_row_def read_phys_def bindC_def getC_def split: sum.splits prod.splits)

lemma get_record_stays: "get_record t pk u d del s = (r, s') \<Longrightarrow> s' = s"
  by (metis get_record_state snd_conv)

text \<open>The author of a row is the account itself or a portal account of a company in its subtree.\<close>

definition in_circle :: "db \<Rightarrow> app_user \<Rightarrow> row \<Rightarrow> bool" where
  "in_circle s u r \<longleftrightarrow> (\<exists>i. py_eq (rget r ''created_by'') (VInt i) \<and> (i = u_id u \<or>
     (\<exists>c x k. u_company_id u = Some c \<and> x \<in> set (d_users s) \<and> u_id x = i \<and> u_role x = role_portal \<and>
        u_company_id x = Some k \<and> k \<in> subtree_ids s c)))"

lemma members_circle:
  "list_ex (\<lambda>i. py_eq (rget r ''created_by'') (VInt i)) (portal_members s u) \<Longrightarrow> in_circle s u r"
  unfolding in_circle_def portal_members_def list_ex_iff some_id_def
  by (fastforce split: option.splits if_splits)

lemma portal_record_cases:
  assumes "portal_record u t pk s = (Inr r, s')"
  shows "s' = s \<and> get_record t pk (Some (u_id u)) True False s = (Inr (Some r), s) \<and> (is_designer u \<or> in_circle s u r)"
proof -
  obtain x where g: "get_record t pk (Some (u_id u)) True False s = (x, s)"
    by (metis get_record_state prod.collapse)
  with assms show ?thesis using members_circle [of r s u]
    by (cases x) (auto simp: portal_record_def bindC_Inl bindC_Inr comp_simps failC_def retC_def
        split: option.splits if_splits)
qed

text \<open>
  The portal shows a record only to designers and to the circle of its author: the author,
  or an account whose company is the one of the author's, a portal account's, or above it; and
  never a record in the trash.
\<close>

theorem portal_record_circle:
  assumes "portal_record u t pk s = (Inr r, s')"
  shows "(is_designer u \<or> in_circle s u r) \<and> (\<not> t_soft_delete t \<or> rget r ''deleted_at'' = VNone) \<and> s' = s"
proof -
  from portal_record_cases [OF assms] have *: "s' = s" "get_record t pk (Some (u_id u)) True False s = (Inr (Some r), s)"
    "is_designer u \<or> in_circle s u r" by blast+
  from *(2) have "row_readable t (Some r) (Some (u_id u)) True False (company_scope s t (Some (u_id u)) True)"
    by (auto simp: get_record_def comp_simps elim!: bindC_InrE split: if_splits dest: get_record_stays)
  with * show ?thesis by (auto simp: row_readable_def split: if_splits)
qed

text \<open>
  A download is guarded by the account, the record and the field: whoever gets an attachment is an
  active account that may read the field and gets its record, through the portal or the tables.
\<close>

theorem attachment_guarded:
  assumes "attachment_for user i portal s = (Inr a, s')"
  shows "s' = s \<and> (\<exists>u f t. user = Some u \<and> is_active u \<and> get_attachment s i = Some (a, f, t) \<and>
    can_read (field_access s user f) \<and>
    (if portal then (is_portal u \<or> is_designer u) \<and> in_portal s t \<and>
       (\<exists>r. portal_record u t (am_row_pk a) s = (Inr r, s) \<and> (is_designer u \<or> in_circle s u r))
     else \<not> is_portal u \<and> table_readable s user t \<and>
       (\<exists>r. get_record t (am_row_pk a) (Some (u_id u)) (is_designer u) True s = (Inr (Some r), s))))"
proof -
  from assms obtain u f t s1 where u: "user = Some u" "is_active u" "get_attachment s i = Some (a, f, t)"
    and row: "attachment_row u a t portal s = (Inr (), s1)" and acc: "can_read (field_access s1 user f)" "s' = s1"
    by (auto simp: attachment_for_def comp_simps failC_def retC_def elim!: bindC_InrE
        split: option.splits if_splits prod.splits)
  show ?thesis
  proof (cases portal)
    case True
    with row obtain r where "is_portal u \<or> is_designer u" "in_portal s t" "portal_record u t (am_row_pk a) s = (Inr r, s1)"
      by (auto simp: attachment_row_def comp_simps failC_def retC_def elim!: bindC_InrE split: if_splits)
    with portal_record_cases [OF this(3)] u acc True show ?thesis by auto
  next
    case False
    with row obtain r where "\<not> is_portal u" "table_readable s (Some u) t"
      "get_record t (am_row_pk a) (Some (u_id u)) (is_designer u) True s = (Inr (Some r), s1)"
      by (auto simp: attachment_row_def comp_simps failC_def retC_def elim!: bindC_InrE split: if_splits option.splits)
    with get_record_stays [OF this(3)] u acc False show ?thesis by auto
  qed
qed

subsection \<open>Instances\<close>

text \<open>A ticket of the portal account 7, and the portal account 8 of the same company.\<close>

definition portal_user :: "int \<Rightarrow> app_user" where
  "portal_user i = \<lparr>u_id = i, u_username = ''p'', u_password_hash = [], u_role = role_portal,
     u_is_active_flag = True, u_company_id = Some 1, u_email = None, u_notify_email = False,
     u_totp_secret = None, u_mfa_enabled = False, u_mfa_backup_codes = JEmpty, u_oidc_subject = None\<rparr>"

definition portal_form :: meta_form where
  "portal_form = \<lparr>fm_id = 1, fm_table_id = 1, fm_name = ''f'', fm_title = ''F'', fm_description = None,
     fm_purpose = ''edit'', fm_in_catalog = True, fm_catalog_group = None, fm_portal_close_state = None,
     fm_default_sort = None, fm_default_order = None, fm_default_per_page = None, fm_items = []\<rparr>"

definition portal_db :: db where
  "portal_db = owned_db\<lparr>d_users := [portal_user 7, portal_user 8],
     d_companies := [\<lparr>co_id = 1, co_name = ''Acme'', co_parent_id = None\<rparr>], d_tables := [owned_table], d_forms := [portal_form],
     d_attachments := [\<lparr>am_id = 1, am_field_id = f_id (hd (t_fields owned_table)), am_row_pk = VInt 1, am_stored_name = ''a'',
       am_original_name = ''a'', am_content_type = None, am_size = None, am_uploaded_by = None\<rparr>]\<rparr>"

lemma portal_row: "portal_record (portal_user 8) owned_table (VInt 1) portal_db =
    (Inr [(''id'', VInt 1), (''created_by'', VInt 7)], portal_db)"
  by code_simp

theorem portal_record_circle_witness:
  "in_circle portal_db (portal_user 8) [(''id'', VInt 1), (''created_by'', VInt 7)]"
proof -
  have "\<not> is_designer (portal_user 8)" by code_simp
  with portal_record_circle [OF portal_row] show ?thesis by blast
qed

theorem attachment_guarded_witness:
  "\<exists>a. attachment_for (Some (portal_user 8)) 1 True portal_db = (Inr a, portal_db) \<and> in_portal portal_db owned_table"
proof -
  obtain a where run: "attachment_for (Some (portal_user 8)) 1 True portal_db = (Inr a, portal_db)"
  proof -
    have "\<not> isl (fst (attachment_for (Some (portal_user 8)) 1 True portal_db))" by code_simp
    then obtain a s' where run: "attachment_for (Some (portal_user 8)) 1 True portal_db = (Inr a, s')"
      by (metis isl_def prod.collapse sum.exhaust)
    with attachment_guarded [OF run] show ?thesis using that by simp
  qed
  have "map_option (\<lambda>(a, f, t). t) (get_attachment portal_db 1) = Some owned_table" by code_simp
  with attachment_guarded [OF run] run show ?thesis by auto
qed

end
