(* ===== verification/Rest_Api.thy ===== *)
theory Rest_Api
  imports Approvals Serialization Portal
begin

text \<open>
  \<open>app/api/routes.py\<close>: the REST API, as the composition of access control, deserialisation, approvals,
  the workflow gate and the record service. A request is an \<open>api_call\<close>; \<open>api_request\<close> is the
  guard of the blueprint followed by the route. A response is a status and the document before it is
  written as JSON; headers and the links of the index are not modelled. An exception no route
  catches is the failure of the computation (status 500). The rollbacks of the bulk routes have nothing
  to undo: every ORM write of the services is committed before anything else can raise.

  Shown: without an account of its own a request changes nothing, nor does a write without access to the
  table; no response holds a column the caller may not read; an update that is answered with 200 has
  written only what the caller may write, the workflow allows and no approval holds back; a bulk
  request accounts for every item and never fails as a whole. Two findings: a filter reveals hidden
  columns, and a record outside the caller's companies is created though the answer is an error.
\<close>

subsection \<open>Responses\<close>

record response =
  resp_status :: int
  resp_body :: pyval

definition err :: "int \<Rightarrow> pystr \<Rightarrow> response" where
  "err status message = \<lparr>resp_status = status, resp_body = VDict [(''error'', VStr message)]\<rparr>"

text \<open>Flask writes every value as JSON but a time of day.\<close>

fun json_ok :: "pyval \<Rightarrow> bool" where
  "json_ok (VTime _) = False"
| "json_ok (VList xs) = list_all json_ok xs"
| "json_ok (VDict d) = list_all (\<lambda>(k, v). json_ok v) d"
| "json_ok _ = True"

definition jsonify :: "int \<Rightarrow> pyval \<Rightarrow> response comp" where
  "jsonify status doc = (if json_ok doc then retC \<lparr>resp_status = status, resp_body = doc\<rparr> else failC TypeErr)"

text \<open>A block under \<open>try\<close>: its exception becomes a value.\<close>

definition attempt :: "'a comp \<Rightarrow> (exn + 'a) comp" where
  "attempt m s = (case m s of (r, s') \<Rightarrow> (Inr r, s'))"

definition hidden :: "db \<Rightarrow> app_user \<Rightarrow> meta_table \<Rightarrow> pystr list" where
  "hidden s u t = filter (\<lambda>n. n \<notin> set (readable_fields s (Some u) t)) (map f_phys_name (t_fields t))"

text \<open>\<open>serialize_row(None)\<close> raises.\<close>

definition shown :: "app_user \<Rightarrow> meta_table \<Rightarrow> row option \<Rightarrow> row comp" where
  "shown u t r = (case r of
     None \<Rightarrow> failC TypeErr
   | Some x \<Rightarrow> getC (\<lambda>s. serialize_row (hidden s u t) x))"

abbreviation record_of :: "app_user \<Rightarrow> meta_table \<Rightarrow> pyval \<Rightarrow> row option comp" where
  "record_of u t pk \<equiv> get_record t pk (Some (u_id u)) (is_designer u) False"

text \<open>The routes begin alike: the table, then the caller's access to it.\<close>

definition with_table ::
  "(db \<Rightarrow> app_user option \<Rightarrow> meta_table \<Rightarrow> bool) \<Rightarrow> pystr \<Rightarrow> app_user \<Rightarrow> pystr \<Rightarrow> (meta_table \<Rightarrow> response comp) \<Rightarrow> response comp" where
  "with_table allowed denied u tn f =
     bindC (getC (\<lambda>s. map_option (\<lambda>t. (t, allowed s (Some u) t)) (table_by_phys s tn))) (\<lambda>found. case found of
       None \<Rightarrow> retC (err 404 ''Unknown table.'')
     | Some (t, ok) \<Rightarrow> if ok then f t else retC (err 403 denied))"

abbreviation reading :: "app_user \<Rightarrow> pystr \<Rightarrow> (meta_table \<Rightarrow> response comp) \<Rightarrow> response comp" where
  "reading \<equiv> with_table table_readable ''No read access to this table.''"

abbreviation writing :: "app_user \<Rightarrow> pystr \<Rightarrow> (meta_table \<Rightarrow> response comp) \<Rightarrow> response comp" where
  "writing \<equiv> with_table table_writable ''No write access to this table.''"

subsection \<open>Reading\<close>

definition api_index :: "app_user \<Rightarrow> response comp" where
  "api_index u = bindC (getC (\<lambda>s. filter (table_readable s (Some u))
       (sort_by (\<lambda>a b. sql_le (VStr (t_label a)) (VStr (t_label b))) (d_tables s)))) (\<lambda>ts.
     jsonify 200 (VDict [(''tables'',
       VList (map (\<lambda>t. VDict [(''name'', VStr (t_phys_name t)), (''label'', VStr (t_label t))]) ts))]))"

definition query_filters :: "meta_table \<Rightarrow> (pystr, pystr) dict \<Rightarrow> filt list" where
  "query_filters t args = map (\<lambda>(k, v). FCond k (Some ''eq'') (VStr v) False)
     (filter (\<lambda>(k, v). k \<in> f_phys_name ` set (t_fields t)) args)"

definition int_arg :: "(pystr, pystr) dict \<Rightarrow> pystr \<Rightarrow> int \<Rightarrow> int option" where
  "int_arg args k dflt = (case dget args k of None \<Rightarrow> Some dflt | Some x \<Rightarrow> parse_int x)"

definition paging :: "(pystr, pystr) dict \<Rightarrow> (int \<times> int) option" where
  "paging args = (case (int_arg args ''page'' 1, int_arg args ''per_page'' 50) of
     (Some p, Some n) \<Rightarrow> Some (max 1 p, min 200 (max 1 n)) | _ \<Rightarrow> None)"

definition api_list_rows :: "app_user \<Rightarrow> pystr \<Rightarrow> (pystr, pystr) dict \<Rightarrow> response comp" where
  "api_list_rows u tn args = reading u tn (\<lambda>t. case paging args of
     None \<Rightarrow> retC (err 400 ''page and per_page must be integers.'')
   | Some (page, per_page) \<Rightarrow>
     bindC (list_records t (Some (u_id u)) (is_designer u) False (query_filters t args) (dget args ''sort'')
         (case dget args ''order'' of None \<Rightarrow> ''asc'' | Some x \<Rightarrow> x) page (Some per_page)) (\<lambda>(rows, total).
     bindC (getC (\<lambda>s. hidden s u t)) (\<lambda>hide.
     jsonify 200 (VDict [(''data'', VList (map (\<lambda>r. VDict (serialize_row hide r)) rows)),
       (''page'', VInt page), (''per_page'', VInt per_page), (''total'', VInt total)]))))"

definition field_entry :: "pystr list \<Rightarrow> meta_field \<Rightarrow> pyval" where
  "field_entry writable f = VDict [(''name'', VStr (f_phys_name f)), (''label'', VStr (f_label f)),
     (''type'', VStr (f_data_type f)), (''writable'', VBool (f_phys_name f \<in> set writable))]"

definition api_table_fields :: "app_user \<Rightarrow> pystr \<Rightarrow> response comp" where
  "api_table_fields u tn = reading u tn (\<lambda>t.
     bindC (getC (\<lambda>s. (readable_fields s (Some u) t, writable_fields s (Some u) t))) (\<lambda>(readable, writable).
     jsonify 200 (VDict [(''table'', VStr (t_phys_name t)),
       (''fields'', VList (map (field_entry writable) (filter (\<lambda>f. f_phys_name f \<in> set readable) (t_fields t))))])))"

definition api_get_row :: "app_user \<Rightarrow> pystr \<Rightarrow> pystr \<Rightarrow> response comp" where
  "api_get_row u tn pk = reading u tn (\<lambda>t.
     bindC (record_of u t (VStr pk)) (\<lambda>r. case r of
       None \<Rightarrow> retC (err 404 ''Record not found.'')
     | Some x \<Rightarrow> bindC (shown u t (Some x)) (\<lambda>d. jsonify 200 (VDict d))))"

subsection \<open>Writing one record\<close>

definition accepted :: "env \<Rightarrow> app_user \<Rightarrow> meta_table \<Rightarrow> pyval \<Rightarrow> bool \<Rightarrow> row comp" where
  "accepted env u t body partial =
     bindC (getC (\<lambda>s. writable_fields s (Some u) t)) (\<lambda>w. deserialize env t body partial (Some w))"

definition created_reply :: "env \<Rightarrow> app_user \<Rightarrow> meta_table \<Rightarrow> exn + pyval \<Rightarrow> response comp" where
  "created_reply env u t c = (case c of
     Inl e \<Rightarrow> retC (err 409 (''Could not create: '' @ e_msg env e))
   | Inr pk \<Rightarrow> bindC (record_of u t pk) (\<lambda>row. bindC (shown u t row) (\<lambda>d. jsonify 201 (VDict d))))"

definition create_accepted :: "env \<Rightarrow> app_user \<Rightarrow> meta_table \<Rightarrow> exn + row \<Rightarrow> response comp" where
  "create_accepted env u t x = (case x of
     Inl (ValueErr m) \<Rightarrow> retC (err 400 m)
   | Inl e \<Rightarrow> failC e
   | Inr vs \<Rightarrow> bindC (attempt (create env t vs (Some (u_id u)))) (created_reply env u t))"

definition api_create_row :: "env \<Rightarrow> app_user \<Rightarrow> pystr \<Rightarrow> pyval \<Rightarrow> response comp" where
  "api_create_row env u tn body = writing u tn (\<lambda>t.
     bindC (attempt (accepted env u t body False)) (create_accepted env u t))"

text \<open>The message of a \<open>WorkflowError\<close>, with quotes and arrow in ASCII.\<close>

definition workflow_text :: "workflow_error \<Rightarrow> pystr" where
  "workflow_text e = (case e of
     NotAllowed l a b \<Rightarrow> l @ '': '' @ py_str a @ '' -> '' @ py_str b @ '' is not an allowed transition.''
   | RoleMayNot l a b \<Rightarrow> l @ '': your role may not perform '' @ py_str a @ '' -> '' @ py_str b @ ''.'')"

text \<open>What a partial write may do now, and what is left for approval.\<close>

definition gate ::
  "db \<Rightarrow> meta_table \<Rightarrow> row \<Rightarrow> row \<Rightarrow> app_user \<Rightarrow> workflow_error + diversion list \<times> row" where
  "gate s t old vs u = (case plan_diversions s t (Some old) vs of
     (ds, rest) \<Rightarrow> (case check s t old rest u of Inl e \<Rightarrow> Inl e | Inr _ \<Rightarrow> Inr (ds, rest)))"

definition request_all :: "meta_table \<Rightarrow> pyval \<Rightarrow> app_user \<Rightarrow> diversion list \<Rightarrow> unit comp" where
  "request_all t pk u ds = eachC (\<lambda>d. bindC (request_transition t (dv_wf d) pk (dv_frm d) (dv_to d) u) (\<lambda>_. retC ())) ds"

definition pending_entry :: "diversion \<Rightarrow> pyval" where
  "pending_entry d = VDict [(''field'', VStr (f_phys_name (dv_field d))), (''from'', dv_frm d), (''to'', dv_to d)]"

definition with_pending :: "diversion list \<Rightarrow> row \<Rightarrow> row" where
  "with_pending ds d = (if ds = [] then d else dset ''_pending_approvals'' (VList (map pending_entry ds)) d)"

definition updated_reply :: "env \<Rightarrow> app_user \<Rightarrow> meta_table \<Rightarrow> pyval \<Rightarrow> diversion list \<Rightarrow> exn + unit \<Rightarrow> response comp" where
  "updated_reply env u t pk ds c = (case c of
     Inl e \<Rightarrow> retC (err 409 (''Could not update: '' @ e_msg env e))
   | Inr _ \<Rightarrow>
     bindC (request_all t pk u ds) (\<lambda>_.
     bindC (record_of u t pk) (\<lambda>row.
     bindC (shown u t row) (\<lambda>d. jsonify 200 (VDict (with_pending ds d))))))"

definition update_accepted :: "env \<Rightarrow> app_user \<Rightarrow> meta_table \<Rightarrow> pyval \<Rightarrow> row \<Rightarrow> exn + row \<Rightarrow> response comp" where
  "update_accepted env u t pk old x = (case x of
     Inl (ValueErr m) \<Rightarrow> retC (err 400 m)
   | Inl e \<Rightarrow> failC e
   | Inr vs \<Rightarrow> bindC (getC (\<lambda>s. gate s t old vs u)) (\<lambda>g. case g of
       Inl e \<Rightarrow> retC (err 409 (workflow_text e))
     | Inr (ds, rest) \<Rightarrow>
       bindC (attempt (whenC (rest \<noteq> []) (update env t pk rest (Some (u_id u))))) (updated_reply env u t pk ds)))"

definition update_found :: "env \<Rightarrow> app_user \<Rightarrow> meta_table \<Rightarrow> pyval \<Rightarrow> pyval \<Rightarrow> row option \<Rightarrow> response comp" where
  "update_found env u t pk body r = (case r of
     None \<Rightarrow> retC (err 404 ''Record not found.'')
   | Some old \<Rightarrow> bindC (attempt (accepted env u t body True)) (update_accepted env u t pk old))"

definition api_update_row :: "env \<Rightarrow> app_user \<Rightarrow> pystr \<Rightarrow> pystr \<Rightarrow> pyval \<Rightarrow> response comp" where
  "api_update_row env u tn pk body = writing u tn (\<lambda>t.
     bindC (record_of u t (VStr pk)) (update_found env u t (VStr pk) body))"

definition api_delete_row :: "env \<Rightarrow> app_user \<Rightarrow> pystr \<Rightarrow> pystr \<Rightarrow> response comp" where
  "api_delete_row env u tn pk = writing u tn (\<lambda>t.
     bindC (record_of u t (VStr pk)) (\<lambda>r. case r of
       None \<Rightarrow> retC (err 404 ''Record not found.'')
     | Some _ \<Rightarrow>
       bindC (attempt (remove env t (VStr pk) (Some (u_id u)))) (\<lambda>c. case c of
         Inl e \<Rightarrow> retC (err 409 (''Could not delete: '' @ e_msg env e))
       | Inr _ \<Rightarrow> retC \<lparr>resp_status = 204, resp_body = VStr []\<rparr>)))"

subsection \<open>Bulk requests\<close>

abbreviation MAX_BULK :: nat where "MAX_BULK \<equiv> 1000"

definition bulk_list :: "pyval \<Rightarrow> pystr list \<Rightarrow> pyval list option" where
  "bulk_list body ks = (case body of
     VList xs \<Rightarrow> Some xs
   | VDict d \<Rightarrow> first_some (\<lambda>k. case rget d k of VList xs \<Rightarrow> Some xs | _ \<Rightarrow> None) ks
   | _ \<Rightarrow> None)"

definition bulk_setup ::
  "app_user \<Rightarrow> pystr \<Rightarrow> pyval \<Rightarrow> pystr \<Rightarrow> (meta_table \<Rightarrow> pyval list \<Rightarrow> response comp) \<Rightarrow> response comp" where
  "bulk_setup u tn body key f = writing u tn (\<lambda>t. case bulk_list body [key, ''records'', ''ids''] of
     None \<Rightarrow> retC (err 400 (''Body must be a JSON array or { '' @ key @ '': [...] }.''))
   | Some items \<Rightarrow> if MAX_BULK < length items then retC (err 400 ''Batch too large (max 1000).'') else f t items)"

text \<open>One item: what it yields is collected, what it raises is noted under its index.\<close>

definition bulk_item ::
  "env \<Rightarrow> (pyval \<Rightarrow> pyval comp) \<Rightarrow> nat \<times> pyval \<Rightarrow> pyval list \<times> (nat \<times> pystr) list \<Rightarrow>
     (pyval list \<times> (nat \<times> pystr) list) comp" where
  "bulk_item env f ix acc = (case (ix, acc) of ((i, x), (out, errors)) \<Rightarrow>
     bindC (attempt (f x)) (\<lambda>r. retC (case r of
       Inl e \<Rightarrow> (out, errors @ [(i, e_msg env e)])
     | Inr v \<Rightarrow> (out @ [v], errors))))"

definition bulk_run :: "env \<Rightarrow> (pyval \<Rightarrow> pyval comp) \<Rightarrow> pyval list \<Rightarrow> (pyval list \<times> (nat \<times> pystr) list) comp" where
  "bulk_run env f xs = foldC (bulk_item env f) (enumerate 0 xs) ([], [])"

definition bulk_reply :: "pystr \<Rightarrow> int \<Rightarrow> pyval list \<times> (nat \<times> pystr) list \<Rightarrow> response comp" where
  "bulk_reply key ok res = (case res of (out, errors) \<Rightarrow>
     jsonify (if errors = [] then ok else 207) (VDict [(key, VList out),
       (''errors'', VList (map (\<lambda>(i, m). VDict [(''index'', VInt (int i)), (''error'', VStr m)]) errors))]))"

definition create_item :: "env \<Rightarrow> app_user \<Rightarrow> meta_table \<Rightarrow> pystr list \<Rightarrow> pyval \<Rightarrow> pyval comp" where
  "create_item env u t writable x =
     bindC (deserialize env t x False (Some writable)) (\<lambda>vs. create env t vs (Some (u_id u)))"

definition api_bulk_create :: "env \<Rightarrow> app_user \<Rightarrow> pystr \<Rightarrow> pyval \<Rightarrow> response comp" where
  "api_bulk_create env u tn body = bulk_setup u tn body ''records'' (\<lambda>t items.
     bindC (getC (\<lambda>s. writable_fields s (Some u) t)) (\<lambda>w.
     bindC (bulk_run env (create_item env u t w) items) (bulk_reply ''created'' 201)))"

definition update_item :: "env \<Rightarrow> app_user \<Rightarrow> meta_table \<Rightarrow> pystr list \<Rightarrow> pyval \<Rightarrow> pyval comp" where
  "update_item env u t writable x =
     (let d = (case x of VDict d \<Rightarrow> d | _ \<Rightarrow> []); pk = rget d ''id'' in
      if pk = VNone then failC (ValueErr ''missing id'')
      else bindC (record_of u t pk) (\<lambda>r. case r of
        None \<Rightarrow> failC (ValueErr (''id '' @ py_str pk @ '' not found''))
      | Some old \<Rightarrow>
        bindC (deserialize env t (VDict (ddel ''id'' d)) True (Some writable)) (\<lambda>vs.
        bindC (getC (\<lambda>s. gate s t old vs u)) (\<lambda>g. case g of
          Inl e \<Rightarrow> failC (ValueErr (workflow_text e))
        | Inr (ds, rest) \<Rightarrow>
          bindC (whenC (rest \<noteq> []) (update env t pk rest (Some (u_id u)))) (\<lambda>_.
          bindC (request_all t pk u ds) (\<lambda>_. retC pk))))))"

definition api_bulk_update :: "env \<Rightarrow> app_user \<Rightarrow> pystr \<Rightarrow> pyval \<Rightarrow> response comp" where
  "api_bulk_update env u tn body = bulk_setup u tn body ''records'' (\<lambda>t items.
     bindC (getC (\<lambda>s. writable_fields s (Some u) t)) (\<lambda>w.
     bindC (bulk_run env (update_item env u t w) items) (bulk_reply ''updated'' 200)))"

definition delete_item :: "env \<Rightarrow> app_user \<Rightarrow> meta_table \<Rightarrow> pyval \<Rightarrow> pyval comp" where
  "delete_item env u t pk =
     bindC (record_of u t pk) (\<lambda>r. case r of
       None \<Rightarrow> failC (ValueErr (''id '' @ py_str pk @ '' not found''))
     | Some _ \<Rightarrow> bindC (remove env t pk (Some (u_id u))) (\<lambda>_. retC pk))"

definition api_bulk_delete :: "env \<Rightarrow> app_user \<Rightarrow> pystr \<Rightarrow> pyval \<Rightarrow> response comp" where
  "api_bulk_delete env u tn body = bulk_setup u tn body ''ids'' (\<lambda>t items.
     bindC (bulk_run env (delete_item env u t) items) (bulk_reply ''deleted'' 200))"

subsection \<open>Requests\<close>

datatype api_call =
    Index
  | ListRows pystr "(pystr, pystr) dict"
  | TableFields pystr
  | GetRow pystr pystr
  | CreateRow pystr pyval
  | UpdateRow pystr pystr pyval
  | DeleteRow pystr pystr
  | BulkCreate pystr pyval
  | BulkUpdate pystr pyval
  | BulkDelete pystr pyval

definition route :: "env \<Rightarrow> app_user \<Rightarrow> api_call \<Rightarrow> response comp" where
  "route env u c = (case c of
     Index \<Rightarrow> api_index u
   | ListRows tn args \<Rightarrow> api_list_rows u tn args
   | TableFields tn \<Rightarrow> api_table_fields u tn
   | GetRow tn pk \<Rightarrow> api_get_row u tn pk
   | CreateRow tn body \<Rightarrow> api_create_row env u tn body
   | UpdateRow tn pk body \<Rightarrow> api_update_row env u tn pk body
   | DeleteRow tn pk \<Rightarrow> api_delete_row env u tn pk
   | BulkCreate tn body \<Rightarrow> api_bulk_create env u tn body
   | BulkUpdate tn body \<Rightarrow> api_bulk_update env u tn body
   | BulkDelete tn body \<Rightarrow> api_bulk_delete env u tn body)"

text \<open>The guard of the blueprint; it marks the request, so that feeds know where a write came from.\<close>

definition api_request :: "env \<Rightarrow> app_user option \<Rightarrow> api_call \<Rightarrow> response comp" where
  "api_request env user c = (case user of
     None \<Rightarrow> retC (err 401 ''Missing or invalid API token.'')
   | Some u \<Rightarrow> if is_portal u then retC (err 403 ''Portal accounts cannot access this API.'')
               else route (env\<lparr>e_via_api := True\<rparr>) u c)"

subsection \<open>Reads, and refused writes, leave no trace\<close>

definition table_of :: "api_call \<Rightarrow> pystr" where
  "table_of c = (case c of
     Index \<Rightarrow> [] | ListRows tn _ \<Rightarrow> tn | TableFields tn \<Rightarrow> tn | GetRow tn _ \<Rightarrow> tn | CreateRow tn _ \<Rightarrow> tn
   | UpdateRow tn _ _ \<Rightarrow> tn | DeleteRow tn _ \<Rightarrow> tn | BulkCreate tn _ \<Rightarrow> tn | BulkUpdate tn _ \<Rightarrow> tn
   | BulkDelete tn _ \<Rightarrow> tn)"

definition reads_only :: "api_call \<Rightarrow> bool" where
  "reads_only c = (case c of Index \<Rightarrow> True | ListRows _ _ \<Rightarrow> True | TableFields _ \<Rightarrow> True | GetRow _ _ \<Rightarrow> True | _ \<Rightarrow> False)"

definition authorised :: "db \<Rightarrow> app_user option \<Rightarrow> api_call \<Rightarrow> bool" where
  "authorised s user c \<longleftrightarrow> (case user of None \<Rightarrow> False | Some u \<Rightarrow> \<not> is_portal u) \<and>
     (reads_only c \<or> (\<exists>t. table_by_phys s (table_of c) = Some t \<and> table_writable s user t))"

lemma keeps_attempt: "keeps R m \<Longrightarrow> keeps R (attempt m)"
  unfolding keeps_def attempt_def by (auto split: prod.splits) (metis snd_conv)

lemma attempt_raise_free [intro, simp]: "raise_free (attempt m)"
  by (auto simp: raise_free_def attempt_def split: prod.splits)

lemma attemptD: "attempt m s = (Inr r, s') \<Longrightarrow> m s = (r, s')"
  by (auto simp: attempt_def split: prod.splits)

lemma reads_record: "keeps (=) (record_of u t pk)"
  by (simp add: keeps_def)

lemma reads_jsonify: "keeps (=) (jsonify n d)" "keeps (=) (shown u t r)"
  unfolding jsonify_def shown_def by (intro reads.keeps)+

lemma reads_routes:
  "keeps (=) (api_index u)" "keeps (=) (api_list_rows u tn args)" "keeps (=) (api_table_fields u tn)"
  "keeps (=) (api_get_row u tn pk)"
  unfolding api_index_def api_list_rows_def api_table_fields_def api_get_row_def with_table_def list_records_def list_rows_def
  by (intro reads.keeps reads.keeps_read reads_record reads_jsonify)+

lemma reads_accepted: "keeps (=) (accepted env u t body partial)"
  unfolding accepted_def deserialize_def api_entry_def api_value_def make_relation_resolver_def load_options_def Let_def
  by (cases body) (auto intro!: reads.keeps reads.keeps_read split: prod.split option.split)

lemma writing_refused:
  assumes "\<And>t. table_by_phys s tn = Some t \<Longrightarrow> \<not> table_writable s (Some u) t"
  shows "\<exists>r. writing u tn f s = (Inr r, s) \<and> resp_status r \<in> {403, 404}"
  using assms by (cases "table_by_phys s tn") (auto simp: with_table_def comp_simps err_def)

lemma route_writes: "\<not> reads_only c \<Longrightarrow> \<exists>f. route env u c = writing u (table_of c) f"
  by (cases c) (auto simp: reads_only_def table_of_def route_def api_create_row_def api_update_row_def
      api_delete_row_def api_bulk_create_def api_bulk_update_def api_bulk_delete_def bulk_setup_def)

lemma route_refused:
  assumes "\<not> reads_only c" "\<And>t. table_by_phys s (table_of c) = Some t \<Longrightarrow> \<not> table_writable s (Some u) t"
  shows "\<exists>r. route env u c s = (Inr r, s) \<and> resp_status r \<in> {403, 404}"
proof -
  obtain f where "route env u c = writing u (table_of c) f" using route_writes [OF assms(1)] by blast
  then show ?thesis using writing_refused [OF assms(2)] by simp
qed

text \<open>
  C16: A request changes nothing unless it is authorised: made by an account that is not a portal
  account and, when it writes, with write access to the table. One that is not is answered with
  401, 403 or 404 (a read of such an account aside), and no read changes anything.
\<close>

theorem api_needs_authority:
  assumes "api_request env user c s = (r, s')" and "\<not> authorised s user c \<or> reads_only c"
  shows "s' = s \<and> (\<not> authorised s user c \<longrightarrow> (\<exists>x. r = Inr x \<and> resp_status x \<in> {401, 403, 404}))"
proof (cases user)
  case None
  with assms show ?thesis by (auto simp: api_request_def retC_def err_def)
next
  case (Some u)
  show ?thesis
  proof (cases "is_portal u")
    case True
    with Some assms show ?thesis by (auto simp: api_request_def retC_def err_def)
  next
    case False
    show ?thesis
    proof (cases "reads_only c")
      case True
      have "keeps (=) (route (env\<lparr>e_via_api := True\<rparr>) u c)"
        using True reads_routes by (cases c) (simp_all add: reads_only_def route_def)
      with assms(1) Some False have "s' = s" by (auto simp: api_request_def dest: keepsD)
      moreover have "authorised s user c" using Some False True by (simp add: authorised_def)
      ultimately show ?thesis by simp
    next
      case False
      with assms(2) Some \<open>\<not> is_portal u\<close> have "\<exists>r. route (env\<lparr>e_via_api := True\<rparr>) u c s = (Inr r, s) \<and> resp_status r \<in> {403, 404}"
        by (intro route_refused) (auto simp: authorised_def)
      with assms(1) Some \<open>\<not> is_portal u\<close> show ?thesis by (auto simp: api_request_def)
    qed
  qed
qed

subsection \<open>What a response shows\<close>

text \<open>The field permissions are not touched.\<close>

definition same_fperms :: "db \<Rightarrow> db \<Rightarrow> bool" where
  "same_fperms s s' \<longleftrightarrow> d_fperms s' = d_fperms s"

interpretation fperms: action_frame same_fperms
  by unfold_locales (simp_all add: same_fperms_def add_notif_def put_phys_def)

interpretation fperms: write_frame same_fperms
  by unfold_locales (simp_all add: same_fperms_def fperms.keeps_sla_event)

lemma fperms_request: "keeps same_fperms (request_transition t w pk frm to u)"
  using fperms.notified(1) [OF fperms.notif]
  by (auto simp: keeps_def request_transition_def Let_def same_fperms_def split: option.split)

lemma fperms_writes:
  "keeps same_fperms (attempt (create env t vs i))" "keeps same_fperms (attempt (whenC b (update env t pk vs i)))"
  "keeps same_fperms (request_all t pk u ds)"
  unfolding request_all_def
  by (intro keeps_attempt fperms.keeps fperms_request fperms.keeps_create fperms.keeps_update_record)+

lemma fperms_readable: "same_fperms s s' \<Longrightarrow> readable_fields s' user t = readable_fields s user t"
  by (simp add: same_fperms_def readable_fields_def fields_with_def field_perm_map_def split: option.split)

lemma keys_serialize [simp]: "dkeys (serialize_row hide r) = filter (\<lambda>k. k \<notin> set hide) (dkeys r)"
  by (induction r) (auto simp: serialize_row_def dkeys_def)

text \<open>The columns of a dict the caller may see.\<close>

definition visible :: "db \<Rightarrow> app_user option \<Rightarrow> meta_table \<Rightarrow> row \<Rightarrow> bool" where
  "visible s user t d \<longleftrightarrow> (\<forall>k\<in>set (dkeys d). k \<in> f_phys_name ` set (t_fields t) \<longrightarrow> k \<in> set (readable_fields s user t))"

lemma visible_serialized: "visible s (Some u) t (serialize_row (hidden s u t) r)"
  by (auto simp: visible_def hidden_def)

lemma shown_visible: "shown u t r s = (Inr d, s') \<Longrightarrow> visible s (Some u) t d \<and> s' = s"
  by (auto simp: shown_def getC_def failC_def visible_serialized split: option.splits)

lemma visible_same: "same_fperms s s' \<Longrightarrow> visible s' user t d = visible s user t d"
  by (simp add: visible_def fperms_readable)

text \<open>The records of a response that is not an error.\<close>

definition shown_rows :: "api_call \<Rightarrow> response \<Rightarrow> row list" where
  "shown_rows c r = (case resp_body r of
     VDict d \<Rightarrow>
       (case c of
          ListRows _ _ \<Rightarrow> (case rget d ''data'' of
              VList xs \<Rightarrow> List.map_filter (\<lambda>v. case v of VDict r \<Rightarrow> Some r | _ \<Rightarrow> None) xs | _ \<Rightarrow> [])
        | GetRow _ _ \<Rightarrow> [d]
        | CreateRow _ _ \<Rightarrow> [d]
        | UpdateRow _ _ _ \<Rightarrow> [ddel ''_pending_approvals'' d]
        | _ \<Rightarrow> [])
   | _ \<Rightarrow> [])"

lemma jsonifyD: "jsonify n d s = (Inr r, s') \<Longrightarrow> r = \<lparr>resp_status = n, resp_body = d\<rparr> \<and> s' = s"
  by (auto simp: jsonify_def retC_def failC_def split: if_splits)

lemma ok_with_table:
  assumes "with_table allowed denied u tn f s = (Inr r, s')" "resp_status r \<in> {200, 201}" "table_by_phys s tn = Some t"
  shows "allowed s (Some u) t \<and> f t s = (Inr r, s')"
  using assms by (auto simp: with_table_def comp_simps err_def split: if_splits)

lemma documents_map:
  "List.map_filter (\<lambda>v. case v of VDict r \<Rightarrow> Some r | _ \<Rightarrow> None) (map (\<lambda>r. VDict (f r)) rs) = map f rs"
  by (induction rs) (simp_all add: List.map_filter_simps)

lemma list_shown:
  assumes "api_list_rows u tn args s = (Inr r, s')" "resp_status r \<in> {200, 201}" "table_by_phys s tn = Some t"
    and "d \<in> set (shown_rows (ListRows tn args) r)"
  shows "visible s (Some u) t d"
proof -
  from ok_with_table [OF assms(1-3) [unfolded api_list_rows_def]] assms(2)
  obtain rows total n m s1 where run: "list_records t (Some (u_id u)) (is_designer u) False (query_filters t args) (dget args ''sort'')
      (case dget args ''order'' of None \<Rightarrow> ''asc'' | Some x \<Rightarrow> x) n (Some m) s = (Inr (rows, total), s1)"
    "resp_body r = VDict [(''data'', VList (map (\<lambda>r. VDict (serialize_row (hidden s1 u t) r)) rows)),
       (''page'', VInt n), (''per_page'', VInt m), (''total'', VInt total)]"
    by (auto simp: comp_simps err_def elim!: bindC_InrE dest!: jsonifyD split: option.splits prod.splits)
  have "keeps (=) (list_records t (Some (u_id u)) (is_designer u) False (query_filters t args) (dget args ''sort'')
      (case dget args ''order'' of None \<Rightarrow> ''asc'' | Some x \<Rightarrow> x) n (Some m))"
    unfolding list_records_def list_rows_def by (intro reads.keeps reads.keeps_read)
  from keepsD [OF this run(1)] have "s1 = s" by (rule sym)
  moreover from run(2) have "shown_rows (ListRows tn args) r = map (serialize_row (hidden s1 u t)) rows"
    by (simp add: shown_rows_def rget_def dget_Cons documents_map)
  ultimately show ?thesis using assms(4) visible_serialized by auto
qed

lemma get_shown:
  assumes "api_get_row u tn pk s = (Inr r, s')" "resp_status r \<in> {200, 201}" "table_by_phys s tn = Some t"
    and "d \<in> set (shown_rows (GetRow tn pk) r)"
  shows "visible s (Some u) t d"
  using ok_with_table [OF assms(1-3) [unfolded api_get_row_def]] assms(2,4)
  by (auto simp: comp_simps err_def shown_rows_def elim!: bindC_InrE dest!: jsonifyD shown_visible get_record_stays
      split: option.splits)

lemma accepted_run: "attempt (accepted env u t body partial) s = (Inr r, s') \<Longrightarrow> accepted env u t body partial s = (r, s) \<and> s' = s"
  using keepsD [OF reads_accepted] by (metis attemptD)

lemma answer_shown:
  assumes "bindC (record_of u t pk) (\<lambda>row. bindC (shown u t row) (\<lambda>d. jsonify n (VDict (f d)))) s = (Inr r, s')"
  shows "\<exists>d. resp_body r = VDict (f d) \<and> visible s (Some u) t d \<and> s' = s"
  using assms by (auto elim!: bindC_InrE dest!: jsonifyD shown_visible get_record_stays)

lemma create_shown:
  assumes "api_create_row env u tn body s = (Inr r, s')" "resp_status r \<in> {200, 201}" "table_by_phys s tn = Some t"
    and "d \<in> set (shown_rows (CreateRow tn body) r)"
  shows "visible s (Some u) t d"
proof -
  from ok_with_table [OF assms(1-3) [unfolded api_create_row_def]] obtain x s0 where
    acc: "attempt (accepted env u t body False) s = (Inr x, s0)" and cont: "create_accepted env u t x s0 = (Inr r, s')"
    by (auto elim: bindC_InrE)
  from cont assms(2) accepted_run [OF acc] obtain vs
    where "bindC (attempt (create env t vs (Some (u_id u)))) (created_reply env u t) s = (Inr r, s')"
    by (auto simp: create_accepted_def retC_def failC_def err_def split: sum.splits exn.splits)
  then obtain c s1 where c: "attempt (create env t vs (Some (u_id u))) s = (Inr c, s1)"
    and ans: "created_reply env u t c s1 = (Inr r, s')"
    by (rule bindC_InrE)
  from ans assms(2) obtain pk where "bindC (record_of u t pk) (\<lambda>row. bindC (shown u t row) (\<lambda>d. jsonify 201 (VDict d))) s1 = (Inr r, s')"
    by (auto simp: created_reply_def retC_def err_def split: sum.splits)
  from answer_shown [OF this] obtain d' where "resp_body r = VDict d'" "visible s1 (Some u) t d'" by blast
  with assms(4) visible_same [OF keepsD [OF fperms_writes(1) c]] show ?thesis by (simp add: shown_rows_def)
qed

text \<open>An update that is answered with 200 went through the gate.\<close>

lemma update_gated:
  assumes "api_update_row env u tn pk body s = (Inr r, s')" "resp_status r = 200" "table_by_phys s tn = Some t"
  obtains old vs ds rest s1 s2 d where "record_of u t (VStr pk) s = (Inr (Some old), s)"
    "accepted env u t body True s = (Inr vs, s)" "gate s t old vs u = Inr (ds, rest)"
    "whenC (rest \<noteq> []) (update env t (VStr pk) rest (Some (u_id u))) s = (Inr (), s1)"
    "request_all t (VStr pk) u ds s1 = (Inr (), s2)" "resp_body r = VDict (with_pending ds d)"
    "visible s2 (Some u) t d" "s' = s2"
proof -
  from ok_with_table [OF assms(1) [unfolded api_update_row_def] _ assms(3)] assms(2) obtain x s0 where
    rec: "record_of u t (VStr pk) s = (Inr x, s0)" and cont: "update_found env u t (VStr pk) body x s0 = (Inr r, s')"
    by (auto elim: bindC_InrE)
  have s0: "s0 = s" by (rule get_record_stays [OF rec])
  from cont assms(2) s0 obtain old where old: "x = Some old"
    and "bindC (attempt (accepted env u t body True)) (update_accepted env u t (VStr pk) old) s = (Inr r, s')"
    by (auto simp: update_found_def retC_def err_def split: option.splits)
  then obtain y s3 where acc: "attempt (accepted env u t body True) s = (Inr y, s3)"
    and cont: "update_accepted env u t (VStr pk) old y s3 = (Inr r, s')"
    by (auto elim: bindC_InrE)
  from accepted_run [OF acc] have acc: "accepted env u t body True s = (y, s)" and s3: "s3 = s" by simp_all
  from cont assms(2) s3 obtain vs ds rest where y: "y = Inr vs" and gate: "gate s t old vs u = Inr (ds, rest)"
    and "bindC (attempt (whenC (rest \<noteq> []) (update env t (VStr pk) rest (Some (u_id u))))) (updated_reply env u t (VStr pk) ds) s = (Inr r, s')"
    by (auto simp: update_accepted_def comp_simps err_def split: sum.splits exn.splits)
  then obtain c s1 where c: "attempt (whenC (rest \<noteq> []) (update env t (VStr pk) rest (Some (u_id u)))) s = (Inr c, s1)"
    and cont: "updated_reply env u t (VStr pk) ds c s1 = (Inr r, s')"
    by (auto elim: bindC_InrE)
  from cont assms(2) have cr: "c = Inr ()" and "bindC (request_all t (VStr pk) u ds) (\<lambda>_. bindC (record_of u t (VStr pk)) (\<lambda>row.
         bindC (shown u t row) (\<lambda>d. jsonify 200 (VDict (with_pending ds d))))) s1 = (Inr r, s')"
    by (auto simp: updated_reply_def retC_def err_def split: sum.splits)
  then obtain v s2 where req: "request_all t (VStr pk) u ds s1 = (Inr v, s2)" and ans: "bindC (record_of u t (VStr pk)) (\<lambda>row.
         bindC (shown u t row) (\<lambda>d. jsonify 200 (VDict (with_pending ds d)))) s2 = (Inr r, s')"
    by (auto elim: bindC_InrE)
  from answer_shown [OF ans] obtain d where "resp_body r = VDict (with_pending ds d)" "visible s2 (Some u) t d" "s' = s2" by blast
  with rec old s0 acc y gate attemptD [OF c] cr req show ?thesis by (intro that) simp_all
qed

lemma update_shown:
  assumes "api_update_row env u tn pk body s = (Inr r, s')" "resp_status r = 200" "table_by_phys s tn = Some t"
    and "d \<in> set (shown_rows (UpdateRow tn pk body) r)"
  shows "visible s (Some u) t d"
  using assms(1-3)
proof (rule update_gated)
  fix old vs ds rest s1 s2 d'
  assume run: "whenC (rest \<noteq> []) (update env t (VStr pk) rest (Some (u_id u))) s = (Inr (), s1)"
    "request_all t (VStr pk) u ds s1 = (Inr (), s2)" "resp_body r = VDict (with_pending ds d')" "visible s2 (Some u) t d'"
  have "attempt (whenC (rest \<noteq> []) (update env t (VStr pk) rest (Some (u_id u)))) s = (Inr (Inr ()), s1)"
    using run(1) by (simp add: attempt_def)
  then have "same_fperms s s1" by (rule keepsD [OF fperms_writes(2)])
  moreover have "same_fperms s1 s2" by (rule keepsD [OF fperms_writes(3) run(2)])
  ultimately have "visible s (Some u) t d'" using run(4) visible_same by metis
  moreover from assms(4) run(3) have "set (dkeys d) \<subseteq> set (dkeys d')"
    by (auto simp: shown_rows_def with_pending_def split: if_splits)
  ultimately show ?thesis by (auto simp: visible_def)
qed



subsection \<open>Bulk requests account for every item\<close>

text \<open>Each item on its own, run on the state its predecessor left.\<close>

fun item_results :: "(pyval \<Rightarrow> pyval comp) \<Rightarrow> pyval list \<Rightarrow> db \<Rightarrow> (exn + pyval) list" where
  "item_results f [] s = []"
| "item_results f (x # xs) s = fst (f x s) # item_results f xs (snd (f x s))"

fun items_done :: "(pyval \<Rightarrow> pyval comp) \<Rightarrow> pyval list \<Rightarrow> db \<Rightarrow> db" where
  "items_done f [] s = s"
| "items_done f (x # xs) s = items_done f xs (snd (f x s))"

definition results_of :: "(exn + pyval) list \<Rightarrow> pyval list" where
  "results_of rs = List.map_filter (\<lambda>r. case r of Inl _ \<Rightarrow> None | Inr v \<Rightarrow> Some v) rs"

definition errors_of :: "env \<Rightarrow> nat \<Rightarrow> (exn + pyval) list \<Rightarrow> (nat \<times> pystr) list" where
  "errors_of env n rs = List.map_filter (\<lambda>(i, r). case r of Inl e \<Rightarrow> Some (i, e_msg env e) | Inr _ \<Rightarrow> None) (enumerate n rs)"

lemma bulk_fold:
  "foldC (bulk_item env f) (enumerate n xs) (out, errors) s =
     (Inr (out @ results_of (item_results f xs s), errors @ errors_of env n (item_results f xs s)), items_done f xs s)"
proof (induction xs arbitrary: n out errors s)
  case (Cons x xs)
  obtain r s1 where run: "f x s = (r, s1)" by (cases "f x s")
  show ?case
  proof (cases r)
    case (Inl e)
    have "bulk_item env f (n, x) (out, errors) s = (Inr (out, errors @ [(n, e_msg env e)]), s1)"
      by (simp add: bulk_item_def bindC_def attempt_def run retC_def Inl)
    with Inl run show ?thesis
      by (simp add: bindC_Inr Cons.IH results_of_def errors_of_def List.map_filter_simps)
  next
    case (Inr v)
    have "bulk_item env f (n, x) (out, errors) s = (Inr (out @ [v], errors), s1)"
      by (simp add: bulk_item_def bindC_def attempt_def run retC_def Inr)
    with Inr run show ?thesis
      by (simp add: bindC_Inr Cons.IH results_of_def errors_of_def List.map_filter_simps)
  qed
qed (simp add: results_of_def errors_of_def List.map_filter_simps retC_def)

lemma bulk_accounted: "length (results_of rs) + length (errors_of env n rs) = length rs"
  by (induction rs arbitrary: n) (auto simp: results_of_def errors_of_def List.map_filter_simps split: sum.split)

definition bulk_answer :: "env \<Rightarrow> pystr \<Rightarrow> int \<Rightarrow> (exn + pyval) list \<Rightarrow> response" where
  "bulk_answer env key ok rs = \<lparr>resp_status = (if errors_of env 0 rs = [] then ok else 207),
     resp_body = VDict [(key, VList (results_of rs)), (''errors'', VList (map (\<lambda>(i, m).
       VDict [(''index'', VInt (int i)), (''error'', VStr m)]) (errors_of env 0 rs)))]\<rparr>"

lemma bulk_replied:
  assumes "list_all json_ok (results_of (item_results f items s))"
  shows "bindC (bulk_run env f items) (bulk_reply key ok) s =
    (Inr (bulk_answer env key ok (item_results f items s)), items_done f items s)"
proof -
  have "json_ok (VList (map (\<lambda>(i, m). VDict [(''index'', VInt (int i)), (''error'', VStr m)]) es))" for es :: "(nat \<times> pystr) list"
    by (simp add: list_all_iff split: prod.split)
  with assms show ?thesis
    unfolding bulk_run_def bindC_def bulk_fold by (simp add: bulk_reply_def jsonify_def retC_def bulk_answer_def)
qed

lemma delete_results:
  assumes "list_all json_ok items" shows "list_all json_ok (results_of (item_results (delete_item env u t) items s))"
proof -
  have "fst (delete_item env u t x s0) = Inr v \<Longrightarrow> v = x" for x v s0
    by (auto simp: delete_item_def bindC_def retC_def failC_def split: prod.splits sum.splits option.splits)
  with assms show ?thesis
    by (induction items arbitrary: s) (auto simp: results_of_def List.map_filter_simps split: sum.split)
qed

text \<open>
  A bulk deletion is as if every item were processed alone, in order, on what its predecessors left: the
  keys deleted and the errors, each under the index of its item, are those of the items; they
  account for all of them; and the request as a whole is answered with 200, or 207 when an item failed.
\<close>

theorem bulk_delete_isolated:
  assumes "table_by_phys s tn = Some t" "table_writable s (Some u) t"
    and "bulk_list body [''ids'', ''records'', ''ids''] = Some items" "length items \<le> MAX_BULK"
    and "list_all json_ok items"
  shows "api_bulk_delete env u tn body s =
      (Inr (bulk_answer env ''deleted'' 200 (item_results (delete_item env u t) items s)),
       items_done (delete_item env u t) items s) \<and>
    length (results_of (item_results (delete_item env u t) items s)) +
      length (errors_of env 0 (item_results (delete_item env u t) items s)) = length items"
proof
  show "api_bulk_delete env u tn body s =
      (Inr (bulk_answer env ''deleted'' 200 (item_results (delete_item env u t) items s)),
       items_done (delete_item env u t) items s)"
    using assms(1-4) bulk_replied [OF delete_results [OF assms(5)]]
    by (simp add: api_bulk_delete_def bulk_setup_def with_table_def comp_simps)
  have "length (item_results f xs s0) = length xs" for f xs s0 by (induction xs arbitrary: s0) simp_all
  then show "length (results_of (item_results (delete_item env u t) items s)) +
      length (errors_of env 0 (item_results (delete_item env u t) items s)) = length items"
    by (simp add: bulk_accounted)
qed

subsection \<open>Instances\<close>

definition api_field :: "int \<Rightarrow> pystr \<Rightarrow> pystr \<Rightarrow> meta_field" where
  "api_field i n ty = \<lparr>f_id = i, f_table_id = 1, f_phys_name = n, f_label = n, f_data_type = ty, f_length = None,
     f_precision = None, f_scale = None, f_nullable = True, f_default_value = None,
     f_is_unique = False, f_position = i, f_enum_options = JEmpty, f_enum_colors = JEmpty,
     f_related_table_id = None, f_on_delete = None, f_min_length = None, f_max_length = None,
     f_min_value = None, f_max_value = None, f_pattern = None, f_formula = None, f_result_type = None\<rparr>"

definition api_table :: meta_table where
  "api_table = workflow_table\<lparr>t_track_audit := False,
     t_fields := [api_field 1 ''state'' ''string'', api_field 2 ''org'' ''company'', api_field 3 ''pay'' ''string'']\<rparr>"

definition api_phys :: phys where
  "api_phys = \<lparr>ph_cols = [(''id'', CInt, False), (''state'', CStr, True), (''org'', CInt, True), (''pay'', CStr, True)], ph_pk = ''id'',
     ph_rows = [[(''id'', VInt 1), (''state'', VStr ''new''), (''org'', VInt 1), (''pay'', VStr ''90'')]], ph_uniq = [], ph_next = 2\<rparr>"

text \<open>An account of company 1, whose role may not read the field \<open>pay\<close>.\<close>

definition api_user :: app_user where
  "api_user = (sample_user ''user'')\<lparr>u_company_id := Some 1\<rparr>"

definition api_db :: db where
  "api_db = workflow_db\<lparr>d_users := [api_user], d_tables := [api_table], d_forms := [portal_form],
     d_companies := [\<lparr>co_id = 1, co_name = ''Acme'', co_parent_id = None\<rparr>, \<lparr>co_id = 2, co_name = ''Other'', co_parent_id = None\<rparr>],
     d_fperms := [\<lparr>fp_id = 1, fp_role = ''user'', fp_field_id = 3, fp_access = access_none\<rparr>], d_phys := [(''tickets'', api_phys)]\<rparr>"

theorem api_needs_authority_witness:
  "api_request plain_env (Some api_user) (DeleteRow ''gone'' ''1'') api_db = (Inr (err 404 ''Unknown table.''), api_db) \<and>
   resp_status (err 404 ''Unknown table.'') \<in> {401, 403, 404}"
proof -
  have run: "api_request plain_env (Some api_user) (DeleteRow ''gone'' ''1'') api_db =
      (Inr (err 404 ''Unknown table.''), snd (api_request plain_env (Some api_user) (DeleteRow ''gone'' ''1'') api_db))"
    by code_simp
  have no: "\<not> authorised api_db (Some api_user) (DeleteRow ''gone'' ''1'')"
    by (simp add: authorised_def reads_only_def table_of_def table_by_phys_def api_db_def api_table_def workflow_table_def)
  from api_needs_authority [OF run] no show ?thesis using run by auto
qed



theorem bulk_delete_isolated_witness:
  "fst (api_bulk_delete plain_env api_user ''tickets'' (VList [VInt 1, VInt 2]) api_db) =
     Inr (bulk_answer plain_env ''deleted'' 200 (item_results (delete_item plain_env api_user api_table) [VInt 1, VInt 2] api_db))"
proof -
  have "api_bulk_delete plain_env api_user ''tickets'' (VList [VInt 1, VInt 2]) api_db =
      (Inr (bulk_answer plain_env ''deleted'' 200 (item_results (delete_item plain_env api_user api_table) [VInt 1, VInt 2] api_db)),
       items_done (delete_item plain_env api_user api_table) [VInt 1, VInt 2] api_db)"
    by (rule conjunct1 [OF bulk_delete_isolated])
      (code_simp | simp add: table_by_phys_def api_db_def api_table_def workflow_table_def bulk_list_def)+
  then show ?thesis by simp
qed

text \<open>
  A filter on a column the caller may not read is applied: the number of hits reveals its value. (No row of
  the answers holds the column.)
\<close>

lemma filter_reveals_hidden:
  "''pay'' \<in> set (hidden api_db api_user api_table) \<and>
   fst (api_list_rows api_user ''tickets'' [(''pay'', ''90'')] api_db) \<noteq> fst (api_list_rows api_user ''tickets'' [(''pay'', ''91'')] api_db)"
  by code_simp

text \<open>
  A record created outside the companies of its author is stored, and the request fails: it cannot be
  read back for the answer.
\<close>

lemma create_out_of_scope:
  "let m = api_create_row plain_env api_user ''tickets'' (VDict [(''state'', VStr ''new''), (''org'', VInt 2)]) api_db in
     fst m = Inl TypeErr \<and> map_option (\<lambda>p. length (ph_rows p)) (dget (d_phys (snd m)) ''tickets'') = Some 2"
  by code_simp

end
