(* ===== verification/Sign_In.thy ===== *)
theory Sign_In
  imports Totp Rate_Limit Settings Companies
begin

text \<open>
  Signing in: \<open>app/auth/routes.py\<close> (password, second factor, single sign-on, accounts), the loaders of
  \<open>app/helpers.py\<close> and the API tokens of \<open>app/api/tokens.py\<close>. The cookie session is a record; a
  form that passed its validators is \<open>Some\<close> of its fields. The password hash of Werkzeug is the record
  \<open>hasher\<close>; what the identity provider returns, and drawn secrets and codes, are arguments.

  Shown: whoever is signed in gave the password of the account, and a code when the account has a second
  factor, or came from the identity provider; a locked name or address gets no password checked;
  a page to return to is local, however it is encoded; a minted token signs its owner in; and no
  operation makes two accounts of one name. Findings: the bulk import fails on a name that occurs twice,
  and renaming an account to a taken name raises.
\<close>

record hasher =
  pw_check :: "pystr \<Rightarrow> pystr \<Rightarrow> bool"
  pw_hash :: "pystr \<Rightarrow> pystr"

record web_session =
  ws_user :: "int option"
  ws_permanent :: bool
  ws_mfa_uid :: "int option"
  ws_mfa_next :: pystr
  ws_setup_secret :: "pystr option"
  ws_oidc_state :: "pystr option"
  ws_oidc_nonce :: "pystr option"
  ws_oidc_next :: pystr

definition fresh_session :: web_session where
  "fresh_session = \<lparr>ws_user = None, ws_permanent = False, ws_mfa_uid = None, ws_mfa_next = [],
     ws_setup_secret = None, ws_oidc_state = None, ws_oidc_nonce = None, ws_oidc_next = []\<rparr>"

datatype view = Redirect pystr | Page pystr

record reply =
  re_view :: view
  re_flash :: "pystr list"
  re_session :: web_session

definition answer :: "view \<Rightarrow> pystr list \<Rightarrow> web_session \<Rightarrow> reply comp" where
  "answer v msgs ws = retC \<lparr>re_view = v, re_flash = msgs, re_session = ws\<rparr>"

abbreviation index_url :: pystr where "index_url \<equiv> ''/''"
abbreviation login_url :: pystr where "login_url \<equiv> ''/auth/login''"
abbreviation users_url :: pystr where "users_url \<equiv> ''/auth/users''"

subsection \<open>The page to return to\<close>

text \<open>
  \<open>urlsplit\<close> as far as it is looked at: the scheme before a colon, the host between \<open>//\<close> and the path,
  and the error for an unmatched bracket in the host.
\<close>

definition scheme_char :: "char \<Rightarrow> bool" where
  "scheme_char c = (is_alpha c \<or> is_dec c \<or> c \<in> set ''+-.'')"

definition url_scheme :: "pystr \<Rightarrow> pystr \<times> pystr" where
  "url_scheme s = (let a = takeWhile (\<lambda>c. c \<noteq> CHR '':'') s; b = dropWhile (\<lambda>c. c \<noteq> CHR '':'') s in
     if b \<noteq> [] \<and> a \<noteq> [] \<and> is_alpha (hd a) \<and> list_all scheme_char a then (a, tl b) else ([], s))"

definition url_netloc :: "pystr \<Rightarrow> pystr" where
  "url_netloc s = (if prefix ''//'' s then takeWhile (\<lambda>c. c \<notin> set ''/?#'') (drop 2 s) else [])"

definition urlsplit_local :: "pystr \<Rightarrow> bool" where
  "urlsplit_local s = (case url_scheme s of (scheme, rest) \<Rightarrow>
     let host = url_netloc rest in
     (CHR ''['' \<in> set host) = (CHR '']'' \<in> set host) \<and> scheme = [] \<and> host = [])"

text \<open>
  \<open>unquote\<close>: an escape of two hexadecimal digits is the byte it names. A byte beyond ASCII stands for
  itself, where Python decodes UTF-8: nothing the caller looks at.
\<close>

definition hex_val :: "char \<Rightarrow> int option" where
  "hex_val c = (let n = code c in
     if 48 \<le> n \<and> n \<le> 57 then Some (n - 48)
     else if 65 \<le> n \<and> n \<le> 70 then Some (n - 55)
     else if 97 \<le> n \<and> n \<le> 102 then Some (n - 87) else None)"

fun unquote :: "pystr \<Rightarrow> pystr" where
  "unquote (c # x # y # s) = (if c = CHR ''%''
     then (case (hex_val x, hex_val y) of
             (Some a, Some b) \<Rightarrow> char_of (nat (16 * a + b)) # unquote s
           | _ \<Rightarrow> c # unquote (x # y # s))
     else c # unquote (x # y # s))"
| "unquote s = s"

definition local_path :: "pystr \<Rightarrow> bool" where
  "local_path s = (prefix ''/'' s \<and> \<not> prefix ''//'' s \<and> CHR 0x5C \<notin> set s \<and>
     list_all (\<lambda>c. \<not> (code c < 32 \<or> code c = 127)) s \<and> urlsplit_local s)"

lemma unquote_cases:
  "unquote (c # x # y # s) = (if c = CHR ''%'' \<and> hex_val x \<noteq> None \<and> hex_val y \<noteq> None
     then char_of (nat (16 * the (hex_val x) + the (hex_val y))) # unquote s else c # unquote (x # y # s))"
  by (auto split: option.split)

lemma length_unquote: "length (unquote s) \<le> length s"
proof (induction "length s" arbitrary: s rule: less_induct)
  case less
  show ?case
  proof (cases "\<exists>c x y t. s = c # x # y # t")
    case True
    then obtain c x y t where s: "s = c # x # y # t" by blast
    from less [of t] less [of "x # y # t"] show ?thesis unfolding s unquote_cases by simp
  next
    case False
    then show ?thesis by (cases s rule: unquote.cases) simp_all
  qed
qed

lemma unquote_shorter: "unquote s \<noteq> s \<Longrightarrow> length (unquote s) < length s"
proof (induction "length s" arbitrary: s rule: less_induct)
  case less
  show ?case
  proof (cases "\<exists>c x y t. s = c # x # y # t")
    case True
    then obtain c x y t where s: "s = c # x # y # t" by blast
    from less(1) [of "x # y # t"] less(2) length_unquote [of t] show ?thesis
      unfolding s unquote_cases by (auto split: if_splits)
  next
    case False
    with less(2) show ?thesis by (cases s rule: unquote.cases) simp_all
  qed
qed

function safe_next_loop :: "pystr \<Rightarrow> pystr \<Rightarrow> pystr" where
  "safe_next_loop destination candidate =
     (if \<not> local_path candidate then index_url
      else if unquote candidate = candidate then destination
      else safe_next_loop destination (unquote candidate))"
  by pat_completeness auto
termination safe_next_loop
  by (relation "measure (\<lambda>(d, c). length c)") (auto intro: unquote_shorter)

declare safe_next_loop.simps [simp del]

definition safe_next :: "pystr option \<Rightarrow> pystr" where
  "safe_next destination = (case destination of None \<Rightarrow> index_url | Some d \<Rightarrow> safe_next_loop d d)"

lemma unquote_fix: "unquote s = s \<Longrightarrow> (unquote ^^ n) s = s"
  by (induction n) simp_all

lemma safe_loop_local:
  "safe_next_loop d c = index_url \<or> safe_next_loop d c = d \<and> (\<forall>n. local_path ((unquote ^^ n) c))"
proof (induction d c rule: safe_next_loop.induct)
  case (1 d c)
  show ?case
  proof (cases "\<not> local_path c \<or> unquote c = c")
    case True
    then show ?thesis by (auto simp: safe_next_loop.simps [of d c] unquote_fix)
  next
    case False
    then have step: "safe_next_loop d c = safe_next_loop d (unquote c)" by (simp add: safe_next_loop.simps [of d c])
    have "local_path ((unquote ^^ n) c)" if "\<forall>n. local_path ((unquote ^^ n) (unquote c))" for n
      using that False by (cases n) (simp_all add: funpow_swap1)
    with 1 False step show ?thesis by auto
  qed
qed

text \<open>
  C21: The page a sign-in returns to is the start page or the page asked for, and the latter only when it
  is a local path (one leading slash, no backslash or control character, no scheme or host), as it is
  and after any number of URL decodings.
\<close>

theorem safe_next_local:
  "safe_next d = index_url \<or> (d = Some (safe_next d) \<and> (\<forall>n. local_path ((unquote ^^ n) (safe_next d))))"
proof (cases d)
  case (Some p)
  with safe_loop_local [of p p] show ?thesis by (auto simp: safe_next_def)
qed (simp add: safe_next_def)

subsection \<open>Accounts and sessions\<close>

definition put_user :: "app_user \<Rightarrow> db \<Rightarrow> db" where
  "put_user u s = s\<lparr>d_users := upd_where (\<lambda>x. u_id x = u_id u) (\<lambda>_. u) (d_users s)\<rparr>"

definition user_named :: "db \<Rightarrow> pystr \<Rightarrow> app_user option" where
  "user_named s n = find (\<lambda>u. u_username u = n) (d_users s)"

definition active_user :: "db \<Rightarrow> int \<Rightarrow> app_user option" where
  "active_user s i = (case get_user s i of None \<Rightarrow> None | Some u \<Rightarrow> if is_active u then Some u else None)"

definition load_user :: "db \<Rightarrow> pystr \<Rightarrow> app_user option" where
  "load_user s user_id = (case parse_int user_id of None \<Rightarrow> None | Some i \<Rightarrow> active_user s i)"

text \<open>The account of the session, as Flask-Login keeps it: by the text of its id.\<close>

definition current_user :: "db \<Rightarrow> web_session \<Rightarrow> app_user option" where
  "current_user s ws = (case ws_user ws of None \<Rightarrow> None | Some i \<Rightarrow> load_user s (str_int i))"

definition establish_session :: "env \<Rightarrow> app_user \<Rightarrow> web_session \<Rightarrow> web_session" where
  "establish_session env u ws =
     ws\<lparr>ws_user := Some (u_id u),
        ws_permanent := ws_permanent ws \<or> (case e_config env ''SESSION_LIFETIME_MINUTES'' of VInt n \<Rightarrow> 0 < n | _ \<Rightarrow> False)\<rparr>"

definition int_or :: "pyval \<Rightarrow> int \<Rightarrow> int" where
  "int_or v d = (case v of VInt i \<Rightarrow> if i = 0 then d else i | _ \<Rightarrow> d)"

definition login_limits :: "env \<Rightarrow> db \<Rightarrow> int \<times> int" where
  "login_limits env s = (int_or (setting env s ''login_rate_limit'') 0, int_or (setting env s ''login_rate_window'') 300)"

definition locked :: "env \<Rightarrow> db \<Rightarrow> pystr list \<Rightarrow> bool" where
  "locked env s ks = (case login_limits env s of (limit, window) \<Rightarrow>
     list_ex (\<lambda>k. fst (blocked k (Some limit) window (e_now env) s)) ks)"

definition login_keys :: "pystr \<Rightarrow> pystr \<Rightarrow> pystr list" where
  "login_keys name addr = [''login:'' @ name, ''login-ip:'' @ addr]"

subsection \<open>Password\<close>

definition password_ok :: "hasher \<Rightarrow> db \<Rightarrow> pystr \<Rightarrow> pystr \<Rightarrow> app_user option" where
  "password_ok h s name pw = (case user_named s name of
     None \<Rightarrow> None
   | Some u \<Rightarrow> if pw_check h (u_password_hash u) pw \<and> is_active u then Some u else None)"

definition try_again :: pystr where "try_again = ''Too many failed attempts - try again later.''"

definition login ::
  "hasher \<Rightarrow> env \<Rightarrow> pystr \<Rightarrow> pystr option \<Rightarrow> (pystr \<times> pystr) option \<Rightarrow> web_session \<Rightarrow> reply comp" where
  "login h env addr nxt form ws =
     bindC (getC (\<lambda>s. current_user s ws)) (\<lambda>cur.
     case (cur, form) of
       (Some _, _) \<Rightarrow> answer (Redirect index_url) [] ws
     | (None, None) \<Rightarrow> answer (Page ''login'') [] ws
     | (None, Some (name, pw)) \<Rightarrow>
       bindC (getC (\<lambda>s. (locked env s (login_keys name addr), password_ok h s name pw))) (\<lambda>(lk, user).
       if lk then answer (Page ''login'') [try_again] ws
       else case user of
         Some u \<Rightarrow>
           if u_mfa_enabled u
           then answer (Redirect ''/auth/mfa-verify'') [] (ws\<lparr>ws_mfa_uid := Some (u_id u), ws_mfa_next := safe_next nxt\<rparr>)
           else answer (Redirect (safe_next nxt)) [] (establish_session env u ws)
       | None \<Rightarrow>
           bindC (modC (fold (\<lambda>k. record_hit k (e_now env)) (login_keys name addr))) (\<lambda>_.
           answer (Page ''login'') [''Invalid credentials or inactive account.''] ws)))"

subsection \<open>Second factor\<close>

definition mfa_user :: "db \<Rightarrow> web_session \<Rightarrow> app_user option" where
  "mfa_user s ws = (case some_id (ws_mfa_uid ws) of
     None \<Rightarrow> None
   | Some i \<Rightarrow> (case active_user s i of None \<Rightarrow> None | Some u \<Rightarrow> if u_mfa_enabled u then Some u else None))"

definition mfa_key :: "app_user \<Rightarrow> pystr" where
  "mfa_key u = ''mfa:'' @ str_int (u_id u)"

text \<open>A code of the authenticator or one of the backup codes, which it uses up.\<close>

definition check_code :: "env \<Rightarrow> app_user \<Rightarrow> pystr \<Rightarrow> bool comp" where
  "check_code env u c =
     bindC (liftC (verify (u_totp_secret u) (Some (py_strip c)) 1 (e_now env))) (\<lambda>ok.
     if ok then retC True
     else bindC (liftC (consume_backup_code (u_mfa_backup_codes u) (Some (py_strip c)))) (\<lambda>(ok, left).
          bindC (whenC ok (modC (put_user (u\<lparr>u_mfa_backup_codes := left\<rparr>)))) (\<lambda>_. retC ok)))"

definition mfa_verify :: "env \<Rightarrow> pystr option \<Rightarrow> web_session \<Rightarrow> reply comp" where
  "mfa_verify env form ws =
     bindC (getC (\<lambda>s. mfa_user s ws)) (\<lambda>user.
     case (user, form) of
       (None, _) \<Rightarrow> answer (Redirect login_url) [] (ws\<lparr>ws_mfa_uid := None\<rparr>)
     | (Some u, None) \<Rightarrow> answer (Page ''mfa_verify'') [] ws
     | (Some u, Some c) \<Rightarrow>
       bindC (getC (\<lambda>s. locked env s [mfa_key u])) (\<lambda>lk.
       if lk then answer (Page ''mfa_verify'') [try_again] ws
       else bindC (check_code env u c) (\<lambda>ok.
         if ok
         then answer (Redirect (safe_next (Some (ws_mfa_next ws)))) []
                (establish_session env u (ws\<lparr>ws_mfa_next := [], ws_mfa_uid := None\<rparr>))
         else bindC (modC (record_hit (mfa_key u) (e_now env))) (\<lambda>_.
              answer (Page ''mfa_verify'') [''Invalid authentication code.''] ws))))"

text \<open>Enrolment: what the action does, and the page, which draws a secret while there is no second factor.\<close>

definition mfa_act ::
  "env \<Rightarrow> app_user \<Rightarrow> pystr option \<Rightarrow> pystr option \<Rightarrow> pystr list \<Rightarrow> web_session \<Rightarrow> (app_user \<times> pystr list \<times> web_session) comp" where
  "mfa_act env u action form drawn ws =
     (if action = Some ''enable'' \<and> \<not> u_mfa_enabled u then
        (case (ws_setup_secret ws, form) of
           (Some sec, Some c) \<Rightarrow>
             bindC (liftC (verify (Some sec) (Some c) 1 (e_now env))) (\<lambda>ok.
             if ok then
               let u' = u\<lparr>u_totp_secret := Some sec, u_mfa_enabled := True, u_mfa_backup_codes := snd (make_backup_codes drawn)\<rparr> in
               bindC (modC (put_user u')) (\<lambda>_.
               retC (u', [''Two-factor authentication enabled.''], ws\<lparr>ws_setup_secret := None\<rparr>))
             else retC (u, [''That code did not match - try again.''], ws))
         | _ \<Rightarrow> retC (u, [''That code did not match - try again.''], ws))
      else if action = Some ''disable'' \<and> u_mfa_enabled u then
        (case form of
           None \<Rightarrow> retC (u, [''Enter a current code to disable two-factor.''], ws)
         | Some c \<Rightarrow>
           bindC (liftC (verify (u_totp_secret u) (Some c) 1 (e_now env))) (\<lambda>ok.
           if ok then
             let u' = u\<lparr>u_totp_secret := None, u_mfa_enabled := False, u_mfa_backup_codes := JEmpty\<rparr> in
             bindC (modC (put_user u')) (\<lambda>_. retC (u', [''Two-factor authentication disabled.''], ws))
           else retC (u, [''Enter a current code to disable two-factor.''], ws)))
      else if action = Some ''regenerate'' \<and> u_mfa_enabled u then
        (let u' = u\<lparr>u_mfa_backup_codes := snd (make_backup_codes drawn)\<rparr> in
         bindC (modC (put_user u')) (\<lambda>_.
         retC (u', [''New backup codes generated - the old ones no longer work.''], ws)))
      else retC (u, [], ws))"

definition logged_in :: "web_session \<Rightarrow> (app_user \<Rightarrow> reply comp) \<Rightarrow> reply comp" where
  "logged_in ws f = bindC (getC (\<lambda>s. current_user s ws)) (\<lambda>cur. case cur of
     None \<Rightarrow> answer (Redirect login_url) [] ws | Some u \<Rightarrow> f u)"

definition mfa ::
  "env \<Rightarrow> pystr option \<Rightarrow> pystr option \<Rightarrow> pystr list \<Rightarrow> pystr \<Rightarrow> web_session \<Rightarrow> reply comp" where
  "mfa env action form drawn new_secret ws = logged_in ws (\<lambda>u.
     bindC (mfa_act env u action form drawn ws) (\<lambda>(u', msgs, ws').
     answer (Page ''mfa'') msgs
       (if u_mfa_enabled u' then ws'
        else ws'\<lparr>ws_setup_secret := Some (text_or (ws_setup_secret ws') new_secret)\<rparr>)))"

definition logout :: "web_session \<Rightarrow> reply comp" where
  "logout ws = logged_in ws (\<lambda>_. answer (Redirect login_url) [''Signed out.''] (ws\<lparr>ws_user := None\<rparr>))"

definition account :: "hasher \<Rightarrow> (pystr \<times> pystr) option \<Rightarrow> web_session \<Rightarrow> reply comp" where
  "account h form ws = logged_in ws (\<lambda>u. case form of
     None \<Rightarrow> answer (Page ''account'') [] ws
   | Some (current, new) \<Rightarrow>
     if \<not> pw_check h (u_password_hash u) current
     then answer (Page ''account'') [''Current password is incorrect.''] ws
     else bindC (modC (put_user (u\<lparr>u_password_hash := pw_hash h new\<rparr>))) (\<lambda>_.
          answer (Redirect ''/auth/account'') [''Password changed.''] ws))"

definition account_contact :: "pystr option \<Rightarrow> bool \<Rightarrow> web_session \<Rightarrow> reply comp" where
  "account_contact email notify ws = logged_in ws (\<lambda>u.
     let e = take 255 (py_strip (text_or email [])) in
     if e \<noteq> [] \<and> CHR ''@'' \<notin> set e
     then answer (Redirect ''/auth/account'') [''Enter a valid email address.''] ws
     else bindC (modC (put_user (u\<lparr>u_email := (if e = [] then None else Some e), u_notify_email := notify\<rparr>))) (\<lambda>_.
          answer (Redirect ''/auth/account'') [''Contact settings saved.''] ws))"

subsection \<open>Storing accounts\<close>

text \<open>The UNIQUE constraints of the table; a commit that breaks one raises and stores nothing.\<close>

definition users_ok :: "app_user list \<Rightarrow> bool" where
  "users_ok us \<longleftrightarrow> distinct (map u_username us) \<and> distinct (List.map_filter u_oidc_subject us)"

definition commit_users :: "app_user list \<Rightarrow> unit comp" where
  "commit_users us s = (if users_ok us then (Inr (), s\<lparr>d_users := us\<rparr>) else (Inl (DBErr ''app_user''), s))"

definition new_user :: "db \<Rightarrow> pystr \<Rightarrow> pystr \<Rightarrow> pystr \<Rightarrow> app_user" where
  "new_user s name hash role = \<lparr>u_id = next_id u_id (d_users s), u_username = name, u_password_hash = hash,
     u_role = role, u_is_active_flag = True, u_company_id = None, u_email = None, u_notify_email = True,
     u_totp_secret = None, u_mfa_enabled = False, u_mfa_backup_codes = JEmpty, u_oidc_subject = None\<rparr>"

subsection \<open>Single sign-on\<close>

type_synonym claims = "(pystr, pyval) dict"

definition claim_text :: "claims \<Rightarrow> pystr \<Rightarrow> pystr option" where
  "claim_text d k = (case dget d k of Some (VStr x) \<Rightarrow> if x = [] then None else Some x | _ \<Rightarrow> None)"

definition config_text :: "env \<Rightarrow> pystr \<Rightarrow> pystr \<Rightarrow> pystr" where
  "config_text env k d = (case e_config env k of VStr x \<Rightarrow> x | _ \<Rightarrow> d)"

definition claimed_name :: "env \<Rightarrow> claims \<Rightarrow> pystr option" where
  "claimed_name env d = (case claim_text d (config_text env ''OIDC_USERNAME_CLAIM'' ''email'') of
     Some n \<Rightarrow> Some n
   | None \<Rightarrow> (case claim_text d ''email'' of Some n \<Rightarrow> Some n | None \<Rightarrow> claim_text d ''preferred_username''))"

definition map_oidc_user :: "hasher \<Rightarrow> env \<Rightarrow> pystr \<Rightarrow> claims \<Rightarrow> app_user option comp" where
  "map_oidc_user h env drawn d = (case claim_text d ''sub'' of
     None \<Rightarrow> retC None
   | Some sub \<Rightarrow>
     bindC (getC (\<lambda>s. s)) (\<lambda>s.
     case find (\<lambda>u. u_oidc_subject u = Some sub) (d_users s) of
       Some u \<Rightarrow> retC (Some u)
     | None \<Rightarrow>
       (case claimed_name env d of
          None \<Rightarrow> retC None
        | Some n \<Rightarrow>
          (case user_named s n of
             Some u \<Rightarrow>
               let u' = u\<lparr>u_oidc_subject := Some sub\<rparr> in
               bindC (commit_users (d_users (put_user u' s))) (\<lambda>_. retC (Some u'))
           | None \<Rightarrow>
               if e_config env ''OIDC_PROVISION'' = VStr ''jit'' then
                 let u = (new_user s n (pw_hash h (''oidc-'' @ drawn)) (config_text env ''OIDC_DEFAULT_ROLE'' ''user''))
                           \<lparr>u_oidc_subject := Some sub\<rparr> in
                 bindC (commit_users (d_users s @ [u])) (\<lambda>_. retC (Some u))
               else retC None))))"

definition oidc_login :: "env \<Rightarrow> pystr \<Rightarrow> pystr \<Rightarrow> pystr + pystr \<Rightarrow> pystr option \<Rightarrow> web_session \<Rightarrow> reply comp" where
  "oidc_login env state nonce authorize nxt ws =
     bindC (getC (oidc_enabled env)) (\<lambda>on.
     if \<not> on then failC (Abort 404)
     else
       let ws' = ws\<lparr>ws_oidc_state := Some state, ws_oidc_nonce := Some nonce, ws_oidc_next := safe_next nxt\<rparr> in
       case authorize of
         Inr url \<Rightarrow> answer (Redirect url) [] ws'
       | Inl e \<Rightarrow> answer (Redirect login_url) [''SSO is unavailable: '' @ e] ws')"

text \<open>
  \<open>verified\<close> is what \<open>exchange_code\<close> and \<open>verify_id_token\<close> make of a code and the nonce: verified
  claims, or the text of an error.
\<close>

definition oidc_callback ::
  "hasher \<Rightarrow> env \<Rightarrow> pystr \<Rightarrow> (pystr \<Rightarrow> pystr option \<Rightarrow> pystr + claims) \<Rightarrow> (pystr, pystr) dict \<Rightarrow> web_session \<Rightarrow> reply comp" where
  "oidc_callback h env drawn verified args ws =
     bindC (getC (oidc_enabled env)) (\<lambda>on.
     if \<not> on then failC (Abort 404)
     else if filled (dget args ''error'')
     then answer (Redirect login_url) [''SSO error: '' @ text_or (dget args ''error'') []] ws
     else if \<not> filled (dget args ''state'') then answer (Redirect login_url) [''SSO state mismatch''] ws
     else if dget args ''state'' \<noteq> ws_oidc_state ws
     then answer (Redirect login_url) [''SSO state mismatch''] (ws\<lparr>ws_oidc_state := None\<rparr>)
     else
       let ws' = ws\<lparr>ws_oidc_state := None, ws_oidc_nonce := None, ws_oidc_next := []\<rparr> in
       if \<not> filled (dget args ''code'') then answer (Redirect login_url) [''SSO did not return a code.''] ws'
       else case verified (text_or (dget args ''code'') []) (ws_oidc_nonce ws) of
         Inl e \<Rightarrow> answer (Redirect login_url) [''SSO sign-in failed: '' @ e] ws'
       | Inr d \<Rightarrow>
         bindC (map_oidc_user h env drawn d) (\<lambda>user. case user of
           None \<Rightarrow> answer (Redirect login_url) [''No Biggy account is linked to this identity.''] ws'
         | Some u \<Rightarrow>
           if \<not> is_active u then answer (Redirect login_url) [''That account is inactive.''] ws'
           else answer (Redirect (safe_next (Some (ws_oidc_next ws)))) [] (establish_session env u ws')))"

subsection \<open>Managing accounts\<close>

definition designing :: "web_session \<Rightarrow> (app_user \<Rightarrow> reply comp) \<Rightarrow> reply comp" where
  "designing ws f = logged_in ws (\<lambda>u. if is_designer u then f u else failC (Abort 403))"

record user_form =
  uf_username :: pystr
  uf_password :: pystr
  uf_role :: pystr
  uf_active :: bool
  uf_company :: "int option"
  uf_email :: "pystr option"

definition form_email :: "user_form \<Rightarrow> pystr option" where
  "form_email f = (let e = py_strip (text_or (uf_email f) []) in if e = [] then None else Some e)"

definition user_new :: "hasher \<Rightarrow> user_form option \<Rightarrow> web_session \<Rightarrow> reply comp" where
  "user_new h form ws = designing ws (\<lambda>_. case form of
     None \<Rightarrow> answer (Page ''user_form'') [] ws
   | Some f \<Rightarrow> bindC (getC (\<lambda>s. s)) (\<lambda>s.
     if user_named s (uf_username f) \<noteq> None then answer (Page ''user_form'') [''Username already exists.''] ws
     else if uf_password f = [] then answer (Page ''user_form'') [''Password is required for a new user.''] ws
     else
       let u = (new_user s (uf_username f) (pw_hash h (uf_password f)) (uf_role f))
                 \<lparr>u_is_active_flag := uf_active f, u_company_id := some_id (uf_company f), u_email := form_email f\<rparr> in
       bindC (commit_users (d_users s @ [u])) (\<lambda>_. answer (Redirect users_url) [''User created.''] ws)))"

definition user_edit :: "hasher \<Rightarrow> int \<Rightarrow> user_form option \<Rightarrow> web_session \<Rightarrow> reply comp" where
  "user_edit h user_id form ws = designing ws (\<lambda>_. bindC (getC (\<lambda>s. s)) (\<lambda>s.
     case (get_user s user_id, form) of
       (None, _) \<Rightarrow> answer (Redirect users_url) [''User not found.''] ws
     | (Some u, None) \<Rightarrow> answer (Page ''user_form'') [] ws
     | (Some u, Some f) \<Rightarrow>
       let u' = u\<lparr>u_username := uf_username f, u_role := uf_role f, u_is_active_flag := uf_active f,
                 u_company_id := some_id (uf_company f), u_email := form_email f,
                 u_password_hash := (if uf_password f = [] then u_password_hash u else pw_hash h (uf_password f))\<rparr> in
       bindC (commit_users (d_users (put_user u' s))) (\<lambda>_. answer (Redirect users_url) [''User updated.''] ws)))"

definition user_delete :: "int \<Rightarrow> web_session \<Rightarrow> reply comp" where
  "user_delete user_id ws = designing ws (\<lambda>cur. bindC (getC (\<lambda>s. get_user s user_id)) (\<lambda>found. case found of
     Some u \<Rightarrow>
       if u_id u \<noteq> u_id cur
       then bindC (modC (\<lambda>s. s\<lparr>d_users := filter (\<lambda>x. u_id x \<noteq> u_id u) (d_users s)\<rparr>)) (\<lambda>_.
            answer (Redirect users_url) [''User deleted.''] ws)
       else answer (Redirect users_url) [''Cannot delete this account.''] ws
   | None \<Rightarrow> answer (Redirect users_url) [''Cannot delete this account.''] ws))"

definition user_reset_mfa :: "int \<Rightarrow> web_session \<Rightarrow> reply comp" where
  "user_reset_mfa user_id ws = designing ws (\<lambda>_. bindC (getC (\<lambda>s. get_user s user_id)) (\<lambda>found.
     let url = users_url @ ''/'' @ str_int user_id @ ''/edit'' in case found of
       Some u \<Rightarrow> bindC (modC (put_user (u\<lparr>u_totp_secret := None, u_mfa_enabled := False, u_mfa_backup_codes := JEmpty\<rparr>))) (\<lambda>_.
         answer (Redirect url) [''Two-factor reset for '' @ u_username u @ ''.''] ws)
     | None \<Rightarrow> answer (Redirect url) [] ws))"

subsection \<open>Bulk import of accounts\<close>

text \<open>\<open>splitlines\<close>.\<close>

definition line_break :: "char \<Rightarrow> bool" where
  "line_break c = (code c \<in> {10, 11, 12, 13, 28, 29, 30, 133})"

fun split_lines :: "pystr \<Rightarrow> pystr \<Rightarrow> pystr list" where
  "split_lines acc [] = (if acc = [] then [] else [rev acc])"
| "split_lines acc (c # s) =
     (if \<not> line_break c then split_lines (c # acc) s
      else rev acc # split_lines [] (if c = CHR 0x0D \<and> s \<noteq> [] \<and> hd s = CHR 0x0A then tl s else s))"

definition ensure_roles :: "db \<Rightarrow> db" where
  "ensure_roles s = fold (\<lambda>(n, l) s'. if n \<in> ro_name ` set (d_roles s) then s'
     else s'\<lparr>d_roles := d_roles s' @ [\<lparr>ro_id = next_id ro_id (d_roles s'), ro_name = n, ro_label = l, ro_builtin = True\<rparr>]\<rparr>)
     [(role_designer, ''Designer''), (role_user, ''User'')] s"

text \<open>
  The ORM session of the import: accounts added are pending and no query sees them (the session does not
  flush by itself) until a company is created, which flushes everything, or the commit at the end.
\<close>

record bulk_state =
  bu_db :: db
  bu_pending :: "app_user list"
  bu_created :: nat
  bu_skipped :: nat
  bu_errors :: nat

definition flush_users :: "bulk_state \<Rightarrow> exn + bulk_state" where
  "flush_users st = (let us = d_users (bu_db st) @ bu_pending st in
     if users_ok us then Inr (st\<lparr>bu_db := (bu_db st)\<lparr>d_users := us\<rparr>, bu_pending := []\<rparr>) else Inl (DBErr ''app_user''))"

definition pending_user :: "bulk_state \<Rightarrow> pystr \<Rightarrow> pystr \<Rightarrow> pystr \<Rightarrow> int option \<Rightarrow> app_user" where
  "pending_user st name hash role company =
     (new_user ((bu_db st)\<lparr>d_users := d_users (bu_db st) @ bu_pending st\<rparr>) name hash role)\<lparr>u_company_id := company\<rparr>"

definition part :: "pystr list \<Rightarrow> nat \<Rightarrow> pystr" where
  "part ps i = (if i < length ps then ps ! i else [])"

definition company_for :: "pystr \<Rightarrow> bulk_state \<Rightarrow> exn + int option \<times> bulk_state" where
  "company_for name st = (case get_or_create (bu_db st) (Some name) of (c, s') \<Rightarrow>
     if d_companies s' = d_companies (bu_db st) then Inr (map_option co_id c, st)
     else (case flush_users st of
        Inl e \<Rightarrow> Inl e
      | Inr st' \<Rightarrow> Inr (map_option co_id c, st'\<lparr>bu_db := (bu_db st')\<lparr>d_companies := d_companies s'\<rparr>\<rparr>)))"

definition bulk_user :: "hasher \<Rightarrow> (nat \<Rightarrow> pystr) \<Rightarrow> pystr \<Rightarrow> bulk_state \<Rightarrow> exn + bulk_state" where
  "bulk_user h drawn line0 st =
     (let line = py_strip line0; ps = map py_strip (split_on CHR '','' line);
          name = part ps 0; role = (if part ps 1 = [] then role_user else part ps 1); pw = part ps 2 in
      if line = [] \<or> prefix ''#'' line then Inr st
      else if name = [] \<or> role \<notin> ro_name ` set (d_roles (bu_db st)) then Inr (st\<lparr>bu_errors := bu_errors st + 1\<rparr>)
      else if user_named (bu_db st) name \<noteq> None then Inr (st\<lparr>bu_skipped := bu_skipped st + 1\<rparr>)
      else case company_for (part ps 3) st of
        Inl e \<Rightarrow> Inl e
      | Inr (c, st') \<Rightarrow>
        let hash = pw_hash h (if pw \<noteq> [] then pw else ''set-'' @ drawn (bu_created st)) in
        Inr (st'\<lparr>bu_pending := bu_pending st' @ [pending_user st' name hash role c], bu_created := bu_created st' + 1\<rparr>))"

fun bulk_users :: "hasher \<Rightarrow> (nat \<Rightarrow> pystr) \<Rightarrow> pystr list \<Rightarrow> bulk_state \<Rightarrow> exn + bulk_state" where
  "bulk_users h drawn [] st = flush_users st"
| "bulk_users h drawn (l # ls) st = (case bulk_user h drawn l st of
     Inl e \<Rightarrow> Inl e | Inr st' \<Rightarrow> bulk_users h drawn ls st')"

definition users_bulk :: "hasher \<Rightarrow> (nat \<Rightarrow> pystr) \<Rightarrow> pystr \<Rightarrow> web_session \<Rightarrow> reply comp" where
  "users_bulk h drawn rows ws = designing ws (\<lambda>_. bindC (modC ensure_roles) (\<lambda>_. bindC (getC (\<lambda>s. s)) (\<lambda>s.
     case bulk_users h drawn (split_lines [] rows) \<lparr>bu_db = s, bu_pending = [], bu_created = 0, bu_skipped = 0, bu_errors = 0\<rparr> of
       Inl e \<Rightarrow> failC e
     | Inr st \<Rightarrow> bindC (modC (\<lambda>_. bu_db st)) (\<lambda>_.
         answer (Redirect users_url) [''Bulk import: '' @ str_int (int (bu_created st)) @ '' created, '' @
           str_int (int (bu_skipped st)) @ '' skipped (existing), '' @ str_int (int (bu_errors st)) @ '' error(s).''] ws))))"

subsection \<open>API tokens\<close>

definition hash_token :: "pystr \<Rightarrow> pystr" where
  "hash_token raw = hash_code raw"

definition mint :: "int \<Rightarrow> pystr \<Rightarrow> pystr \<Rightarrow> (api_token \<times> pystr) comp" where
  "mint user_id name drawn s =
     (let raw = ''biggy_'' @ drawn;
          tok = \<lparr>at_id = next_id at_id (d_tokens s), at_user_id = user_id, at_name = (if name = [] then ''token'' else name),
                 at_token_hash = hash_token raw, at_prefix = take 12 raw, at_revoked = False, at_last_used_at = None\<rparr>
      in (Inr (tok, raw), s\<lparr>d_tokens := d_tokens s @ [tok]\<rparr>))"

definition load_user_from_token :: "env \<Rightarrow> pystr \<Rightarrow> app_user option comp" where
  "load_user_from_token env auth =
     (let raw = py_strip (drop 7 auth) in
      if \<not> prefix ''Bearer '' auth \<or> raw = [] then retC None
      else bindC (getC (\<lambda>s. s)) (\<lambda>s.
        case find (\<lambda>t. at_token_hash t = hash_token raw \<and> \<not> at_revoked t) (d_tokens s) of
          None \<Rightarrow> retC None
        | Some t \<Rightarrow> (case active_user s (at_user_id t) of
            None \<Rightarrow> retC None
          | Some u \<Rightarrow>
            bindC (modC (\<lambda>s. s\<lparr>d_tokens := upd_where (\<lambda>x. at_id x = at_id t)
                (\<lambda>x. x\<lparr>at_last_used_at := Some (e_now env)\<rparr>) (d_tokens s)\<rparr>)) (\<lambda>_. retC (Some u)))))"

subsection \<open>Who is signed in\<close>

text \<open>
  The history of one browser: which proofs of identity were given, and who was signed in with or without
  a second factor on the account. Other sessions may change the database between the requests in any
  way that keeps its primary key.
\<close>

datatype auth_event = Password int | Code int | Identity int | SignedIn int bool

definition signed :: "db \<Rightarrow> web_session \<Rightarrow> web_session \<Rightarrow> auth_event list" where
  "signed s ws ws' = (case ws_user ws' of
     None \<Rightarrow> []
   | Some i \<Rightarrow> if ws_user ws = Some i then []
               else [SignedIn i (case get_user s i of None \<Rightarrow> False | Some u \<Rightarrow> u_mfa_enabled u)])"

definition password_event :: "hasher \<Rightarrow> db \<Rightarrow> (pystr \<times> pystr) option \<Rightarrow> auth_event list" where
  "password_event h s form = (case form of
     None \<Rightarrow> [] | Some (n, pw) \<Rightarrow> (case password_ok h s n pw of None \<Rightarrow> [] | Some u \<Rightarrow> [Password (u_id u)]))"

definition code_event :: "env \<Rightarrow> db \<Rightarrow> web_session \<Rightarrow> pystr option \<Rightarrow> auth_event list" where
  "code_event env s ws form = (case (mfa_user s ws, form) of
     (Some u, Some c) \<Rightarrow> if fst (check_code env u c s) = Inr True then [Code (u_id u)] else []
   | _ \<Rightarrow> [])"

definition identity_event ::
  "hasher \<Rightarrow> env \<Rightarrow> pystr \<Rightarrow> (pystr \<Rightarrow> pystr option \<Rightarrow> pystr + claims) \<Rightarrow> (pystr, pystr) dict \<Rightarrow> web_session \<Rightarrow> db \<Rightarrow> auth_event list" where
  "identity_event h env drawn verified args ws s =
     (case verified (text_or (dget args ''code'') []) (ws_oidc_nonce ws) of
        Inl _ \<Rightarrow> []
      | Inr d \<Rightarrow> (case fst (map_oidc_user h env drawn d s) of Inr (Some u) \<Rightarrow> [Identity (u_id u)] | _ \<Rightarrow> []))"

inductive signing :: "hasher \<Rightarrow> auth_event list \<Rightarrow> web_session \<Rightarrow> bool" for h where
  start: "signing h [] fresh_session"
| login: "signing h evs ws \<Longrightarrow> distinct (map u_id (d_users s)) \<Longrightarrow>
     login h env addr nxt form ws s = (Inr r, s') \<Longrightarrow>
     signing h (signed s ws (re_session r) @ password_event h s form @ evs) (re_session r)"
| verify: "signing h evs ws \<Longrightarrow> distinct (map u_id (d_users s)) \<Longrightarrow>
     mfa_verify env code_form ws s = (Inr r, s') \<Longrightarrow>
     signing h (signed s ws (re_session r) @ code_event env s ws code_form @ evs) (re_session r)"
| start_oidc: "signing h evs ws \<Longrightarrow> oidc_login env state nonce authorize nxt ws s = (Inr r, s') \<Longrightarrow>
     signing h (signed s ws (re_session r) @ evs) (re_session r)"
| callback: "signing h evs ws \<Longrightarrow> oidc_callback h env drawn verified args ws s = (Inr r, s') \<Longrightarrow>
     signing h (signed s ws (re_session r) @ identity_event h env drawn verified args ws s @ evs) (re_session r)"
| enrol: "signing h evs ws \<Longrightarrow> mfa env action code_form codes secret ws s = (Inr r, s') \<Longrightarrow>
     signing h (signed s ws (re_session r) @ evs) (re_session r)"
| logout: "signing h evs ws \<Longrightarrow> logout ws s = (Inr r, s') \<Longrightarrow>
     signing h (signed s ws (re_session r) @ evs) (re_session r)"

fun justified :: "auth_event list \<Rightarrow> bool" where
  "justified [] = True"
| "justified (SignedIn i m # b) \<longleftrightarrow>
     (Password i \<in> set b \<and> (m \<longrightarrow> Code i \<in> set b) \<or> Identity i \<in> set b) \<and> justified b"
| "justified (_ # b) = justified b"

lemma justified_at: "justified (a @ SignedIn i m # b) \<Longrightarrow>
    Password i \<in> set b \<and> (m \<longrightarrow> Code i \<in> set b) \<or> Identity i \<in> set b"
  by (induction a rule: justified.induct) auto

lemma justified_events [simp]:
  "justified (password_event h s form @ evs) = justified evs"
  "justified (code_event env s ws cf @ evs) = justified evs"
  "justified (identity_event h env drawn v args ws s @ evs) = justified evs"
  by (auto simp: password_event_def code_event_def identity_event_def split: option.splits sum.splits)

definition pending_ok :: "auth_event list \<Rightarrow> web_session \<Rightarrow> bool" where
  "pending_ok evs ws \<longleftrightarrow> justified evs \<and> (\<forall>i. ws_mfa_uid ws = Some i \<longrightarrow> Password i \<in> set evs)"

lemma signed_same [simp]: "ws_user ws' = ws_user ws \<Longrightarrow> signed s ws ws' = []" "ws_user ws' = None \<Longrightarrow> signed s ws ws' = []"
  by (auto simp: signed_def split: option.split)

lemma get_user_unique: "distinct (map u_id (d_users s)) \<Longrightarrow> u \<in> set (d_users s) \<Longrightarrow> get_user s (u_id u) = Some u"
  unfolding get_user_def by (rule find_unique) (auto simp: distinct_map inj_on_def)

lemma answerD: "answer v m ws s = (Inr r, s') \<Longrightarrow> re_view r = v \<and> re_session r = ws \<and> s' = s"
  by (auto simp: answer_def retC_def)

lemma establish_simps [simp]:
  "ws_user (establish_session env u ws) = Some (u_id u)" "ws_mfa_uid (establish_session env u ws) = ws_mfa_uid ws"
  by (simp_all add: establish_session_def)

lemma password_okD: "password_ok h s n pw = Some u \<Longrightarrow> u \<in> set (d_users s) \<and> is_active u \<and> pw_check h (u_password_hash u) pw"
  by (auto simp: password_ok_def user_named_def dest: find_Some_set split: option.splits if_splits)

text \<open>What a login leads to.\<close>

lemma login_cases:
  assumes "login h env addr nxt form ws s = (Inr r, s')"
  obtains (same) "re_session r = ws"
  | (pending) u :: app_user where "password_event h s form = [Password (u_id u)]" "ws_user (re_session r) = ws_user ws"
      "ws_mfa_uid (re_session r) = Some (u_id u)"
  | (through) u :: app_user where "password_event h s form = [Password (u_id u)]" "u \<in> set (d_users s)" "\<not> u_mfa_enabled u"
      "re_session r = establish_session env u ws"
proof -
  show thesis
  proof (cases "current_user s ws = None \<and> (\<exists>n pw. form = Some (n, pw) \<and> \<not> locked env s (login_keys n addr) \<and> password_ok h s n pw \<noteq> None)")
    case False
    with assms have "re_session r = ws"
      by (cases "current_user s ws"; cases form)
        (auto simp: login_def comp_simps split: if_splits option.splits dest!: answerD)
    then show thesis by (rule same)
  next
    case True
    then obtain n pw u where f: "current_user s ws = None" "form = Some (n, pw)" "\<not> locked env s (login_keys n addr)" "password_ok h s n pw = Some u"
      by auto
    from f have pe: "password_event h s form = [Password (u_id u)]" by (simp add: password_event_def)
    show thesis
    proof (cases "u_mfa_enabled u")
      case True
      with assms f have "re_session r = ws\<lparr>ws_mfa_uid := Some (u_id u), ws_mfa_next := safe_next nxt\<rparr>"
        by (auto simp: login_def comp_simps dest!: answerD)
      with pe show thesis by (intro pending [of u]) auto
    next
      case False
      with assms f have "re_session r = establish_session env u ws"
        by (auto simp: login_def comp_simps dest!: answerD)
      with pe False password_okD [OF f(4)] show thesis by (intro through [of u]) auto
    qed
  qed
qed

lemma mfa_userD:
  assumes "mfa_user s ws = Some u"
  shows "get_user s (u_id u) = Some u \<and> ws_mfa_uid ws = Some (u_id u) \<and> u_mfa_enabled u \<and> is_active u"
proof -
  from assms obtain i where i: "some_id (ws_mfa_uid ws) = Some i" "get_user s i = Some u" "is_active u" "u_mfa_enabled u"
    by (auto simp: mfa_user_def active_user_def split: option.splits if_splits)
  from i(2) have "u_id u = i" unfolding get_user_def using find_Some_set by fastforce
  with i show ?thesis by (auto simp: some_id_def split: option.splits if_splits)
qed

lemma verify_cases:
  assumes "mfa_verify env form ws s = (Inr r, s')"
  obtains (same) "ws_user (re_session r) = ws_user ws" "ws_mfa_uid (re_session r) \<in> {None, ws_mfa_uid ws}"
  | (through) u :: app_user where "mfa_user s ws = Some u" "code_event env s ws form = [Code (u_id u)]"
      "ws_user (re_session r) = Some (u_id u)" "ws_mfa_uid (re_session r) = None"
proof -
  show thesis
  proof (cases "\<exists>u c ok s1. mfa_user s ws = Some u \<and> form = Some c \<and> \<not> locked env s [mfa_key u] \<and> check_code env u c s = (Inr ok, s1)")
    case False
    with assms have "ws_user (re_session r) = ws_user ws \<and> ws_mfa_uid (re_session r) \<in> {None, ws_mfa_uid ws}"
      by (cases "mfa_user s ws"; cases form)
        (auto simp: mfa_verify_def comp_simps bindC_def [of "check_code env u c" for u c]
           split: if_splits prod.splits sum.splits dest!: answerD)
    then show thesis by (intro same) auto
  next
    case True
    then obtain u c ok s1 where f: "mfa_user s ws = Some u" "form = Some c" "\<not> locked env s [mfa_key u]"
      "check_code env u c s = (Inr ok, s1)" by auto
    show thesis
    proof (cases ok)
      case True
      with assms f have "re_session r = establish_session env u (ws\<lparr>ws_mfa_next := [], ws_mfa_uid := None\<rparr>)"
        by (auto simp: mfa_verify_def comp_simps bindC_def [of "check_code env u c" for u c] dest!: answerD)
      with f True show thesis by (intro through [of u]) (auto simp: code_event_def)
    next
      case False
      with assms f have "re_session r = ws"
        by (auto simp: mfa_verify_def comp_simps bindC_def [of "check_code env u c" for u c] dest!: answerD)
      then show thesis by (intro same) auto
    qed
  qed
qed

lemma callback_cases:
  assumes "oidc_callback h env drawn verified args ws s = (Inr r, s')"
  obtains (same) "ws_user (re_session r) = ws_user ws" "ws_mfa_uid (re_session r) = ws_mfa_uid ws"
  | (through) u :: app_user where "identity_event h env drawn verified args ws s = [Identity (u_id u)]"
      "ws_user (re_session r) = Some (u_id u)" "ws_mfa_uid (re_session r) = ws_mfa_uid ws"
proof -
  show thesis
  proof (cases "\<exists>d u s1. verified (text_or (dget args ''code'') []) (ws_oidc_nonce ws) = Inr d \<and>
      map_oidc_user h env drawn d s = (Inr (Some u), s1)")
    case False
    with assms have "ws_user (re_session r) = ws_user ws \<and> ws_mfa_uid (re_session r) = ws_mfa_uid ws"
      by (auto simp: oidc_callback_def comp_simps Let_def bindC_def [of "map_oidc_user h env drawn d" for d]
           split: if_splits prod.splits sum.splits option.splits dest!: answerD)
    then show thesis by (intro same) auto
  next
    case True
    then obtain d u s1 where f: "verified (text_or (dget args ''code'') []) (ws_oidc_nonce ws) = Inr d"
      "map_oidc_user h env drawn d s = (Inr (Some u), s1)" by blast
    then have ie: "identity_event h env drawn verified args ws s = [Identity (u_id u)]" by (simp add: identity_event_def)
    from assms f have "ws_user (re_session r) = ws_user ws \<and> ws_mfa_uid (re_session r) = ws_mfa_uid ws \<or>
        ws_user (re_session r) = Some (u_id u) \<and> ws_mfa_uid (re_session r) = ws_mfa_uid ws"
      by (auto simp: oidc_callback_def comp_simps Let_def bindC_def [of "map_oidc_user h env drawn d" for d]
           split: if_splits dest!: answerD)
    with ie show thesis using same through [of u] by (elim disjE conjE) simp_all
  qed
qed

lemma signing_ok: "signing h evs ws \<Longrightarrow> pending_ok evs ws"
proof (induction rule: signing.induct)
  case (login evs ws s env addr nxt form r s')
  from login.hyps(3) show ?case
  proof (cases rule: login_cases)
    case same
    with login.IH show ?thesis by (auto simp: pending_ok_def)
  next
    case (pending u)
    with login.IH show ?thesis by (auto simp: pending_ok_def)
  next
    case (through u)
    with login.hyps(2) have "get_user s (u_id u) = Some u" by (simp add: get_user_unique)
    with through login.IH show ?thesis by (auto simp: pending_ok_def signed_def)
  qed
next
  case (verify evs ws s env form r s')
  from verify.hyps(3) show ?case
  proof (cases rule: verify_cases)
    case same
    with verify.IH show ?thesis by (auto simp: pending_ok_def)
  next
    case (through u)
    with mfa_userD [OF through(1)] verify.IH show ?thesis by (auto simp: pending_ok_def signed_def)
  qed
next
  case (callback evs ws env drawn verified args s r s')
  from callback.hyps(2) show ?case
  proof (cases rule: callback_cases)
    case same
    with callback.IH show ?thesis by (auto simp: pending_ok_def)
  next
    case (through u)
    with callback.IH show ?thesis by (auto simp: pending_ok_def signed_def)
  qed
next
  case (start_oidc evs ws env state nonce authorize nxt s r s')
  from start_oidc.hyps(2) have "ws_user (re_session r) = ws_user ws" "ws_mfa_uid (re_session r) = ws_mfa_uid ws"
    by (auto simp: oidc_login_def comp_simps Let_def split: if_splits sum.splits dest!: answerD)
  with start_oidc.IH show ?case by (simp add: pending_ok_def)
next
  case (enrol evs ws env action form codes secret s r s')
  have act: "mfa_act env u action form codes ws s0 = (Inr (u', m, ws'), s1) \<Longrightarrow>
      ws_user ws' = ws_user ws \<and> ws_mfa_uid ws' = ws_mfa_uid ws" for u u' m ws' s0 s1
    by (auto simp: mfa_act_def retC_def Let_def split: if_splits option.splits elim!: bindC_InrE)
  from enrol.hyps(2) have "ws_user (re_session r) = ws_user ws \<and> ws_mfa_uid (re_session r) = ws_mfa_uid ws"
    by (auto simp: mfa_def logged_in_def comp_simps split: option.splits if_splits elim!: bindC_InrE dest!: answerD act)
  with enrol.IH show ?case by (simp add: pending_ok_def)
next
  case (logout evs ws s r s')
  from logout.hyps(2) have "re_session r = ws \<or> re_session r = ws\<lparr>ws_user := None\<rparr>"
    by (auto simp: logout_def logged_in_def comp_simps split: option.splits dest!: answerD)
  with logout.IH show ?case by (auto simp: pending_ok_def)
qed (simp add: pending_ok_def fresh_session_def)

text \<open>
  C19: Nobody is signed in without proof: in every history of a browser, whatever others do to the database
  meanwhile, a sign-in of an account comes after its password was given (with the account active), and
  after a valid code when the account has a second factor; or after the identity provider vouched for it.
\<close>

theorem signed_in_only_with_proof:
  assumes "signing h evs ws" and "evs = a @ SignedIn i m # b"
  shows "Password i \<in> set b \<and> (m \<longrightarrow> Code i \<in> set b) \<or> Identity i \<in> set b"
  using signing_ok [OF assms(1)] justified_at assms(2) by (auto simp: pending_ok_def)

subsection \<open>Lockout\<close>

lemma hits_recorded: "hits_in (d_hits (record_hit k' now s)) k window now =
    hits_in (d_hits s) k window now @ (if k' = k \<and> 0 \<le> window then [\<lparr>rh_id = next_id rh_id (d_hits s), rh_key = k', rh_at = now\<rparr>] else [])"
  by (simp add: record_hit_def add_hit_def hits_in_def)

lemma login_keys_differ: "''login:'' @ name \<noteq> ''login-ip:'' @ addr"
  by simp

lemma not_locked_count:
  assumes "\<not> locked env s ks" "k \<in> set ks" "login_limits env s = (limit, window)" "0 < limit"
  shows "int (length (hits_in (d_hits s) k window (e_now env))) < limit"
  using assms by (force simp: locked_def list_ex_iff blocked_def off_def window_state_def Let_def split: if_splits)

lemma locked_count:
  assumes "k \<in> set ks" "login_limits env s = (limit, window)" "0 < limit"
    and "limit \<le> int (length (hits_in (d_hits s) k window (e_now env)))"
  shows "locked env s ks"
  using assms by (force simp: locked_def list_ex_iff blocked_def off_def window_state_def Let_def)


subsection \<open>Tokens\<close>

lemma active_user_tokens [simp]: "active_user (s\<lparr>d_tokens := ts\<rparr>) i = active_user s i"
  by (simp add: active_user_def get_user_def)

text \<open>
  C22: A minted token signs in the account it was minted for, while that account is active, and nobody once
  it is revoked. (Two tokens with one hash are taken not to exist.)
\<close>

theorem token_roundtrip:
  assumes "mint i name drawn s = (Inr (tok, raw), s1)" "py_strip raw = raw"
    and "list_all (\<lambda>t. at_token_hash t \<noteq> hash_token raw) (d_tokens s)"
  shows "fst (load_user_from_token env (''Bearer '' @ raw) s1) = Inr (active_user s i) \<and>
    fst (load_user_from_token env (''Bearer '' @ raw)
      (s1\<lparr>d_tokens := upd_where (\<lambda>t. at_id t = at_id tok) (\<lambda>t. t\<lparr>at_revoked := True\<rparr>) (d_tokens s1)\<rparr>)) = Inr None"
proof
  from assms(1) have tok: "d_tokens s1 = d_tokens s @ [tok]" "at_token_hash tok = hash_token raw" "\<not> at_revoked tok"
    "at_user_id tok = i" "raw = ''biggy_'' @ drawn" "s1 = s\<lparr>d_tokens := d_tokens s @ [tok]\<rparr>"
    by (auto simp: mint_def Let_def)
  have none: "find (\<lambda>t. at_token_hash t = hash_token raw \<and> \<not> at_revoked t) (d_tokens s) = None"
    using assms(3) by (auto simp: find_None_iff list_all_iff)
  have found: "find (\<lambda>t. at_token_hash t = hash_token raw \<and> \<not> at_revoked t) (d_tokens s1) = Some tok"
    unfolding tok(1) find_append none by (simp add: tok(2,3))
  have raw: "raw \<noteq> []" "drop 7 (''Bearer '' @ raw) = raw" "prefix ''Bearer '' (''Bearer '' @ raw)"
    by (simp_all add: tok(5))
  show "fst (load_user_from_token env (''Bearer '' @ raw) s1) = Inr (active_user s i)"
    unfolding load_user_from_token_def raw(2) assms(2) Let_def using raw found tok(4)
    by (cases "active_user s i") (simp_all add: comp_simps tok(6))
  let ?s2 = "s1\<lparr>d_tokens := upd_where (\<lambda>t. at_id t = at_id tok) (\<lambda>t. t\<lparr>at_revoked := True\<rparr>) (d_tokens s1)\<rparr>"
  have "find (\<lambda>t. at_token_hash t = hash_token raw \<and> \<not> at_revoked t) (d_tokens ?s2) = None"
    using assms(3) by (auto simp: find_None_iff tok(1) list_all_iff upd_where_def)
  then show "fst (load_user_from_token env (''Bearer '' @ raw) ?s2) = Inr None"
    unfolding load_user_from_token_def raw(2) assms(2) Let_def using raw by (simp add: comp_simps)
qed

subsection \<open>Accounts stay distinct\<close>

definition accounts_ok :: "db \<Rightarrow> bool" where
  "accounts_ok s \<longleftrightarrow> distinct (map u_id (d_users s)) \<and> users_ok (d_users s)"

definition keeps_accounts :: "'a comp \<Rightarrow> bool" where
  "keeps_accounts m \<longleftrightarrow> (\<forall>s. accounts_ok s \<longrightarrow> accounts_ok (snd (m s)))"

text \<open>A change of an account that keeps its id, name and identity, and the ids of the others.\<close>

lemma put_user_map:
  assumes "\<And>x. x \<in> set (d_users s) \<Longrightarrow> u_id x = u_id u \<Longrightarrow> g x = g u"
  shows "map g (d_users (put_user u s)) = map g (d_users s)"
  using assms by (auto simp: put_user_def upd_where_def)

lemma map_filter_map: "map f xs = map f ys \<Longrightarrow> List.map_filter f xs = List.map_filter f ys"
proof -
  have "List.map_filter f zs = List.map_filter (\<lambda>x. x) (map f zs)" for zs
    by (induction zs) (auto simp: List.map_filter_simps split: option.split)
  then show "map f xs = map f ys \<Longrightarrow> ?thesis" by metis
qed

lemma put_user_ok:
  assumes "accounts_ok s" "get_user s (u_id u) = Some v" "u_username u = u_username v" "u_oidc_subject u = u_oidc_subject v"
  shows "accounts_ok (put_user u s)"
proof -
  from assms(2) have v: "v \<in> set (d_users s)" "u_id v = u_id u"
    unfolding get_user_def using find_Some_set by fastforce+
  have same: "x = v" if "x \<in> set (d_users s)" "u_id x = u_id u" for x
    using that v assms(1) by (auto simp: accounts_ok_def distinct_map inj_on_def)
  have "map u_id (d_users (put_user u s)) = map u_id (d_users s)" by (rule put_user_map) simp
  moreover have "map u_username (d_users (put_user u s)) = map u_username (d_users s)"
    by (rule put_user_map) (use same assms(3) in auto)
  moreover have "map u_oidc_subject (d_users (put_user u s)) = map u_oidc_subject (d_users s)"
    by (rule put_user_map) (use same assms(4) in auto)
  ultimately show ?thesis using assms(1) map_filter_map [of u_oidc_subject "d_users (put_user u s)" "d_users s"]
    by (simp add: accounts_ok_def users_ok_def)
qed

lemma find_user_id: "find (\<lambda>u. u_id u = i) us = Some u \<Longrightarrow> u_id u = i"
  using find_Some_set by fastforce

lemma commit_ok: "accounts_ok s \<Longrightarrow> distinct (map u_id us) \<Longrightarrow> accounts_ok (snd (commit_users us s))"
  by (simp add: commit_users_def accounts_ok_def)

lemma snd_answer: "snd (answer v msgs ws s) = s"
  by (simp add: answer_def retC_def)

lemma snd_bind_answer: "accounts_ok (snd (m s)) \<Longrightarrow> accounts_ok (snd (bindC m (\<lambda>_. answer v msgs ws) s))"
  by (auto simp: bindC_def answer_def retC_def split: prod.splits sum.splits)

lemma keeps_designing:
  assumes "\<And>u s. accounts_ok s \<Longrightarrow> accounts_ok (snd (f u s))"
  shows "keeps_accounts (designing ws f)"
  using assms by (auto simp: keeps_accounts_def designing_def logged_in_def comp_simps answer_def split: option.split)

lemma put_user_ids: "map u_id (d_users (put_user u s)) = map u_id (d_users s)"
  by (rule put_user_map) simp

lemma commit_replies:
  "accounts_ok s \<Longrightarrow> accounts_ok (snd (bindC (commit_users (d_users (put_user u s))) (\<lambda>_. answer v msgs ws) s))"
  "accounts_ok s \<Longrightarrow> u_id u = next_id u_id (d_users s) \<Longrightarrow>
     accounts_ok (snd (bindC (commit_users (d_users s @ [u])) (\<lambda>_. answer v msgs ws) s))"
proof -
  assume ok: "accounts_ok s"
  then show "accounts_ok (snd (bindC (commit_users (d_users (put_user u s))) (\<lambda>_. answer v msgs ws) s))"
    by (intro snd_bind_answer commit_ok) (simp_all add: put_user_ids accounts_ok_def)
  assume "u_id u = next_id u_id (d_users s)"
  with ok have "distinct (map u_id (d_users s @ [u]))"
    using next_id_fresh [of _ "d_users s" u_id] by (fastforce simp: accounts_ok_def)
  with ok show "accounts_ok (snd (bindC (commit_users (d_users s @ [u])) (\<lambda>_. answer v msgs ws) s))"
    by (intro snd_bind_answer commit_ok)
qed

lemma map_filter_filter: "distinct (List.map_filter f xs) \<Longrightarrow> distinct (List.map_filter f (filter P xs))"
proof (induction xs)
  case (Cons x xs)
  have "set (List.map_filter f (filter P xs)) \<subseteq> set (List.map_filter f xs)"
    by (auto simp: List.map_filter_def)
  with Cons show ?case by (auto simp: List.map_filter_simps split: option.splits)
qed simp

lemma accounts_filter: "accounts_ok s \<Longrightarrow> accounts_ok (s\<lparr>d_users := filter P (d_users s)\<rparr>)"
  by (simp add: accounts_ok_def users_ok_def distinct_map_filter map_filter_filter)

lemma accounts_reset:
  "accounts_ok s \<Longrightarrow> get_user s i = Some v \<Longrightarrow>
     accounts_ok (put_user (v\<lparr>u_totp_secret := a, u_mfa_enabled := b, u_mfa_backup_codes := c\<rparr>) s)"
  using find_user_id [of i "d_users s" v] by (intro put_user_ok) (auto simp: get_user_def)

lemma managed_accounts:
  "keeps_accounts (user_new h form ws)" "keeps_accounts (user_edit h i form ws)" "keeps_accounts (user_delete i ws)"
  "keeps_accounts (user_reset_mfa i ws)"
  unfolding user_new_def user_edit_def user_delete_def user_reset_mfa_def
  by (rule keeps_designing; auto simp: comp_simps snd_answer Let_def new_user_def commit_replies accounts_filter
      accounts_reset split: option.split)+

lemma snd_bind_same: "(\<And>x s. snd (f x s) = s) \<Longrightarrow> snd (bindC m f s) = snd (m s)"
  by (auto simp: bindC_def split: prod.split sum.split)

lemma oidc_accounts: "keeps_accounts (map_oidc_user h env drawn d)"
proof -
  have "accounts_ok s \<Longrightarrow> accounts_ok (snd (commit_users (d_users (put_user u s)) s))" for u s
    by (rule commit_ok) (simp_all add: put_user_ids accounts_ok_def)
  moreover have "accounts_ok s \<Longrightarrow> u_id u = next_id u_id (d_users s) \<Longrightarrow> accounts_ok (snd (commit_users (d_users s @ [u]) s))" for u s
    using next_id_fresh [of _ "d_users s" u_id] by (intro commit_ok) (fastforce simp: accounts_ok_def)+
  ultimately show ?thesis
    by (auto simp: keeps_accounts_def map_oidc_user_def comp_simps Let_def new_user_def snd_bind_same split: option.split)
qed

lemma callback_state:
  "snd (oidc_callback h env drawn verified args ws s) \<in> insert s (range (\<lambda>d. snd (map_oidc_user h env drawn d s)))"
proof (cases "verified (text_or (dget args ''code'') []) (ws_oidc_nonce ws)")
  case (Inl e)
  then show ?thesis by (simp add: oidc_callback_def comp_simps Let_def snd_answer)
next
  case (Inr d)
  have "snd (bindC (map_oidc_user h env drawn d) (\<lambda>user. case user of
       None \<Rightarrow> answer v m ws1 | Some u \<Rightarrow> if \<not> is_active u then answer v' m' ws2 else answer v2 m2 (f u)) s) =
     snd (map_oidc_user h env drawn d s)" for v m ws1 v' m' ws2 v2 m2 f
    by (rule snd_bind_same) (simp add: snd_answer split: option.split)
  with Inr show ?thesis by (simp add: oidc_callback_def comp_simps Let_def snd_answer)
qed

lemma callback_accounts: "keeps_accounts (oidc_callback h env drawn verified args ws)"
  unfolding keeps_accounts_def
proof (intro allI impI)
  fix s assume "accounts_ok s"
  with callback_state [of h env drawn verified args ws s] oidc_accounts [of h env drawn]
  show "accounts_ok (snd (oidc_callback h env drawn verified args ws s))"
    by (auto simp: keeps_accounts_def)
qed

definition bulk_ok :: "bulk_state \<Rightarrow> bool" where
  "bulk_ok st \<longleftrightarrow> distinct (map u_id (d_users (bu_db st) @ bu_pending st)) \<and> users_ok (d_users (bu_db st))"

lemma flush_bulk_ok: "bulk_ok st \<Longrightarrow> flush_users st = Inr st' \<Longrightarrow> bulk_ok st' \<and> bu_pending st' = []"
  by (auto simp: bulk_ok_def flush_users_def Let_def split: if_splits)

lemma company_bulk_ok:
  assumes "bulk_ok st" "company_for n st = Inr (c, st')"
  shows "bulk_ok st'"
proof -
  from assms(2) consider "st' = st" | st1 cs where "flush_users st = Inr st1" "st' = st1\<lparr>bu_db := (bu_db st1)\<lparr>d_companies := cs\<rparr>\<rparr>"
    by (auto simp: company_for_def split: prod.splits if_splits sum.splits)
  then show ?thesis
  proof cases
    case 2
    with flush_bulk_ok [OF assms(1)] show ?thesis by (simp add: bulk_ok_def)
  qed (simp add: assms(1))
qed

lemma bulk_user_ok: "bulk_ok st \<Longrightarrow> bulk_user h drawn l st = Inr st' \<Longrightarrow> bulk_ok st'"
proof -
  assume ok: "bulk_ok st" and run: "bulk_user h drawn l st = Inr st'"
  have add: "bulk_ok (st1\<lparr>bu_pending := bu_pending st1 @ [pending_user st1 n hash r c], bu_created := k\<rparr>)" if "bulk_ok st1" for st1 n hash r c k
    using that next_id_fresh [of _ "d_users (bu_db st1) @ bu_pending st1" u_id]
    by (fastforce simp: bulk_ok_def pending_user_def new_user_def)
  from run ok company_bulk_ok [OF ok] show "bulk_ok st'"
    by (auto simp: bulk_user_def Let_def add split: if_splits sum.splits) (simp_all add: bulk_ok_def)
qed

lemma bulk_users_ok: "bulk_ok st \<Longrightarrow> bulk_users h drawn ls st = Inr st' \<Longrightarrow> bulk_ok st' \<and> bu_pending st' = []"
proof (induction ls arbitrary: st)
  case Nil
  then show ?case by (auto dest: flush_bulk_ok)
next
  case (Cons l ls)
  then show ?case by (auto split: sum.splits dest: bulk_user_ok)
qed

lemma users_ensured: "d_users (ensure_roles s) = d_users s"
  by (simp add: ensure_roles_def)

lemma bulk_db_ok:
  assumes "accounts_ok s"
    and "bulk_users h drawn ls \<lparr>bu_db = ensure_roles s, bu_pending = [], bu_created = 0, bu_skipped = 0, bu_errors = 0\<rparr> = Inr st"
  shows "accounts_ok (bu_db st)"
  using bulk_users_ok [OF _ assms(2)] assms(1) by (auto simp: bulk_ok_def accounts_ok_def users_ensured)

lemma accounts_ensured: "accounts_ok (ensure_roles s) = accounts_ok s"
  by (simp add: accounts_ok_def users_ensured)

lemma bulk_accounts: "keeps_accounts (users_bulk h drawn rows ws)"
  unfolding users_bulk_def
  by (rule keeps_designing) (auto simp: comp_simps snd_answer accounts_ensured intro: bulk_db_ok split: sum.split)

text \<open>
  Account management, the bulk import and single sign-on keep the accounts distinct, whether they
  succeed or raise: no two accounts come to share an id, a name or an identity of the provider.
\<close>

theorem accounts_stay_distinct:
  "keeps_accounts (user_new h form ws) \<and> keeps_accounts (user_edit h i form ws) \<and> keeps_accounts (user_delete i ws) \<and>
   keeps_accounts (user_reset_mfa i ws) \<and> keeps_accounts (users_bulk h drawn rows ws) \<and>
   keeps_accounts (oidc_callback h env key verified args ws)"
  by (intro conjI managed_accounts bulk_accounts callback_accounts)

subsection \<open>Instances\<close>

definition plain_hasher :: hasher where
  "plain_hasher = \<lparr>pw_check = (=), pw_hash = (\<lambda>p. p)\<rparr>"

definition ann :: app_user where
  "ann = (new_user empty_db ''ann'' ''secret'' role_designer)\<lparr>u_id := 1\<rparr>"

definition bob :: app_user where
  "bob = (new_user empty_db ''bob'' ''hidden'' role_user)\<lparr>u_id := 2\<rparr>"

definition people :: db where
  "people = empty_db\<lparr>d_users := [ann, bob]\<rparr>"

definition ann_session :: web_session where
  "ann_session = establish_session plain_env ann fresh_session"

text \<open>Ann signs in.\<close>

lemma ann_signs_in:
  "login plain_hasher plain_env ''::1'' None (Some (''ann'', ''secret'')) fresh_session people =
     (Inr \<lparr>re_view = Redirect index_url, re_flash = [], re_session = ann_session\<rparr>, people)"
  unfolding login_def by (simp add: comp_simps current_user_def fresh_session_def password_ok_def user_named_def people_def ann_def
      new_user_def is_active_def plain_hasher_def locked_def login_limits_def answer_def ann_session_def safe_next_def) code_simp

theorem signed_in_only_with_proof_witness:
  "\<exists>evs. signing plain_hasher ([SignedIn 1 False] @ evs) ann_session \<and> Password 1 \<in> set evs"
proof -
  have "signing plain_hasher (signed people fresh_session (re_session \<lparr>re_view = Redirect index_url, re_flash = [], re_session = ann_session\<rparr>) @
      password_event plain_hasher people (Some (''ann'', ''secret'')) @ []) (re_session \<lparr>re_view = Redirect index_url, re_flash = [], re_session = ann_session\<rparr>)"
    by (rule signing.login [OF signing.start _ ann_signs_in]) (simp add: people_def ann_def bob_def)
  moreover have "signed people fresh_session ann_session = [SignedIn 1 False]"
    by (simp add: signed_def ann_session_def establish_session_def fresh_session_def people_def get_user_def ann_def new_user_def)
  moreover have "password_event plain_hasher people (Some (''ann'', ''secret'')) = [Password 1]"
    by (simp add: password_event_def password_ok_def user_named_def people_def ann_def new_user_def is_active_def plain_hasher_def)
  ultimately have run: "signing plain_hasher [SignedIn 1 False, Password 1] ann_session" by simp
  from signed_in_only_with_proof [OF run, of "[]" 1 False "[Password 1]"] have "Password 1 \<in> set [Password 1]" by simp
  with run show ?thesis by (intro exI [of _ "[Password 1]"]) simp
qed

definition strict_env :: env where
  "strict_env = plain_env\<lparr>e_config := (\<lambda>_. VInt 3)\<rparr>"


theorem token_roundtrip_witness:
  "let (tok, s1) = (projr (fst (mint 1 ''ci'' ''k3'' people)), snd (mint 1 ''ci'' ''k3'' people)) in
     fst (load_user_from_token plain_env (''Bearer '' @ snd tok) s1) = Inr (Some ann)"
proof -
  let ?tok = "fst (projr (fst (mint 1 ''ci'' ''k3'' people)))" and ?s1 = "snd (mint 1 ''ci'' ''k3'' people)"
  have run: "mint 1 ''ci'' ''k3'' people = (Inr (?tok, ''biggy_k3''), ?s1)" by (simp add: mint_def Let_def)
  have "py_strip ''biggy_k3'' = ''biggy_k3''" by code_simp
  moreover have "list_all (\<lambda>t. at_token_hash t \<noteq> hash_token ''biggy_k3'') (d_tokens people)"
    by (simp add: people_def empty_db_def)
  ultimately have "fst (load_user_from_token plain_env (''Bearer '' @ ''biggy_k3'') ?s1) = Inr (active_user people 1)"
    using token_roundtrip [OF run] by blast
  moreover have "active_user people 1 = Some ann"
    by (simp add: active_user_def get_user_def people_def ann_def new_user_def is_active_def)
  moreover have "snd (projr (fst (mint 1 ''ci'' ''k3'' people))) = ''biggy_k3''" by (simp add: mint_def Let_def)
  ultimately show ?thesis by simp
qed

text \<open>
  A name that occurs twice among the lines: the second query does not see the pending account of the
  first, and the commit raises; nothing is imported. On its own each line is fine.
\<close>

lemma bulk_repeated_name:
  "fst (users_bulk plain_hasher (\<lambda>_. ''r'') (''eve,user'' @ [CHR 0x0A] @ ''eve,user'') ann_session people) = Inl (DBErr ''app_user'') \<and>
   d_users (snd (users_bulk plain_hasher (\<lambda>_. ''r'') (''eve,user'' @ [CHR 0x0A] @ ''eve,user'') ann_session people)) = [ann, bob] \<and>
   \<not> isl (fst (users_bulk plain_hasher (\<lambda>_. ''r'') (''eve,user'' @ [CHR 0x0A] @ ''ann,user'') ann_session people))"
  by code_simp

text \<open>Renaming an account to a name that is taken raises, where creating one is answered with a message.\<close>

lemma rename_taken_raises:
  "let f = \<lparr>uf_username = ''ann'', uf_password = ''p'', uf_role = role_user, uf_active = True, uf_company = None, uf_email = None\<rparr> in
     fst (user_edit plain_hasher 2 (Some f) ann_session people) = Inl (DBErr ''app_user'') \<and>
     \<not> isl (fst (user_new plain_hasher (Some f) ann_session people))"
  by code_simp

end
