(* ===== verification/Pull.thy ===== *)
theory Pull
  imports Record_Service Totp
begin

text \<open>
  \<open>app/pull.py\<close>: polling a remote source and writing its records into a local table. A source is a
  Biggy peer, read page by page, or a REST endpoint. A record is mapped by dotted paths, transformed,
  coerced, and created or (by a match field) updated through the record service; a cursor over the
  watermark of the last run leaves out what was taken before.

  The loop over the pages of a peer has no bound of its own, so it is a \<open>partial_function\<close>, and a poll
  that does not return is \<^const>\<open>None\<close> in every definition that uses it. Answers of the remote side are
  the transport's of the environment; reading them does not change the database.

  Shown: a poll of a peer that states its total returns, and one of a peer that neither ends its pages
  nor states a total does not; one bad record does not stop the others; no record that was taken
  is taken again by a later poll. Findings: a record that failed is passed over for good
  once a later one moves the watermark, a cursor beyond the floats raises, and a source that raises
  stops the sources after it.
\<close>

subsection \<open>Cursors\<close>

definition as_raw :: "pyval \<Rightarrow> pystr option" where
  "as_raw v = (case v of
     VNone \<Rightarrow> None
   | VBool b \<Rightarrow> Some (if b then ''true'' else ''false'')
   | VList _ \<Rightarrow> Some (json_dumps v)
   | VDict _ \<Rightarrow> Some (json_dumps v)
   | _ \<Rightarrow> Some (py_str v))"

text \<open>The tuples \<open>(0, 0.0, "")\<close>, \<open>(1, x, "")\<close> and \<open>(2, 0.0, s)\<close>; \<open>key_gt\<close> is their order.\<close>

datatype ckey = KNone | KNum pyfloat | KText pystr

fun key_gt :: "ckey \<Rightarrow> ckey \<Rightarrow> bool" where
  "key_gt (KNum x) (KNum y) = float_lt y x"
| "key_gt (KText s) (KText t) = text_lt t s"
| "key_gt KNone k = False"
| "key_gt k KNone = True"
| "key_gt (KText s) (KNum y) = True"
| "key_gt (KNum x) (KText t) = False"

text \<open>\<open>_ckey\<close>: the overflow of a huge integer is not caught.\<close>

definition ckey_of :: "env \<Rightarrow> pyval \<Rightarrow> pyval \<Rightarrow> exn + ckey" where
  "ckey_of env ct v =
     (if v = VNone then Inr KNone
      else if ct = VStr ''date'' then
        Inr (case e_stamp env (py_str v) of Some x \<Rightarrow> KNum x | None \<Rightarrow> KText (py_str v))
      else if ct = VStr ''string'' then Inr (KText (py_str v))
      else case to_float v of
             Inr x \<Rightarrow> Inr (KNum x)
           | Inl OverflowErr \<Rightarrow> Inl OverflowErr
           | Inl _ \<Rightarrow> Inr (KText (py_str v)))"

definition greater :: "env \<Rightarrow> pyval \<Rightarrow> pyval \<Rightarrow> pystr option \<Rightarrow> exn + bool" where
  "greater env ct cursor watermark =
     (if \<not> filled watermark then Inr True
      else if cursor = VNone then Inr False
      else bindE (ckey_of env ct cursor) (\<lambda>a.
           bindE (ckey_of env ct (opt_str watermark)) (\<lambda>b. Inr (key_gt a b))))"

definition advance :: "env \<Rightarrow> pyval \<Rightarrow> pystr option \<Rightarrow> pyval \<Rightarrow> exn + pystr option" where
  "advance env ct watermark cursor =
     (if cursor = VNone then Inr watermark
      else bindE (greater env ct cursor watermark) (\<lambda>g.
           Inr (if g then Some (py_str cursor) else watermark)))"

subsection \<open>Configuration and templates\<close>

definition pull_cfg :: "pull_source \<Rightarrow> pyval" where
  "pull_cfg src = (case pu_config src of JDoc (VDict d) \<Rightarrow> VDict d | _ \<Rightarrow> VDict [])"

text \<open>A section of the configuration: \<open>cfg.get(k) or {}\<close>.\<close>

definition cfg_part :: "pyval \<Rightarrow> pystr \<Rightarrow> exn + pyval" where
  "cfg_part cfg k = bindE (vget cfg k) (\<lambda>v. Inr (or_dict v))"

definition cursor_type :: "pyval \<Rightarrow> exn + pyval" where
  "cursor_type cfg = bindE (cfg_part cfg ''cursor'') (\<lambda>c. vget c ''type'')"

text \<open>The names of \<open>_TOKEN\<close>: \<open>[\w.]+\<close>.\<close>

definition dotted :: "char \<Rightarrow> bool" where
  "dotted c = (is_word c \<or> c = CHR ''.'')"

definition fill :: "row \<Rightarrow> pyval \<Rightarrow> pystr option" where
  "fill ctx template = (if template = VNone then None
     else Some (render_with dotted (\<lambda>w. text_of (rget ctx w)) (py_str template)))"

definition fill_map :: "row \<Rightarrow> pyval \<Rightarrow> exn + row" where
  "fill_map ctx d = (case or_dict d of
     VDict kv \<Rightarrow> Inr (map (\<lambda>(k, v). (k, opt_str (fill ctx v))) kv)
   | _ \<Rightarrow> Inl TypeErr)"

definition render_record :: "pyval \<Rightarrow> pyval \<Rightarrow> pystr" where
  "render_record template r = render_with dotted (\<lambda>w. text_of (dig r (VStr w))) (py_str template)"

text \<open>A value of the configuration as the key of a dict; the keys end as text in the request.\<close>

definition key_name :: "pyval \<Rightarrow> exn + pystr" where
  "key_name v = (case v of VList _ \<Rightarrow> Inl TypeErr | VDict _ \<Rightarrow> Inl TypeErr | _ \<Rightarrow> Inr (py_str v))"

definition or_text :: "pyval \<Rightarrow> pystr \<Rightarrow> pyval" where
  "or_text v d = (if truthy v then v else VStr d)"

definition b64_alphabet :: pystr where
  "b64_alphabet = ''ABCDEFGHIJKLMNOPQRSTUVWXYZabcdefghijklmnopqrstuvwxyz0123456789+/''"

definition b64_group :: "byte list \<Rightarrow> pystr" where
  "b64_group bs =
     (let n = be_int (bs @ replicate (3 - length bs) 0) in
      take (length bs + 1) (map (\<lambda>i. b64_alphabet ! nat (n div 64 ^ (3 - i) mod 64)) [0..<4]) @
      replicate (3 - length bs) CHR ''='')"

definition b64encode :: "byte list \<Rightarrow> pystr" where
  "b64encode bs = concat (map b64_group (chunks 3 bs))"

text \<open>The headers and the query parameters of the authentication preset.\<close>

definition auth_parts :: "pull_source \<Rightarrow> pyval \<Rightarrow> exn + (row \<times> row)" where
  "auth_parts src cfg =
     bindE (cfg_part cfg ''auth'') (\<lambda>a.
     bindE (vget a ''type'') (\<lambda>ty.
     let atype = or_text ty ''none''; secret = text_or (pu_auth_secret src) [];
         get = (\<lambda>k. case vget a k of Inl _ \<Rightarrow> VNone | Inr v \<Rightarrow> v)
     in if atype = VStr ''bearer'' then Inr ([(''Authorization'', VStr (''Bearer '' @ secret))], [])
        else if atype = VStr ''api_key'' then
          bindE (key_name (or_text (get ''header'') ''X-API-Key'')) (\<lambda>h. Inr ([(h, VStr secret)], []))
        else if atype = VStr ''basic'' then
          (let user = (case a of VDict d \<Rightarrow> (case dget d ''username'' of None \<Rightarrow> [] | Some v \<Rightarrow> py_str v) | _ \<Rightarrow> [])
           in Inr ([(''Authorization'', VStr (''Basic '' @ b64encode (utf8 (user @ '':'' @ secret))))], []))
        else if atype = VStr ''query_key'' then
          bindE (key_name (or_text (get ''param'') ''api_key'')) (\<lambda>h. Inr ([], [(h, VStr secret)]))
        else Inr ([], [])))"

definition is_object :: "pyval \<Rightarrow> bool" where
  "is_object v = (case v of VDict _ \<Rightarrow> True | _ \<Rightarrow> False)"

definition extract_rows :: "pyval \<Rightarrow> pystr option \<Rightarrow> exn + pyval list" where
  "extract_rows data path =
     (let arr = (if filled path then dig data (opt_str path)
                 else case data of VList _ \<Rightarrow> data | VDict d \<Rightarrow> rget d ''data'' | _ \<Rightarrow> VNone)
      in bindE (py_iter (if truthy arr then arr else VList [])) (\<lambda>xs. Inr (filter is_object xs)))"

subsection \<open>The records of a peer\<close>

abbreviation cursor_of :: "pull_source \<Rightarrow> pyval \<Rightarrow> pyval" where
  "cursor_of src r \<equiv> dig r (opt_str (pu_cursor_field src))"

definition per_page :: "pull_source \<Rightarrow> int" where
  "per_page src = (case some_id (pu_page_size src) of None \<Rightarrow> 100 | Some n \<Rightarrow> n)"

definition peer_params :: "pull_source \<Rightarrow> int \<Rightarrow> (pystr \<times> pystr) list" where
  "peer_params src page =
     [(''page'', str_int page), (''per_page'', str_int (per_page src))] @
     (if filled (pu_cursor_field src)
      then [(''sort'', text_or (pu_cursor_field src) []), (''order'', ''desc'')] else [])"

text \<open>The rows of a page up to the watermark, and whether it was met.\<close>

fun take_new :: "env \<Rightarrow> pull_source \<Rightarrow> pyval \<Rightarrow> pyval list \<Rightarrow> exn + (pyval list \<times> bool)" where
  "take_new env src ct [] = Inr ([], False)"
| "take_new env src ct (r # rs) =
     bindE (if filled (pu_cursor_field src) then greater env ct (cursor_of src r) (pu_watermark src) else Inr True) (\<lambda>g.
     if \<not> g then Inr ([], True)
     else bindE (take_new env src ct rs) (\<lambda>(taken, stop). Inr (r # taken, stop)))"

text \<open>One round of the loop: the records it collects, and whether there is another.\<close>

definition peer_page :: "env \<Rightarrow> pull_source \<Rightarrow> connection \<Rightarrow> pyval \<Rightarrow> int \<Rightarrow> exn + (pyval list \<times> bool)" where
  "peer_page env src c ct page =
     (case fetch env c (py_str (opt_str (pu_remote_table src))) (peer_params src page) of
        (status, VDict d) \<Rightarrow>
          if status \<noteq> 200 then Inr ([], False)
          else bindE (py_iter (if truthy (rget d ''data'') then rget d ''data'' else VList [])) (\<lambda>rows.
            if rows = [] then Inr ([], False)
            else bindE (take_new env src ct rows) (\<lambda>(taken, stop).
              if stop then Inr (taken, False)
              else if rget d ''total'' = VNone then Inr (taken, True)
              else bindE (py_le (rget d ''total'') (VInt (page * per_page src))) (\<lambda>done. Inr (taken, \<not> done))))
      | _ \<Rightarrow> Inr ([], False))"

partial_function (option) peer_pages ::
  "env \<Rightarrow> pull_source \<Rightarrow> connection \<Rightarrow> pyval \<Rightarrow> int \<Rightarrow> (exn + pyval list) option" where
  "peer_pages env src c ct page = (case peer_page env src c ct page of
     Inl e \<Rightarrow> Some (Inl e)
   | Inr (taken, goes) \<Rightarrow>
     if goes then Option.bind (peer_pages env src c ct (page + 1)) (\<lambda>r.
            Some (bindE r (\<lambda>rest. Inr (taken @ rest))))
     else Some (Inr taken))"

definition peer_records :: "env \<Rightarrow> pull_source \<Rightarrow> connection \<Rightarrow> pyval \<Rightarrow> (exn + pyval list) option" where
  "peer_records env src c ct = map_option (\<lambda>r. bindE r (\<lambda>rs.
     Inr (if filled (pu_cursor_field src) then rev rs else rs))) (peer_pages env src c ct 1)"


subsection \<open>The records of a REST endpoint\<close>

text \<open>\<open>int(v)\<close> of a JSON value.\<close>

definition py_int :: "pyval \<Rightarrow> exn + int" where
  "py_int v = (case v of
     VNone \<Rightarrow> Inl TypeErr
   | VList _ \<Rightarrow> Inl TypeErr
   | VDict _ \<Rightarrow> Inl TypeErr
   | VFloat (FInf _) \<Rightarrow> Inl OverflowErr
   | _ \<Rightarrow> (case int_or_none v of None \<Rightarrow> Inl (ValueErr (py_str v)) | Some i \<Rightarrow> Inr i))"

record rest_conf =
  rc_req :: pyval
  rc_pg :: pyval
  rc_method :: pystr
  rc_style :: pyval
  rc_max_pages :: nat
  rc_start :: int
  rc_auth_headers :: row
  rc_auth_params :: row
  rc_base_headers :: pyval

definition or_int :: "pyval \<Rightarrow> int \<Rightarrow> pyval" where
  "or_int v d = (if truthy v then v else VInt d)"

definition rest_conf_of :: "pull_source \<Rightarrow> pyval \<Rightarrow> exn + rest_conf" where
  "rest_conf_of src cfg =
     bindE (cfg_part cfg ''request'') (\<lambda>req.
     bindE (cfg_part cfg ''pagination'') (\<lambda>pg.
     bindE (vget req ''method'') (\<lambda>me.
     bindE (case or_text me ''GET'' of VStr m \<Rightarrow> Inr (py_upper m) | _ \<Rightarrow> Inl TypeErr) (\<lambda>meth.
     bindE (vget pg ''style'') (\<lambda>st.
     bindE (vget pg ''max_pages'') (\<lambda>mp.
     bindE (py_int (or_int mp 20)) (\<lambda>pages.
     bindE (vget pg ''start'') (\<lambda>sv.
     bindE (py_int (or_int sv 1)) (\<lambda>start.
     bindE (auth_parts src cfg) (\<lambda>(ah, ap).
     Inr \<lparr>rc_req = req, rc_pg = pg, rc_method = meth, rc_style = or_text st ''none'',
          rc_max_pages = nat (max 1 pages), rc_start = start, rc_auth_headers = ah, rc_auth_params = ap,
          rc_base_headers = (case pu_headers src of JDoc v \<Rightarrow> v | _ \<Rightarrow> VDict [])\<rparr>))))))))))"

text \<open>Where the next page is: its number, the cursor token, or an address.\<close>

record place =
  pl_page :: int
  pl_token :: pyval
  pl_url :: pyval

definition fill_ctx :: "pull_source \<Rightarrow> place \<Rightarrow> row" where
  "fill_ctx src p = [(''watermark'', VStr (text_or (pu_watermark src) [])), (''page'', VInt (pl_page p)),
     (''page_size'', VInt (per_page src)), (''cursor'', or_text (pl_token p) [])]"

definition paged_params :: "pull_source \<Rightarrow> rest_conf \<Rightarrow> pystr \<Rightarrow> int \<Rightarrow> row \<Rightarrow> exn + row" where
  "paged_params src c name n params =
     bindE (vget (rc_pg c) ''param'') (\<lambda>pv.
     bindE (key_name (or_text pv name)) (\<lambda>k.
     bindE (vget (rc_pg c) ''size_param'') (\<lambda>sp.
     let ps = dset k (VInt n) params
     in if truthy sp then bindE (key_name sp) (\<lambda>j. Inr (dset j (VInt (per_page src)) ps)) else Inr ps)))"

definition rest_params :: "pull_source \<Rightarrow> rest_conf \<Rightarrow> place \<Rightarrow> exn + row" where
  "rest_params src c p =
     bindE (vget (rc_req c) ''params'') (\<lambda>v.
     bindE (fill_map (fill_ctx src p) v) (\<lambda>own.
     let params = dupdate (rc_auth_params c) own
     in if rc_style c = VStr ''page'' then paged_params src c ''page'' (pl_page p) params
        else if rc_style c = VStr ''offset''
          then paged_params src c ''offset'' ((pl_page p - rc_start c) * per_page src) params
        else if rc_style c = VStr ''cursor'' \<and> truthy (pl_token p)
          then bindE (vget (rc_pg c) ''param'') (\<lambda>pv.
               bindE (key_name (or_text pv ''cursor'')) (\<lambda>k. Inr (dset k (pl_token p) params)))
        else Inr params))"

definition rest_headers :: "pull_source \<Rightarrow> rest_conf \<Rightarrow> place \<Rightarrow> exn + row" where
  "rest_headers src c p =
     (case rc_base_headers c of
        VDict base \<Rightarrow>
          bindE (vget (rc_req c) ''headers'') (\<lambda>v.
          bindE (fill_map (fill_ctx src p) v) (\<lambda>own.
          Inr (dupdate (dupdate base own) (rc_auth_headers c))))
      | _ \<Rightarrow> Inl TypeErr)"

definition rest_fetch :: "env \<Rightarrow> pull_source \<Rightarrow> rest_conf \<Rightarrow> place \<Rightarrow> exn + (int \<times> pyval)" where
  "rest_fetch env src c p =
     bindE (rest_params src c p) (\<lambda>params.
     bindE (rest_headers src c p) (\<lambda>headers.
     bindE (vget (rc_req c) ''body'') (\<lambda>b.
     fetch_url env (if truthy (pl_url p) then pl_url p else opt_str (pu_url src)) headers
       (map (\<lambda>(k, v). (k, py_str v)) params) (rc_method c)
       (if rc_method c = ''GET'' then None else fill (fill_ctx src p) b))))"

definition next_place :: "pull_source \<Rightarrow> rest_conf \<Rightarrow> pyval \<Rightarrow> place \<Rightarrow> exn + place option" where
  "next_place src c data p =
     (if rc_style c = VStr ''cursor'' \<or> rc_style c = VStr ''link'' then
        bindE (vget (rc_pg c) ''next_path'') (\<lambda>np.
        let v = dig data np in
        Inr (if \<not> truthy v then None
             else Some (if rc_style c = VStr ''cursor'' then p\<lparr>pl_token := v\<rparr> else p\<lparr>pl_url := v\<rparr>)))
      else
        (let total = (case data of VDict d \<Rightarrow> rget d ''total'' | _ \<Rightarrow> VNone) in
         bindE (if total = VNone then Inr False else py_le total (VInt (pl_page p * per_page src))) (\<lambda>done.
         Inr (if done then None else Some (p\<lparr>pl_page := pl_page p + 1\<rparr>)))))"

fun rest_pages :: "env \<Rightarrow> pull_source \<Rightarrow> rest_conf \<Rightarrow> nat \<Rightarrow> place \<Rightarrow> exn + pyval list" where
  "rest_pages env src c 0 p = Inr []"
| "rest_pages env src c (Suc n) p =
     bindE (rest_fetch env src c p) (\<lambda>(status, data).
     if status \<noteq> 200 \<or> data = VNone then Inr []
     else bindE (extract_rows data (pu_records_path src)) (\<lambda>rows.
       if rc_style c = VStr ''none'' \<or> rows = [] then Inr rows
       else bindE (next_place src c data p) (\<lambda>nx. case nx of
              None \<Rightarrow> Inr rows
            | Some p' \<Rightarrow> bindE (rest_pages env src c n p') (\<lambda>rest. Inr (rows @ rest)))))"

text \<open>
  The records beyond the watermark in the order of their cursors (\<open>list.sort\<close> is stable; where a
  cursor is NaN the order is that of an insertion sort).
\<close>

definition in_cursor_order :: "env \<Rightarrow> pull_source \<Rightarrow> pyval \<Rightarrow> pyval list \<Rightarrow> exn + pyval list" where
  "in_cursor_order env src ct rs =
     bindE (filterE (\<lambda>r. greater env ct (cursor_of src r) (pu_watermark src)) rs) (\<lambda>fresh.
     bindE (mapE (\<lambda>r. bindE (ckey_of env ct (cursor_of src r)) (\<lambda>k. Inr (k, r))) fresh) (\<lambda>keyed.
     Inr (map snd (sort_by (\<lambda>a b. \<not> key_gt (fst a) (fst b)) keyed))))"

definition rest_records :: "env \<Rightarrow> pull_source \<Rightarrow> pyval \<Rightarrow> pyval \<Rightarrow> exn + pyval list" where
  "rest_records env src cfg ct =
     bindE (rest_conf_of src cfg) (\<lambda>c.
     bindE (rest_pages env src c (rc_max_pages c) \<lparr>pl_page = rc_start c, pl_token = VNone, pl_url = VNone\<rparr>) (\<lambda>rs.
     if filled (pu_cursor_field src) then in_cursor_order env src ct rs else Inr rs))"

subsection \<open>Filter\<close>

text \<open>\<open>triggers._eval\<close> with a target from JSON, which need not be text.\<close>

definition eval_target :: "pystr \<Rightarrow> pyval \<Rightarrow> pyval \<Rightarrow> exn + bool" where
  "eval_target op v target =
     (if \<not> truthy target then eval_op op v None
      else case target of
        VStr t \<Rightarrow> eval_op op v (Some t)
      | _ \<Rightarrow>
        if op = ''eq'' then Inr False
        else if op = ''ne'' then Inr True
        else if op \<in> {''contains'', ''not_contains'', ''starts_with'', ''ends_with''} then Inl TypeErr
        else if op \<in> {''empty'', ''not_empty'', ''is_true'', ''is_false''} then eval_op op v None
        else (case (to_float v, to_float target) of
                (Inl OverflowErr, _) \<Rightarrow> Inl OverflowErr
              | (Inl _, _) \<Rightarrow> Inr False
              | (Inr _, Inl OverflowErr) \<Rightarrow> Inl OverflowErr
              | (Inr _, Inl _) \<Rightarrow> Inr False
              | (Inr fv, Inr ft) \<Rightarrow>
                Inr (if op = ''gt'' then float_lt ft fv
                     else if op = ''gte'' then float_le ft fv
                     else if op = ''lt'' then float_lt fv ft
                     else if op = ''lte'' then float_le fv ft
                     else False)))"

text \<open>An operator that is no text equals none of the names.\<close>

definition apply_filter :: "pyval \<Rightarrow> pyval list \<Rightarrow> exn + pyval list" where
  "apply_filter cfg records =
     bindE (cfg_part cfg ''filter'') (\<lambda>f.
     bindE (vget f ''field'') (\<lambda>fld.
     bindE (vget f ''op'') (\<lambda>op.
     bindE (vget f ''value'') (\<lambda>target.
     if \<not> truthy fld \<or> \<not> truthy op then Inr records
     else filterE (\<lambda>r. eval_target (case op of VStr n \<Rightarrow> n | _ \<Rightarrow> []) (dig r fld) target) records))))"

definition remote_records :: "env \<Rightarrow> pull_source \<Rightarrow> db \<Rightarrow> (exn + pyval list) option" where
  "remote_records env src s =
     (let cfg = pull_cfg src in
      case cursor_type cfg of
        Inl e \<Rightarrow> Some (Inl e)
      | Inr ct \<Rightarrow>
        map_option (\<lambda>r. bindE r (apply_filter cfg))
          (if pu_kind src = ''rest'' then Some (rest_records env src cfg ct)
           else case (case some_id (pu_connection_id src) of None \<Rightarrow> None | Some i \<Rightarrow> get_conn s i) of
                  None \<Rightarrow> Some (Inr [])
                | Some c \<Rightarrow> if cn_active c then peer_records env src c ct else Some (Inr [])))"

subsection \<open>Mapping\<close>

text \<open>The mapping of values \<open>tr["map"]\<close>; only a dict maps.\<close>

definition mapped_raw :: "pyval \<Rightarrow> pyval \<Rightarrow> exn + pyval" where
  "mapped_raw m raw =
     (if \<not> truthy m then Inr raw
      else case m of
        VDict kv \<Rightarrow> Inr (case raw of VStr k \<Rightarrow> (case dget kv k of None \<Rightarrow> raw | Some v \<Rightarrow> v) | _ \<Rightarrow> raw)
      | VList xs \<Rightarrow> if val_in raw xs then Inl TypeErr else Inr raw
      | VStr t \<Rightarrow> (case raw of VStr k \<Rightarrow> if py_contains k t then Inl TypeErr else Inr raw | _ \<Rightarrow> Inl TypeErr)
      | _ \<Rightarrow> Inl TypeErr)"

definition source_raw :: "pyval \<Rightarrow> pyval \<Rightarrow> pyval" where
  "source_raw src r =
     (if truthy src \<and> CHR 0x7B \<in> set (py_str src) then VStr (render_record src r)
      else opt_str (as_raw (dig r src)))"

definition transformed :: "pyval \<Rightarrow> pystr \<Rightarrow> pyval \<Rightarrow> exn + pyval" where
  "transformed transforms target raw =
     bindE (vget transforms target) (\<lambda>tr0. let tr = or_dict tr0 in
     bindE (vget tr ''map'') (\<lambda>m.
     bindE (mapped_raw m raw) (\<lambda>raw'.
     bindE (vget tr ''default'') (\<lambda>d.
     Inr (if blank raw' \<and> d \<noteq> VNone then d else raw')))))"

fun map_entries ::
  "env \<Rightarrow> meta_table \<Rightarrow> pyval \<Rightarrow> pyval \<Rightarrow> pyval list \<Rightarrow> row \<Rightarrow> exn + row" where
  "map_entries env t transforms r [] vs = Inr vs"
| "map_entries env t transforms r (m # ms) vs =
     bindE (vget m ''target'') (\<lambda>target.
     bindE (vget m ''source'') (\<lambda>src.
     if truthy target \<and> (case target of VList _ \<Rightarrow> True | VDict _ \<Rightarrow> True | _ \<Rightarrow> False) then Inl TypeErr
     else case target_field t target of
       None \<Rightarrow> map_entries env t transforms r ms vs
     | Some f \<Rightarrow>
       if \<not> truthy target then map_entries env t transforms r ms vs
       else bindE (transformed transforms (f_phys_name f) (source_raw src r)) (\<lambda>raw.
            if blank raw then map_entries env t transforms r ms vs
            else bindE (coerce_value env f (as_raw raw) None) (\<lambda>v.
                 map_entries env t transforms r ms (dset (f_phys_name f) v vs)))))"

definition map_record :: "env \<Rightarrow> meta_table \<Rightarrow> pyval \<Rightarrow> pyval \<Rightarrow> pyval \<Rightarrow> exn + row" where
  "map_record env t cfg field_map r =
     bindE (cfg_part cfg ''transforms'') (\<lambda>transforms.
     bindE (py_iter field_map) (\<lambda>entries. map_entries env t transforms r entries []))"


subsection \<open>Writing\<close>

definition pull_notif :: "meta_table \<Rightarrow> pull_source \<Rightarrow> pystr \<Rightarrow> pystr \<Rightarrow> notification" where
  "pull_notif t src stat det = (new_notif ''pull_in'' stat)\<lparr>n_event := Some ''pull'',
     n_table_phys := Some (t_phys_name t), n_subject := clip 255 (pu_name src),
     n_detail := none_if_empty (take 300 det)\<rparr>"

text \<open>The write of one record: whether there was anything to write.\<close>

definition import_record :: "env \<Rightarrow> pull_source \<Rightarrow> meta_table \<Rightarrow> pyval \<Rightarrow> pyval \<Rightarrow> pyval \<Rightarrow> bool comp" where
  "import_record env src t field_map cfg r =
     bindC (liftC (map_record env t cfg field_map r)) (\<lambda>vs.
     if vs = [] then retC False
     else bindC (if pu_mode src = ''upsert'' \<and> filled (pu_match_field src)
                 then find_id_by_key (t_phys_name t) (pu_match_field src) vs True else retC None) (\<lambda>existing.
          bindC (case existing of
                   Some pk \<Rightarrow> update env t pk vs (pu_user_id src)
                 | None \<Rightarrow> bindC (create env t vs (pu_user_id src)) (\<lambda>_. retC ())) (\<lambda>_.
          retC True)))"

text \<open>The \<open>try\<close> around it: a failure is logged.\<close>

definition try_import :: "env \<Rightarrow> pull_source \<Rightarrow> meta_table \<Rightarrow> pyval \<Rightarrow> pyval \<Rightarrow> pyval \<Rightarrow> bool comp" where
  "try_import env src t field_map cfg r =
     tryC (import_record env src t field_map cfg r)
       (\<lambda>e. bindC (add_notifC (pull_notif t src ''failed'' (e_msg env e))) (\<lambda>_. retC False))"

definition try_advance :: "env \<Rightarrow> pull_source \<Rightarrow> meta_table \<Rightarrow> pyval \<Rightarrow> pyval \<Rightarrow> pystr option \<Rightarrow> pystr option comp" where
  "try_advance env src t ct r wm =
     (if \<not> filled (pu_cursor_field src) then retC wm
      else tryC (liftC (advance env ct wm (cursor_of src r)))
             (\<lambda>e. bindC (add_notifC (pull_notif t src ''failed'' (e_msg env e))) (\<lambda>_. retC wm)))"

definition pull_record ::
  "env \<Rightarrow> pull_source \<Rightarrow> meta_table \<Rightarrow> pyval \<Rightarrow> pyval \<Rightarrow> pyval \<Rightarrow> pyval \<Rightarrow> int \<times> pystr option \<Rightarrow>
     (int \<times> pystr option) comp" where
  "pull_record env src t field_map cfg ct r acc =
     bindC (try_import env src t field_map cfg r) (\<lambda>taken.
     if \<not> taken then retC acc
     else bindC (try_advance env src t ct r (snd acc)) (\<lambda>wm. retC (fst acc + 1, wm)))"

definition put_pull :: "int \<Rightarrow> (pull_source \<Rightarrow> pull_source) \<Rightarrow> db \<Rightarrow> db" where
  "put_pull i g s = s\<lparr>d_pulls := upd_where (\<lambda>p. pu_id p = i) g (d_pulls s)\<rparr>"

definition finish_pull :: "env \<Rightarrow> pull_source \<Rightarrow> meta_table \<Rightarrow> int \<times> pystr option \<Rightarrow> int comp" where
  "finish_pull env src t acc =
     (let msg = ''imported '' @ str_int (fst acc) in
      bindC (modC (put_pull (pu_id src) (\<lambda>p. p\<lparr>pu_watermark := snd acc,
               pu_last_run_at := Some (e_now env), pu_last_status := Some msg\<rparr>))) (\<lambda>_.
      bindC (add_notifC (pull_notif t src ''received'' msg)) (\<lambda>_. retC (fst acc))))"

text \<open>The writes count as the API's: \<open>g.via_api\<close> is set, and stays set for the rest of the process's work.\<close>

definition pull_write :: "env \<Rightarrow> pull_source \<Rightarrow> meta_table \<Rightarrow> pyval list \<Rightarrow> int comp" where
  "pull_write env src t records =
     (case (loads_or (VList []) (pu_field_map src), cursor_type (pull_cfg src)) of
        (None, _) \<Rightarrow> failC (ValueErr ''json'')
      | (_, Inl e) \<Rightarrow> failC e
      | (Some field_map, Inr ct) \<Rightarrow>
        bindC (foldC (pull_record (env\<lparr>e_via_api := True\<rparr>) src t field_map (pull_cfg src) ct)
                 records (0, pu_watermark src))
          (finish_pull env src t))"

definition run_one :: "env \<Rightarrow> pull_source \<Rightarrow> db \<Rightarrow> ((exn + int) \<times> db) option" where
  "run_one env src s =
     (case get_table s (pu_target_table_id src) of
        None \<Rightarrow> Some (Inr 0, s)
      | Some t \<Rightarrow>
        (case remote_records env src s of
           None \<Rightarrow> None
         | Some (Inl e) \<Rightarrow> Some (Inl e, s)
         | Some (Inr records) \<Rightarrow> Some (pull_write env src t records s)))"

definition marks_api :: "env \<Rightarrow> pull_source \<Rightarrow> db \<Rightarrow> bool" where
  "marks_api env src s =
     (get_table s (pu_target_table_id src) \<noteq> None \<and>
      (case remote_records env src s of Some (Inr _) \<Rightarrow> True | _ \<Rightarrow> False) \<and>
      loads_or (VList []) (pu_field_map src) \<noteq> None)"

subsection \<open>Scheduled and by hand\<close>

definition pull_due :: "pull_source \<Rightarrow> int \<Rightarrow> bool" where
  "pull_due src now = (case pu_schedule_minutes src of
     None \<Rightarrow> False
   | Some m \<Rightarrow> 0 < m \<and> (case pu_last_run_at src of None \<Rightarrow> True | Some l \<Rightarrow> m * usec_per_min \<le> now - l))"

text \<open>The sum so far, whether \<open>g.via_api\<close> is set by now, and the state.\<close>

fun run_sources :: "env \<Rightarrow> bool \<Rightarrow> pull_source list \<Rightarrow> int \<Rightarrow> bool \<Rightarrow> db \<Rightarrow> ((exn + int) \<times> bool \<times> db) option" where
  "run_sources env only [] n via s = Some (Inr n, via, s)"
| "run_sources env only (src # rest) n via s =
     (case (if only then (True, s) else claim_pull s (pu_id src) (pu_schedule_minutes src) (e_now env)) of
        (go, s1) \<Rightarrow>
          if \<not> go then run_sources env only rest n via s1
          else (case run_one env src s1 of
                  None \<Rightarrow> None
                | Some (Inl e, s2) \<Rightarrow> Some (Inl e, via \<or> marks_api env src s1, s2)
                | Some (Inr k, s2) \<Rightarrow> run_sources env only rest (n + k) (via \<or> marks_api env src s1) s2))"

definition pull_scheduled :: "env \<Rightarrow> int option \<Rightarrow> db \<Rightarrow> ((exn + int) \<times> bool \<times> db) option" where
  "pull_scheduled env only s =
     run_sources env (some_id only \<noteq> None)
       (case some_id only of
          Some i \<Rightarrow> filter (\<lambda>p. pu_id p = i) (d_pulls s)
        | None \<Rightarrow> filter pu_active (d_pulls s)) 0 False s"

subsection \<open>The order of cursors\<close>

lemma exact_le_trans:
  assumes "exact_le x y" "exact_le y z" and "\<forall>a b. y = Ratio a b \<longrightarrow> 0 < b"
    and "\<forall>a b. x = Ratio a b \<longrightarrow> 0 < b" and "\<forall>a b. z = Ratio a b \<longrightarrow> 0 < b"
  shows "exact_le x z"
proof (cases "\<exists>a b c d e f. x = Ratio a b \<and> y = Ratio c d \<and> z = Ratio e f")
  case True
  then obtain a b c d e f where v: "x = Ratio a b" "y = Ratio c d" "z = Ratio e f" by blast
  with assms have h: "a * d \<le> c * b" "c * f \<le> e * d" "0 < b" "0 < d" "0 < f" by auto
  have "a * f * d \<le> c * b * f" using mult_right_mono [OF h(1), of f] h(5) by (simp add: ac_simps)
  also have "\<dots> \<le> e * d * b" using mult_right_mono [OF h(2), of b] h(3) by (simp add: ac_simps)
  finally have "a * f * d \<le> e * b * d" by (simp add: ac_simps)
  with h(4) have "a * f \<le> e * b" by simp
  with v show ?thesis by simp
next
  case False
  with assms(1,2) show ?thesis by (cases x; cases y; cases z) auto
qed

lemma exact_float_pos: "exact_float f = Some (Ratio a b) \<Longrightarrow> 0 < b"
  by (cases f) (auto simp: scaled_def split: if_splits)

lemma float_lt_trans:
  assumes "float_lt x y" "float_lt y z"
  shows "float_lt x z"
proof -
  from assms obtain a b c where e: "exact_float x = Some a" "exact_float y = Some b" "exact_float z = Some c"
    by (auto simp: float_lt_def num_rel_def split: option.splits)
  have pos: "\<forall>n d. v = Ratio n d \<longrightarrow> 0 < d" if "v \<in> {a, b, c}" for v
    using that e exact_float_pos by auto
  from assms e have lt: "\<not> exact_le b a" "\<not> exact_le c b" by (auto simp: float_lt_def exact_lt_def)
  have "exact_le b c" using lt(2) by (cases b; cases c) auto
  have "\<not> exact_le c a"
  proof
    assume "exact_le c a"
    with \<open>exact_le b c\<close> have "exact_le b a" by (rule exact_le_trans) (use pos in auto)
    with lt(1) show False by simp
  qed
  with e show ?thesis by (simp add: float_lt_def exact_lt_def)
qed

lemma text_lt_trans: "text_lt s t \<Longrightarrow> text_lt t u \<Longrightarrow> text_lt s u"
proof (induction s t arbitrary: u rule: text_lt.induct)
  case (2 c t)
  then show ?case by (cases u) auto
next
  case (3 b s c t)
  then show ?case by (cases u) auto
qed simp

lemma key_gt_trans: "key_gt a b \<Longrightarrow> key_gt b c \<Longrightarrow> key_gt a c"
  by (cases a; cases b; cases c) (auto intro: float_lt_trans text_lt_trans)


lemma float_lt_irrefl [simp]: "\<not> float_lt x x"
  by (simp add: float_lt_def num_rel_def split: option.split)

lemma text_lt_irrefl [simp]: "\<not> text_lt s s"
  by (induction s) auto

lemma key_gt_irrefl [simp]: "\<not> key_gt k k"
  by (cases k) auto

lemma ckey_of_text: "\<exists>k. ckey_of env ct (VStr s) = Inr k"
  by (auto simp: ckey_of_def split: option.split)

text \<open>A cursor whose text has the same key as itself: every text, and every number that prints exactly.\<close>

definition steady :: "env \<Rightarrow> pyval \<Rightarrow> pyval \<Rightarrow> bool" where
  "steady env ct v = (v = VNone \<or> py_str v \<noteq> [] \<and>
     (case ckey_of env ct v of Inl _ \<Rightarrow> False | Inr k \<Rightarrow> ckey_of env ct (VStr (py_str v)) = Inr k))"

definition behind :: "env \<Rightarrow> pyval \<Rightarrow> pystr option \<Rightarrow> pyval \<Rightarrow> bool" where
  "behind env ct wm v = (greater env ct v wm = Inr False)"

lemma steadyD:
  assumes "steady env ct v" "v \<noteq> VNone"
  obtains k where "ckey_of env ct v = Inr k" "ckey_of env ct (VStr (py_str v)) = Inr k" "py_str v \<noteq> []"
  using assms by (auto simp: steady_def split: sum.splits)

lemma greater_steady:
  assumes "steady env ct v"
  obtains b where "greater env ct v wm = Inr b"
proof (cases "filled wm \<and> v \<noteq> VNone")
  case True
  obtain w where "wm = Some w" using True by (cases wm) auto
  moreover obtain k where "ckey_of env ct (VStr w) = Inr k" using ckey_of_text by blast
  moreover obtain j where "ckey_of env ct v = Inr j" using assms True steadyD by blast
  ultimately show ?thesis using that True by (simp add: greater_def opt_str_def)
qed (auto simp: greater_def intro: that)

lemma behind_iff:
  "behind env ct (Some w) v \<longleftrightarrow> w \<noteq> [] \<and> (v = VNone \<or>
     (\<exists>a b. ckey_of env ct v = Inr a \<and> ckey_of env ct (VStr w) = Inr b \<and> \<not> key_gt a b))"
  by (auto simp: behind_def greater_def filled_def opt_str_def elim!: bindE_InrE)

lemma behind_None [simp]: "\<not> behind env ct None v"
  by (simp add: behind_def greater_def)

text \<open>The watermark moves forward only: what is behind it stays behind it, and so is what moved it.\<close>

lemma advance_behind:
  assumes "steady env ct c" "c \<noteq> VNone"
  obtains wm' where "advance env ct wm c = Inr wm'" "behind env ct wm' c"
    "\<forall>v. behind env ct wm v \<longrightarrow> behind env ct wm' v"
proof -
  obtain g where g: "greater env ct c wm = Inr g" using assms(1) greater_steady by blast
  obtain k where k: "ckey_of env ct c = Inr k" "ckey_of env ct (VStr (py_str c)) = Inr k" "py_str c \<noteq> []"
    using assms steadyD by blast
  show ?thesis
  proof (cases g)
    case False
    with g assms(2) show ?thesis by (intro that [of wm]) (simp_all add: advance_def behind_def)
  next
    case True
    have "behind env ct (Some (py_str c)) v" if v: "behind env ct wm v" for v
    proof (cases wm)
      case None
      with v show ?thesis by simp
    next
      case (Some w)
      with True g k assms(2) v have "v = VNone \<or> (\<exists>a b. ckey_of env ct v = Inr a \<and> \<not> key_gt a b \<and> key_gt k b)"
        by (auto simp: behind_iff greater_def filled_def opt_str_def elim!: bindE_InrE)
      with k key_gt_trans show ?thesis by (auto simp: behind_iff)
    qed
    with True g k assms(2) show ?thesis
      by (intro that [of "Some (py_str c)"]) (simp_all add: advance_def behind_iff)
  qed
qed

subsection \<open>What a poll takes\<close>

lemma try_import_free: "raise_free (try_import env src t fm cfg r)"
  by (auto simp: try_import_def add_notifC_def)

lemma try_advance_free: "raise_free (try_advance env src t ct r wm)"
  by (auto simp: try_advance_def add_notifC_def)

lemma pull_record_free: "raise_free (pull_record env src t fm cfg ct r acc)"
  using try_import_free try_advance_free unfolding pull_record_def by (intro raise_free_bind) auto

lemma fold_free: "(\<And>x y. raise_free (f x y)) \<Longrightarrow> raise_free (foldC f xs y)"
  by (induction xs arbitrary: y) (auto intro: raise_free_bind)

text \<open>The records of a batch that were written, in their order.\<close>

fun taken_of ::
  "env \<Rightarrow> pull_source \<Rightarrow> meta_table \<Rightarrow> pyval \<Rightarrow> pyval \<Rightarrow> pyval \<Rightarrow> pyval list \<Rightarrow> int \<times> pystr option \<Rightarrow> db \<Rightarrow> pyval list" where
  "taken_of env src t fm cfg ct [] acc s = []"
| "taken_of env src t fm cfg ct (r # rs) acc s =
     (if fst (try_import env src t fm cfg r s) = Inr True then [r] else []) @
     (case pull_record env src t fm cfg ct r acc s of
        (Inr acc', s') \<Rightarrow> taken_of env src t fm cfg ct rs acc' s'
      | _ \<Rightarrow> [])"

lemma pull_record_cases:
  assumes "pull_record env src t fm cfg ct r (n, wm) s = (Inr (m, wm'), s')"
  obtains (skipped) "fst (try_import env src t fm cfg r s) = Inr False" "m = n" "wm' = wm"
  | (taken) s1 where "try_import env src t fm cfg r s = (Inr True, s1)"
      "try_advance env src t ct r wm s1 = (Inr wm', s')" "m = n + 1"
proof -
  obtain b s1 where i: "try_import env src t fm cfg r s = (Inr b, s1)"
    using raise_freeE [OF try_import_free] by blast
  show ?thesis
  proof (cases b)
    case True
    with assms i obtain w s2 where "try_advance env src t ct r wm s1 = (Inr w, s2)"
        "(Inr (n + 1, w), s2) = (Inr (m, wm'), s')"
      by (auto simp: pull_record_def bindC_Inr comp_simps elim!: bindC_InrE)
    with i True show ?thesis by (intro taken) auto
  next
    case False
    with assms i show ?thesis by (intro skipped) (auto simp: pull_record_def bindC_Inr comp_simps)
  qed
qed

lemma pull_fold:
  assumes "foldC (pull_record env src t fm cfg ct) rs (n, wm) s = (Inr (m, wm'), s')"
    and "filled (pu_cursor_field src)" and "list_all (\<lambda>r. steady env ct (cursor_of src r)) rs"
  shows "m = n + int (length (taken_of env src t fm cfg ct rs (n, wm) s)) \<and>
    (\<forall>v. behind env ct wm v \<longrightarrow> behind env ct wm' v) \<and>
    (\<forall>r\<in>set (taken_of env src t fm cfg ct rs (n, wm) s). cursor_of src r \<noteq> VNone \<longrightarrow>
       behind env ct wm' (cursor_of src r))"
  using assms(1,3)
proof (induction rs arbitrary: n wm s)
  case Nil
  then show ?case by (simp add: retC_def)
next
  case (Cons r rs)
  from Cons.prems(1) obtain k wk s1 where one: "pull_record env src t fm cfg ct r (n, wm) s = (Inr (k, wk), s1)"
    and rest: "foldC (pull_record env src t fm cfg ct) rs (k, wk) s1 = (Inr (m, wm'), s')"
    by (auto elim!: bindC_InrE)
  note IH = Cons.IH [OF rest] 
  from one show ?case
  proof (cases rule: pull_record_cases)
    case skipped
    with IH Cons.prems(2) one show ?thesis by simp
  next
    case (taken s2)
    have adv: "(\<forall>v. behind env ct wm v \<longrightarrow> behind env ct wk v) \<and>
        (cursor_of src r \<noteq> VNone \<longrightarrow> behind env ct wk (cursor_of src r))"
    proof (cases "cursor_of src r = VNone")
      case True
      with taken assms(2) have "wk = wm" by (simp add: try_advance_def advance_def tryC_def liftC_def)
      with True show ?thesis by simp
    next
      case False
      have "steady env ct (cursor_of src r)" using Cons.prems(2) by simp
      from this False obtain w where w: "advance env ct wm (cursor_of src r) = Inr w"
          "behind env ct w (cursor_of src r)" "\<forall>v. behind env ct wm v \<longrightarrow> behind env ct w v"
        by (rule advance_behind [where wm = wm])
      with taken assms(2) have "wk = w" by (simp add: try_advance_def tryC_def liftC_def)
      with w show ?thesis by simp
    qed
    with IH Cons.prems(2) one taken show ?thesis by auto
  qed
qed


lemma set_sort_by [simp]: "set (sort_by le xs) = set xs"
  by (induction xs) (simp_all add: sort_by_def)

lemma mapE_snd:
  assumes "mapE (\<lambda>r. bindE (f r) (\<lambda>k. Inr (k, r))) xs = Inr ys"
  shows "map snd ys = xs"
  using assms by (induction xs arbitrary: ys) (auto elim!: bindE_InrE)

lemma in_cursor_order_fresh:
  assumes "in_cursor_order env src ct rs = Inr later" "x \<in> set later"
  shows "greater env ct (cursor_of src x) (pu_watermark src) = Inr True"
proof -
  from assms obtain fresh keyed where f: "filterE (\<lambda>r. greater env ct (cursor_of src r) (pu_watermark src)) rs = Inr fresh"
    and k: "mapE (\<lambda>r. bindE (ckey_of env ct (cursor_of src r)) (\<lambda>k. Inr (k, r))) fresh = Inr keyed"
    and "x \<in> set (map snd (sort_by (\<lambda>a b. \<not> key_gt (fst a) (fst b)) keyed))"
    unfolding in_cursor_order_def by (auto elim!: bindE_InrE)
  then have "x \<in> set (map snd keyed)" by simp
  with mapE_snd [OF k] filterE_sub [OF f] show ?thesis by auto
qed

lemma greater_stamp: "e_stamp env' = e_stamp env \<Longrightarrow> greater env' = greater env"
  by (intro ext) (simp add: greater_def ckey_of_def)

lemma ckey_stamp: "e_stamp env' = e_stamp env \<Longrightarrow> ckey_of env' = ckey_of env"
  by (intro ext) (simp add: ckey_of_def)

lemma steady_stamp: "steady (env\<lparr>e_via_api := b\<rparr>) = steady env"
  by (intro ext) (simp add: steady_def ckey_stamp [of "env\<lparr>e_via_api := b\<rparr>" env] split: sum.split)

lemma rest_records_fresh:
  assumes "rest_records env src cfg ct = Inr later" "filled (pu_cursor_field src)" "x \<in> set later"
  shows "greater env ct (cursor_of src x) (pu_watermark src) = Inr True"
  using assms by (auto simp: rest_records_def intro: in_cursor_order_fresh elim!: bindE_InrE)

lemma finish_pull_run:
  "finish_pull env src t acc s = (Inr n, s') \<Longrightarrow> n = fst acc \<and>
     (\<forall>p\<in>set (d_pulls s'). pu_id p = pu_id src \<longrightarrow> pu_watermark p = snd acc)"
  by (auto simp: finish_pull_def Let_def comp_simps add_notifC_def bindC_def modC_def retC_def add_notif_def
      put_pull_def upd_where_def)

lemma pull_write_run:
  assumes "pull_write env src t recs s = (Inr n, s')"
  obtains fm ct acc s1 where "loads_or (VList []) (pu_field_map src) = Some fm" "cursor_type (pull_cfg src) = Inr ct"
    "foldC (pull_record (env\<lparr>e_via_api := True\<rparr>) src t fm (pull_cfg src) ct) recs (0, pu_watermark src) s = (Inr acc, s1)"
    "finish_pull env src t acc s1 = (Inr n, s')"
  using assms
  by (auto simp: pull_write_def comp_simps split: option.splits sum.splits elim!: bindC_InrE)


text \<open>
  One bad record does not stop the others: with a field map and a configuration that can be read, a batch
  is worked off to its end whatever its records and the writes do.
\<close>

theorem pull_never_stops:
  assumes "loads_or (VList []) (pu_field_map src) = Some fm" and "cursor_type (pull_cfg src) = Inr ct"
  shows "\<exists>n s'. pull_write env src t recs s = (Inr n, s')"
proof -
  have "raise_free (foldC (pull_record (env\<lparr>e_via_api := True\<rparr>) src t fm (pull_cfg src) ct) recs (0, pu_watermark src))"
    by (intro fold_free pull_record_free)
  moreover have "raise_free (finish_pull env src t acc)" for acc
    unfolding finish_pull_def Let_def add_notifC_def by auto
  ultimately have "raise_free (pull_write env src t recs)"
    using assms by (auto simp: pull_write_def)
  then show ?thesis by (rule raise_freeE)
qed

subsection \<open>Whether a poll returns\<close>

definition peer_answer :: "env \<Rightarrow> pull_source \<Rightarrow> connection \<Rightarrow> int \<Rightarrow> int \<times> pyval" where
  "peer_answer env src c page = fetch env c (py_str (opt_str (pu_remote_table src))) (peer_params src page)"

lemma py_le_int [simp]: "py_le (VInt i) (VInt j) = Inr (i \<le> j)"
  by (simp add: py_le_def)

lemma peer_page_total:
  assumes "\<And>d. peer_answer env src c page = (200, VDict d) \<Longrightarrow> \<exists>k\<le>N. rget d ''total'' = VInt k"
    and "peer_page env src c ct page = Inr (taken, True)"
  shows "page * per_page src < N"
proof -
  obtain st data where a: "peer_answer env src c page = (st, data)" by fastforce
  with assms(2) obtain d where d: "data = VDict d" "st = 200"
    by (auto simp: peer_page_def peer_answer_def split: pyval.splits if_splits)
  with a assms(1) obtain k where k: "k \<le> N" "rget d ''total'' = VInt k" by blast
  from assms(2) a d k have "\<not> k \<le> page * per_page src"
    by (auto simp: peer_page_def peer_answer_def split: if_splits elim!: bindE_InrE)
  with k show ?thesis by simp
qed

lemma peer_pages_end:
  assumes "\<And>p d. peer_answer env src c p = (200, VDict d) \<Longrightarrow> \<exists>k\<le>N. rget d ''total'' = VInt k"
    and "0 < per_page src"
  shows "\<exists>r. peer_pages env src c ct page = Some r"
proof (induction "nat (N - page * per_page src)" arbitrary: page rule: less_induct)
  case less
  show ?case
  proof (cases "\<exists>taken. peer_page env src c ct page = Inr (taken, True)")
    case True
    then obtain taken where one: "peer_page env src c ct page = Inr (taken, True)" by blast
    have "page * per_page src < N" using assms(1) one by (rule peer_page_total)
    moreover have "(page + 1) * per_page src = page * per_page src + per_page src" by (simp add: distrib_right)
    ultimately have "nat (N - (page + 1) * per_page src) < nat (N - page * per_page src)"
      using assms(2) by simp
    from less [OF this] obtain r where "peer_pages env src c ct (page + 1) = Some r" by blast
    then show ?thesis using one by (subst peer_pages.simps) simp
  next
    case False
    then show ?thesis by (subst peer_pages.simps) (auto split: sum.splits prod.splits)
  qed
qed

text \<open>
  A poll of a peer ends: when every answer that lists records states how many there are in all, the loop
  over the pages returns, whatever the records and however the total changes below a bound.
\<close>

theorem peer_poll_returns:
  assumes "\<And>p d. peer_answer env src c p = (200, VDict d) \<Longrightarrow> \<exists>k\<le>N. rget d ''total'' = VInt k"
    and "0 < per_page src"
  shows "\<exists>r. peer_records env src c ct = Some r"
  using peer_pages_end [OF assms] by (simp add: peer_records_def)

text \<open>A peer that answers every page with rows and states no total keeps the poll for ever.\<close>

lemma peer_pages_stuck:
  "peer_pages env src c ct page = Some r \<Longrightarrow>
    \<not> (\<forall>p. \<exists>taken. peer_page env src c ct p = Inr (taken, True))"
proof (erule peer_pages.raw_induct [where P = "\<lambda>env src c ct page r.
      \<not> (\<forall>p. \<exists>taken. peer_page env src c ct p = Inr (taken, True))", rotated])
  fix f env src c ct page r
  assume IH: "\<And>env src c ct page r. f env src c ct page = Some r \<Longrightarrow>
      \<not> (\<forall>p. \<exists>taken. peer_page env src c ct p = Inr (taken, True))"
    and body: "(case peer_page env src c ct page of Inl e \<Rightarrow> Some (Inl e)
      | Inr (taken, goes) \<Rightarrow> if goes then Option.bind (f env src c ct (page + 1)) (\<lambda>r.
            Some (bindE r (\<lambda>rest. Inr (taken @ rest)))) else Some (Inr taken)) = Some r"
  show "\<not> (\<forall>p. \<exists>taken. peer_page env src c ct p = Inr (taken, True))"
  proof
    assume all: "\<forall>p. \<exists>taken. peer_page env src c ct p = Inr (taken, True)"
    then obtain taken where "peer_page env src c ct page = Inr (taken, True)" by blast
    with body obtain q where "f env src c ct (page + 1) = Some q"
      by (cases "f env src c ct (page + 1)") auto
    with IH all show False by blast
  qed
qed

theorem endless_peer:
  assumes "\<And>p. peer_answer env src c p = (200, VDict [(''data'', VList [VDict d])])"
    and "\<not> filled (pu_cursor_field src)"
  shows "peer_records env src c ct = None"
proof -
  have "\<exists>taken. peer_page env src c ct p = Inr (taken, True)" for p
    using assms by (simp add: peer_page_def peer_answer_def rget_Cons py_iter_def)
  then show ?thesis
    using peer_pages_stuck [of env src c ct 1] by (cases "peer_pages env src c ct 1") (auto simp: peer_records_def)
qed


subsection \<open>Instances and findings\<close>

definition items_table :: meta_table where
  "items_table = sample_table\<lparr>t_phys_name := ''items'', t_track_audit := False\<rparr>"

definition items_phys :: phys where
  "items_phys = \<lparr>ph_cols = [(''id'', CInt, False), (''x'', CInt, True)], ph_pk = ''id'', ph_rows = [],
     ph_uniq = [], ph_next = 1\<rparr>"

definition text_cursor :: pyval where
  "text_cursor = VDict [(''cursor'', VDict [(''type'', VStr ''string'')])]"

definition item_source :: pull_source where
  "item_source = \<lparr>pu_id = 1, pu_name = ''p'', pu_active = True, pu_target_table_id = 1, pu_kind = ''rest'',
     pu_connection_id = None, pu_remote_table = None, pu_url = Some ''http://r'', pu_headers = JEmpty,
     pu_records_path = None, pu_config = JDoc text_cursor, pu_auth_secret = None,
     pu_field_map = JDoc (VList [VDict [(''target'', VStr ''x''), (''source'', VStr ''x'')]]), pu_mode = ''create'',
     pu_match_field = None, pu_cursor_field = Some ''seq'', pu_watermark = None, pu_page_size = None,
     pu_schedule_minutes = Some 5, pu_user_id = None, pu_last_run_at = None, pu_last_status = None\<rparr>"

definition items_db :: db where
  "items_db = empty_db\<lparr>d_tables := [items_table], d_phys := [(''items'', items_phys)], d_pulls := [item_source]\<rparr>"

definition item :: "pystr \<Rightarrow> pystr \<Rightarrow> pyval" where
  "item seq x = VDict [(''seq'', VStr seq), (''x'', VStr x)]"

definition remote_env :: "pyval \<Rightarrow> env" where
  "remote_env answer = plain_env\<lparr>e_testing := False, e_http := (\<lambda>_ _ _ _. Inr (200, ''doc'')), e_loads := (\<lambda>_. JDoc answer)\<rparr>"


theorem pull_never_stops_witness:
  "\<exists>n s'. pull_write plain_env item_source items_table [VNone, item ''1'' ''abc''] items_db = (Inr n, s')"
  by (rule pull_never_stops) code_simp+

definition total_answer :: pyval where
  "total_answer = VDict [(''data'', VList [item ''1'' ''5'']), (''total'', VInt 250)]"

theorem peer_poll_returns_witness:
  "\<exists>r. peer_records (remote_env total_answer) (item_source\<lparr>pu_cursor_field := None\<rparr>) sample_conn VNone = Some r"
proof (rule peer_poll_returns)
  fix p d
  assume "peer_answer (remote_env total_answer) (item_source\<lparr>pu_cursor_field := None\<rparr>) sample_conn p = (200, VDict d)"
  then have "VDict d = total_answer"
    by (simp add: peer_answer_def fetch_def request_def remote_env_def body_data_def)
  then show "\<exists>k\<le>250. rget d ''total'' = VInt k" by (simp add: total_answer_def rget_Cons)
qed code_simp

text \<open>
  A record that could not be written is passed over for good once a later one of the batch is: the watermark
  moves past it, and the next poll does not fetch it.
\<close>

theorem failed_passed_over:
  "let r = pull_write plain_env item_source items_table [item ''1'' ''abc'', item ''2'' ''7''] items_db;
       src = hd (d_pulls (snd r))
   in fst r = Inr 1 \<and> pu_watermark src = Some ''2'' \<and>
      map n_status (d_notifs (snd r)) = [''failed'', ''received''] \<and>
      rest_records (remote_env (VList [item ''1'' ''5'', item ''2'' ''7''])) src text_cursor (VStr ''string'') = Inr []"
  by code_simp

text \<open>The key that is to raise never raises on an integer beyond the floats.\<close>

theorem cursor_overflow: "ckey_of plain_env VNone (VInt (10 ^ 400)) = Inl OverflowErr"
  by code_simp

text \<open>A source whose poll raises ends the scheduled run: the sources after it are not polled in this pass.\<close>

theorem bad_source_ends_run:
  "let bad = item_source\<lparr>pu_config := JDoc (VDict [(''pagination'', VDict [(''max_pages'', VStr ''many'')])])\<rparr>;
       s = items_db\<lparr>d_pulls := [bad, item_source\<lparr>pu_id := 2\<rparr>]\<rparr>
   in case pull_scheduled plain_env None s of
        Some (r, via, s') \<Rightarrow> isl r \<and> map pu_last_run_at (d_pulls s') = [Some 0, None]
      | None \<Rightarrow> False"
  by code_simp

end
