(* ===== verification/Hooks.thy ===== *)
theory Hooks
  imports Pull Rest_Api Sign_In
begin

text \<open>
  \<open>app/hooks/routes.py\<close>: the receiver of inbound webhooks. A request is the token of the address, the
  length it declares, its body (one character per byte), the signature header (empty when absent) and
  whether it is declared as JSON. The answer is a status and its document as in \<open>Rest_Api\<close>; an exception
  no branch catches is the failure of the computation.

  Shown: nothing but the hits of the rate limiter changes unless the token belongs to an active webhook,
  the body is within the limit and, where the webhook has a secret, its signature is the right one; a
  refused request changes nothing else. Finding: a signature header beyond ASCII raises.
\<close>

subsection \<open>Signatures\<close>

definition hmac_sha256 :: "byte list \<Rightarrow> byte list \<Rightarrow> byte list" where
  "hmac_sha256 key msg =
     (let k0 = (if 64 < length key then sha256 key else key); k = k0 @ replicate (64 - length k0) 0
      in sha256 (map (\<lambda>b. b XOR 0x5C) k @ sha256 (map (\<lambda>b. b XOR 0x36) k @ msg)))"

definition body_bytes :: "pystr \<Rightarrow> byte list" where
  "body_bytes body = map (\<lambda>c. word_of_int (code c)) body"

definition signature_of :: "pystr \<Rightarrow> pystr \<Rightarrow> pystr" where
  "signature_of secret body = ''sha256='' @ concat (map hex_byte (hmac_sha256 (utf8 secret) (body_bytes body)))"

subsection \<open>The request\<close>

record hook_request =
  hq_length :: "int option"
  hq_body :: pystr
  hq_signature :: pystr
  hq_is_json :: bool

definition hook_limit :: "env \<Rightarrow> db \<Rightarrow> int option \<Rightarrow> pystr \<Rightarrow> int option" where
  "hook_limit env s v key = (case v of Some n \<Rightarrow> Some n
     | None \<Rightarrow> (case setting env s key of VInt i \<Rightarrow> Some i | _ \<Rightarrow> None))"

definition hook_for :: "db \<Rightarrow> pystr \<Rightarrow> webhook option" where
  "hook_for s tok = find (\<lambda>w. wh_token_hash w = hash_token tok \<and> wh_active w) (d_webhooks s)"

text \<open>The cap on the body, by the declared length first; no cap is NULL or zero.\<close>

definition fits :: "env \<Rightarrow> db \<Rightarrow> webhook \<Rightarrow> hook_request \<Rightarrow> bool" where
  "fits env s w rq = (case some_id (hook_limit env s (wh_max_body_bytes w) ''webhook_max_body_bytes'') of
     None \<Rightarrow> True
   | Some n \<Rightarrow> (case hq_length rq of None \<Rightarrow> True | Some l \<Rightarrow> l \<le> n) \<and> int (length (hq_body rq)) \<le> n)"

definition declared_fits :: "env \<Rightarrow> db \<Rightarrow> webhook \<Rightarrow> hook_request \<Rightarrow> bool" where
  "declared_fits env s w rq = (case some_id (hook_limit env s (wh_max_body_bytes w) ''webhook_max_body_bytes'') of
     None \<Rightarrow> True
   | Some n \<Rightarrow> (case hq_length rq of None \<Rightarrow> True | Some l \<Rightarrow> l \<le> n))"

definition hook_rate :: "env \<Rightarrow> webhook \<Rightarrow> (bool \<times> int) comp" where
  "hook_rate env w s =
     (let limit = hook_limit env s (wh_rate_limit w) ''webhook_rate_limit'' in
      case hook_limit env s (wh_rate_window w) ''webhook_rate_window'' of
        Some window \<Rightarrow> (case hit_ok (wh_token_hash w) limit window (e_now env) s of (r, s') \<Rightarrow> (Inr r, s'))
      | None \<Rightarrow> if off limit then (Inr (True, 0), s) else (Inl TypeErr, s))"

definition signed_ok :: "webhook \<Rightarrow> hook_request \<Rightarrow> exn + bool" where
  "signed_ok w rq = (if filled (wh_secret w)
     then compare_digest (hq_signature rq) (signature_of (text_or (wh_secret w) []) (hq_body rq))
     else Inr True)"

definition hook_json :: "env \<Rightarrow> hook_request \<Rightarrow> pyval" where
  "hook_json env rq = (if hq_is_json rq then case e_loads env (hq_body rq) of JDoc v \<Rightarrow> v | _ \<Rightarrow> VNone else VNone)"

text \<open>The values of the record: a \<open>ValueError\<close> of a field is an answer, \<open>Inr (Inl m)\<close>.\<close>

fun hook_values :: "env \<Rightarrow> meta_table \<Rightarrow> pyval \<Rightarrow> pyval list \<Rightarrow> row \<Rightarrow> exn + (pystr + row)" where
  "hook_values env t payload [] vs = Inr (Inr vs)"
| "hook_values env t payload (m # ms) vs =
     bindE (vget m ''target'') (\<lambda>target.
     bindE (vget m ''source'') (\<lambda>src.
     if truthy target \<and> (case target of VList _ \<Rightarrow> True | VDict _ \<Rightarrow> True | _ \<Rightarrow> False) then Inl TypeErr
     else case (if truthy target then target_field t target else None) of
       None \<Rightarrow> hook_values env t payload ms vs
     | Some f \<Rightarrow>
       (case as_raw (dig payload src) of
          None \<Rightarrow> hook_values env t payload ms vs
        | Some raw \<Rightarrow>
          (case coerce_value env f (Some raw) None of
             Inl (ValueErr msg) \<Rightarrow> Inr (Inl msg)
           | Inl e \<Rightarrow> Inl e
           | Inr v \<Rightarrow> hook_values env t payload ms (dset (f_phys_name f) v vs)))))"

definition put_hook :: "int \<Rightarrow> (webhook \<Rightarrow> webhook) \<Rightarrow> db \<Rightarrow> db" where
  "put_hook i g s = s\<lparr>d_webhooks := upd_where (\<lambda>w. wh_id w = i) g (d_webhooks s)\<rparr>"

definition hook_log :: "env \<Rightarrow> webhook \<Rightarrow> meta_table \<Rightarrow> pyval \<Rightarrow> pystr \<Rightarrow> pystr \<Rightarrow> pystr option \<Rightarrow> unit comp" where
  "hook_log env w t pk event stat det =
     bindC (add_notifC ((new_notif ''webhook_in'' stat)\<lparr>n_table_phys := Some (t_phys_name t), n_row_pk := pk,
       n_event := Some event, n_user_id := opt_int (wh_user_id w), n_subject := Some (wh_name w), n_detail := det\<rparr>)) (\<lambda>_.
     modC (put_hook (wh_id w) (\<lambda>x. x\<lparr>wh_last_received_at := Some (e_now env),
       wh_last_status := Some (take 255 (text_or det stat))\<rparr>)))"

text \<open>The write: the key, the status and the event of a success.\<close>

definition hook_save :: "env \<Rightarrow> webhook \<Rightarrow> meta_table \<Rightarrow> pyval option \<Rightarrow> row \<Rightarrow> (pyval \<times> int \<times> pystr) comp" where
  "hook_save env w t existing vs = (case existing of
     Some pk \<Rightarrow> bindC (update env t pk vs (wh_user_id w)) (\<lambda>_. retC (pk, 200, ''update''))
   | None \<Rightarrow> bindC (create env t vs (wh_user_id w)) (\<lambda>pk. retC (pk, 201, ''create'')))"

definition hook_write :: "env \<Rightarrow> webhook \<Rightarrow> meta_table \<Rightarrow> pyval option \<Rightarrow> row \<Rightarrow> response comp" where
  "hook_write env w t existing vs =
     bindC (attempt (hook_save (env\<lparr>e_via_api := True\<rparr>) w t existing vs)) (\<lambda>res. case res of
       Inl e \<Rightarrow> bindC (hook_log env w t VNone ''create'' ''failed'' (Some (e_msg env e))) (\<lambda>_.
                retC (err 409 (''Could not save: '' @ e_msg env e)))
     | Inr (pk, status, event) \<Rightarrow> bindC (hook_log env w t pk event ''received'' None) (\<lambda>_.
                jsonify status (VDict [(''ok'', VBool True), (''id'', pk), (''action'', VStr event)])))"

definition hook_existing :: "webhook \<Rightarrow> meta_table \<Rightarrow> row \<Rightarrow> (exn + pyval option) comp" where
  "hook_existing w t vs =
     (if wh_mode w = ''upsert'' \<and> filled (wh_match_field w)
      then attempt (find_id_by_key (t_phys_name t) (wh_match_field w) vs True) else retC (Inr None))"

text \<open>From the payload on: map, look up, write.\<close>

definition hook_found :: "env \<Rightarrow> webhook \<Rightarrow> meta_table \<Rightarrow> row \<Rightarrow> exn + pyval option \<Rightarrow> response comp" where
  "hook_found env w t vs ex = (case ex of
     Inl (ValueErr msg) \<Rightarrow> retC (err 400 msg)
   | Inl e \<Rightarrow> failC e
   | Inr existing \<Rightarrow> hook_write env w t existing vs)"

definition hook_mapped :: "env \<Rightarrow> webhook \<Rightarrow> meta_table \<Rightarrow> pystr + row \<Rightarrow> response comp" where
  "hook_mapped env w t res = (case res of
     Inl msg \<Rightarrow> retC (err 400 msg)
   | Inr vs \<Rightarrow> if vs = [] then retC (err 400 ''Payload mapped no fields.'')
               else bindC (hook_existing w t vs) (hook_found env w t vs))"

definition hook_apply :: "env \<Rightarrow> webhook \<Rightarrow> meta_table \<Rightarrow> pyval \<Rightarrow> response comp" where
  "hook_apply env w t payload =
     (case loads_or (VList []) (wh_field_map w) of
        None \<Rightarrow> failC (ValueErr ''json'')
      | Some fm \<Rightarrow>
        bindC (liftC (bindE (py_iter fm) (\<lambda>ms. hook_values env t payload ms []))) (hook_mapped env w t))"

text \<open>What follows a signature that is right, and the request within its caps.\<close>

definition hook_accepted :: "env \<Rightarrow> webhook \<Rightarrow> hook_request \<Rightarrow> response comp" where
  "hook_accepted env w rq = (case hook_json env rq of
     VDict d \<Rightarrow> bindC (getC (\<lambda>s. get_table s (wh_target_table_id w))) (\<lambda>mt. case mt of
       None \<Rightarrow> retC (err 404 ''Webhook target table is missing.'')
     | Some t \<Rightarrow> hook_apply env w t (VDict d))
   | _ \<Rightarrow> retC (err 400 ''Body must be a JSON object.''))"

definition hook_checked :: "env \<Rightarrow> webhook \<Rightarrow> hook_request \<Rightarrow> response comp" where
  "hook_checked env w rq =
     bindC (liftC (signed_ok w rq)) (\<lambda>ok.
     if \<not> ok then retC (err 401 ''Invalid or missing signature.'') else hook_accepted env w rq)"

definition receive :: "env \<Rightarrow> pystr \<Rightarrow> hook_request \<Rightarrow> response comp" where
  "receive env tok rq =
     bindC (getC (\<lambda>s. (hook_for s tok))) (\<lambda>wh. case wh of
       None \<Rightarrow> retC (err 404 ''Unknown webhook.'')
     | Some w \<Rightarrow>
       bindC (getC (\<lambda>s. (declared_fits env s w rq, fits env s w rq))) (\<lambda>(declared, fit).
       if \<not> declared then retC (err 413 ''Payload too large.'')
       else bindC (hook_rate env w) (\<lambda>(ok, retry).
            if \<not> ok then retC (err 429 ''Rate limit exceeded.'')
            else if \<not> fit then retC (err 413 ''Payload too large.'')
            else hook_checked env w rq)))"


subsection \<open>What a request may change\<close>

definition only_hits :: "db \<Rightarrow> db \<Rightarrow> bool" where
  "only_hits s s' \<longleftrightarrow> s' = s\<lparr>d_hits := d_hits s'\<rparr>"

lemma only_hits_refl [simp]: "only_hits s s"
  by (simp add: only_hits_def)

lemma hook_rate_state: "hook_rate env w s = (r, s1) \<Longrightarrow> only_hits s s1"
  by (auto simp: hook_rate_def hit_ok_def add_hit_def only_hits_def Let_def split: option.splits if_splits prod.splits)

lemma hook_save_status: "hook_save env w t ex vs s = (Inr (pk, st, ev), s') \<Longrightarrow> st \<in> {200, 201}"
  by (cases ex) (auto simp: hook_save_def comp_simps elim!: bindC_InrE)

lemma jsonify_status: "jsonify st doc s = (Inr resp, s') \<Longrightarrow> resp_status resp = st"
  by (auto simp: jsonify_def comp_simps split: if_splits)

lemma hook_write_status:
  assumes "hook_write env w t ex vs s = (Inr resp, s')"
  shows "resp_status resp \<in> {200, 201, 409}"
proof -
  let ?env = "env\<lparr>e_via_api := True\<rparr>"
  obtain r s1 where save: "hook_save ?env w t ex vs s = (r, s1)" by fastforce
  show ?thesis
  proof (cases r)
    case (Inl e)
    with assms save show ?thesis
      by (auto simp: hook_write_def attempt_def bindC_Inr comp_simps err_def elim!: bindC_InrE)
  next
    case (Inr q)
    obtain pk st ev where q: "q = (pk, st, ev)" by (cases q)
    then have "st \<in> {200, 201}" using save Inr hook_save_status by blast
    moreover have "resp_status resp = st"
      using assms save Inr q by (auto simp: hook_write_def attempt_def bindC_Inr elim!: bindC_InrE dest: jsonify_status)
    ultimately show ?thesis by auto
  qed
qed

lemma hook_existing_state: "hook_existing w t vs s = (r, s') \<Longrightarrow> s' = s \<and> (\<exists>x. r = Inr x)"
  using read_phys_state
  by (auto simp: hook_existing_def attempt_def find_id_by_key_def find_id_by_def Let_def comp_simps read_phys_def
      split: if_splits sum.splits prod.splits)

lemma hook_found_changes:
  assumes "hook_found env w t vs ex s = (r, s')" "s' \<noteq> s"
  shows "\<exists>existing. hook_write env w t existing vs s = (r, s')"
proof (cases ex)
  case (Inl e)
  with assms show ?thesis by (cases e) (auto simp: hook_found_def comp_simps)
next
  case (Inr existing)
  with assms show ?thesis by (auto simp: hook_found_def)
qed

lemma hook_mapped_changes:
  assumes "hook_mapped env w t res s = (r, s')" "s' \<noteq> s"
  shows "\<exists>existing vs. hook_write env w t existing vs s = (r, s')"
proof -
  from assms obtain vs where vs: "res = Inr vs" "vs \<noteq> []"
    by (cases res) (auto simp: hook_mapped_def comp_simps split: if_splits)
  obtain x where "hook_existing w t vs s = (Inr x, s)"
    using hook_existing_state [of w t vs s] by (metis prod.collapse)
  with assms vs have "hook_found env w t vs x s = (r, s')" by (simp add: hook_mapped_def bindC_Inr)
  with assms(2) hook_found_changes show ?thesis by blast
qed

lemma hook_apply_changes:
  assumes "hook_apply env w t payload s = (r, s')" "s' \<noteq> s"
  shows "\<exists>existing vs. hook_write env w t existing vs s = (r, s')"
proof (cases "loads_or (VList []) (wh_field_map w)")
  case None
  with assms show ?thesis by (simp add: hook_apply_def comp_simps)
next
  case (Some fm)
  define m where "m = bindE (py_iter fm) (\<lambda>ms. hook_values env t payload ms [])"
  have run: "hook_apply env w t payload s = bindC (liftC m) (hook_mapped env w t) s"
    by (simp add: hook_apply_def Some m_def)
  show ?thesis
  proof (cases m)
    case (Inl e)
    with run assms show ?thesis by (simp add: bindC_def liftC_def)
  next
    case (Inr res)
    with run assms have "hook_mapped env w t res s = (r, s')" by (simp add: bindC_def liftC_def)
    with assms(2) hook_mapped_changes show ?thesis by blast
  qed
qed

lemma hook_accepted_changes:
  assumes "hook_accepted env w rq s = (r, s')" "s' \<noteq> s"
  shows "\<exists>t existing vs. hook_write env w t existing vs s = (r, s')"
proof -
  from assms obtain d where d: "hook_json env rq = VDict d"
    by (cases "hook_json env rq") (simp_all add: hook_accepted_def comp_simps)
  with assms obtain t where "get_table s (wh_target_table_id w) = Some t"
    by (cases "get_table s (wh_target_table_id w)") (auto simp: hook_accepted_def comp_simps)
  with assms d have "hook_apply env w t (VDict d) s = (r, s')"
    by (simp add: hook_accepted_def comp_simps)
  with assms(2) hook_apply_changes show ?thesis by blast
qed

lemma hook_checked_changes:
  assumes "hook_checked env w rq s = (r, s')" "s' \<noteq> s"
  shows "signed_ok w rq = Inr True \<and> (\<exists>t ex vs. hook_write env w t ex vs s = (r, s'))"
proof (cases "signed_ok w rq")
  case (Inl e)
  with assms show ?thesis by (simp add: hook_checked_def bindC_def liftC_def)
next
  case (Inr b)
  with assms have "b" by (cases b) (auto simp: hook_checked_def bindC_def liftC_def comp_simps)
  with Inr assms have "hook_accepted env w rq s = (r, s')" by (simp add: hook_checked_def bindC_def liftC_def)
  from hook_accepted_changes [OF this assms(2)] \<open>b\<close> Inr show ?thesis by simp
qed

text \<open>
  C24: The gate of a webhook: a request that changes anything beyond the hits of the rate limiter carries the
  token of an active webhook, is within the caps on size and rate, and where the webhook has a secret bears
  the signature of exactly its body under that secret; and its answer is 200, 201 or 409, so a refused
  request changed nothing.
\<close>

theorem hook_gate:
  assumes "receive env tok rq s = (r, s')" and "\<not> only_hits s s'"
  shows "\<exists>w. hook_for s tok = Some w \<and> fits env s w rq \<and> (\<exists>retry s1. hook_rate env w s = (Inr (True, retry), s1)) \<and>
    (filled (wh_secret w) \<longrightarrow> hq_signature rq = signature_of (text_or (wh_secret w) []) (hq_body rq)) \<and>
    (case r of Inl e \<Rightarrow> True | Inr resp \<Rightarrow> resp_status resp \<in> {200, 201, 409})"
proof -
  from assms obtain w where w: "hook_for s tok = Some w"
    by (cases "hook_for s tok") (auto simp: receive_def comp_simps)
  with assms have decl: "declared_fits env s w rq"
    by (auto simp: receive_def comp_simps split: if_splits)
  obtain x s1 where rate: "hook_rate env w s = (x, s1)" by fastforce
  have hits: "only_hits s s1" using rate by (rule hook_rate_state)
  have run0: "receive env tok rq s = bindC (hook_rate env w) (\<lambda>(ok, retry).
            if \<not> ok then retC (err 429 ''Rate limit exceeded.'')
            else if \<not> fits env s w rq then retC (err 413 ''Payload too large.'')
            else hook_checked env w rq) s"
    using decl w by (simp add: receive_def comp_simps)
  obtain ok retry where x: "x = Inr (ok, retry)"
  proof (cases x)
    case (Inl e)
    with run0 assms rate hits show ?thesis by (simp add: bindC_Inl)
  next
    case (Inr p)
    then show ?thesis by (cases p) (auto intro: that)
  qed
  have "ok" using run0 assms rate hits x by (cases ok) (auto simp: bindC_Inr comp_simps)
  moreover from this have "fits env s w rq"
    using run0 assms rate hits x by (cases "fits env s w rq") (auto simp: bindC_Inr comp_simps)
  ultimately have go: "ok" "fits env s w rq" .
  with run0 assms(1) rate x have run: "hook_checked env w rq s1 = (r, s')"
    by (simp add: bindC_Inr)
  with assms(2) hits have ch: "signed_ok w rq = Inr True \<and> (\<exists>t ex vs. hook_write env w t ex vs s1 = (r, s'))"
    using hook_checked_changes by blast
  moreover have "case r of Inl e \<Rightarrow> True | Inr resp \<Rightarrow> resp_status resp \<in> {200, 201, 409}"
    using ch hook_write_status by (cases r) (auto, blast+)
  moreover have "filled (wh_secret w) \<longrightarrow> hq_signature rq = signature_of (text_or (wh_secret w) []) (hq_body rq)"
    using ch by (auto simp: signed_ok_def compare_digest_def split: if_splits)
  moreover have "hook_rate env w s = (Inr (True, retry), s1)" using rate x go by simp
  ultimately show ?thesis using w go by blast
qed

definition item_hook :: "pystr \<Rightarrow> webhook" where
  "item_hook th = \<lparr>wh_id = 1, wh_name = ''h'', wh_target_table_id = 1, wh_token_hash = th, wh_prefix = ''t'',
     wh_secret = Some ''k'', wh_active = True, wh_mode = ''create'', wh_match_field = None,
     wh_field_map = JDoc (VList [VDict [(''target'', VStr ''x''), (''source'', VStr ''a.b'')]]), wh_user_id = None,
     wh_max_body_bytes = Some 100, wh_rate_limit = Some 0, wh_rate_window = Some 60, wh_last_received_at = None,
     wh_last_status = None\<rparr>"

definition hook_env :: env where
  "hook_env = remote_env (VDict [(''a'', VDict [(''b'', VInt 5)])])"

definition hook_db :: "pystr \<Rightarrow> db" where
  "hook_db th = items_db\<lparr>d_webhooks := [item_hook th]\<rparr>"

definition hook_call :: "pystr \<Rightarrow> hook_request" where
  "hook_call sig = \<lparr>hq_length = Some 2, hq_body = ''{}'', hq_signature = sig, hq_is_json = True\<rparr>"


lemma code_hex_digit: "code (hex_digit n) \<le> 127 \<or> n < 0 \<or> 15 < n"
proof (cases "n \<in> {0..15}")
  case True
  have "list_all (\<lambda>i. code (hex_digit i) \<le> 127) [0..15]" by code_simp
  with True show ?thesis by (auto simp: list_all_iff)
qed auto

lemma signature_ascii: "\<not> list_ex (\<lambda>c. 127 < code c) (signature_of k body)"
proof -
  have "code c \<le> 127" if "c \<in> set (hex_byte b)" for b c
  proof -
    have "0 \<le> n div 16 \<and> n div 16 \<le> 15 \<and> 0 \<le> n mod 16 \<and> n mod 16 \<le> 15" if "0 \<le> n" "n < 256" for n :: int
      using that by (auto simp: pos_imp_zdiv_nonneg_iff)
    from this [of "uint b"] have "0 \<le> uint b div 16 \<and> uint b div 16 \<le> 15 \<and> 0 \<le> uint b mod 16 \<and> uint b mod 16 \<le> 15"
      using uint_ge_0 [of b] uint_lt2p [of b] by simp
    with that code_hex_digit [of "uint b div 16"] code_hex_digit [of "uint b mod 16"] show ?thesis
      by (auto simp: hex_byte_def)
  qed
  moreover have "list_all (\<lambda>c. code c \<le> 127) ''sha256=''" by code_simp
  ultimately show ?thesis by (fastforce simp: signature_of_def list_ex_iff list_all_iff)
qed

text \<open>A signed call of the sample hook writes a row.\<close>

lemma hook_call_runs:
  "let r = hook_accepted hook_env (item_hook th) (hook_call sig) (hook_db th)
   in fst r = Inr \<lparr>resp_status = 201, resp_body = VDict [(''ok'', VBool True), (''id'', VInt 1), (''action'', VStr ''create'')]\<rparr> \<and>
      \<not> only_hits (hook_db th) (snd r)"
  by code_simp


theorem hook_gate_witness:
  "let th = hash_token ''t''; rq = hook_call (signature_of ''k'' ''{}'');
       r = receive hook_env ''t'' rq (hook_db th)
   in \<not> only_hits (hook_db th) (snd r) \<and>
      (\<exists>w. hook_for (hook_db th) ''t'' = Some w \<and> fits hook_env (hook_db th) w rq \<and>
        (\<exists>retry s1. hook_rate hook_env w (hook_db th) = (Inr (True, retry), s1)) \<and>
        (filled (wh_secret w) \<longrightarrow> hq_signature rq = signature_of (text_or (wh_secret w) []) (hq_body rq)) \<and>
        (case fst r of Inl e \<Rightarrow> True | Inr resp \<Rightarrow> resp_status resp \<in> {200, 201, 409}))"
proof -
  define th where "th = hash_token ''t''"
  define sg where "sg = signature_of ''k'' ''{}''"
  have found: "hook_for (hook_db th) ''t'' = Some (item_hook th)"
    by (simp add: hook_for_def hook_db_def item_hook_def th_def)
  have fit: "declared_fits hook_env (hook_db th) (item_hook th) (hook_call sg) \<and> fits hook_env (hook_db th) (item_hook th) (hook_call sg)"
    for th sg by code_simp
  have rate: "hook_rate hook_env (item_hook th) (hook_db th) = (Inr (True, 0), hook_db th)" for th
    by (simp add: hook_rate_def hook_limit_def item_hook_def hit_ok_def off_def)
  have "signed_ok (item_hook th) (hook_call sg) = Inr True"
    using signature_ascii [of "''k''" "''{}''"]
    by (auto simp: signed_ok_def compare_digest_def item_hook_def hook_call_def sg_def text_or_def)
  then have run: "receive hook_env ''t'' (hook_call sg) (hook_db th) =
      hook_accepted hook_env (item_hook th) (hook_call sg) (hook_db th)"
    using fit by (simp add: receive_def comp_simps found rate bindC_Inr hook_checked_def bindC_def liftC_def)
  have changed: "\<not> only_hits (hook_db th) (snd (receive hook_env ''t'' (hook_call sg) (hook_db th)))"
    using hook_call_runs [of th sg] by (simp add: run Let_def)
  show ?thesis
    using changed hook_gate [OF surjective_pairing changed] by (simp add: Let_def th_def sg_def)
qed

text \<open>A signature header with a character beyond ASCII is not refused: the comparison raises.\<close>

theorem signature_raises:
  "receive hook_env ''t'' (hook_call [CHR 0xE9]) (hook_db (hash_token ''t'')) = (Inl TypeErr, hook_db (hash_token ''t''))"
proof -
  define th where "th = hash_token ''t''"
  have found: "hook_for (hook_db th) ''t'' = Some (item_hook th)"
    by (simp add: hook_for_def hook_db_def item_hook_def th_def)
  have fit: "declared_fits hook_env (hook_db th) (item_hook th) (hook_call [CHR 0xE9])" for th by code_simp
  have rate: "hook_rate hook_env (item_hook th) (hook_db th) = (Inr (True, 0), hook_db th)" for th
    by (simp add: hook_rate_def hook_limit_def item_hook_def hit_ok_def off_def)
  have "127 < code CHR 0xE9" by code_simp
  then have "signed_ok (item_hook th) (hook_call [CHR 0xE9]) = Inl TypeErr"
    by (simp add: signed_ok_def compare_digest_def item_hook_def hook_call_def)
  moreover have "fits hook_env (hook_db th) (item_hook th) (hook_call [CHR 0xE9])" for th by code_simp
  ultimately show ?thesis
    using fit by (simp add: receive_def comp_simps found rate bindC_Inr hook_checked_def bindC_def liftC_def flip: th_def)
qed

end
