(* ===== verification/Csv.thy ===== *)
theory Csv
  imports PyVal
begin

text \<open>
  The CSV the application writes (\<open>csv.writer\<close>: \<open>app/reporting.py\<close>, \<open>app/list_export.py\<close>,
  \<open>template_csv\<close>) and reads (\<open>csv.reader\<close> over a \<open>StringIO\<close>: \<open>app/importer.py\<close>), in the dialect both
  use by default: a comma, double quotes doubled inside quotes, quoting where it is needed, lines ended
  by CR LF. The reader is the state machine of the \<open>csv\<close> module; it works line by line, so a line feed
  is a character and then the end of the line. \<^const>\<open>None\<close> is \<open>csv.Error\<close>.

  Shown: what is written is read back, whatever the fields hold.
\<close>

subsection \<open>Writing\<close>

definition csv_special :: "char \<Rightarrow> bool" where
  "csv_special c = (c \<in> {CHR '','', CHR 0x22, CHR 0x0D, CHR 0x0A})"

definition csv_escape :: "pystr \<Rightarrow> pystr" where
  "csv_escape f = concat (map (\<lambda>c. if c = CHR 0x22 then [c, c] else [c]) f)"

text \<open>An empty field is quoted where it is the only one of its row.\<close>

definition csv_field :: "bool \<Rightarrow> pystr \<Rightarrow> pystr" where
  "csv_field only f = (if list_ex csv_special f \<or> (only \<and> f = [])
     then [CHR 0x22] @ csv_escape f @ [CHR 0x22] else f)"

definition csv_row :: "pystr list \<Rightarrow> pystr" where
  "csv_row fs = join_with '','' (map (csv_field (length fs = 1)) fs) @ [CHR 0x0D, CHR 0x0A]"

definition csv_text :: "pystr list list \<Rightarrow> pystr" where
  "csv_text rows = concat (map csv_row rows)"

subsection \<open>Reading\<close>

datatype csv_state = StartRecord | StartField | InField | InQuoted | QuoteInQuoted | EatCrnl

text \<open>The state, the field being read and the fields before it.\<close>

type_synonym csv_acc = "csv_state \<times> pystr \<times> pystr list"

definition csv_save :: "csv_state \<Rightarrow> csv_acc \<Rightarrow> csv_acc" where
  "csv_save st a = (case a of (_, f, fs) \<Rightarrow> (st, [], fs @ [f]))"

definition csv_add :: "csv_state \<Rightarrow> char \<Rightarrow> csv_acc \<Rightarrow> csv_acc" where
  "csv_add st c a = (case a of (_, f, fs) \<Rightarrow> (st, f @ [c], fs))"

definition csv_at :: "csv_state \<Rightarrow> csv_acc \<Rightarrow> csv_acc" where
  "csv_at st a = (case a of (_, f, fs) \<Rightarrow> (st, f, fs))"

definition csv_char :: "char \<Rightarrow> csv_acc \<Rightarrow> csv_acc option" where
  "csv_char c a =
     (let nl = (c = CHR 0x0A \<or> c = CHR 0x0D); quote = (c = CHR 0x22); comma = (c = CHR '','');
          start = (if nl then csv_save EatCrnl a else if quote then csv_at InQuoted a
                   else if comma then csv_save StartField a else csv_add InField c a)
      in case fst a of
        StartRecord \<Rightarrow> Some (if nl then csv_at EatCrnl a else start)
      | StartField \<Rightarrow> Some start
      | InField \<Rightarrow> Some (if nl then csv_save EatCrnl a else if comma then csv_save StartField a else csv_add InField c a)
      | InQuoted \<Rightarrow> Some (if quote then csv_at QuoteInQuoted a else csv_add InQuoted c a)
      | QuoteInQuoted \<Rightarrow> Some (if quote then csv_add InQuoted c a else if comma then csv_save StartField a
          else if nl then csv_save EatCrnl a else csv_add InField c a)
      | EatCrnl \<Rightarrow> if nl then Some a else None)"

text \<open>The end of a line: the row, if it is complete, and how the next line begins.\<close>

definition csv_eol :: "csv_acc \<Rightarrow> pystr list option \<times> csv_acc" where
  "csv_eol a = (case a of (st, f, fs) \<Rightarrow>
     (case st of
        InQuoted \<Rightarrow> (None, a)
      | StartRecord \<Rightarrow> (Some fs, (StartRecord, [], []))
      | EatCrnl \<Rightarrow> (Some fs, (StartRecord, [], []))
      | _ \<Rightarrow> (Some (fs @ [f]), (StartRecord, [], []))))"

text \<open>The end of the text: a line begun is ended, and an open quote gives up its field.\<close>

definition csv_end :: "csv_acc \<Rightarrow> pystr list list" where
  "csv_end a = (case a of (st, f, fs) \<Rightarrow>
     (case st of StartRecord \<Rightarrow> [] | EatCrnl \<Rightarrow> [fs] | _ \<Rightarrow> [fs @ [f]]))"

fun csv_rows :: "csv_acc \<Rightarrow> pystr \<Rightarrow> pystr list list option" where
  "csv_rows a [] = Some (csv_end a)"
| "csv_rows a (c # s) = (case csv_char c a of
     None \<Rightarrow> None
   | Some a' \<Rightarrow>
     if c \<noteq> CHR 0x0A then csv_rows a' s
     else case csv_eol a' of
       (None, a'') \<Rightarrow> csv_rows a'' s
     | (Some r, a'') \<Rightarrow> map_option (\<lambda>rs. r # rs) (csv_rows a'' s))"

definition csv_read :: "pystr \<Rightarrow> pystr list list option" where
  "csv_read s = csv_rows (StartRecord, [], []) s"

subsection \<open>What is written is read back\<close>

lemmas csv_defs = csv_char_def csv_save_def csv_add_def csv_at_def csv_eol_def Let_def

lemma read_plain:
  "list_all (\<lambda>c. \<not> csv_special c) f \<Longrightarrow>
    csv_rows (InField, g, fs) (f @ s) = csv_rows (InField, g @ f, fs) s"
  by (induction f arbitrary: g) (auto simp: csv_defs csv_special_def)

lemma read_quoted:
  "csv_rows (InQuoted, g, fs) (csv_escape f @ s) = csv_rows (InQuoted, g @ f, fs) s"
  by (induction f arbitrary: g) (auto simp: csv_defs csv_escape_def)

text \<open>A written field ends in one of three states, which treat a comma and the end of the row alike.\<close>

lemma read_field:
  assumes "st = StartField \<or> st = StartRecord \<and> csv_field only f \<noteq> []"
  obtains st' where "st' \<in> {StartField, InField, QuoteInQuoted}"
    "csv_rows (st, [], fs) (csv_field only f @ s) = csv_rows (st', f, fs) s"
proof (cases "list_ex csv_special f \<or> (only \<and> f = [])")
  case True
  then have "csv_rows (st, [], fs) (csv_field only f @ s) = csv_rows (InQuoted, [], fs) (csv_escape f @ CHR 0x22 # s)"
    using assms by (auto simp: csv_field_def csv_defs)
  also have "\<dots> = csv_rows (QuoteInQuoted, f, fs) s" by (simp add: read_quoted csv_defs)
  finally show ?thesis by (intro that [of QuoteInQuoted]) simp_all
next
  case plain: False
  show ?thesis
  proof (cases f)
    case Nil
    with plain assms show ?thesis by (intro that [of StartField]) (auto simp: csv_field_def)
  next
    case (Cons c g)
    have ok: "list_all (\<lambda>c. \<not> csv_special c) (c # g)"
      using plain Cons by (auto simp: list_ex_iff list_all_iff)
    then have "csv_rows (st, [], fs) (csv_field only f @ s) = csv_rows (InField, [c], fs) (g @ s)"
      using assms plain Cons by (auto simp: csv_field_def csv_defs csv_special_def)
    also have "\<dots> = csv_rows (InField, f, fs) s" using ok Cons by (simp add: read_plain)
    finally show ?thesis by (intro that [of InField]) simp_all
  qed
qed

lemma read_fields:
  assumes "gs \<noteq> []" and "st = StartField \<or> st = StartRecord \<and> csv_field only (hd gs) @ (if tl gs = [] then [] else '','') \<noteq> []"
  shows "csv_rows (st, [], fs) (join_with '','' (map (csv_field only) gs) @ [CHR 0x0D, CHR 0x0A] @ s) =
    map_option (\<lambda>rs. (fs @ gs) # rs) (csv_rows (StartRecord, [], []) s)"
  using assms
proof (induction gs arbitrary: st fs)
  case (Cons f gs)
  show ?case
  proof (cases gs)
    case Nil
    have "st = StartField \<or> st = StartRecord \<and> csv_field only f \<noteq> []" using Cons.prems Nil by simp
    then obtain st' where "st' \<in> {StartField, InField, QuoteInQuoted}"
      "csv_rows (st, [], fs) (csv_field only f @ [CHR 0x0D, CHR 0x0A] @ s) = csv_rows (st', f, fs) ([CHR 0x0D, CHR 0x0A] @ s)"
      by (rule read_field)
    with Nil show ?thesis by (auto simp: csv_defs)
  next
    case (Cons g hs)
    let ?rest = "join_with '','' (map (csv_field only) gs) @ [CHR 0x0D, CHR 0x0A] @ s"
    have join: "join_with '','' (map (csv_field only) (f # gs)) = csv_field only f @ '','' @ join_with '','' (map (csv_field only) gs)"
      using Cons by simp
    have "csv_rows (st, [], fs) (csv_field only f @ CHR '','' # ?rest) = csv_rows (StartField, [], fs @ [f]) ?rest"
    proof (cases "st = StartField \<or> csv_field only f \<noteq> []")
      case True
      with Cons.prems(2) have "st = StartField \<or> st = StartRecord \<and> csv_field only f \<noteq> []" by auto
      then obtain st' where "st' \<in> {StartField, InField, QuoteInQuoted}"
        "csv_rows (st, [], fs) (csv_field only f @ CHR '','' # ?rest) = csv_rows (st', f, fs) (CHR '','' # ?rest)"
        by (rule read_field)
      then show ?thesis by (auto simp: csv_defs)
    next
      case False
      with Cons.prems(2) have "st = StartRecord" "f = []" by (auto simp: csv_field_def split: if_splits)
      with False show ?thesis by (simp add: csv_defs)
    qed
    moreover have "csv_rows (StartField, [], fs @ [f]) ?rest =
        map_option (\<lambda>rs. ((fs @ [f]) @ gs) # rs) (csv_rows (StartRecord, [], []) s)"
      by (rule Cons.IH) (simp_all add: Cons)
    ultimately show ?thesis unfolding join by simp
  qed
qed simp

lemma read_row: "csv_rows (StartRecord, [], []) (csv_row r @ s) = map_option (\<lambda>rs. r # rs) (csv_rows (StartRecord, [], []) s)"
proof (cases r)
  case Nil
  then show ?thesis by (simp add: csv_row_def csv_defs)
next
  case (Cons f fs)
  have "csv_field (length r = 1) (hd r) @ (if tl r = [] then [] else '','') \<noteq> []"
    using Cons by (auto simp: csv_field_def)
  then show ?thesis
    using read_fields [of r StartRecord "length r = 1" "[]" s] Cons by (simp add: csv_row_def)
qed

text \<open>
  The round trip of CSV: the reader gives back the rows that were written, whatever commas, quotes and line
  ends their fields hold, and however many fields they have.
\<close>

theorem csv_roundtrip: "csv_read (csv_text rows) = Some rows"
proof (induction rows)
  case Nil
  then show ?case by (simp add: csv_read_def csv_text_def csv_end_def)
next
  case (Cons r rows)
  then show ?case by (simp add: csv_read_def csv_text_def read_row)
qed

end
