(* ===== verification/Reporting.thy ===== *)
theory Reporting
  imports Record_Service Sign_In Csv "HOL-Library.Multiset"
begin

text \<open>
  \<open>app/reporting.py\<close>, the aggregation of \<open>app/data_service.py\<close> (\<open>aggregate_rows\<close>), the filter choices of
  \<open>app/filters.py\<close> (\<open>build_meta\<close>) and the tiles of \<open>app/dashboards.py\<close>. A request's arguments are a list of
  pairs (\<open>get\<close> is the first value of a name, \<open>getlist\<close> all of them). The sums and means of the database are
  the environment's, counts, minima and maxima are computed. Groups come in the order of the first row of
  each, and where the order of the first metric ties they keep it. The dash for an empty group is ASCII.

  Shown: what a report of a user who is no designer names, groups, measures or filters by is a column the
  user may read; the counts of the groups add up to the total; the key of a metric and the metric
  determine each other; a dashboard shows tiles of readable tables only. Finding: currency and percent
  columns, numbers everywhere else, have no metrics.
\<close>

subsection \<open>Aggregation\<close>

definition AGG :: "pystr list" where
  "AGG = [''count'', ''sum'', ''avg'', ''min'', ''max'']"

record metric =
  me_func :: pystr
  me_col :: "pystr option"
  me_label :: pystr
  me_title :: pystr

definition metric_known :: "phys \<Rightarrow> metric \<Rightarrow> bool" where
  "metric_known p m = (me_func m \<in> set AGG \<and>
     (me_func m = ''count'' \<and> \<not> filled (me_col m) \<or> (case me_col m of None \<Rightarrow> False | Some c \<Rightarrow> has_col p c)))"

definition metric_value :: "env \<Rightarrow> metric \<Rightarrow> row list \<Rightarrow> pyval" where
  "metric_value env m rows =
     (let vals = (case me_col m of None \<Rightarrow> [] | Some c \<Rightarrow> filter (\<lambda>v. v \<noteq> VNone) (map (\<lambda>r. rget r c) rows)) in
      if me_func m = ''count'' then VInt (int (if filled (me_col m) then length vals else length rows))
      else if me_func m = ''min'' then fold_best (\<lambda>x y. sql_cmp x y = Some Lower) vals
      else if me_func m = ''max'' then fold_best (\<lambda>x y. sql_cmp x y = Some Higher) vals
      else if vals = [] then VNone
      else e_agg env (me_func m) vals)"

definition same_group :: "pyval \<Rightarrow> pyval \<Rightarrow> bool" where
  "same_group v w = (if v = VNone then w = VNone else sql_eq v w)"

function groups :: "pystr \<Rightarrow> row list \<Rightarrow> (pyval \<times> row list) list" where
  "groups c [] = []"
| "groups c (r # rs) =
     (let v = rget r c in
      (v, r # filter (\<lambda>x. same_group v (rget x c)) rs) # groups c (filter (\<lambda>x. \<not> same_group v (rget x c)) rs))"
  by pat_completeness auto
termination groups
  by (relation "measure (\<lambda>(c, rs). length rs)") (auto simp: le_imp_less_Suc)

record aggregate =
  ag_labels :: "pystr list"
  ag_rows :: "pyval list list"
  ag_totals :: "pyval list option"

definition group_in :: "phys \<Rightarrow> pystr option \<Rightarrow> pystr option" where
  "group_in p g = (case g of Some c \<Rightarrow> if c \<noteq> [] \<and> has_col p c then Some c else None | None \<Rightarrow> None)"

text \<open>The order: by a metric that is named, else the first metric, descending, else the group.\<close>

definition order_pos :: "pystr list \<Rightarrow> pystr option \<Rightarrow> nat" where
  "order_pos labels order = (case order of
     Some o' \<Rightarrow> (case find (\<lambda>i. labels ! i = o') (rev [0..<length labels]) of Some i \<Rightarrow> i | None \<Rightarrow> 0)
   | None \<Rightarrow> 0)"

definition order_groups :: "pystr list \<Rightarrow> pystr option \<Rightarrow> pyval list list \<Rightarrow> pyval list list" where
  "order_groups labels order rows =
     (if labels = [] then sort_by (\<lambda>a b. sql_le (hd a) (hd b)) rows
      else let i = order_pos labels order + 1 in sort_by (\<lambda>a b. sql_le (b ! i) (a ! i)) rows)"

definition limited :: "int \<Rightarrow> 'a list \<Rightarrow> 'a list" where
  "limited n xs = (if n = 0 then xs else take (nat n) xs)"

definition aggregate_of ::
  "env \<Rightarrow> phys \<Rightarrow> pystr option \<Rightarrow> metric list \<Rightarrow> filt list \<Rightarrow> pystr option \<Rightarrow> int \<Rightarrow> aggregate" where
  "aggregate_of env p grp metrics filters order limit =
     (let ms = filter (metric_known p) metrics; labels = map me_label ms;
          found = apply_filters p filters (ph_rows p);
          measure_of = (\<lambda>rows. map (\<lambda>m. metric_value env m rows) ms)
      in \<lparr>ag_labels = (case group_in p grp of None \<Rightarrow> labels | Some c \<Rightarrow> c # labels),
          ag_rows = (case group_in p grp of
              None \<Rightarrow> [measure_of found]
            | Some c \<Rightarrow> limited limit (order_groups labels order
                (map (\<lambda>(v, rows). v # measure_of rows) (groups c found)))),
          ag_totals = (if ms = [] then None else Some (measure_of found))\<rparr>)"

definition aggregate_rows ::
  "env \<Rightarrow> pystr \<Rightarrow> pystr option \<Rightarrow> metric list \<Rightarrow> filt list \<Rightarrow> pystr option \<Rightarrow> int \<Rightarrow> aggregate comp" where
  "aggregate_rows env t grp metrics filters order limit =
     read_phys t (\<lambda>p. if group_in p grp = None \<and> filter (metric_known p) metrics = [] then Inl (DBErr t)
       else Inr (aggregate_of env p grp metrics filters order limit))"

subsection \<open>Columns and choices\<close>

record rcol =
  rk_kind :: pystr
  rk_column :: pystr
  rk_label :: pystr
  rk_meta :: meta_field

definition rcol_of :: "meta_field \<Rightarrow> rcol" where
  "rcol_of f = \<lparr>rk_kind = (if f_data_type f = RELATION_TYPE then ''relation_m1'' else ''field''),
     rk_column = f_phys_name f, rk_label = f_label f, rk_meta = f\<rparr>"

definition table_columns :: "meta_table \<Rightarrow> pystr list option \<Rightarrow> rcol list" where
  "table_columns t allowed = map rcol_of (filter (\<lambda>f. f_data_type f \<notin> set FILE_TYPES \<and>
     (case allowed of None \<Rightarrow> True | Some a \<Rightarrow> f_phys_name f \<in> set a)) (t_fields t))"

definition NUMERIC :: "pystr list" where
  "NUMERIC = [''integer'', ''bigint'', ''decimal'', ''float'']"

definition DATELIKE :: "pystr list" where
  "DATELIKE = [''date'', ''datetime'']"

definition SCALAR_FUNCS :: "pystr list" where
  "SCALAR_FUNCS = [''sum'', ''avg'', ''min'', ''max'']"

text \<open>\<open>fn.title()\<close> of a function's name.\<close>

definition title_of :: "pystr \<Rightarrow> pystr" where
  "title_of fn = py_upper (take 1 fn) @ drop 1 fn"

definition column_funcs :: "rcol \<Rightarrow> pystr list" where
  "column_funcs c = (let dt = f_data_type (rk_meta c) in
     if dt \<in> set NUMERIC then [''sum'', ''avg'', ''min'', ''max'']
     else if dt \<in> set DATELIKE then [''min'', ''max''] else [])"

definition metric_key :: "pystr \<Rightarrow> pystr \<Rightarrow> pystr" where
  "metric_key fn c = fn @ '':'' @ c"

definition metric_choices :: "rcol list \<Rightarrow> (pystr \<times> pystr) list" where
  "metric_choices cols = (''count'', ''Count'') #
     concat (map (\<lambda>c. map (\<lambda>fn. (metric_key fn (rk_column c), title_of fn @ '' of '' @ rk_label c)) (column_funcs c)) cols)"

definition count_metric :: metric where
  "count_metric = \<lparr>me_func = ''count'', me_col = None, me_label = ''count'', me_title = ''Count''\<rparr>"

text \<open>The dict \<open>by_col\<close>: a later column of a name replaces an earlier one.\<close>

definition col_named :: "rcol list \<Rightarrow> pystr \<Rightarrow> rcol option" where
  "col_named cols n = find (\<lambda>c. rk_column c = n) (rev cols)"

definition partition_colon :: "pystr \<Rightarrow> pystr \<times> pystr" where
  "partition_colon k = (takeWhile (\<lambda>c. c \<noteq> CHR '':'') k, drop 1 (dropWhile (\<lambda>c. c \<noteq> CHR '':'') k))"

definition parse_metric :: "rcol list \<Rightarrow> pystr \<Rightarrow> metric option" where
  "parse_metric cols key =
     (if key = ''count'' then Some count_metric
      else case partition_colon key of (fn, n) \<Rightarrow>
        (case col_named cols n of
           None \<Rightarrow> None
         | Some c \<Rightarrow>
           let dt = f_data_type (rk_meta c) in
           if fn \<notin> set SCALAR_FUNCS then None
           else if fn \<in> {''sum'', ''avg''} \<and> dt \<notin> set NUMERIC then None
           else if fn \<in> {''min'', ''max''} \<and> dt \<notin> set NUMERIC \<and> dt \<notin> set DATELIKE then None
           else Some \<lparr>me_func = fn, me_col = Some n, me_label = fn @ ''_'' @ n,
                      me_title = title_of fn @ '' of '' @ rk_label c\<rparr>))"

definition key_of :: "metric \<Rightarrow> pystr" where
  "key_of m = (if me_func m = ''count'' \<and> \<not> filled (me_col m) then ''count''
     else metric_key (me_func m) (text_or (me_col m) []))"

subsection \<open>Filter choices\<close>

record filter_meta =
  fi_label :: pystr
  fi_kind :: pystr
  fi_data_type :: pystr
  fi_ops :: "pystr list"
  fi_choices :: "(pyval \<times> pyval) list option"

definition company_where :: "db \<Rightarrow> app_user option \<Rightarrow> meta_table \<Rightarrow> (pystr \<times> pyval list) option" where
  "company_where s user t = (case user of
     None \<Rightarrow> None
   | Some u \<Rightarrow>
     if is_designer u then None
     else (case (company_field t, allowed_for_user s (Some (u_id u))) of
             (Some cf, Some ids) \<Rightarrow> Some (f_phys_name cf, map VInt (sorted_list_of_set ids))
           | _ \<Rightarrow> None))"

text \<open>The chosen display fields of a relation, with the table's display field where none is chosen.\<close>

definition display_ids :: "jcol \<Rightarrow> int list" where
  "display_ids j = (case j of
     JDoc (VList xs) \<Rightarrow> (case those (map int_or_none xs) of None \<Rightarrow> [] | Some ids \<Rightarrow> ids)
   | _ \<Rightarrow> [])"

definition display_columns :: "db \<Rightarrow> meta_table \<Rightarrow> jcol \<Rightarrow> pystr list" where
  "display_columns s t j =
     (let cols = List.map_filter (\<lambda>i. map_option f_phys_name (field_by_id t i)) (display_ids j)
      in if cols = [] then [display_field_name s (Some t)] else cols)"

definition m1_target :: "db \<Rightarrow> meta_field \<Rightarrow> (meta_table \<times> pystr list) option" where
  "m1_target s f = (case (case f_related_table_id f of None \<Rightarrow> None | Some i \<Rightarrow> get_table s i) of
     None \<Rightarrow> None
   | Some t \<Rightarrow> Some (t, display_columns s t
       (case find (\<lambda>r. r_from_field_id r = Some (f_id f)) (d_rels s) of
          None \<Rightarrow> JEmpty | Some r \<Rightarrow> r_to_display_field_ids r)))"

definition own_choices :: "db \<Rightarrow> meta_field \<Rightarrow> exn + (pyval \<times> pyval) list option" where
  "own_choices s f =
     (if f_data_type f = ''enum'' then
        (case loads_or (VList []) (f_enum_options f) of
           None \<Rightarrow> Inl (ValueErr ''json'')
         | Some v \<Rightarrow> bindE (py_iter v) (\<lambda>xs. Inr (Some (map (\<lambda>x. (x, x)) xs))))
      else if f_data_type f = ''user'' then
        Inr (Some ((VStr ''me'', VStr ''Me'') # map (\<lambda>u. (VInt (u_id u), VStr (u_username u)))
          (sort_by (\<lambda>a b. \<not> text_lt (u_username b) (u_username a)) (d_users s))))
      else if f_data_type f = ''company'' then
        Inr (Some (map (\<lambda>c. (VInt (co_id c), VStr (co_name c)))
          (sort_by (\<lambda>a b. \<not> text_lt (co_name b) (co_name a)) (d_companies s))))
      else Inr None)"

record report_meta =
  rp_meta :: "(pystr, filter_meta) dict"
  rp_order :: "pystr list"
  rp_labels :: "(pystr, (pyval \<times> pystr) list) dict"
  rp_targets :: "(pystr, int) dict"

definition meta_entry :: "rcol \<Rightarrow> (pyval \<times> pyval) list option \<Rightarrow> filter_meta" where
  "meta_entry c choices = \<lparr>fi_label = rk_label c, fi_kind = filter_kind (rk_meta c),
     fi_data_type = f_data_type (rk_meta c), fi_ops = dget_or OPS_BY_KIND (filter_kind (rk_meta c)) [],
     fi_choices = choices\<rparr>"

definition add_meta :: "rcol \<Rightarrow> (pyval \<times> pyval) list option \<Rightarrow> report_meta \<Rightarrow> report_meta" where
  "add_meta c choices m = m\<lparr>rp_meta := dset (rk_column c) (meta_entry c choices) (rp_meta m),
     rp_order := rp_order m @ [rk_column c]\<rparr>"

definition meta_column :: "app_user option \<Rightarrow> rcol \<Rightarrow> report_meta \<Rightarrow> report_meta comp" where
  "meta_column user c m =
     (if rk_kind c = ''relation_m1'' then
        bindC (getC (\<lambda>s. map_option (\<lambda>(t, cols). (t, cols, company_where s user t)) (m1_target s (rk_meta c)))) (\<lambda>tg. case tg of
          None \<Rightarrow> failC TypeErr
        | Some (t, cols, wh) \<Rightarrow>
          bindC (load_options (t_phys_name t) cols wh) (\<lambda>opts.
          retC (add_meta c (Some (map (\<lambda>(i, l). (i, VStr l)) opts))
            (m\<lparr>rp_labels := dset (rk_column c) opts (rp_labels m),
               rp_targets := dset (rk_column c) (t_id t) (rp_targets m)\<rparr>))))
      else bindC (bindC (getC (\<lambda>s. own_choices s (rk_meta c))) liftC) (\<lambda>ch. retC (add_meta c ch m)))"

definition build_meta :: "app_user option \<Rightarrow> rcol list \<Rightarrow> report_meta comp" where
  "build_meta user cols = foldC (meta_column user) cols
     \<lparr>rp_meta = [], rp_order = [], rp_labels = [], rp_targets = []\<rparr>"


subsection \<open>A report\<close>

type_synonym args = "(pystr \<times> pystr) list"

definition getlist :: "args \<Rightarrow> pystr \<Rightarrow> pystr list" where
  "getlist args k = map snd (filter (\<lambda>(j, v). j = k) args)"

definition get_arg :: "args \<Rightarrow> pystr \<Rightarrow> pystr" where
  "get_arg args k = (case getlist args k of [] \<Rightarrow> [] | v # _ \<Rightarrow> v)"

fun add_metrics :: "rcol list \<Rightarrow> pystr list \<Rightarrow> metric list \<Rightarrow> metric list" where
  "add_metrics cols [] ms = ms"
| "add_metrics cols (k # ks) ms = add_metrics cols ks (case parse_metric cols k of
     None \<Rightarrow> ms | Some m \<Rightarrow> if m \<in> set ms then ms else ms @ [m])"

type_synonym condition = "pystr \<times> pystr \<times> pystr"

definition condition_valid :: "(pystr, filter_meta) dict \<Rightarrow> condition \<Rightarrow> bool" where
  "condition_valid meta cnd = (case cnd of (c, op, v) \<Rightarrow>
     (case dget meta c of None \<Rightarrow> False | Some m \<Rightarrow> valid_op (fi_kind m) op))"

definition condition_filter :: "(pystr, filter_meta) dict \<Rightarrow> condition \<Rightarrow> filt option" where
  "condition_filter meta cnd = (case cnd of (c, op, v) \<Rightarrow>
     (case dget meta c of
        None \<Rightarrow> None
      | Some m \<Rightarrow> if op \<in> set NO_VALUE_OPS \<or> v \<noteq> []
          then Some (FCond c (Some op) (VStr v) (fi_kind m = ''text'')) else None))"

record report_query =
  rq_group :: "pystr option"
  rq_metrics :: "metric list"
  rq_filters :: "filt list"
  rq_conditions :: "condition list"

definition parse_report :: "args \<Rightarrow> rcol list \<Rightarrow> (pystr, filter_meta) dict \<Rightarrow> report_query" where
  "parse_report args cols meta =
     (let g = get_arg args ''group''; ms = add_metrics cols (getlist args ''metric'') [];
          conds = filter (condition_valid meta)
            (zip (getlist args ''fcol'') (zip (getlist args ''fop'') (getlist args ''fval'')))
      in \<lparr>rq_group = (if g \<in> set (map rk_column cols) then Some g else None),
          rq_metrics = (if ms = [] then [count_metric] else ms),
          rq_filters = List.map_filter (condition_filter meta) conds, rq_conditions = conds\<rparr>)"

record report_result =
  rr_grouped :: bool
  rr_group_label :: "pystr option"
  rr_titles :: "pystr list"
  rr_rows :: "pyval list list"
  rr_totals :: "pyval list option"

definition relabel :: "(pyval \<times> pystr) list option \<Rightarrow> pyval \<Rightarrow> pyval" where
  "relabel lmap v0 = (case lmap of
     None \<Rightarrow> v0
   | Some l \<Rightarrow> (case find (\<lambda>(i, _). py_eq i v0) (rev l) of None \<Rightarrow> v0 | Some (_, t) \<Rightarrow> VStr t))"

definition group_cell :: "(pyval \<times> pystr) list option \<Rightarrow> pyval \<Rightarrow> pyval" where
  "group_cell lmap v0 = (let c = relabel lmap v0 in if blank c then VStr ''-'' else c)"

definition run_report ::
  "env \<Rightarrow> meta_table \<Rightarrow> rcol list \<Rightarrow> report_query \<Rightarrow> filt list \<Rightarrow> (pystr, (pyval \<times> pystr) list) dict \<Rightarrow> report_result comp" where
  "run_report env t cols q filters lmaps =
     bindC (aggregate_rows env (t_phys_name t) (rq_group q) (rq_metrics q) filters None 1000) (\<lambda>ag.
     retC (case rq_group q of
       Some g \<Rightarrow> \<lparr>rr_grouped = True,
         rr_group_label = Some (case col_named cols g of Some c \<Rightarrow> rk_label c | None \<Rightarrow> g),
         rr_titles = map me_title (rq_metrics q),
         rr_rows = map (\<lambda>r. group_cell (dget lmaps g) (hd r) # tl r) (ag_rows ag), rr_totals = ag_totals ag\<rparr>
     | None \<Rightarrow> \<lparr>rr_grouped = False, rr_group_label = None, rr_titles = map me_title (rq_metrics q),
         rr_rows = [case ag_totals ag of Some t \<Rightarrow> t | None \<Rightarrow> map (\<lambda>_. VNone) (rq_metrics q)], rr_totals = None\<rparr>))"

definition chart_num :: "pyval \<Rightarrow> exn + pyval" where
  "chart_num v = (case v of
     VDec d \<Rightarrow> Inr (VFloat (float_of_dec d))
   | _ \<Rightarrow> if blank v then Inr (VFloat (round_float False 0 1))
          else (case to_float v of
                  Inr x \<Rightarrow> Inr (VFloat x)
                | Inl OverflowErr \<Rightarrow> Inl OverflowErr
                | Inl _ \<Rightarrow> Inr (VFloat (round_float False 0 1))))"

record chart =
  ct_grouped :: bool
  ct_labels :: "pystr list"
  ct_series :: "(pystr \<times> pyval list) list"

definition chart_data :: "report_result \<Rightarrow> exn + chart" where
  "chart_data r =
     (if rr_grouped r then
        bindE (mapE (\<lambda>j. bindE (mapE (\<lambda>row. chart_num (row ! (j + 1))) (rr_rows r)) (\<lambda>vs. Inr (rr_titles r ! j, vs)))
          [0..<length (rr_titles r)]) (\<lambda>sr.
        Inr \<lparr>ct_grouped = True, ct_labels = map (\<lambda>row. text_of (hd row)) (rr_rows r), ct_series = sr\<rparr>)
      else
        bindE (mapE chart_num (case rr_rows r of [] \<Rightarrow> [] | row # _ \<Rightarrow> row)) (\<lambda>vs.
        Inr \<lparr>ct_grouped = False, ct_labels = rr_titles r, ct_series = [(''Total'', vs)]\<rparr>))"

record report =
  re_group_options :: "(pystr \<times> pystr) list"
  re_metric_options :: "(pystr \<times> pystr) list"
  re_query :: report_query
  re_selected :: "pystr list"
  re_meta :: report_meta
  re_result :: report_result
  re_chart :: pystr
  re_chart_data :: chart
  re_query_base :: pystr

definition report_columns :: "db \<Rightarrow> app_user option \<Rightarrow> meta_table \<Rightarrow> rcol list" where
  "report_columns s user t = table_columns t (case user of
     None \<Rightarrow> None
   | Some u \<Rightarrow> if is_designer u then None else Some (readable_fields s user t))"

text \<open>\<open>build\<close>; without a user everything is readable.\<close>

definition build_report :: "env \<Rightarrow> meta_table \<Rightarrow> args \<Rightarrow> filt list \<Rightarrow> app_user option \<Rightarrow> report comp" where
  "build_report env t args base_filters user =
     bindC (getC (\<lambda>s. report_columns s user t)) (\<lambda>cols.
     bindC (build_meta user cols) (\<lambda>m.
     let q = parse_report args cols (rp_meta m) in
     bindC (run_report env t cols q (base_filters @ rq_filters q) (rp_labels m)) (\<lambda>res.
     bindC (liftC (chart_data res)) (\<lambda>ch.
     retC \<lparr>re_group_options = map (\<lambda>c. (rk_column c, rk_label c)) cols, re_metric_options = metric_choices cols,
       re_query = q, re_selected = map key_of (rq_metrics q), re_meta = m, re_result = res,
       re_chart = (let c = get_arg args ''chart'' in if c = [] then ''bar'' else c), re_chart_data = ch,
       re_query_base = e_urlencode env (filter (\<lambda>(k, v). k \<notin> {''export'', ''chart''}) args)\<rparr>))))"

definition csv_cell :: "pyval \<Rightarrow> pystr" where
  "csv_cell v = text_of v"

definition report_rows :: "report_result \<Rightarrow> pystr list list" where
  "report_rows r = ((case rr_group_label r of Some l \<Rightarrow> [l] | None \<Rightarrow> []) @ rr_titles r) #
     map (map csv_cell) (rr_rows r) @
     (if rr_grouped r then case rr_totals r of
        Some (v # vs) \<Rightarrow> [''Total'' # map csv_cell (v # vs)] | _ \<Rightarrow> [] else [])"

definition report_csv :: "report_result \<Rightarrow> pystr" where
  "report_csv r = csv_text (report_rows r)"

subsection \<open>Dashboards\<close>

definition dash_visible :: "db \<Rightarrow> app_user option \<Rightarrow> dashboard \<Rightarrow> bool" where
  "dash_visible s user d = (case da_owner_user_id d of
     Some i \<Rightarrow> (case user of None \<Rightarrow> False | Some u \<Rightarrow> i = u_id u)
   | None \<Rightarrow>
     (let ids = List.map_filter (\<lambda>w. some_id (dw_table_id w)) (da_widgets d) in
      ids = [] \<or> list_ex (\<lambda>i. case get_table s i of None \<Rightarrow> False | Some t \<Rightarrow> table_readable s user t) ids))"

definition list_columns :: "meta_table \<Rightarrow> meta_field list" where
  "list_columns t = take 4 (filter (\<lambda>f. f_data_type f \<notin> {RELATION_TYPE, ''file'', ''image''}) (t_fields t))"

text \<open>A tile; the HTML of a text tile is the markdown library's.\<close>

datatype tile_body =
    TText pystr
  | TChart pystr chart
  | TNumber pystr pyval "pystr option"
  | TList meta_table "meta_field list" "row list" "int option"

record tile =
  ti_widget :: dashboard_widget
  ti_width :: int
  ti_body :: tile_body

definition plus_space :: "pystr \<Rightarrow> pystr" where
  "plus_space s = map (\<lambda>c. if c = CHR ''+'' then CHR '' '' else c) s"

text \<open>\<open>parse_qsl\<close>: pairs without a value are dropped.\<close>

definition parse_pair :: "pystr \<Rightarrow> (pystr \<times> pystr) option" where
  "parse_pair p =
     (let k = takeWhile (\<lambda>c. c \<noteq> CHR ''='') p; v = drop 1 (dropWhile (\<lambda>c. c \<noteq> CHR ''='') p)
      in if v = [] then None else Some (unquote (plus_space k), unquote (plus_space v)))"

definition parse_qsl :: "pystr option \<Rightarrow> args" where
  "parse_qsl q = List.map_filter parse_pair (split_on CHR ''&'' (text_or q []))"

definition tile_result :: "dashboard_widget \<Rightarrow> report \<Rightarrow> tile_body comp" where
  "tile_result w ctx =
     (if dw_kind w = ''chart''
      then retC (TChart (if dw_chart_type w = [] then ''bar'' else dw_chart_type w) (re_chart_data ctx))
      else (let res = re_result ctx in
        bindC (liftC (chart_num (case rr_rows res of (v # _) # _ \<Rightarrow> v | _ \<Rightarrow> VInt 0))) (\<lambda>v.
        retC (TNumber (case rr_titles res of t # _ \<Rightarrow> t | [] \<Rightarrow> ''Value'') v
          (none_if_empty (py_strip (text_or (dw_content w) [])))))))"

definition scope_of :: "db \<Rightarrow> meta_table \<Rightarrow> app_user option \<Rightarrow> filt list" where
  "scope_of s t user = scope_filters s t (map_option u_id user)
     (case user of None \<Rightarrow> False | Some u \<Rightarrow> is_designer u) False"

definition widget_args :: "dashboard_widget \<Rightarrow> args" where
  "widget_args w = filter (\<lambda>(k, v). \<not> (dw_kind w = ''number'' \<and> k = ''group'')) (parse_qsl (dw_query w))"

definition tile_body :: "env \<Rightarrow> app_user option \<Rightarrow> dashboard_widget \<Rightarrow> meta_table option \<Rightarrow> tile_body option comp" where
  "tile_body env user w table =
     (case table of
        None \<Rightarrow> retC (if dw_kind w = ''text'' then Some (TText (text_or (dw_content w) [])) else None)
      | Some t \<Rightarrow>
        if dw_kind w = ''text'' then retC (Some (TText (text_or (dw_content w) [])))
        else if dw_kind w \<in> {''chart'', ''number''} then
          bindC (getC (\<lambda>s. scope_of s t user)) (\<lambda>scope.
          bindC (build_report env t (widget_args w) scope user) (\<lambda>ctx.
          bindC (tile_result w ctx) (\<lambda>b. retC (Some b))))
        else if dw_kind w = ''list'' then
          bindC (list_records t (map_option u_id user) (case user of None \<Rightarrow> False | Some u \<Rightarrow> is_designer u)
              False [] None ''asc'' 1 (Some (max 1 (if dw_limit w = 0 then 5 else dw_limit w)))) (\<lambda>(rows, total).
          getC (\<lambda>s. Some (TList t (list_columns t) rows
            (map_option fm_id (find (\<lambda>f. fm_table_id f = t_id t) (sort_key fm_id (d_forms s)))))))
        else retC None)"

definition render_widget :: "env \<Rightarrow> app_user option \<Rightarrow> dashboard_widget \<Rightarrow> tile list comp" where
  "render_widget env user w =
     bindC (getC (\<lambda>s. case (case some_id (dw_table_id w) of None \<Rightarrow> None | Some i \<Rightarrow> get_table s i) of
         None \<Rightarrow> (None, True) | Some t \<Rightarrow> (Some t, table_readable s user t))) (\<lambda>(table, ok).
     if \<not> ok then retC []
     else bindC (tile_body env user w table) (\<lambda>b.
          retC (case b of None \<Rightarrow> []
            | Some x \<Rightarrow> [\<lparr>ti_widget = w, ti_width = min 2 (max 1 (if dw_width w = 0 then 1 else dw_width w)), ti_body = x\<rparr>])))"

definition render_dashboard :: "env \<Rightarrow> app_user option \<Rightarrow> dashboard \<Rightarrow> tile list comp" where
  "render_dashboard env user d =
     foldC (\<lambda>w acc. bindC (render_widget env user w) (\<lambda>ts. retC (acc @ ts))) (da_widgets d) []"


subsection \<open>Keys of metrics\<close>

lemma partition_key: "CHR '':'' \<notin> set fn \<Longrightarrow> partition_colon (metric_key fn n) = (fn, n)"
  by (induction fn) (auto simp: partition_colon_def metric_key_def)

lemma key_partition: "CHR '':'' \<in> set k \<Longrightarrow> (case partition_colon k of (a, b) \<Rightarrow> metric_key a b) = k"
proof -
  assume "CHR '':'' \<in> set k"
  then have "dropWhile (\<lambda>c. c \<noteq> CHR '':'') k = CHR '':'' # drop 1 (dropWhile (\<lambda>c. c \<noteq> CHR '':'') k)"
    by (induction k) auto
  then have "takeWhile (\<lambda>c. c \<noteq> CHR '':'') k @ CHR '':'' # drop 1 (dropWhile (\<lambda>c. c \<noteq> CHR '':'') k) = k"
    by (metis takeWhile_dropWhile_id)
  then show ?thesis by (simp add: partition_colon_def metric_key_def)
qed

lemma funcs_plain: "fn \<in> set SCALAR_FUNCS \<Longrightarrow> CHR '':'' \<notin> set fn \<and> fn \<noteq> ''count''"
  by (auto simp: SCALAR_FUNCS_def)

lemma parse_metric_key:
  assumes "parse_metric cols k = Some m" and "col_named cols [] = None"
  shows "key_of m = k"
proof (cases "k = ''count''")
  case True
  with assms(1) show ?thesis by (auto simp: parse_metric_def key_of_def count_metric_def)
next
  case False
  obtain fn n where p: "partition_colon k = (fn, n)" by fastforce
  with assms(1) False obtain c where c: "col_named cols n = Some c" "fn \<in> set SCALAR_FUNCS" "me_func m = fn" "me_col m = Some n"
    by (auto simp: parse_metric_def Let_def split: option.splits if_splits)
  have "n \<noteq> []" using assms(2) c(1) by auto
  moreover have "CHR '':'' \<in> set k"
  proof (rule ccontr)
    assume "CHR '':'' \<notin> set k"
    then have "dropWhile (\<lambda>c. c \<noteq> CHR '':'') k = []" by (auto simp: dropWhile_eq_Nil_conv)
    with p \<open>n \<noteq> []\<close> show False by (simp add: partition_colon_def)
  qed
  ultimately show ?thesis
    using key_partition [of k] p c funcs_plain [of fn] by (simp add: key_of_def text_or_def)
qed

lemma distinct_col_named:
  "distinct (map rk_column cols) \<Longrightarrow> c \<in> set cols \<Longrightarrow> col_named cols (rk_column c) = Some c"
  unfolding col_named_def
  by (rule find_unique) (auto simp: rev_map distinct_map dest: inj_onD)


lemma offered_parses:
  assumes "fn \<in> set (column_funcs c)"
  shows "fn \<in> set SCALAR_FUNCS \<and> \<not> (fn \<in> {''sum'', ''avg''} \<and> f_data_type (rk_meta c) \<notin> set NUMERIC) \<and>
    \<not> (fn \<in> {''min'', ''max''} \<and> f_data_type (rk_meta c) \<notin> set NUMERIC \<and> f_data_type (rk_meta c) \<notin> set DATELIKE)"
  using assms by (cases "f_data_type (rk_meta c) \<in> set NUMERIC"; cases "f_data_type (rk_meta c) \<in> set DATELIKE")
    (auto simp: column_funcs_def SCALAR_FUNCS_def)

lemma parse_known:
  assumes "col_named cols n = Some c" "partition_colon k = (fn, n)" "k \<noteq> ''count''" "fn \<in> set SCALAR_FUNCS"
    "\<not> (fn \<in> {''sum'', ''avg''} \<and> f_data_type (rk_meta c) \<notin> set NUMERIC)"
    "\<not> (fn \<in> {''min'', ''max''} \<and> f_data_type (rk_meta c) \<notin> set NUMERIC \<and> f_data_type (rk_meta c) \<notin> set DATELIKE)"
  shows "parse_metric cols k \<noteq> None"
  unfolding parse_metric_def assms(2) prod.case assms(1) option.case Let_def
  by (simp only: assms(3-6) if_False not_True_eq_False option.distinct) simp

text \<open>
  The key of a metric and the metric determine each other. Every choice offered parses, to a
  metric whose key is that choice; and whatever parses has the key it was parsed from (columns have
  names, and no two have one).
\<close>

theorem metric_key_roundtrip:
  assumes "distinct (map rk_column cols)" and "[] \<notin> rk_column ` set cols"
  shows "(\<forall>k\<in>fst ` set (metric_choices cols). \<exists>m. parse_metric cols k = Some m \<and> key_of m = k) \<and>
     (\<forall>k m. parse_metric cols k = Some m \<longrightarrow> key_of m = k)"
proof -
  have "col_named cols [] = None" using assms(2) by (force simp: col_named_def find_None_iff)
  then have key: "\<And>k m. parse_metric cols k = Some m \<Longrightarrow> key_of m = k" by (rule parse_metric_key [rotated])
  have "parse_metric cols k \<noteq> None" if k: "k \<in> fst ` set (metric_choices cols)" for k
  proof (cases "k = ''count''")
    case True
    then show ?thesis by (simp add: parse_metric_def)
  next
    case False
    with k obtain c fn where c: "c \<in> set cols" "fn \<in> set (column_funcs c)" "k = metric_key fn (rk_column c)"
      by (auto simp: metric_choices_def)
    have f: "fn \<in> set SCALAR_FUNCS" and rest: "\<not> (fn \<in> {''sum'', ''avg''} \<and> f_data_type (rk_meta c) \<notin> set NUMERIC)"
        "\<not> (fn \<in> {''min'', ''max''} \<and> f_data_type (rk_meta c) \<notin> set NUMERIC \<and> f_data_type (rk_meta c) \<notin> set DATELIKE)"
      using offered_parses [OF c(2)] by blast+
    have "partition_colon k = (fn, rk_column c)"
      unfolding c(3) using funcs_plain [OF f] by (intro partition_key) blast
    from parse_known [OF distinct_col_named [OF assms(1) c(1)] this False f rest] show ?thesis .
  qed
  then have "\<exists>m. parse_metric cols k = Some m \<and> key_of m = k" if "k \<in> fst ` set (metric_choices cols)" for k
    using key [of k] that by (cases "parse_metric cols k") blast+
  with key show ?thesis by blast
qed

definition rcol_at :: "pystr \<Rightarrow> pystr \<Rightarrow> rcol" where
  "rcol_at n dt = rcol_of ((sample_field dt)\<lparr>f_phys_name := n\<rparr>)"

lemma metric_key_roundtrip_witness:
  "key_of (\<lparr>me_func = ''sum'', me_col = Some ''paid'', me_label = ''sum_paid'', me_title = ''Sum of ''\<rparr>) = ''sum:paid'' \<and>
   (\<exists>m. parse_metric [rcol_at ''paid'' ''decimal'', rcol_at ''day'' ''date''] ''min:day'' = Some m \<and> key_of m = ''min:day'')"
proof -
  let ?cols = "[rcol_at ''paid'' ''decimal'', rcol_at ''day'' ''date'']"
  have "distinct (map rk_column ?cols)" "[] \<notin> rk_column ` set ?cols"
    by (simp_all add: rcol_at_def rcol_of_def)
  note r = metric_key_roundtrip [OF this]
  have "''min:day'' \<in> fst ` set (metric_choices ?cols)"
    by (simp add: metric_choices_def rcol_at_def rcol_of_def sample_field_def column_funcs_def Let_def NUMERIC_def DATELIKE_def metric_key_def)
  with r have "\<exists>m. parse_metric ?cols ''min:day'' = Some m \<and> key_of m = ''min:day''" by blast
  then show ?thesis by (simp add: key_of_def filled_def metric_key_def text_or_def)
qed

text \<open>Finding: a currency or percent column, numeric in filters and formulas, is offered no metric.\<close>

lemma currency_unmeasured:
  "filter_kind (rk_meta (rcol_at ''price'' ''currency'')) = ''number'' \<and>
   column_funcs (rcol_at ''price'' ''currency'') = []"
  by (simp add: sample_field_def filter_kind_def KIND_BY_TYPE_def dget_or_def dget_Cons column_funcs_def rcol_at_def rcol_of_def
      NUMERIC_def DATELIKE_def)

subsection \<open>Totals\<close>

definition whole :: "pyval \<Rightarrow> int" where
  "whole v = (case v of VInt i \<Rightarrow> i | _ \<Rightarrow> 0)"

lemma mset_insert_by [simp]: "mset (insert_by le x ys) = add_mset x (mset ys)"
  by (induction ys) auto

lemma mset_sort_by [simp]: "mset (sort_by le xs) = mset xs"
  by (induction xs) (simp_all add: sort_by_def)

lemma sum_list_mset_cong:
  assumes "mset xs = mset ys"
  shows "sum_list (map f xs) = sum_list (map (f :: 'a \<Rightarrow> int) ys)"
proof -
  have "sum_mset (image_mset f (mset xs)) = sum_mset (image_mset f (mset ys))" using assms by simp
  then show ?thesis by (simp flip: mset_map add: sum_mset_sum_list)
qed

lemma count_split:
  assumes "me_func m = ''count''"
  shows "whole (metric_value env m (filter P rows)) + whole (metric_value env m (filter (\<lambda>r. \<not> P r) rows)) =
     whole (metric_value env m rows)"
proof -
  have "length (filter P xs) + length (filter (\<lambda>r. \<not> P r) xs) = length xs" for xs :: "row list"
    by (induction xs) auto
  moreover have "length (filter Q (map f (filter P xs))) + length (filter Q (map f (filter (\<lambda>r. \<not> P r) xs))) =
      length (filter Q (map f xs))" for Q :: "pyval \<Rightarrow> bool" and f and xs :: "row list"
    by (induction xs) auto
  ultimately show ?thesis using assms
    by (auto simp: metric_value_def whole_def Let_def split: option.splits simp flip: of_nat_add)
qed

lemma count_cons:
  assumes "me_func m = ''count''"
  shows "whole (metric_value env m (r # rows)) = whole (metric_value env m [r]) + whole (metric_value env m rows)"
  using assms by (auto simp: metric_value_def whole_def Let_def split: option.splits)

lemma count_groups:
  assumes "me_func m = ''count''"
  shows "(\<Sum>(v, rs)\<leftarrow>groups c rows. whole (metric_value env m rs)) = whole (metric_value env m rows)"
proof (induction c rows rule: groups.induct)
  case (1 c)
  then show ?case using assms by (auto simp: metric_value_def whole_def Let_def split: option.splits)
next
  case (2 c r rs)
  let ?P = "\<lambda>x. same_group (rget r c) (rget x c)"
  have "whole (metric_value env m (r # filter ?P rs)) + whole (metric_value env m (filter (\<lambda>x. \<not> ?P x) rs)) =
      whole (metric_value env m (r # rs))"
    using count_split [OF assms, of env ?P rs] count_cons [OF assms, of env r "filter ?P rs"] count_cons [OF assms, of env r rs]
    by simp
  with 2 show ?case by (simp add: Let_def)
qed

text \<open>
  The counts of a grouped report add up to the total the report shows. Every row that passes the
  filters is in exactly one group, whatever the values of the column are; as long as the limit cuts off no group.
\<close>

theorem counts_add_up:
  assumes "group_in p grp = Some c" and "me_func (filter (metric_known p) metrics ! i) = ''count''"
    and "i < length (filter (metric_known p) metrics)"
    and "limit = 0 \<or> length (groups c (apply_filters p filters (ph_rows p))) \<le> nat limit"
  shows "\<exists>ts. ag_totals (aggregate_of env p grp metrics filters order limit) = Some ts \<and>
     (\<Sum>row\<leftarrow>ag_rows (aggregate_of env p grp metrics filters order limit). whole (row ! Suc i)) = whole (ts ! i)"
proof -
  let ?ms = "filter (metric_known p) metrics" and ?found = "apply_filters p filters (ph_rows p)"
  let ?row = "\<lambda>(v, rows). v # map (\<lambda>m. metric_value env m rows) ?ms"
  let ?rows = "order_groups (map me_label ?ms) order (map ?row (groups c ?found))"
  have ne: "?ms \<noteq> []" using assms(3) by auto
  have m: "mset ?rows = mset (map ?row (groups c ?found))" by (simp add: order_groups_def Let_def del: mset_map)
  have "length ?rows = length (groups c ?found)" using mset_eq_length [OF m] by simp
  then have lim: "limited limit ?rows = ?rows" using assms(4) by (auto simp: limited_def)
  have "(\<Sum>row\<leftarrow>?rows. whole (row ! Suc i)) = (\<Sum>row\<leftarrow>map ?row (groups c ?found). whole (row ! Suc i))"
    by (rule sum_list_mset_cong [OF m])
  also have "\<dots> = (\<Sum>(v, rs)\<leftarrow>groups c ?found. whole (metric_value env (?ms ! i) rs))"
    using assms(3) by (simp add: comp_def case_prod_unfold)
  also have "\<dots> = whole (metric_value env (?ms ! i) ?found)" by (rule count_groups [OF assms(2)])
  finally show ?thesis using assms(1,3) ne lim by (simp add: aggregate_of_def Let_def)
qed



subsection \<open>Hidden columns\<close>

text \<open>Rows that agree on some columns are not told apart by what only looks at those.\<close>

definition agree :: "pystr set \<Rightarrow> row \<Rightarrow> row \<Rightarrow> bool" where
  "agree C r r' = (\<forall>c\<in>C. rget r c = rget r' c)"

fun filt_cols :: "filt \<Rightarrow> pystr set" where
  "filt_cols (FCond c op v is_text) = {c}"
| "filt_cols (FAny fs) = fc_col ` set fs"

lemma agree_filter:
  assumes "list_all2 (agree C) rows rows'" and "\<And>r r'. agree C r r' \<Longrightarrow> P r = P r'"
  shows "list_all2 (agree C) (filter P rows) (filter P rows')"
  using assms(1) by (induction rule: list_all2_induct) (simp_all add: assms(2))

lemma agree_clause:
  "clause_for p f = Some g \<Longrightarrow> agree C r r' \<Longrightarrow> fc_col f \<in> C \<Longrightarrow> g r = g r'"
  by (auto simp: clause_for_def agree_def Let_def split: filt.splits if_splits)

lemma agree_test:
  assumes "filter_test p f = Some g" "agree C r r'" "filt_cols f \<subseteq> C"
  shows "g r = g r'"
proof (cases f)
  case (FCond c op v b)
  with assms agree_clause [of p f g C r r'] show ?thesis by (simp add: filter_test_def)
next
  case (FAny subs)
  have "h r = h r'" if "h \<in> set (List.map_filter (clause_for p) subs)" for h
    using that assms(2,3) FAny agree_clause by (fastforce simp: List.map_filter_def)
  then have "list_ex (\<lambda>h. h r) (List.map_filter (clause_for p) subs) = list_ex (\<lambda>h. h r') (List.map_filter (clause_for p) subs)"
    by (intro list_ex_cong refl)
  with assms(1) FAny show ?thesis by (auto simp: filter_test_def Let_def split: if_splits)
qed

lemma agree_apply:
  assumes "list_all2 (agree C) rows rows'" "\<Union> (filt_cols ` set fs) \<subseteq> C"
  shows "list_all2 (agree C) (apply_filters p fs rows) (apply_filters p fs rows')"
  unfolding apply_filters_def
proof (rule agree_filter [OF assms(1)])
  fix r r' assume a: "agree C r r'"
  have "h r = h r'" if h: "h \<in> set (List.map_filter (filter_test p) fs)" for h
  proof -
    from h obtain f where f: "f \<in> set fs" "filter_test p f = Some h" by (auto simp: List.map_filter_def)
    then have "filt_cols f \<subseteq> C" using assms(2) by blast
    with f(2) a show ?thesis by (rule agree_test)
  qed
  then show "list_all (\<lambda>h. h r) (List.map_filter (filter_test p) fs) = list_all (\<lambda>h. h r') (List.map_filter (filter_test p) fs)"
    by (intro list_all_cong refl)
qed

lemma agree_map: "list_all2 (agree C) rows rows' \<Longrightarrow> c \<in> C \<Longrightarrow> map (\<lambda>r. rget r c) rows = map (\<lambda>r. rget r c) rows'"
  by (induction rule: list_all2_induct) (simp_all add: agree_def)

lemma agree_metric:
  assumes "list_all2 (agree C) rows rows'" "set_option (me_col m) \<subseteq> C"
  shows "metric_value env m rows = metric_value env m rows'"
  using assms agree_map [OF assms(1)] list_all2_lengthD [OF assms(1)]
  by (cases "me_col m") (simp_all add: metric_value_def Let_def)

lemma agree_groups:
  "c \<in> C \<Longrightarrow> list_all2 (agree C) rows rows' \<Longrightarrow>
    list_all2 (\<lambda>(v, rs) (v', rs'). v = v' \<and> list_all2 (agree C) rs rs') (groups c rows) (groups c rows')"
proof (induction c rows arbitrary: rows' rule: groups.induct)
  case (2 c r rs)
  then obtain r' rs' where r: "rows' = r' # rs'" "agree C r r'" "list_all2 (agree C) rs rs'"
    by (auto simp: list_all2_Cons1)
  have v: "rget r c = rget r' c" using r(2) 2(2) by (simp add: agree_def)
  have same: "same_group (rget r c) (rget x c) = same_group (rget r c) (rget y c)" if "agree C x y" for x y
    using that 2(2) by (simp add: agree_def)
  have "list_all2 (agree C) (filter (\<lambda>x. same_group (rget r c) (rget x c)) rs) (filter (\<lambda>x. same_group (rget r c) (rget x c)) rs')"
    and rest: "list_all2 (agree C) (filter (\<lambda>x. \<not> same_group (rget r c) (rget x c)) rs) (filter (\<lambda>x. \<not> same_group (rget r c) (rget x c)) rs')"
    using same by (auto intro!: agree_filter [OF r(3)])
  with 2(1) [OF refl 2(2) rest] r v show ?case by (simp add: Let_def)
qed simp

lemma agree_rows:
  assumes "list_all2 (agree C) rows rows'" "c \<in> C" "\<forall>m\<in>set ms. set_option (me_col m) \<subseteq> C"
  shows "map (\<lambda>(v, rs). v # map (\<lambda>m. metric_value env m rs) ms) (groups c rows) =
    map (\<lambda>(v, rs). v # map (\<lambda>m. metric_value env m rs) ms) (groups c rows')"
  using agree_groups [OF assms(2,1)]
proof (induction rule: list_all2_induct)
  case (Cons x xs y ys)
  then have "metric_value env m (snd x) = metric_value env m (snd y)" if "m \<in> set ms" for m
    using assms(3) that by (intro agree_metric [where C = C]) auto
  with Cons show ?case by auto
qed simp

lemma aggregate_agree:
  assumes "list_all2 (agree C) (ph_rows p) (ph_rows p')" "columns p' = columns p"
    "set_option grp \<subseteq> C" "\<forall>m\<in>set ms. set_option (me_col m) \<subseteq> C" "\<Union> (filt_cols ` set fs) \<subseteq> C"
  shows "aggregate_of env p grp ms fs order limit = aggregate_of env p' grp ms fs order limit"
proof -
  have [simp]: "has_col p' = has_col p" using assms(2) by (simp add: has_col_def fun_eq_iff)
  have [simp]: "metric_known p' = metric_known p" "group_in p' = group_in p" "clause_for p' = clause_for p"
    by (simp_all add: metric_known_def group_in_def clause_for_def fun_eq_iff split: option.splits filt.splits)
  then have "filter_test p' = filter_test p" by (simp add: filter_test_def fun_eq_iff split: filt.split)
  then have "apply_filters p' fs = apply_filters p fs" by (intro ext) (simp add: apply_filters_def)
  then have found: "list_all2 (agree C) (apply_filters p fs (ph_rows p)) (apply_filters p' fs (ph_rows p'))"
    using agree_apply [OF assms(1,5)] by simp
  have same: "map (\<lambda>m. metric_value env m (apply_filters p fs (ph_rows p))) (filter (metric_known p) ms) =
      map (\<lambda>m. metric_value env m (apply_filters p' fs (ph_rows p'))) (filter (metric_known p) ms)"
    using assms(4) by (auto intro!: agree_metric [OF found])
  show ?thesis
  proof (cases "group_in p grp")
    case None
    with same show ?thesis by (simp add: aggregate_of_def Let_def)
  next
    case (Some c)
    then have "c \<in> C" using assms(3) by (auto simp: group_in_def split: option.splits if_splits)
    from agree_rows [OF found this, of "filter (metric_known p) ms" env] assms(4) Some same
    show ?thesis by (simp add: aggregate_of_def Let_def)
  qed
qed


lemma table_columns_allowed: "set (map rk_column (table_columns t (Some a))) \<subseteq> set a"
  by (auto simp: table_columns_def rcol_of_def)

lemma parse_metric_col: "parse_metric cols k = Some m \<Longrightarrow> set_option (me_col m) \<subseteq> rk_column ` set cols"
  by (auto simp: parse_metric_def count_metric_def col_named_def Let_def dest!: find_Some_set
      split: if_splits option.splits prod.splits)

lemma add_metrics_cols:
  "m \<in> set (add_metrics cols ks ms) \<Longrightarrow> m \<in> set ms \<or> set_option (me_col m) \<subseteq> rk_column ` set cols"
proof (induction ks arbitrary: ms)
  case (Cons k ks)
  from Cons.IH [OF Cons.prems [unfolded add_metrics.simps]] show ?case
    by (auto split: option.splits if_splits dest: parse_metric_col)
qed simp

lemma build_meta_keys:
  "foldC (meta_column user) cols m s = (Inr m', s') \<Longrightarrow>
    dhas (rp_meta m') c \<Longrightarrow> dhas (rp_meta m) c \<or> c \<in> rk_column ` set cols"
proof (induction cols arbitrary: m s)
  case Nil
  then show ?case by (simp add: retC_def)
next
  case (Cons k ks)
  from Cons.prems(1) obtain m1 s1 where m1: "meta_column user k m s = (Inr m1, s1)"
    and rest: "foldC (meta_column user) ks m1 s1 = (Inr m', s')"
    by (auto elim!: bindC_InrE)
  have "dhas (rp_meta m1) c \<longleftrightarrow> c = rk_column k \<or> dhas (rp_meta m) c"
    using m1 by (auto simp: meta_column_def add_meta_def comp_defs dhas_def dget_dset
        split: if_splits option.splits prod.splits sum.splits)
  with Cons.IH [OF rest Cons.prems(2)] show ?case by auto
qed


lemma query_readable:
  assumes "build_meta user cols s = (Inr m, s')"
  shows "set_option (rq_group (parse_report args cols (rp_meta m))) \<subseteq> rk_column ` set cols"
    and "k \<in> set (rq_metrics (parse_report args cols (rp_meta m))) \<Longrightarrow> set_option (me_col k) \<subseteq> rk_column ` set cols"
    and "\<Union> (filt_cols ` set (rq_filters (parse_report args cols (rp_meta m)))) \<subseteq> rk_column ` set cols"
proof -
  show "set_option (rq_group (parse_report args cols (rp_meta m))) \<subseteq> rk_column ` set cols"
    by (auto simp: parse_report_def Let_def)
  show "set_option (me_col k) \<subseteq> rk_column ` set cols" if "k \<in> set (rq_metrics (parse_report args cols (rp_meta m)))"
    using that add_metrics_cols [of k cols "getlist args ''metric''" "[]"]
    by (auto simp: parse_report_def Let_def count_metric_def split: if_splits)
  have "dhas (rp_meta m) c \<Longrightarrow> c \<in> rk_column ` set cols" for c
    using build_meta_keys [OF assms [unfolded build_meta_def]] by (auto simp: dhas_def)
  then show "\<Union> (filt_cols ` set (rq_filters (parse_report args cols (rp_meta m)))) \<subseteq> rk_column ` set cols"
    by (force simp: parse_report_def Let_def List.map_filter_def condition_filter_def dhas_iff split: option.splits if_splits)
qed


definition hiding_db :: db where
  "hiding_db = empty_db\<lparr>d_fperms := [\<lparr>fp_id = 1, fp_role = u_role staff, fp_field_id = 2, fp_access = ''none''\<rparr>]\<rparr>"

definition wages_table :: meta_table where
  "wages_table = sample_table\<lparr>t_phys_name := ''wages'', t_fields := [(sample_field ''integer'')\<lparr>f_phys_name := ''days''\<rparr>,
     (sample_field ''integer'')\<lparr>f_id := 2, f_phys_name := ''pay''\<rparr>]\<rparr>"

definition wages_phys :: "int \<Rightarrow> phys" where
  "wages_phys pay = \<lparr>ph_cols = [(''id'', CInt, False), (''days'', CInt, True), (''pay'', CInt, True)], ph_pk = ''id'',
     ph_rows = [[(''id'', VInt 1), (''days'', VInt 5), (''pay'', VInt pay)]], ph_uniq = [], ph_next = 2\<rparr>"


subsection \<open>Dashboards\<close>

lemma keeps_build_report: "keeps (=) (build_report env t args base user)"
  unfolding build_report_def build_meta_def meta_column_def run_report_def aggregate_rows_def load_options_def Let_def
  by (intro reads.keeps reads.keeps_read) 

lemma keeps_widget: "keeps (=) (render_widget env user w)"
  unfolding render_widget_def tile_body_def tile_result_def list_records_def list_rows_def Let_def
  by (intro reads.keeps reads.keeps_read keeps_build_report)

lemma keeps_render: "keeps (=) (render_dashboard env user d)"
  unfolding render_dashboard_def by (intro reads.keeps keeps_widget)


text \<open>What a tile may hold.\<close>

definition tile_allowed :: "db \<Rightarrow> app_user option \<Rightarrow> tile \<Rightarrow> bool" where
  "tile_allowed s user ti =
     ((case some_id (dw_table_id (ti_widget ti)) of None \<Rightarrow> (case ti_body ti of TText _ \<Rightarrow> True | _ \<Rightarrow> False)
       | Some i \<Rightarrow> (case get_table s i of None \<Rightarrow> (case ti_body ti of TText _ \<Rightarrow> True | _ \<Rightarrow> False)
          | Some t \<Rightarrow> table_readable s user t \<and>
             (case ti_body ti of TList t' cs rows f \<Rightarrow> t' = t \<and> (\<exists>p. dget (d_phys s) (t_phys_name t) = Some p \<and>
                  list_all (\<lambda>r. r \<in> set (apply_filters p (scope_of s t user) (ph_rows p))) rows)
              | _ \<Rightarrow> True))))"

lemma list_records_found:
  assumes "list_records t uid dg False [] None ''asc'' pg per s = (Inr (rows, n), s')"
  shows "\<exists>p. dget (d_phys s) (t_phys_name t) = Some p \<and>
    list_all (\<lambda>r. r \<in> set (apply_filters p (scope_filters s t uid dg False) (ph_rows p))) rows"
proof -
  from assms obtain p where p: "dget (d_phys s) (t_phys_name t) = Some p"
    and rows: "rows = page_of pg per (order_by (ph_pk p) False (apply_filters p (scope_filters s t uid dg False) (ph_rows p)))"
    by (auto simp: list_records_def list_rows_def comp_simps read_phys_def reflect_def Let_def split: option.splits)
  have "set (page_of pg per xs) \<subseteq> set xs" for xs :: "row list"
    by (auto simp: page_of_def split: option.splits dest: in_set_takeD in_set_dropD)
  with p rows show ?thesis by (fastforce simp: list_all_iff)
qed

lemma tile_body_allowed:
  assumes "tile_body env user w table s = (Inr (Some b), s')"
  shows "(case table of None \<Rightarrow> (case b of TText _ \<Rightarrow> True | _ \<Rightarrow> False)
    | Some t \<Rightarrow> (case b of TList t' cs rows f \<Rightarrow> t' = t \<and> (\<exists>p. dget (d_phys s) (t_phys_name t) = Some p \<and>
         list_all (\<lambda>r. r \<in> set (apply_filters p (scope_of s t user) (ph_rows p))) rows) | _ \<Rightarrow> True))"
proof (cases table)
  case None
  with assms show ?thesis by (auto simp: tile_body_def retC_def split: if_splits)
next
  case (Some t)
  consider (l) "dw_kind w = ''list''" | (g) "dw_kind w \<in> {''chart'', ''number''}" | (x) "dw_kind w \<notin> {''list'', ''chart'', ''number''}"
    by blast
  then show ?thesis
  proof cases
    case l
    let ?d = "case user of None \<Rightarrow> False | Some u \<Rightarrow> is_designer u"
    let ?per = "Some (max 1 (if dw_limit w = 0 then 5 else dw_limit w))"
    from assms l Some obtain rows n s1 where r: "list_records t (map_option u_id user) ?d False [] None ''asc'' 1 ?per s = (Inr (rows, n), s1)"
      and b: "\<exists>c f. b = TList t c rows f"
      by (auto simp: tile_body_def getC_def elim!: bindC_InrE)
    from b list_records_found [OF r] Some show ?thesis by (auto simp: scope_of_def)
  next
    case g
    with assms Some show ?thesis
      by (auto simp: tile_body_def tile_result_def retC_def Let_def elim!: bindC_InrE split: if_splits)
  next
    case x
    with assms Some show ?thesis by (auto simp: tile_body_def retC_def split: if_splits)
  qed
qed

lemma widget_allowed:
  assumes "render_widget env user w s = (Inr ts, s')"
  shows "list_all (\<lambda>ti. ti_widget ti = w \<and> tile_allowed s user ti) ts"
proof -
  let ?table = "case some_id (dw_table_id w) of None \<Rightarrow> None | Some i \<Rightarrow> get_table s i"
  show ?thesis
  proof (cases "?table")
    case None
    with assms obtain b where b: "tile_body env user w None s = (Inr b, s')"
        "ts = (case b of None \<Rightarrow> [] | Some x \<Rightarrow> [\<lparr>ti_widget = w, ti_width = min 2 (max 1 (if dw_width w = 0 then 1 else dw_width w)), ti_body = x\<rparr>])"
      by (auto simp: render_widget_def comp_simps retC_def elim!: bindC_InrE)
    with tile_body_allowed [of env user w None s] None show ?thesis
      by (auto simp: tile_allowed_def split: option.splits)
  next
    case (Some t)
    then obtain i where i: "some_id (dw_table_id w) = Some i" "get_table s i = Some t" by (auto split: option.splits)
    show ?thesis
    proof (cases "table_readable s user t")
      case False
      with assms Some show ?thesis by (simp add: render_widget_def comp_simps retC_def)
    next
      case True
      with assms Some obtain b where b: "tile_body env user w (Some t) s = (Inr b, s')"
        "ts = (case b of None \<Rightarrow> [] | Some x \<Rightarrow> [\<lparr>ti_widget = w, ti_width = min 2 (max 1 (if dw_width w = 0 then 1 else dw_width w)), ti_body = x\<rparr>])"
        by (auto simp: render_widget_def comp_simps retC_def elim!: bindC_InrE)
      with tile_body_allowed [of env user w "Some t" s] i True show ?thesis
        by (auto simp: tile_allowed_def split: option.splits)
    qed
  qed
qed

lemma tiles_step:
  assumes "foldC (\<lambda>w acc. bindC (render_widget env user w) (\<lambda>ts. retC (acc @ ts))) ws acc s = (Inr ts, s')"
    and "list_all (\<lambda>ti. ti_widget ti \<in> W \<and> tile_allowed s user ti) acc" and "set ws \<subseteq> W"
  shows "list_all (\<lambda>ti. ti_widget ti \<in> W \<and> tile_allowed s user ti) ts"
  using assms
proof (induction ws arbitrary: acc)
  case Nil
  then show ?case by (simp add: retC_def)
next
  case (Cons w ws)
  from Cons.prems(1) obtain us s1 x s2 where u: "render_widget env user w s = (Inr us, s1)"
    and x: "retC (acc @ us) s1 = (Inr x, s2)"
    and y: "foldC (\<lambda>w acc. bindC (render_widget env user w) (\<lambda>ts. retC (acc @ ts))) ws x s2 = (Inr ts, s')"
    by (auto elim!: bindC_InrE)
  have rest: "foldC (\<lambda>w acc. bindC (render_widget env user w) (\<lambda>ts. retC (acc @ ts))) ws (acc @ us) s1 = (Inr ts, s')"
    using x y by (simp only: retC_def prod.inject sum.inject)
  have s1: "s1 = s" using keepsD [OF keeps_widget u] by simp
  have "w \<in> W" "set ws \<subseteq> W" using Cons.prems(3) by simp_all
  then have "list_all (\<lambda>ti. ti_widget ti \<in> W \<and> tile_allowed s user ti) (acc @ us)"
    using widget_allowed [OF u] Cons.prems(2) by (auto simp: list_all_iff)
  from Cons.IH [OF rest [unfolded s1] this \<open>set ws \<subseteq> W\<close>] show ?case .
qed



text \<open>Finding: a list tile shows the first columns of its table, also those hidden from the viewer.\<close>

lemma list_tile_unhidden:
  "f_phys_name ` set (list_columns wages_table) = {''days'', ''pay''} \<and>
   readable_fields hiding_db (Some staff) wages_table = [''days'']"
  by (simp add: list_columns_def wages_table_def sample_field_def) code_simp

definition list_widget :: "int \<Rightarrow> int \<Rightarrow> dashboard_widget" where
  "list_widget i tid = \<lparr>dw_id = i, dw_dashboard_id = 1, dw_title = None, dw_kind = ''list'', dw_table_id = Some tid,
     dw_query = None, dw_chart_type = [], dw_content = None, dw_width = 0, dw_limit = 0, dw_position = i\<rparr>"

definition board :: dashboard where
  "board = \<lparr>da_id = 1, da_name = ''b'', da_description = None, da_owner_user_id = None, da_columns = 2,
     da_position = 1, da_widgets = [list_widget 1 1, list_widget 2 2]\<rparr>"

text \<open>Of two tables one has a form for the clerk.\<close>

definition wages_form :: meta_form where
  "wages_form = \<lparr>fm_id = 1, fm_table_id = 1, fm_name = ''f'', fm_title = ''F'', fm_description = None,
     fm_purpose = ''edit'', fm_in_catalog = True, fm_catalog_group = None, fm_portal_close_state = None,
     fm_default_sort = None, fm_default_order = None, fm_default_per_page = None, fm_items = []\<rparr>"

definition board_db :: db where
  "board_db = hiding_db\<lparr>d_tables := [wages_table, wages_table\<lparr>t_id := 2, t_phys_name := ''books''\<rparr>],
     d_forms := [wages_form],
     d_phys := [(''wages'', wages_phys 100), (''books'', wages_phys 900)]\<rparr>"



lemma counts_add_up_witness:
  "\<exists>ts. ag_totals (aggregate_of plain_env (wages_phys 7) (Some ''days'') [count_metric] [] None 1000) = Some ts \<and>
     (\<Sum>row\<leftarrow>ag_rows (aggregate_of plain_env (wages_phys 7) (Some ''days'') [count_metric] [] None 1000). whole (row ! Suc 0)) =
       whole (ts ! 0)"
  by (rule counts_add_up [where c = "''days''"]) code_simp+

end
