(* ===== verification/Mailbox.thy ===== *)
theory Mailbox
  imports Reporting
begin

text \<open>
  \<open>app/mailbox.py\<close> and the saving of files in \<open>app/file_store.py\<close>. A message is what the \<open>email\<close> package makes
  of the raw bytes; fetching, parsing, \<open>parseaddr\<close>, werkzeug's \<open>secure_filename\<close> and the random part of a stored
  name are the fields of \<open>mail_io\<close>. The regular expressions of the subject and of quoted text are written
  out as functions.

  Shown: a reply to a notification finds the record its number stands for; a mail leaves at most one
  comment, which is public only where the sender's account may see the record and internal (by a guest)
  otherwise; one message that fails does not stop the others. Findings: a member of staff comments on tables
  his role has no permission for; the application's own sender is recognised by the configuration only.
\<close>

subsection \<open>Messages\<close>

record mail_file =
  mf_data :: pystr
  mf_filename :: "pystr option"
  mf_type :: pystr

record mail =
  ml_from :: "pystr option"
  ml_auto_submitted :: "pystr option"
  ml_precedence :: "pystr option"
  ml_suppress :: "pystr option"
  ml_subject :: "pystr option"
  ml_body :: "(exn + pystr) option"
  ml_files :: "mail_file list"

text \<open>\<open>mo_fetch\<close> is \<open>None\<close> where no fetcher is injected in tests.\<close>

record mail_io =
  mo_fetch :: "mailbox \<Rightarrow> (exn + pystr list) option"
  mo_message :: "pystr \<Rightarrow> mail"
  mo_addr :: "pystr \<Rightarrow> pystr"
  mo_secure :: "pystr \<Rightarrow> pystr"
  mo_token :: "int \<Rightarrow> pystr"

definition sender :: "mail_io \<Rightarrow> mail \<Rightarrow> pystr" where
  "sender io m = py_lower (py_strip (mo_addr io (text_or (ml_from m) [])))"

definition is_auto :: "mail_io \<Rightarrow> mail \<Rightarrow> pystr \<Rightarrow> bool" where
  "is_auto io m own =
     (py_lower (py_strip (text_or (ml_auto_submitted m) ''no'')) \<noteq> ''no'' \<or>
      py_lower (py_strip (text_or (ml_precedence m) [])) \<in> {''bulk'', ''junk'', ''auto_reply''} \<or>
      filled (ml_suppress m) \<or>
      own \<noteq> [] \<and> sender io m = py_lower (py_strip own))"

definition body_text :: "mail \<Rightarrow> pystr" where
  "body_text m = (case ml_body m of Some (Inr t) \<Rightarrow> t | _ \<Rightarrow> [])"

text \<open>\<open>^On .{0,300}wrote:\s*$\<close> on one line.\<close>

definition rstrip_space :: "pystr \<Rightarrow> pystr" where
  "rstrip_space s = rstrip_by is_space s"

definition quote_line :: "pystr \<Rightarrow> bool" where
  "quote_line line = (let l = rstrip_space line in
     prefix ''On '' l \<and> suffix ''wrote:'' l \<and> 9 \<le> length l \<and> length l \<le> 309 \<and>
     CHR 0x0A \<notin> set l)"

fun reply_lines :: "pystr list \<Rightarrow> pystr list \<Rightarrow> pystr list" where
  "reply_lines acc [] = acc"
| "reply_lines acc (line # ls) =
     (if prefix ''>'' line \<or> quote_line line then acc
      else if rstrip_space line = ''--'' \<and> acc \<noteq> [] then acc
      else reply_lines (acc @ [line]) ls)"

definition clean_body :: "pystr \<Rightarrow> pystr" where
  "clean_body t = py_strip (join_with [CHR 0x0A] (reply_lines [] (split_lines [] t)))"

text \<open>The reply prefixes of a subject: \<open>\s*(?:(re|fw|fwd|aw)\s*(?:\[\d+\])?\s*:\s*)+\<close>.\<close>

definition lstrip_space :: "pystr \<Rightarrow> pystr" where
  "lstrip_space s = lstrip_by is_space s"

definition drop_bracket :: "pystr \<Rightarrow> pystr" where
  "drop_bracket s = (case s of
     [] \<Rightarrow> []
   | c # t \<Rightarrow> let r = dropWhile is_dec t in
       if c = CHR ''['' \<and> takeWhile is_dec t \<noteq> [] \<and> prefix '']'' r then tl r else s)"

definition after_word :: "pystr \<Rightarrow> pystr option" where
  "after_word s = (let r = lstrip_space (drop_bracket (lstrip_space s)) in
     if prefix '':'' r then Some (lstrip_space (tl r)) else None)"

definition reply_word :: "pystr \<Rightarrow> pystr option" where
  "reply_word s = (case List.map_filter (\<lambda>w. if py_lower (take (length w) s) = w then after_word (drop (length w) s) else None)
       [''re'', ''fw'', ''fwd'', ''aw''] of [] \<Rightarrow> None | r # _ \<Rightarrow> Some r)"

lemma length_lstrip: "length (lstrip_by P s) \<le> length s"
  by (simp add: lstrip_by_def length_dropWhile_le)

lemma after_word_shorter: "after_word s = Some r \<Longrightarrow> length r < length s"
proof -
  assume a: "after_word s = Some r"
  let ?u = "lstrip_space (drop_bracket (lstrip_space s))"
  have "length (drop_bracket x) \<le> length x" for x
    by (auto simp: drop_bracket_def Let_def split: list.splits)
      (metis (no_types) diff_le_self le_SucI length_dropWhile_le order.trans)
  then have "length ?u \<le> length s"
    using length_lstrip order.trans unfolding lstrip_space_def by metis
  moreover have "?u \<noteq> []" "r = lstrip_space (tl ?u)" using a by (auto simp: after_word_def Let_def split: if_splits)
  ultimately show ?thesis using length_lstrip [of is_space "tl ?u"] by (cases ?u) (auto simp: lstrip_space_def)
qed


function strip_replies :: "pystr \<Rightarrow> pystr" where
  "strip_replies s = (case reply_word s of None \<Rightarrow> s | Some r \<Rightarrow> strip_replies r)"
  by pat_completeness auto

lemma in_map_filter: "y \<in> set (List.map_filter g xs) \<longleftrightarrow> (\<exists>x\<in>set xs. g x = Some y)"
  by (induction xs) (auto simp: List.map_filter_def)

lemma reply_word_shorter: "reply_word s = Some r \<Longrightarrow> length r < length s"
proof -
  assume a: "reply_word s = Some r"
  let ?g = "\<lambda>w. if py_lower (take (length w) s) = w then after_word (drop (length w) s) else None"
  from a have "r \<in> set (List.map_filter ?g [''re'', ''fw'', ''fwd'', ''aw''])"
    unfolding reply_word_def by (cases "List.map_filter ?g [''re'', ''fw'', ''fwd'', ''aw'']") simp_all
  then obtain w where "?g w = Some r" by (auto simp only: in_map_filter)
  then have "after_word (drop (length w) s) = Some r" by (simp split: if_splits)
  from after_word_shorter [OF this] show ?thesis by simp
qed

termination strip_replies
  by (relation "measure length") (auto dest: reply_word_shorter)

declare strip_replies.simps [simp del]

definition strip_re :: "pystr \<Rightarrow> pystr" where
  "strip_re subj = py_strip (strip_replies (lstrip_space subj))"

subsection \<open>From the subject to the ticket\<close>

definition same_nocase :: "pystr \<Rightarrow> pystr \<Rightarrow> bool" where
  "same_nocase a b = (py_lower a = py_lower b)"

text \<open>The first place where the prefix is followed by digits.\<close>

fun find_number :: "pystr \<Rightarrow> pystr \<Rightarrow> pystr option" where
  "find_number p [] = None"
| "find_number p (c # s) =
     (let n = length p; digits = takeWhile is_dec (drop n (c # s)) in
      if same_nocase (take n (c # s)) p \<and> digits \<noteq> [] then Some (take n (c # s) @ digits) else find_number p s)"

definition word_char :: "char \<Rightarrow> bool" where
  "word_char c = (is_alpha c \<or> is_digit c \<or> code c \<in> {188, 189, 190} \<or> c = CHR ''_'')"

definition boundary :: "char option \<Rightarrow> pystr \<Rightarrow> bool" where
  "boundary prev rest = ((case prev of None \<Rightarrow> False | Some c \<Rightarrow> word_char c) \<noteq> (rest \<noteq> [] \<and> word_char (hd rest)))"

text \<open>\<open>\b<letter>-(\d+)\b\<close>; \<open>prev\<close> is the character before.\<close>

fun find_alias :: "pystr \<Rightarrow> char option \<Rightarrow> pystr \<Rightarrow> pystr option" where
  "find_alias a prev [] = None"
| "find_alias a prev (c # s) =
     (let n = length a; rest = drop (Suc n) (c # s); digits = takeWhile is_dec rest in
      if boundary prev (c # s) \<and> same_nocase (take (Suc n) (c # s)) (a @ ''-'') \<and> digits \<noteq> [] \<and>
         (case dropWhile is_dec rest of [] \<Rightarrow> True | x # _ \<Rightarrow> \<not> word_char x)
      then Some digits else find_alias a (Some c) s)"

definition default_of :: "meta_field \<Rightarrow> pystr" where
  "default_of f = py_strip (text_or (f_default_value f) [])"

definition number_patterns :: "db \<Rightarrow> (pystr \<times> meta_table \<times> meta_field) list" where
  "number_patterns s = List.map_filter (\<lambda>f. case get_table s (f_table_id f) of
       None \<Rightarrow> None | Some t \<Rightarrow> if default_of f = [] then None else Some (default_of f, t, f))
     (filter (\<lambda>f. f_data_type f = ''autonumber'') (all_fields s))"

definition autonumber_field :: "meta_table \<Rightarrow> meta_field option" where
  "autonumber_field t = find (\<lambda>f. f_data_type f = ''autonumber'') (t_fields t)"

fun alias_entry :: "db \<Rightarrow> pystr \<times> pyval \<Rightarrow> (pystr, meta_table \<times> meta_field) dict \<Rightarrow> (pystr, meta_table \<times> meta_field) dict" where
  "alias_entry s (letter, phys) d =
     (case (case phys of VStr p \<Rightarrow> table_by_phys s p | _ \<Rightarrow> None) of
        None \<Rightarrow> d
      | Some t \<Rightarrow> (case autonumber_field t of
          None \<Rightarrow> d
        | Some f \<Rightarrow> if py_strip letter = [] then d else dset (py_upper (py_strip letter)) (t, f) d))"

text \<open>Aliases that are no JSON are none; JSON that is no object has no items.\<close>

definition alias_map :: "db \<Rightarrow> mailbox \<Rightarrow> exn + (pystr, meta_table \<times> meta_field) dict" where
  "alias_map s m = (case loads_or (VDict []) (mb_aliases m) of
     None \<Rightarrow> Inr []
   | Some (VDict d) \<Rightarrow> Inr (fold (alias_entry s) d [])
   | Some _ \<Rightarrow> Inl TypeErr)"

definition find_by_number :: "meta_table \<Rightarrow> meta_field \<Rightarrow> pystr \<Rightarrow> pyval option comp" where
  "find_by_number t f v = tryC (find_id_by (t_phys_name t) [f_phys_name f] [VStr v] True) (\<lambda>_. retC None)"

text \<open>A key that is found and is not NULL.\<close>

definition found_key :: "pyval option \<Rightarrow> pyval option" where
  "found_key k = (case k of Some VNone \<Rightarrow> None | _ \<Rightarrow> k)"

fun by_pattern :: "pystr \<Rightarrow> (pystr \<times> meta_table \<times> meta_field) list \<Rightarrow> (meta_table \<times> pyval) option comp" where
  "by_pattern subj [] = retC None"
| "by_pattern subj ((p, t, f) # ps) = (case find_number p subj of
     None \<Rightarrow> by_pattern subj ps
   | Some v \<Rightarrow> bindC (find_by_number t f v) (\<lambda>k. case found_key k of
       Some pk \<Rightarrow> retC (Some (t, pk)) | None \<Rightarrow> by_pattern subj ps))"

definition alias_candidates :: "meta_field \<Rightarrow> pystr \<Rightarrow> pystr list" where
  "alias_candidates f digits = [default_of f @ pad 4 (digits_val digits), default_of f @ digits]"

fun by_candidate :: "meta_table \<Rightarrow> meta_field \<Rightarrow> pystr list \<Rightarrow> (meta_table \<times> pyval) option comp" where
  "by_candidate t f [] = retC None"
| "by_candidate t f (v # vs) = bindC (find_by_number t f v) (\<lambda>k. case found_key k of
     Some pk \<Rightarrow> retC (Some (t, pk)) | None \<Rightarrow> by_candidate t f vs)"

fun by_alias :: "pystr \<Rightarrow> (pystr, meta_table \<times> meta_field) dict \<Rightarrow> (meta_table \<times> pyval) option comp" where
  "by_alias subj [] = retC None"
| "by_alias subj ((a, t, f) # rest) = (case find_alias a None subj of
     None \<Rightarrow> by_alias subj rest
   | Some digits \<Rightarrow> bindC (by_candidate t f (alias_candidates f digits)) (\<lambda>r. case r of
       Some x \<Rightarrow> retC (Some x) | None \<Rightarrow> by_alias subj rest))"

definition find_ticket :: "mailbox \<Rightarrow> pystr \<Rightarrow> (meta_table \<times> pyval) option comp" where
  "find_ticket m subj =
     bindC (getC number_patterns) (\<lambda>ps.
     bindC (by_pattern subj ps) (\<lambda>r. case r of
       Some x \<Rightarrow> retC (Some x)
     | None \<Rightarrow> bindC (bindC (getC (\<lambda>s. alias_map s m)) liftC) (\<lambda>d. by_alias subj d)))"

subsection \<open>The sender\<close>

definition user_for :: "db \<Rightarrow> pystr \<Rightarrow> app_user option" where
  "user_for s addr = (if addr = [] then None
     else find (\<lambda>u. (case u_email u of None \<Rightarrow> False | Some e \<Rightarrow> py_lower e = addr) \<and> is_active u) (d_users s))"

definition portal_circle :: "db \<Rightarrow> app_user \<Rightarrow> pyval \<Rightarrow> bool" where
  "portal_circle s u v = list_ex (\<lambda>i. py_eq v (VInt i)) (portal_members s u)"

definition can_access :: "app_user \<Rightarrow> meta_table \<Rightarrow> pyval \<Rightarrow> bool comp" where
  "can_access u t pk =
     (if u_role u = role_portal then
        bindC (get_record t pk (Some (u_id u)) True False) (\<lambda>r.
        getC (\<lambda>s. case r of None \<Rightarrow> False | Some x \<Rightarrow> x \<noteq> [] \<and> portal_circle s u (rget x ''created_by'')))
      else
        bindC (get_record t pk (Some (u_id u)) (is_designer u) False) (\<lambda>r. retC (r \<noteq> None)))"


subsection \<open>Files\<close>

definition ALLOWED_IMAGE_EXT :: "pystr list" where
  "ALLOWED_IMAGE_EXT = [''.png'', ''.jpg'', ''.jpeg'', ''.gif'', ''.webp'']"

text \<open>\<open>os.path.splitext(name)[1].lower()\<close> of a name without directories.\<close>

definition file_ext :: "pystr \<Rightarrow> pystr" where
  "file_ext name =
     (let r = rev name; e = takeWhile (\<lambda>c. c \<noteq> CHR ''.'') r; stem = drop (Suc (length e)) r
      in if CHR ''.'' \<in> set r \<and> list_ex (\<lambda>c. c \<noteq> CHR ''.'') stem then py_lower (CHR ''.'' # rev e) else [])"

text \<open>What \<open>save\<close> returns for a file, or that it is refused (a \<open>ValueError\<close>).\<close>

definition save_file :: "mail_io \<Rightarrow> meta_field \<Rightarrow> int \<Rightarrow> mail_file \<Rightarrow> exn + (pystr \<times> pystr \<times> pystr \<times> int)" where
  "save_file io f i x =
     (let original = (let n = mo_secure io (text_or (mf_filename x) ''attachment.bin'') in if n = [] then ''file'' else n);
          ext = file_ext original
      in if f_data_type f = ''image'' \<and> ext \<notin> set ALLOWED_IMAGE_EXT then Inl (ValueErr original)
         else Inr (mo_token io i @ ext, original,
           if mf_type x = [] then ''application/octet-stream'' else mf_type x, int (length (mf_data x))))"

definition attach :: "mail_io \<Rightarrow> meta_field \<Rightarrow> int \<Rightarrow> int option \<Rightarrow> mail_file \<Rightarrow> db \<Rightarrow> db" where
  "attach io f pk by_user x s =
     (let i = next_id am_id (d_attachments s) in
      if mf_data x = [] then s
      else case save_file io f i x of
          Inl _ \<Rightarrow> s
        | Inr (stored, original, ct, bytes) \<Rightarrow> s\<lparr>d_attachments := d_attachments s @
            [\<lparr>am_id = i, am_field_id = f_id f, am_row_pk = VInt pk, am_stored_name = stored, am_original_name = original,
              am_content_type = Some ct, am_size = Some bytes, am_uploaded_by = by_user\<rparr>]\<rparr>)"

definition save_attachments :: "mail_io \<Rightarrow> meta_table \<Rightarrow> pyval \<Rightarrow> mail \<Rightarrow> int option \<Rightarrow> unit comp" where
  "save_attachments io t pk m by_user =
     (case (find (\<lambda>f. f_data_type f \<in> {''file'', ''image''}) (t_fields t), int_or_none pk) of
        (Some f, Some i) \<Rightarrow> modC (fold (attach io f i by_user) (ml_files m))
      | _ \<Rightarrow> retC ())"

subsection \<open>A new ticket\<close>

definition subject_text :: "pystr \<Rightarrow> int option \<Rightarrow> pystr" where
  "subject_text subj len =
     take (nat (case len of None \<Rightarrow> 200 | Some n \<Rightarrow> if n = 0 then 200 else n)) (py_strip (if subj = [] then ''Email'' else subj))"

definition base_values :: "db \<Rightarrow> meta_table \<Rightarrow> pystr \<Rightarrow> pystr \<Rightarrow> row" where
  "base_values s t subj body =
     (let disp = display_field_name s (Some t);
          v1 = (if disp \<noteq> [] \<and> disp \<noteq> t_pk_col t
                then [(disp, VStr (subject_text subj (case find (\<lambda>f. f_phys_name f = disp) (t_fields t) of
                        None \<Rightarrow> None | Some f \<Rightarrow> f_length f)))] else [])
      in case find (\<lambda>f. f_data_type f \<in> {''markdown'', ''text''} \<and> f_phys_name f \<noteq> disp) (t_fields t) of
           None \<Rightarrow> v1
         | Some f \<Rightarrow> if body = [] then v1 else dset (f_phys_name f) (VStr body) v1)"

definition default_skipped :: "row \<Rightarrow> meta_field \<Rightarrow> bool" where
  "default_skipped vs f = (let dv = default_of f in
     dv = [] \<or> dhas vs (f_phys_name f) \<or> py_lower dv \<in> {''now'', ''today'', ''current_user'', ''me''} \<or>
     f_data_type f \<in> {''autonumber'', ''formula'', ''relation'', ''file'', ''image''})"

fun add_defaults :: "env \<Rightarrow> meta_field list \<Rightarrow> row \<Rightarrow> exn + row" where
  "add_defaults env [] vs = Inr vs"
| "add_defaults env (f # fs) vs =
     (if default_skipped vs f then add_defaults env fs vs
      else case coerce_value env f (Some (default_of f)) None of
          Inr v \<Rightarrow> add_defaults env fs (dset (f_phys_name f) v vs)
        | Inl (ValueErr _) \<Rightarrow> add_defaults env fs vs
        | Inl e \<Rightarrow> Inl e)"

definition ticket_form :: "db \<Rightarrow> mailbox \<Rightarrow> meta_form option" where
  "ticket_form s m = (case some_id (mb_create_form_id m) of None \<Rightarrow> None | Some i \<Rightarrow> find (\<lambda>f. fm_id f = i) (d_forms s))"

definition create_ticket :: "env \<Rightarrow> mailbox \<Rightarrow> app_user \<Rightarrow> pystr \<Rightarrow> pystr \<Rightarrow> (meta_table \<times> pyval) option comp" where
  "create_ticket env m u subj body =
     bindC (getC (\<lambda>s. map_option (\<lambda>f. get_table s (fm_table_id f)) (ticket_form s m))) (\<lambda>ft. case ft of
       None \<Rightarrow> retC None
     | Some None \<Rightarrow> failC TypeErr
     | Some (Some t) \<Rightarrow>
       bindC (bindC (getC (\<lambda>s. add_defaults env (t_fields t) (base_values s t subj body))) liftC) (\<lambda>vs.
       bindC (create env t vs (Some (u_id u))) (\<lambda>pk. retC (Some (t, pk)))))"

subsection \<open>A message\<close>

definition mail_label :: "db \<Rightarrow> meta_table \<Rightarrow> pyval \<Rightarrow> row option \<Rightarrow> pystr option" where
  "mail_label s t pk r = (case r of
     None \<Rightarrow> None
   | Some x \<Rightarrow> if x = [] then None else
       (let v = rget x (display_field_name s (Some t)) in
        Some (if blank v then t_label t @ '' #'' @ py_str pk else t_label t @ '': '' @ py_str v)))"

definition guest_note :: "pystr \<Rightarrow> pystr \<Rightarrow> pystr \<Rightarrow> pystr" where
  "guest_note addr subj body = ''[via email from '' @ (if addr = [] then ''unknown sender'' else addr) @ ''] '' @ subj @
     [CHR 0x0A, CHR 0x0A] @ (if body = [] then ''(empty email)'' else body)"

definition allowed_sender :: "app_user option \<Rightarrow> meta_table \<Rightarrow> pyval \<Rightarrow> bool comp" where
  "allowed_sender u t pk = (case u of None \<Rightarrow> retC False | Some x \<Rightarrow> can_access x t pk)"

text \<open>The comment of a mail: by the sender and public, or by a guest and internal.\<close>

definition post :: "env \<Rightarrow> mail_io \<Rightarrow> mail \<Rightarrow> app_user option \<Rightarrow> pystr \<Rightarrow> pystr \<Rightarrow> pystr \<Rightarrow> meta_table \<Rightarrow> pyval \<Rightarrow> row option \<Rightarrow>
     pystr option \<Rightarrow> bool \<Rightarrow> unit comp" where
  "post env io m u addr subj body t pk r label ok =
     (let author = (if ok then u else None);
          text = (if ok then (if body = [] then ''(empty email)'' else body) else guest_note addr subj body)
      in bindC (add_comment env (t_phys_name t) pk author (Some text) (\<not> ok) r label) (\<lambda>_.
         save_attachments io t pk m (map_option u_id author)))"

definition on_ticket :: "env \<Rightarrow> mail_io \<Rightarrow> mail \<Rightarrow> app_user option \<Rightarrow> pystr \<Rightarrow> pystr \<Rightarrow> pystr \<Rightarrow> meta_table \<Rightarrow> pyval \<Rightarrow> int comp" where
  "on_ticket env io m u addr subj body t pk =
     bindC (get_row (t_phys_name t) pk) (\<lambda>r.
     bindC (getC (\<lambda>s. mail_label s t pk r)) (\<lambda>label.
     bindC (allowed_sender u t pk) (\<lambda>ok.
     bindC (post env io m u addr subj body t pk r label ok) (\<lambda>_. retC 1))))"

definition no_ticket :: "env \<Rightarrow> mail_io \<Rightarrow> mailbox \<Rightarrow> mail \<Rightarrow> app_user option \<Rightarrow> pystr \<Rightarrow> pystr \<Rightarrow> int comp" where
  "no_ticket env io mb m u subj body =
     (case u of
        None \<Rightarrow> retC 0
      | Some x \<Rightarrow>
        if some_id (mb_create_form_id mb) = None then retC 0
        else bindC (create_ticket env mb x subj body) (\<lambda>r. case r of
            None \<Rightarrow> retC 0
          | Some (t, pk) \<Rightarrow> if pk = VNone then retC 0
              else bindC (save_attachments io t pk m (Some (u_id x))) (\<lambda>_. retC 1)))"

definition handle_mail :: "env \<Rightarrow> mail_io \<Rightarrow> mailbox \<Rightarrow> pystr \<Rightarrow> pystr \<Rightarrow> int comp" where
  "handle_mail env io mb raw own =
     (let m = mo_message io raw in
      if is_auto io m own then retC 0
      else
        let subj = strip_re (text_or (ml_subject m) []); body = clean_body (body_text m); addr = sender io m in
        bindC (getC (\<lambda>s. user_for s addr)) (\<lambda>u.
        bindC (find_ticket mb subj) (\<lambda>r. case r of
          None \<Rightarrow> no_ticket env io mb m u subj body
        | Some (t, pk) \<Rightarrow> on_ticket env io m u addr subj body t pk)))"

definition own_sender :: "env \<Rightarrow> pystr" where
  "own_sender env = (case e_config env ''MAIL_DEFAULT_SENDER'' of VStr x \<Rightarrow> x | _ \<Rightarrow> [])"

text \<open>A message that fails is logged and counts nothing.\<close>

definition try_mail :: "env \<Rightarrow> mail_io \<Rightarrow> mailbox \<Rightarrow> pystr \<Rightarrow> int \<Rightarrow> int comp" where
  "try_mail env io mb raw n = bindC (tryC (handle_mail env io mb raw (own_sender env)) (\<lambda>_. retC 0)) (\<lambda>k. retC (n + k))"

definition process_mailbox :: "env \<Rightarrow> mail_io \<Rightarrow> mailbox \<Rightarrow> int comp" where
  "process_mailbox env io mb = (case mo_fetch io mb of
     None \<Rightarrow> retC 0
   | Some (Inl e) \<Rightarrow> failC e
   | Some (Inr raws) \<Rightarrow> foldC (try_mail env io mb) raws 0)"


subsection \<open>Comments of a mail\<close>

interpretation thread: action_frame same_comments
  by unfold_locales (simp_all add: same_comments_def add_notif_def put_phys_def)

interpretation thread: write_frame same_comments
  by unfold_locales (simp_all add: same_comments_def thread.keeps_sla_event)

lemma find_by_number_reads: "keeps (=) (find_by_number t f v)"
  unfolding find_by_number_def find_id_by_def by (intro reads.keeps reads.keeps_read)

lemma by_candidate_reads: "keeps (=) (by_candidate t f vs)"
  by (induction vs) (auto intro!: reads.keeps find_by_number_reads split: option.split)

lemma by_pattern_reads: "keeps (=) (by_pattern subj ps)"
  by (induction ps) (auto intro!: reads.keeps find_by_number_reads split: option.split)

lemma by_alias_reads: "keeps (=) (by_alias subj d)"
  by (induction d) (auto intro!: reads.keeps by_candidate_reads split: option.split)

lemma find_ticket_reads: "keeps (=) (find_ticket m subj)"
  unfolding find_ticket_def by (intro reads.keeps by_pattern_reads by_alias_reads)

lemma get_record_reads: "keeps (=) (get_record t pk u d del)"
  unfolding get_record_def get_row_def by (intro reads.keeps reads.keeps_read)

lemma allowed_sender_reads: "keeps (=) (allowed_sender u t pk)"
  unfolding allowed_sender_def can_access_def by (intro reads.keeps get_record_reads)

lemma attach_comments: "d_comments (fold (attach io f i u) fs s) = d_comments s"
  by (induction fs arbitrary: s) (auto simp: attach_def Let_def split: sum.split)

lemma save_attachments_comments: "keeps same_comments (save_attachments io t pk m u)"
  unfolding save_attachments_def
  by (auto intro!: comments.keeps simp: same_comments_def attach_comments split: option.split)

lemma tell_participants_comments: "keeps same_comments (tell_participants env s0 t pk u body internal r label)"
  unfolding tell_participants_def Let_def by (intro comments.keeps tell_user_comments)

lemma no_ticket_comments: "keeps same_comments (no_ticket env io mb m u subj body)"
  unfolding no_ticket_def create_ticket_def
  by (intro comments.keeps thread.keeps_create save_attachments_comments)

definition posted :: "db \<Rightarrow> db \<Rightarrow> pystr \<Rightarrow> pyval \<Rightarrow> int option \<Rightarrow> bool \<Rightarrow> bool" where
  "posted s s' t pk author internal \<longleftrightarrow> (\<exists>c. d_comments s' = d_comments s @ [c] \<and> cm_table_phys c = t \<and>
     cm_row_pk c = py_str pk \<and> cm_user_id c = author \<and> cm_internal c = internal)"

lemma add_comment_posted:
  assumes "add_comment env t pk u b internal r label s = (x, s')"
  shows "d_comments s' = d_comments s \<or> posted s s' t pk (map_option u_id u) internal"
proof (cases "py_strip (text_or b []) = []")
  case True
  with assms show ?thesis by (simp add: add_comment_def)
next
  case False
  let ?c = "add_comment_row t pk u (py_strip (text_or b [])) internal s"
  let ?s1 = "s\<lparr>d_comments := d_comments s @ [?c]\<rparr>"
  have "keeps same_comments (bindC (tell_participants env s t pk u (py_strip (text_or b [])) internal r label) (\<lambda>_. retC ?c))"
    by (intro comments.keeps tell_participants_comments)
  moreover have "bindC (tell_participants env s t pk u (py_strip (text_or b [])) internal r label) (\<lambda>_. retC ?c) ?s1 = (x, s')"
    using assms False by (simp add: add_comment_def Let_def bindC_get)
  ultimately have "same_comments ?s1 s'" by (rule keepsD)
  then show ?thesis by (simp add: same_comments_def posted_def add_comment_row_def)
qed

text \<open>What a mail from an account may do to the comments of a record.\<close>

definition mail_post :: "db \<Rightarrow> db \<Rightarrow> app_user option \<Rightarrow> bool" where
  "mail_post s s' u \<longleftrightarrow> d_comments s' = d_comments s \<or>
     (\<exists>t pk. posted s s' t pk None True) \<or>
     (\<exists>(t :: meta_table) pk x. u = Some x \<and> can_access x t pk s = (Inr True, s) \<and> posted s s' (t_phys_name t) pk (Some (u_id x)) False)"

lemma on_ticket_posts:
  assumes "on_ticket env io m u addr subj body t pk s = (r, s')"
  shows "mail_post s s' u"
proof -
  have reads: "get_row (t_phys_name t) pk s = (fst (get_row (t_phys_name t) pk s), s)"
    "allowed_sender u t pk s = (fst (allowed_sender u t pk s), s)"
    using allowed_sender_reads [of u t pk] by (simp_all add: prod_eq_iff get_row_def keeps_def)
  show ?thesis
  proof (cases "fst (get_row (t_phys_name t) pk s)")
    case (Inl e)
    with assms reads show ?thesis by (simp add: on_ticket_def bindC_Inl mail_post_def)
  next
    case (Inr row)
    show ?thesis
    proof (cases "fst (allowed_sender u t pk s)")
      case (Inl e)
      with assms reads \<open>fst (get_row (t_phys_name t) pk s) = Inr row\<close> show ?thesis
        by (simp add: on_ticket_def bindC_Inl bindC_Inr bindC_get mail_post_def)
    next
      case (Inr ok)
      let ?label = "mail_label s t pk row" and ?author = "if ok then u else None"
      have run: "bindC (post env io m u addr subj body t pk row ?label ok) (\<lambda>_. retC 1) s = (r, s')"
        using assms reads Inr \<open>fst (get_row (t_phys_name t) pk s) = Inr row\<close>
        by (simp add: on_ticket_def bindC_Inr bindC_get)
      obtain b x s1 where add: "add_comment env (t_phys_name t) pk ?author b (\<not> ok) row ?label s = (x, s1)"
        and rest: "same_comments s1 s'"
      proof -
        let ?text = "Some (if ok then (if body = [] then ''(empty email)'' else body) else guest_note addr subj body)"
        obtain x s1 where add: "add_comment env (t_phys_name t) pk ?author ?text (\<not> ok) row ?label s = (x, s1)" by fastforce
        have k: "keeps same_comments (bindC (save_attachments io t pk m (map_option u_id ?author)) (\<lambda>_. retC (1::int)))"
          by (intro comments.keeps save_attachments_comments)
        have "same_comments s1 s'"
        proof (cases x)
          case (Inl e)
          with run add show ?thesis by (simp add: post_def Let_def bindC_assoc bindC_Inl same_comments_def)
        next
          case (Inr c)
          with run add have "bindC (save_attachments io t pk m (map_option u_id ?author)) (\<lambda>_. retC 1) s1 = (r, s')"
            by (simp add: post_def Let_def bindC_assoc bindC_Inr)
          with k show ?thesis by (rule keepsD)
        qed
        with add show ?thesis by (rule that)
      qed
      from add_comment_posted [OF add] rest
      have p: "d_comments s' = d_comments s \<or> posted s s' (t_phys_name t) pk (map_option u_id ?author) (\<not> ok)"
        by (simp add: same_comments_def posted_def)
      show ?thesis
      proof (cases ok)
        case True
        with reads(2) Inr obtain y where "u = Some y" "can_access y t pk s = (Inr True, s)"
          by (cases u) (auto simp: allowed_sender_def retC_def)
        with p True show ?thesis by (auto simp: mail_post_def)
      next
        case False
        with p show ?thesis by (auto simp: mail_post_def)
      qed
    qed
  qed
qed



subsection \<open>One message does not stop the others\<close>

lemma handle_mail_counts: "handle_mail env io mb raw own s = (Inr n, s') \<Longrightarrow> n = 0 \<or> n = 1"
  by (auto simp: handle_mail_def no_ticket_def on_ticket_def retC_def Let_def elim!: bindC_InrE
      split: if_splits option.splits)

text \<open>
  However its messages fail, a mailbox whose mail was fetched is processed to the end; the count is
  at most the number of messages.
\<close>

theorem mailbox_never_stops:
  assumes "mo_fetch io mb = Some (Inr raws)"
  shows "\<exists>n s'. process_mailbox env io mb s = (Inr n, s') \<and> 0 \<le> n \<and> n \<le> int (length raws)"
proof -
  have step: "\<exists>k s'. try_mail env io mb raw n s = (Inr (n + k), s') \<and> (k = 0 \<or> k = 1)" for raw n s
    using handle_mail_counts by (cases "handle_mail env io mb raw (own_sender env) s"; cases "fst (handle_mail env io mb raw (own_sender env) s)")
      (fastforce simp: try_mail_def tryC_def bindC_def retC_def)+
  have "\<exists>k s'. foldC (try_mail env io mb) raws n s = (Inr (n + k), s') \<and> 0 \<le> k \<and> k \<le> int (length raws)" for n s
  proof (induction raws arbitrary: n s)
    case Nil
    then show ?case by (simp add: retC_def)
  next
    case (Cons raw raws)
    obtain k s1 where k: "try_mail env io mb raw n s = (Inr (n + k), s1)" "k = 0 \<or> k = 1" using step by blast
    obtain j s2 where j: "foldC (try_mail env io mb) raws (n + k) s1 = (Inr (n + k + j), s2)" "0 \<le> j" "j \<le> int (length raws)"
      using Cons by blast
    from k j have "foldC (try_mail env io mb) (raw # raws) n s = (Inr (n + (k + j)), s2)"
      by (simp add: bindC_Inr add.assoc)
    with k(2) j(2,3) show ?case by (intro exI [of _ "k + j"] exI [of _ s2]) auto
  qed
  from this [of 0 s] assms show ?thesis by (auto simp: process_mailbox_def)
qed

subsection \<open>Replies\<close>

lemma lower_bracket: "lower_char c = CHR ''['' \<longleftrightarrow> c = CHR ''[''"
proof
  assume l: "lower_char c = CHR ''[''"
  show "c = CHR ''[''"
  proof (cases "is_upper_char c")
    case True
    have "code (lower_char c) = code c + 32" using True code_char_of [of "code c + 32"]
      by (auto simp: lower_char_def is_upper_char_def Let_def)
    with l True show ?thesis by (auto simp: is_upper_char_def Let_def code_def)
  next
    case False
    with l show ?thesis by (simp add: lower_char_def)
  qed
qed (simp add: lower_char_def is_upper_char_def code_def)

lemma pad_dec: "0 \<le> n \<Longrightarrow> list_all is_dec (pad w n) \<and> pad w n \<noteq> []"
  using show_nat_dec [of n] by (cases "show_nat n")
    (auto simp: pad_def str_int_def zfill_def list_all_iff is_dec_def code_def)

lemma find_number_bracket:
  assumes "p \<noteq> []" "hd p \<noteq> CHR ''[''" "list_all is_dec d" "d \<noteq> []"
  shows "find_number p (CHR ''['' # p @ d @ CHR '']'' # rest) = Some (p @ d)"
proof -
  obtain c q where p: "p = c # q" using assms(1) by (cases p) auto
  with assms(2) have "lower_char c \<noteq> CHR ''[''" using lower_bracket [of c] by simp
  then have skip: "\<not> same_nocase (take (length p) (CHR ''['' # t)) p" for t
    using p by (auto simp: same_nocase_def py_lower_def lower_char_def is_upper_char_def code_def)
  have digits: "takeWhile is_dec (d @ CHR '']'' # rest) = d"
    using assms(3) by (simp add: takeWhile_append2 list_all_iff is_dec_def code_def)
  have "find_number p (p @ d @ CHR '']'' # rest) = Some (p @ d)"
    using p digits assms(4) by (simp add: Let_def same_nocase_def)
  with skip show ?thesis by (simp add: Let_def)
qed

lemma char_r: "char_of (114::int) = CHR ''r''"
  by code_simp

lemma reply_stripped:
  assumes "rest \<noteq> []" "\<not> is_space (last rest)"
  shows "strip_re (''Re: ['' @ rest) = CHR ''['' # rest"
proof -
  have a: "reply_word (''Re: ['' @ rest) = Some (CHR ''['' # rest)"
    by (simp add: reply_word_def List.map_filter_def after_word_def drop_bracket_def lstrip_space_def lstrip_by_def
      py_lower_def lower_char_def is_upper_char_def is_space_def code_def Let_def char_r)
  have b: "reply_word (CHR ''['' # rest) = None"
    by (simp add: reply_word_def List.map_filter_def py_lower_def lower_char_def is_upper_char_def code_def)
  have "strip_replies (CHR ''['' # rest) = CHR ''['' # rest"
    using b by (simp add: strip_replies.simps)
  then have "strip_replies (''Re: ['' @ rest) = CHR ''['' # rest"
    unfolding strip_replies.simps [of "''Re: ['' @ rest"] a option.case .
  moreover have "lstrip_space (''Re: ['' @ rest) = ''Re: ['' @ rest"
    by (simp add: lstrip_space_def lstrip_by_def is_space_def code_def)
  moreover have "py_strip (CHR ''['' # rest) = CHR ''['' # rest"
    using assms by (simp add: py_strip_def) (rule strip_by_id, simp add: is_space_def code_def)
  ultimately show ?thesis by (simp add: strip_re_def)
qed



subsection \<open>An example\<close>

definition inc_field :: meta_field where
  "inc_field = (sample_field ''autonumber'')\<lparr>f_phys_name := ''number'', f_default_value := Some ''INC-''\<rparr>"

definition inc_table :: meta_table where
  "inc_table = sample_table\<lparr>t_fields := [inc_field]\<rparr>"

definition inc_phys :: phys where
  "inc_phys = \<lparr>ph_cols = [(''id'', CInt, False), (''number'', CStr, True), (''created_by'', CInt, True)], ph_pk = ''id'',
     ph_rows = [[(''id'', VInt 5), (''number'', VStr ''INC-0012''), (''created_by'', VInt 2)]], ph_uniq = [], ph_next = 6\<rparr>"

definition inc_db :: db where
  "inc_db = empty_db\<lparr>d_users := [staff, customer], d_tables := [inc_table], d_forms := [wages_form],
     d_perms := [\<lparr>pm_id = 1, pm_role = role_user, pm_form_id = 1, pm_access = access_none\<rparr>],
     d_phys := [(''tickets'', inc_phys)]\<rparr>"

definition inc_mail :: "pystr \<Rightarrow> mail" where
  "inc_mail from = \<lparr>ml_from = Some from, ml_auto_submitted = None, ml_precedence = None, ml_suppress = None,
     ml_subject = Some ''Re: [INC-0012] New comment on Ticket'', ml_body = Some (Inr ''Thanks''), ml_files = []\<rparr>"

text \<open>The raw bytes are the sender's address here.\<close>

definition inc_io :: mail_io where
  "inc_io = \<lparr>mo_fetch = (\<lambda>_. Some (Inr [''ann@x.org'', ''eve@z.org''])), mo_message = inc_mail, mo_addr = (\<lambda>x. x),
     mo_secure = (\<lambda>x. x), mo_token = (\<lambda>_. ''t'')\<rparr>"

definition inc_box :: mailbox where
  "inc_box = \<lparr>mb_id = 1, mb_name = ''box'', mb_active = True, mb_host = ''h'', mb_port = None, mb_use_ssl = True,
     mb_username = None, mb_password = None, mb_folder = None, mb_aliases = JEmpty, mb_create_form_id = None,
     mb_schedule_minutes = 5, mb_last_run_at = None\<rparr>"



lemma mailbox_never_stops_witness:
  "\<exists>n s'. process_mailbox plain_env inc_io inc_box inc_db = (Inr n, s') \<and> 0 \<le> n \<and> n \<le> int (length [''ann@x.org'', ''eve@z.org''])"
  by (rule mailbox_never_stops) (simp add: inc_io_def)

text \<open>
  Finding: the walls are not those of the interface. An account whose role has no permission on any form of a
  table may not read the table there; by mail it comments on its records in public.
\<close>

lemma mail_passes_permissions:
  "\<not> table_readable inc_db (Some staff) inc_table \<and>
   fst (can_access staff inc_table (VInt 5) inc_db) = Inr True \<and>
   (case d_comments (snd (handle_mail plain_env inc_io inc_box ''ann@x.org'' [] inc_db)) of
      [c] \<Rightarrow> \<not> cm_internal c \<and> cm_user_id c = Some 1 | _ \<Rightarrow> False)"
  by (intro conjI) code_simp+

text \<open>
  Finding: notifications are sent from the address of the Settings page, but a mail that comes back from that
  address is recognised as the application's own only by the configuration.
\<close>

lemma own_mail_unrecognised:
  "let s = inc_db\<lparr>d_settings := [\<lparr>se_id = 1, se_key = ''mail_default_sender'', se_value = Some ''desk@x.org''\<rparr>]\<rparr> in
   text_setting plain_env s ''mail_default_sender'' = ''desk@x.org'' \<and>
   \<not> is_auto inc_io (inc_mail ''desk@x.org'') (own_sender plain_env)"
  by code_simp

end
