(* ===== verification/Scheduler.thy ===== *)
theory Scheduler
  imports Mailbox Pull
begin

text \<open>
  \<open>app/scheduler.py\<close>: one pass over all due work, and the runs by hand. A pass is one step after another;
  every job is tried, and what it raises is logged as a notification. The value of a pass is \<open>None\<close> where a
  poll of a pull source does not return. Polls leave \<open>g.via_api\<close> set, so all that follows them in the pass runs
  with \<open>e_via_api\<close>. What a failing job has queued by then is nothing: an exception comes before the first
  notification (the ticker thread and the logging module are not modelled).

  Shown: a pass returns whenever its polls do, whatever fails; accounts, approvals and the design stay; a rule
  that ran in a pass is not claimed again before its interval is over. Finding: after a poll, the records that
  recurring jobs and mail create in the same pass do not reach feeds that skip API writes.
\<close>

subsection \<open>Jobs\<close>

definition log_error :: "env \<Rightarrow> pystr \<Rightarrow> pystr \<Rightarrow> exn \<Rightarrow> unit comp" where
  "log_error env kind name e = add_notifC ((new_notif ''error'' ''failed'')\<lparr>n_event := Some ''schedule'',
     n_subject := clip 255 (kind @ '': '' @ name), n_detail := Some (take 300 (e_msg env e))\<rparr>)"

text \<open>A job whose exceptions are logged; the count so far goes on.\<close>

definition isolated :: "env \<Rightarrow> pystr \<Rightarrow> pystr \<Rightarrow> int comp \<Rightarrow> int \<Rightarrow> int comp" where
  "isolated env kind name job n =
     tryC (bindC job (\<lambda>k. retC (n + k))) (\<lambda>e. bindC (log_error env kind name e) (\<lambda>_. retC n))"

definition claimC :: "(db \<Rightarrow> int \<Rightarrow> int option \<Rightarrow> int \<Rightarrow> bool \<times> db) \<Rightarrow> int \<Rightarrow> int option \<Rightarrow> int \<Rightarrow> bool comp" where
  "claimC claim i minutes now s = (case claim s i minutes now of (b, s') \<Rightarrow> (Inr b, s'))"

definition claimed :: "bool comp \<Rightarrow> (int \<Rightarrow> int comp) \<Rightarrow> int \<Rightarrow> int comp" where
  "claimed claim job n = bindC claim (\<lambda>b. if b then job n else retC n)"

subsection \<open>Scheduled rules\<close>

definition trigger_row :: "env \<Rightarrow> meta_table \<Rightarrow> trigger_rule \<Rightarrow> row \<Rightarrow> int \<Rightarrow> int comp" where
  "trigger_row env t rule r n =
     bindC (liftC (condition_ok (rule_matcher rule) t r)) (\<lambda>ok.
     if \<not> ok then retC n
     else let pk = rget r (t_pk_col t) in
       tryC (bindC (run_rule env (nested env) rule t ''scheduled'' pk (Some r) r None) (\<lambda>_. retC (n + 1)))
         (\<lambda>e. bindC (add_notifC ((rule_notif rule t pk ''scheduled'' ''error'' ''failed'')
                \<lparr>n_detail := Some (take 300 (e_msg env e))\<rparr>)) (\<lambda>_. retC n)))"

definition run_trigger :: "env \<Rightarrow> trigger_rule \<Rightarrow> int comp" where
  "run_trigger env rule =
     bindC (getC (\<lambda>s. get_table s (tr_table_id rule))) (\<lambda>mt. case mt of
       None \<Rightarrow> retC 0
     | Some t \<Rightarrow>
       bindC (list_records t None True False [] None ''asc'' 1 None) (\<lambda>(rows, total).
       foldC (trigger_row env t rule) rows 0))"

definition scheduled_rules :: "db \<Rightarrow> trigger_rule list" where
  "scheduled_rules s = filter (\<lambda>r. tr_active r \<and> tr_event r = ''scheduled'') (d_triggers s)"

definition trigger_job :: "env \<Rightarrow> trigger_rule \<Rightarrow> int \<Rightarrow> int comp" where
  "trigger_job env r = claimed (claimC claim_trigger (tr_id r) (tr_schedule_minutes r) (e_now env))
     (isolated env ''trigger'' (tr_name r) (run_trigger env r))"

definition triggers_step :: "env \<Rightarrow> int comp" where
  "triggers_step env = bindC (getC scheduled_rules) (\<lambda>rs. foldC (trigger_job env) rs 0)"

definition feeds_step :: "env \<Rightarrow> int comp" where
  "feeds_step env = isolated env ''feed'' ''scheduled feeds'' (feed_scheduled env None) 0"

subsection \<open>Report digests\<close>

definition recipients :: "db \<Rightarrow> report_def \<Rightarrow> pystr list" where
  "recipients s r =
     (let to = filter (\<lambda>e. e \<noteq> []) (map py_strip (split_on CHR '','' (text_or (rd_recipients r) []))) in
      if to \<noteq> [] then to
      else case get_user s (rd_user_id r) of
          None \<Rightarrow> []
        | Some u \<Rightarrow> if CHR ''@'' \<in> set (u_username u) then [u_username u] else [])"

definition send_digest :: "env \<Rightarrow> report_def \<Rightarrow> pystr \<Rightarrow> pystr \<Rightarrow> int \<Rightarrow> int comp" where
  "send_digest env r csv to n =
     bindC (deliver_email env to (''[Biggy] '' @ rd_name r)
        (''Scheduled report '' @ [CHR 0x27] @ rd_name r @ [CHR 0x27] @ '':'' @ [CHR 0x0A, CHR 0x0A] @ csv)) (\<lambda>(stat, det).
     bindC (add_notifC ((new_notif ''report'' stat)\<lparr>n_event := Some ''report'', n_target := Some (take 400 to),
        n_subject := Some (take 255 (rd_name r)), n_body := Some (take 4000 csv), n_detail := det\<rparr>)) (\<lambda>_.
     retC (n + 1)))"

definition no_recipients :: "report_def \<Rightarrow> int comp" where
  "no_recipients r = bindC (add_notifC ((new_notif ''report'' ''skipped'')\<lparr>n_event := Some ''report'',
     n_subject := Some (take 255 (rd_name r)), n_detail := Some ''no recipients''\<rparr>)) (\<lambda>_. retC 0)"

definition send_report :: "env \<Rightarrow> report_def \<Rightarrow> int comp" where
  "send_report env r =
     bindC (getC (\<lambda>s. get_table s (rd_table_id r))) (\<lambda>mt. case mt of
       None \<Rightarrow> retC 0
     | Some t \<Rightarrow>
       bindC (build_report env t (parse_qsl (rd_query r)) [] None) (\<lambda>ctx.
       bindC (getC (\<lambda>s. recipients s r)) (\<lambda>to.
       if to = [] then no_recipients r
       else foldC (send_digest env r (report_csv (re_result ctx))) to 0)))"

definition report_job :: "env \<Rightarrow> report_def \<Rightarrow> int \<Rightarrow> int comp" where
  "report_job env r = claimed (claimC claim_report (rd_id r) (rd_schedule_minutes r) (e_now env))
     (isolated env ''report'' (rd_name r) (send_report env r))"

definition reports_step :: "env \<Rightarrow> int comp" where
  "reports_step env = bindC (getC (\<lambda>s. filter (\<lambda>r. rd_schedule_minutes r \<noteq> None) (d_reports s)))
     (\<lambda>rs. foldC (report_job env) rs 0)"

subsection \<open>Recurring records and mail\<close>

definition resolver_of :: "meta_field \<Rightarrow> resolver option comp" where
  "resolver_of f =
     (if f_data_type f = RELATION_TYPE then bindC (make_relation_resolver f) (\<lambda>r. retC (Some r))
      else if f_data_type f = ''user''
        then getC (\<lambda>s. Some (user_resolver (map (\<lambda>u. (u_id u, u_username u)) (d_users s))))
      else if f_data_type f = ''company''
        then getC (\<lambda>s. Some (user_resolver (map (\<lambda>c. (co_id c, co_name c)) (d_companies s))))
      else retC None)"

definition recurring_value :: "env \<Rightarrow> meta_table \<Rightarrow> pystr \<times> pyval \<Rightarrow> row \<Rightarrow> row comp" where
  "recurring_value env t e vs = (case e of (col, raw) \<Rightarrow>
     (case find (\<lambda>f. f_phys_name f = col) (rev (t_fields t)) of
        None \<Rightarrow> retC vs
      | Some f \<Rightarrow> bindC (resolver_of f) (\<lambda>res.
          bindC (liftC (coerce_value env f (Some (py_str raw)) res)) (\<lambda>v. retC (dset col v vs)))))"

definition run_recurring :: "env \<Rightarrow> recurring_record \<Rightarrow> int comp" where
  "run_recurring env job =
     bindC (getC (\<lambda>s. get_table s (rr_table_id job))) (\<lambda>mt. case mt of
       None \<Rightarrow> retC 0
     | Some t \<Rightarrow> (case loads_or (VDict []) (rr_field_values job) of
         None \<Rightarrow> failC (ValueErr ''json'')
       | Some (VDict d) \<Rightarrow>
         bindC (foldC (recurring_value env t) d []) (\<lambda>vs.
         bindC (create env t vs None) (\<lambda>_. retC 1))
       | Some _ \<Rightarrow> failC TypeErr))"

definition recurring_job :: "env \<Rightarrow> recurring_record \<Rightarrow> int \<Rightarrow> int comp" where
  "recurring_job env j = claimed (claimC claim_recurring (rr_id j) (Some (rr_schedule_minutes j)) (e_now env))
     (isolated env ''recurring'' (rr_name j) (run_recurring env j))"

definition recurring_step :: "env \<Rightarrow> int comp" where
  "recurring_step env = bindC (getC (\<lambda>s. filter rr_active (d_recurring s))) (\<lambda>js. foldC (recurring_job env) js 0)"

definition mail_job :: "env \<Rightarrow> mail_io \<Rightarrow> mailbox \<Rightarrow> int \<Rightarrow> int comp" where
  "mail_job env io m = claimed (claimC claim_mailbox (mb_id m) (Some (mb_schedule_minutes m)) (e_now env))
     (isolated env ''mailbox'' (mb_name m) (process_mailbox env io m))"

definition mail_step :: "env \<Rightarrow> mail_io \<Rightarrow> int comp" where
  "mail_step env io = bindC (getC (\<lambda>s. filter mb_active (d_mailboxes s))) (\<lambda>ms. foldC (mail_job env io) ms 0)"

definition sla_step :: "env \<Rightarrow> int comp" where
  "sla_step env = isolated env ''sla'' ''breach sweep'' (run_breach_sweep env (e_now env)) 0"

subsection \<open>A pass\<close>

record summary =
  su_triggers :: int
  su_feeds :: int
  su_pulls :: int
  su_mail :: int
  su_recurring :: int
  su_sla :: int
  su_reports :: int

definition after_polls :: "env \<Rightarrow> mail_io \<Rightarrow> summary \<Rightarrow> summary comp" where
  "after_polls env io su =
     bindC (mail_step env io) (\<lambda>m.
     bindC (recurring_step env) (\<lambda>r.
     bindC (sla_step env) (\<lambda>l.
     bindC (reports_step env) (\<lambda>p.
     bindC (modC (sweep_hits (e_now env))) (\<lambda>_.
     retC (su\<lparr>su_mail := m, su_recurring := r, su_sla := l, su_reports := p\<rparr>))))))"

definition before_polls :: "env \<Rightarrow> (int \<times> int) comp" where
  "before_polls env = bindC (triggers_step env) (\<lambda>n. bindC (feeds_step env) (\<lambda>k. retC (n, k)))"

definition pulls_step :: "env \<Rightarrow> db \<Rightarrow> (int \<times> bool \<times> db) option" where
  "pulls_step env s = (case pull_scheduled env None s of
     None \<Rightarrow> None
   | Some (Inr n, via, s') \<Rightarrow> Some (n, via, s')
   | Some (Inl e, via, s') \<Rightarrow> Some (0, via, snd (log_error env ''pull'' ''scheduled pulls'' e s')))"

definition run_due :: "env \<Rightarrow> mail_io \<Rightarrow> db \<Rightarrow> ((exn + summary) \<times> db) option" where
  "run_due env io s = (case before_polls env s of
     (Inl e, s1) \<Rightarrow> Some (Inl e, s1)
   | (Inr (n, k), s1) \<Rightarrow>
     (case pulls_step env s1 of
        None \<Rightarrow> None
      | Some (p, via, s2) \<Rightarrow> Some (after_polls (env\<lparr>e_via_api := e_via_api env \<or> via\<rparr>) io
          \<lparr>su_triggers = n, su_feeds = k, su_pulls = p, su_mail = 0, su_recurring = 0, su_sla = 0, su_reports = 0\<rparr> s2)))"

subsection \<open>By hand\<close>

definition run_one_trigger :: "env \<Rightarrow> int \<Rightarrow> int comp" where
  "run_one_trigger env i = bindC (getC (\<lambda>s. find (\<lambda>r. tr_id r = i) (d_triggers s))) (\<lambda>r. case r of
     None \<Rightarrow> retC 0
   | Some rule \<Rightarrow>
     bindC (run_trigger env rule) (\<lambda>n.
     bindC (modC (\<lambda>s. s\<lparr>d_triggers := upd_where (\<lambda>x. tr_id x = i) (\<lambda>x. x\<lparr>tr_last_run_at := Some (e_now env)\<rparr>) (d_triggers s)\<rparr>)) (\<lambda>_.
     retC n)))"

definition run_one_report :: "env \<Rightarrow> int \<Rightarrow> int comp" where
  "run_one_report env i = bindC (getC (\<lambda>s. find (\<lambda>r. rd_id r = i) (d_reports s))) (\<lambda>r. case r of
     None \<Rightarrow> retC 0
   | Some report \<Rightarrow>
     bindC (send_report env report) (\<lambda>n.
     bindC (modC (\<lambda>s. s\<lparr>d_reports := upd_where (\<lambda>x. rd_id x = i) (\<lambda>x. x\<lparr>rd_last_run_at := Some (e_now env)\<rparr>) (d_reports s)\<rparr>)) (\<lambda>_.
     retC n)))"


subsection \<open>What a pass touches\<close>

text \<open>What the whole of a pass keeps but for the stamps of the rules: the interface of its frames.\<close>

locale pass_frame = write_frame +
  assumes comments: "R s (s\<lparr>d_comments := x1\<rparr>)"
    and feeds: "R s (s\<lparr>d_feeds := x2\<rparr>)"
    and pulls: "R s (s\<lparr>d_pulls := x3\<rparr>)"
    and mailboxes: "R s (s\<lparr>d_mailboxes := x4\<rparr>)"
    and recurring: "R s (s\<lparr>d_recurring := x5\<rparr>)"
    and reports: "R s (s\<lparr>d_reports := x6\<rparr>)"
    and hits: "R s (s\<lparr>d_hits := x7\<rparr>)"
    and clocks: "R s (s\<lparr>d_clocks := x8\<rparr>)"
    and rollback: "R s s' \<Longrightarrow> R s (rollback_to s s')"
begin

lemma keeps_same: "keeps (=) m \<Longrightarrow> keeps R m"
  unfolding keeps_def by (metis refl)

lemma keeps_isolated: "keeps R job \<Longrightarrow> keeps R (isolated env kind name job n)"
  unfolding isolated_def log_error_def by (intro keeps keeps_notif)

lemma keeps_claimed: "keeps R c \<Longrightarrow> (\<And>n. keeps R (job n)) \<Longrightarrow> keeps R (claimed c job n)"
  unfolding claimed_def by (intro keeps)

lemma keeps_claims:
  "keeps R (claimC claim_feed i m now)" "keeps R (claimC claim_mailbox i m now)"
  "keeps R (claimC claim_recurring i m now)" "keeps R (claimC claim_report i m now)"
  by (simp_all add: keeps_def claimC_def claim_feed_def claim_mailbox_def claim_recurring_def claim_report_def
      feeds mailboxes recurring reports case_prod_unfold)

lemma keeps_run_trigger: "keeps R (run_trigger env rule)"
  unfolding run_trigger_def trigger_row_def list_records_def list_rows_def Let_def
  by (intro keeps keeps_read keeps_run_rule keeps_nested keeps_notif)

lemma keeps_feed_scheduled: "keeps R (feed_scheduled env only)"
  unfolding feed_scheduled_def feed_scheduled_one_def list_rows_after_def put_feed_def claimC_def [symmetric]
  by (intro keeps keeps_read keeps_feed_push_rows keeps_claims feeds)

lemma keeps_import: "keeps R (import_record env src t fm cfg r)"
  unfolding import_record_def find_id_by_key_def find_id_by_def Let_def
  by (intro keeps keeps_read keeps_create keeps_update_record)

lemma keeps_pull_record: "keeps R (pull_record env src t fm cfg ct r acc)"
  unfolding pull_record_def try_import_def try_advance_def by (intro keeps keeps_notif keeps_import)

lemma keeps_pull_write: "keeps R (pull_write env src t records)"
  unfolding pull_write_def finish_pull_def put_pull_def Let_def
  by (auto intro!: keeps keeps_notif keeps_pull_record pulls split: option.split sum.split)

lemma run_one_kept: "run_one env src s = Some (r, s') \<Longrightarrow> R s s'"
  using keepsD [OF keeps_pull_write] refl
  by (auto simp: run_one_def split: option.splits sum.splits)

lemma run_sources_kept: "run_sources env only srcs n via s = Some (r, v, s') \<Longrightarrow> R s s'"
proof (induction srcs arbitrary: n via s)
  case Nil
  then show ?case by (simp add: refl)
next
  case (Cons src rest)
  obtain go s1 where go: "(if only then (True, s) else claim_pull s (pu_id src) (pu_schedule_minutes src) (e_now env)) = (go, s1)"
    by fastforce
  then have r1: "R s s1" using refl pulls by (auto simp: claim_pull_def split: if_splits prod.splits)
  show ?case
  proof (cases go)
    case False
    with Cons.prems go have "run_sources env only rest n via s1 = Some (r, v, s')" by simp
    from trans [OF r1 Cons.IH [OF this]] show ?thesis .
  next
    case True
    with Cons.prems go obtain x s2 where one: "run_one env src s1 = Some (x, s2)"
      by (auto split: option.splits)
    have r2: "R s s2" using trans [OF r1 run_one_kept [OF one]] .
    show ?thesis
    proof (cases x)
      case (Inl e)
      with Cons.prems go True one r2 show ?thesis by simp
    next
      case (Inr k)
      with Cons.prems go True one
      have "run_sources env only rest (n + k) (via \<or> marks_api env src s1) s2 = Some (r, v, s')" by simp
      from trans [OF r2 Cons.IH [OF this]] show ?thesis .
    qed
  qed
qed

lemma pulls_step_kept: "pulls_step env s = Some (p, v, s') \<Longrightarrow> R s s'"
proof -
  assume "pulls_step env s = Some (p, v, s')"
  then obtain r s1 where a: "pull_scheduled env None s = Some (r, v, s1)"
    and b: "s' = s1 \<or> (\<exists>e. s' = snd (log_error env ''pull'' ''scheduled pulls'' e s1))"
    by (auto simp: pulls_step_def split: option.splits prod.splits sum.splits)
  have "R s s1" using a unfolding pull_scheduled_def by (rule run_sources_kept)
  moreover have "keeps R (log_error env kind name e)" for kind name e
    unfolding log_error_def by (rule keeps_notif)
  then have "R s1 s'" using b refl by (auto simp: keeps_def)
  ultimately show ?thesis by (rule trans)
qed

lemma keeps_save_attachments: "keeps R (save_attachments io t pk m u)"
proof -
  have "R s (fold (attach io f i u) fs s)" for f i fs s
  proof (induction fs arbitrary: s)
    case (Cons x fs)
    have "R s (attach io f i u x s)" by (simp add: attach_def Let_def refl attachments split: sum.split)
    from trans [OF this Cons] show ?case by simp
  qed (simp add: refl)
  then show ?thesis unfolding save_attachments_def
    by (auto intro!: keeps keeps_mod split: option.split)
qed

lemma keeps_add_comment: "keeps R (add_comment env t pk u b internal r label)"
proof -
  have tell: "keeps R (tell_participants env s0 t pk u b' internal r label)" for s0 b'
    unfolding tell_participants_def tell_user_def tell_def Let_def
    by (intro keeps keeps_notif keeps_email_user)
  have body: "keeps R (bindC (modC (\<lambda>s. s\<lparr>d_comments := d_comments s @ [c]\<rparr>)) (\<lambda>_.
      bindC (tell_participants env s0 t pk u b' internal r label) (\<lambda>_. retC c)))" for c s0 b'
    by (intro keeps tell comments)
  then show ?thesis by (simp add: keeps_def add_comment_def Let_def refl)
qed

lemma keeps_mailbox: "keeps R (process_mailbox env io mb)"
proof -
  have "keeps R (handle_mail env io mb raw own)" for raw own
    unfolding handle_mail_def no_ticket_def on_ticket_def create_ticket_def post_def allowed_sender_def can_access_def
      get_record_def Let_def
    by (intro keeps keeps_get keeps_create keeps_save_attachments keeps_add_comment
        keeps_same [OF find_ticket_reads])
  then show ?thesis unfolding process_mailbox_def try_mail_def
    by (auto intro!: keeps split: option.split sum.split)
qed


lemma keeps_escalate: "keeps R (escalate env t p c r)" "keeps R (fire_escalation env t c r' level)"
  unfolding escalate_def fire_escalation_def Let_def
  by (intro keeps keeps_update keeps_get keeps_notif keeps_email)+

lemma keeps_mark_breach: "keeps R (mark_breach env t p c now)"
  unfolding mark_breach_def put_clock_def Let_def by (intro keeps keeps_get keeps_escalate clocks)

lemma recover_kept: "R s s1 \<Longrightarrow> R s (sweep_recover env c s e s1)"
  unfolding sweep_recover_def by (rule trans [OF rollback notif])

lemma sweep_clock_kept: "R s (snd (sweep_clock env now i (n, s)))"
proof -
  have wb: "R s (snd (if hit then f k else g k))" if "R s (snd (f k))" "R s (snd (g k))" for hit and f g :: "int \<Rightarrow> int \<times> db" and k
    using that by simp
  have "R s s2" if "mark_breach env t p c now s = (Inr (c1, hit), s1)" "writeback env t p pk c1 now s1 = (x, s2)" for t p c c1 hit s1 pk x s2
    using trans keepsD [OF keeps_mark_breach that(1)] keepsD [OF keeps_writeback that(2)] .
  moreover have "R s s1" if "mark_breach env t p c now s = (x, s1)" for t p c x s1
    using keepsD [OF keeps_mark_breach that] .
  ultimately show ?thesis
    by (auto simp: sweep_clock_def Let_def refl intro!: recover_kept split: option.split sum.split prod.split)
qed

lemma chain_clock_kept: "R s (snd (chain_clock env now i (n, s)))"
proof -
  have fire: "keeps R (bindC (row_or_empty t k) (\<lambda>r. fire_escalation env mt c r level))" for t k mt c level
    by (intro keeps keeps_get keeps_escalate)
  have "R s s1" if "bindC (row_or_empty t k) (\<lambda>r. fire_escalation env mt c r level) s = (x, s1)" for t k mt c level x s1
    using keepsD [OF fire that] .
  then show ?thesis
    by (auto simp: chain_clock_def Let_def put_clock_def refl intro!: rollback trans [OF _ clocks]
        split: option.split sum.split prod.split)
qed

lemma keeps_sweep: "keeps R (run_breach_sweep env now)"
proof -
  have sweep: "R s (snd (fold (sweep_clock env now) is (n, s)))" for "is" n s
  proof (induction "is" arbitrary: n s)
    case (Cons i "is")
    show ?case using trans [OF sweep_clock_kept [of s env now i n] Cons [of "snd (sweep_clock env now i (n, s))" "fst (sweep_clock env now i (n, s))"]]
      by simp
  qed (simp add: refl)
  have chain: "R s (snd (chain_all env now is (n, s)))" for "is" n s
  proof (induction "is" arbitrary: n s)
    case (Cons i "is")
    obtain x s1 where c: "chain_clock env now i (n, s) = (x, s1)" by fastforce
    with chain_clock_kept [of s env now i n] have "R s s1" by simp
    then show ?case using c trans [OF _ Cons] by (auto split: sum.split)
  qed (simp add: refl)
  show ?thesis
    unfolding keeps_def run_breach_sweep_def sweep_all_def
  proof
    fix s
    obtain n s1 where f: "fold (sweep_clock env now) (in_state s RUNNING) (0, s) = (n, s1)" by fastforce
    with sweep [of s "in_state s RUNNING" 0] have "R s s1" by simp
    with f show "R s (snd (case fold (sweep_clock env now) (in_state s RUNNING) (0, s) of
        (n, s1) \<Rightarrow> chain_all env now (in_state s1 BREACHED) (n, s1)))"
      using trans [OF _ chain] by simp
  qed
qed

lemma keeps_reports_step: "keeps R (reports_step env)"
  unfolding reports_step_def report_job_def send_report_def send_digest_def no_recipients_def
  by (intro keeps keeps_claimed keeps_claims keeps_isolated keeps_notif keeps_email keeps_same [OF keeps_build_report])

lemma keeps_recurring_step: "keeps R (recurring_step env)"
  unfolding recurring_step_def recurring_job_def
proof (intro keeps keeps_claimed keeps_claims keeps_isolated)
  fix j
  show "keeps R (run_recurring env j)"
    unfolding run_recurring_def recurring_value_def resolver_of_def make_relation_resolver_def load_options_def
    by (auto intro!: keeps keeps_create keeps_read split: option.split pyval.split)
qed

lemma keeps_after_polls: "keeps R (after_polls env io su)"
  unfolding after_polls_def mail_step_def mail_job_def sla_step_def sweep_hits_def
  by (intro keeps keeps_claimed keeps_claims keeps_isolated keeps_mailbox keeps_sweep keeps_recurring_step keeps_reports_step hits)

lemma keeps_feeds_step: "keeps R (feeds_step env)"
  unfolding feeds_step_def by (intro keeps_isolated keeps_feed_scheduled)

lemma pass_kept:
  assumes "\<And>s rows. R s (s\<lparr>d_triggers := rows\<rparr>)" and "run_due env io s = Some (r, s')"
  shows "R s s'"
proof -
  have claim: "keeps R (claimC claim_trigger i m now)" for i m now
    by (simp add: keeps_def claimC_def claim_trigger_def assms(1) case_prod_unfold)
  have before: "keeps R (before_polls env)"
    unfolding before_polls_def triggers_step_def trigger_job_def
    by (intro keeps keeps_claimed claim keeps_isolated keeps_run_trigger keeps_feeds_step)
  obtain x s1 where b: "before_polls env s = (x, s1)" by fastforce
  have r1: "R s s1" using before b by (rule keepsD)
  show ?thesis
  proof (cases x)
    case (Inl e)
    with assms(2) b r1 show ?thesis by (simp add: run_due_def)
  next
    case (Inr nk)
    with assms(2) b obtain p v s2 su where p: "pulls_step env s1 = Some (p, v, s2)"
      and a: "after_polls (env\<lparr>e_via_api := e_via_api env \<or> v\<rparr>) io su s2 = (r, s')"
      by (cases nk) (auto simp: run_due_def split: option.splits)
    show ?thesis using trans [OF trans [OF r1 pulls_step_kept [OF p]] keepsD [OF keeps_after_polls a]] .
  qed
qed

end


text \<open>The design but for feeds and the stamps that jobs keep of their last run.\<close>

definition same_rules :: "db \<Rightarrow> db \<Rightarrow> bool" where
  "same_rules s s' \<longleftrightarrow> d_tables s' = d_tables s \<and> d_rels s' = d_rels s \<and> d_triggers s' = d_triggers s \<and>
     d_policies s' = d_policies s \<and> d_workflows s' = d_workflows s \<and> d_steps s' = d_steps s \<and> d_forms s' = d_forms s"

interpretation users: pass_frame same_users
  by unfold_locales (simp_all add: same_users_def rollback_to_def)

interpretation approvals: pass_frame same_approvals
  by unfold_locales (simp_all add: same_approvals_def rollback_to_def)

interpretation rules: action_frame same_rules
  by unfold_locales (simp_all add: same_rules_def add_notif_def put_phys_def)

interpretation rules: write_frame same_rules
  by unfold_locales (simp_all add: same_rules_def rules.keeps_sla_event)

interpretation rules: pass_frame same_rules
  by unfold_locales (simp_all add: same_rules_def rollback_to_def)

subsection \<open>A pass returns\<close>

lemma isolated_raise_free [intro]: "raise_free (isolated env kind name job n)"
  unfolding isolated_def log_error_def add_notifC_def by (intro raise_free_try raise_free_bind raise_free_intros)

lemma claimed_raise_free: "(\<And>n. raise_free (job n)) \<Longrightarrow> raise_free (claimed (claimC c i m now) job n)"
  unfolding claimed_def
  by (intro raise_free_bind) (auto simp: raise_free_def claimC_def retC_def case_prod_unfold)

lemma jobs_raise_free:
  "raise_free (triggers_step env)" "raise_free (feeds_step env)" "raise_free (mail_step env io)"
  "raise_free (recurring_step env)" "raise_free (sla_step env)" "raise_free (reports_step env)"
  unfolding triggers_step_def trigger_job_def feeds_step_def mail_step_def mail_job_def recurring_step_def
    recurring_job_def sla_step_def reports_step_def report_job_def
  by (intro raise_free_bind foldC_raise_free claimed_raise_free isolated_raise_free raise_free_intros)+

lemma after_polls_raise_free: "raise_free (after_polls env io su)"
  unfolding after_polls_def by (intro raise_free_bind jobs_raise_free raise_free_intros)

lemma before_polls_raise_free: "raise_free (before_polls env)"
  unfolding before_polls_def by (intro raise_free_bind jobs_raise_free raise_free_intros)

text \<open>
  C29: A pass of the scheduler comes to its end, whatever the rules, feeds, mailboxes, recurring jobs,
  service levels and reports raise, as long as the polls return; accounts and approvals are not touched.
\<close>

theorem pass_completes:
  assumes "pulls_step env (snd (before_polls env s)) \<noteq> None"
  shows "\<exists>su s'. run_due env io s = Some (Inr su, s') \<and> same_users s s' \<and> same_approvals s s'"
proof -
  obtain n k s1 where b: "before_polls env s = (Inr (n, k), s1)"
    using raise_freeE [OF before_polls_raise_free, of env s] by (metis surj_pair)
  then obtain p v s2 where p: "pulls_step env s1 = Some (p, v, s2)" using assms by auto
  let ?env = "env\<lparr>e_via_api := e_via_api env \<or> v\<rparr>"
  let ?su = "\<lparr>su_triggers = n, su_feeds = k, su_pulls = p, su_mail = 0, su_recurring = 0, su_sla = 0, su_reports = 0\<rparr>"
  obtain su s' where a: "after_polls ?env io ?su s2 = (Inr su, s')"
    using raise_freeE [OF after_polls_raise_free, of ?env io ?su s2] by blast
  have run: "run_due env io s = Some (Inr su, s')" using b p a by (simp add: run_due_def)
  have "same_users s s'" by (rule users.pass_kept [OF _ run]) (simp add: same_users_def)
  moreover have "same_approvals s s'" by (rule approvals.pass_kept [OF _ run]) (simp add: same_approvals_def)
  ultimately show ?thesis using run by blast
qed


subsection \<open>Rules run once per interval\<close>

definition stamp_rule :: "int \<Rightarrow> trigger_rule \<Rightarrow> trigger_rule" where
  "stamp_rule now r = r\<lparr>tr_last_run_at := Some now\<rparr>"

definition rules_of_id :: "db \<Rightarrow> int \<Rightarrow> trigger_rule list" where
  "rules_of_id s i = filter (\<lambda>x. tr_id x = i) (d_triggers s)"

lemma filter_upd_other:
  "(\<And>x. P x \<Longrightarrow> key x \<noteq> i) \<Longrightarrow> (\<And>x. key (g x) = key x) \<Longrightarrow> filter (\<lambda>x. key x = i) (upd_where P g xs) = filter (\<lambda>x. key x = i) xs"
  by (induction xs) (auto simp: upd_where_def)

lemma claim_other:
  assumes "j \<noteq> i"
  shows "rules_of_id (snd (claim_trigger s j m now)) i = rules_of_id s i"
proof -
  have "filter (\<lambda>x. tr_id x = i) (upd_where (\<lambda>r. tr_id r = j \<and> is_due tr_last_run_at mm now r) (stamp_rule now) xs) =
      filter (\<lambda>x. tr_id x = i) xs" for mm xs
    by (rule filter_upd_other) (use assms in \<open>auto simp: stamp_rule_def\<close>)
  then show ?thesis
    by (auto simp: rules_of_id_def claim_trigger_def claim_due_def Let_def stamp_rule_def [abs_def] case_prod_unfold split: option.split)
qed

lemma claim_self:
  assumes "rules_of_id s i = [r]" "is_due tr_last_run_at m now r" "0 < m"
  shows "rules_of_id (snd (claim_trigger s i (Some m) now)) i = [stamp_rule now r]"
proof -
  have "filter (\<lambda>x. tr_id x = i) (upd_where (\<lambda>r. tr_id r = i \<and> is_due tr_last_run_at m now r) (stamp_rule now) xs) =
      map (\<lambda>r. if is_due tr_last_run_at m now r then stamp_rule now r else r) (filter (\<lambda>x. tr_id x = i) xs)" for xs
    by (induction xs) (auto simp: upd_where_def stamp_rule_def)
  with assms show ?thesis
    by (simp add: rules_of_id_def claim_trigger_def claim_due_def Let_def stamp_rule_def [abs_def] case_prod_unfold)
qed

lemma trigger_job_rules:
  "rules_of_id (snd (trigger_job env r n s)) i = rules_of_id (snd (claim_trigger s (tr_id r) (tr_schedule_minutes r) (e_now env))) i"
proof -
  obtain b s1 where c: "claim_trigger s (tr_id r) (tr_schedule_minutes r) (e_now env) = (b, s1)" by fastforce
  have "keeps same_rules (if b then isolated env ''trigger'' (tr_name r) (run_trigger env r) n else retC n)"
    by (intro rules.keeps rules.keeps_isolated rules.keeps_run_trigger)
  then have "same_rules s1 (snd ((if b then isolated env ''trigger'' (tr_name r) (run_trigger env r) n else retC n) s1))"
    by (simp add: keeps_def)
  then show ?thesis by (simp add: trigger_job_def claimed_def claimC_def bindC_def c same_rules_def rules_of_id_def)
qed

lemma foldC_state:
  assumes "\<And>x n. raise_free (f x n)"
  shows "\<exists>m. foldC f (x # xs) n s = foldC f xs m (snd (f x n s))"
  using raise_freeE [OF assms, of x n s] by (auto simp: bindC_Inr)

lemma trigger_job_raise_free: "raise_free (trigger_job env r n)"
  unfolding trigger_job_def by (intro claimed_raise_free isolated_raise_free)

lemma triggers_others:
  "i \<notin> tr_id ` set rs \<Longrightarrow> rules_of_id (snd (foldC (trigger_job env) rs n s)) i = rules_of_id s i"
proof (induction rs arbitrary: n s)
  case Nil
  then show ?case by (simp add: retC_def)
next
  case (Cons r rs)
  obtain m where "foldC (trigger_job env) (r # rs) n s = foldC (trigger_job env) rs m (snd (trigger_job env r n s))"
    using foldC_state [where f = "trigger_job env", OF trigger_job_raise_free] by blast
  with Cons show ?case by (auto simp: trigger_job_rules claim_other)
qed

lemma triggers_stamp:
  assumes "distinct (map tr_id rs)" "r \<in> set rs" "rules_of_id s (tr_id r) = [r]"
    "tr_schedule_minutes r = Some m" "0 < m" "is_due tr_last_run_at m (e_now env) r"
  shows "rules_of_id (snd (foldC (trigger_job env) rs n s)) (tr_id r) = [stamp_rule (e_now env) r]"
  using assms(1-3)
proof (induction rs arbitrary: n s)
  case (Cons x rs)
  obtain k where step: "foldC (trigger_job env) (x # rs) n s = foldC (trigger_job env) rs k (snd (trigger_job env x n s))"
    using foldC_state [where f = "trigger_job env", OF trigger_job_raise_free] by blast
  show ?case
  proof (cases "x = r")
    case True
    have "rules_of_id (snd (trigger_job env r n s)) (tr_id r) = [stamp_rule (e_now env) r]"
      using claim_self [OF Cons.prems(3) assms(6,5)] assms(4) by (simp add: trigger_job_rules)
    moreover have "tr_id r \<notin> tr_id ` set rs" using Cons.prems(1) True by simp
    ultimately show ?thesis using step True by (simp add: triggers_others del: foldC.simps)
  next
    case False
    then have r: "r \<in> set rs" using Cons.prems(2) by simp
    then have "tr_id x \<noteq> tr_id r" using Cons.prems(1) by (auto simp: image_iff)
    then have "rules_of_id (snd (trigger_job env x n s)) (tr_id r) = [r]"
      using Cons.prems(3) by (simp add: trigger_job_rules claim_other)
    with Cons.IH r Cons.prems(1) show ?thesis by (simp only: step distinct.simps list.map)
  qed
qed simp

lemma pass_rules:
  assumes "run_due env io s = Some (Inr su, s')"
  shows "rules_of_id s' i = rules_of_id (snd (triggers_step env s)) i"
proof -
  obtain n s0 where t: "triggers_step env s = (Inr n, s0)" using raise_freeE [OF jobs_raise_free(1)] by blast
  obtain k s1 where f: "feeds_step env s0 = (Inr k, s1)" using raise_freeE [OF jobs_raise_free(2)] by blast
  have b: "before_polls env s = (Inr (n, k), s1)" using t f by (simp add: before_polls_def bindC_Inr retC_def)
  with assms obtain p v s2 su' where p: "pulls_step env s1 = Some (p, v, s2)"
    and a: "after_polls (env\<lparr>e_via_api := e_via_api env \<or> v\<rparr>) io su' s2 = (Inr su, s')"
    by (auto simp: run_due_def split: option.splits)
  have "same_rules s0 s'"
    using rules.trans [OF rules.trans [OF keepsD [OF rules.keeps_feeds_step f] rules.pulls_step_kept [OF p]]
        keepsD [OF rules.keeps_after_polls a]] .
  then show ?thesis by (simp add: t rules_of_id_def same_rules_def)
qed

text \<open>
  C30: A scheduled rule that is due runs in a pass at most once per interval: after the pass no worker can claim
  it until its interval is over.
\<close>

theorem second_pass_idle:
  assumes "run_due env io s = Some (Inr su, s')" and "distinct (map tr_id (d_triggers s))"
    and "r \<in> set (scheduled_rules s)" and "tr_schedule_minutes r = Some m" and "0 < m"
    and "is_due tr_last_run_at m (e_now env) r" and "t < e_now env + m * usec_per_min"
  shows "\<not> fst (claim_trigger s' (tr_id r) (Some m) t)"
proof -
  have r: "r \<in> set (d_triggers s)" using assms(3) by (simp add: scheduled_rules_def)
  have "rules_of_id s (tr_id r) = [r]"
  proof -
    have "filter (\<lambda>x. tr_id x = tr_id r) xs = [r]" if "r \<in> set xs" "distinct (map tr_id xs)" for xs
      using that
    proof (induction xs)
      case (Cons x xs)
      show ?case
      proof (cases "x = r")
        case True
        with Cons.prems(2) have "filter (\<lambda>x. tr_id x = tr_id r) xs = []" by (auto simp: filter_empty_conv image_iff)
        with True show ?thesis by simp
      next
        case False
        with Cons have "tr_id x \<noteq> tr_id r" by (auto simp: image_iff)
        with Cons False show ?thesis by auto
      qed
    qed simp
    from this [OF r assms(2)] show ?thesis by (simp add: rules_of_id_def)
  qed
  moreover have "distinct (map tr_id (scheduled_rules s))"
    using assms(2) by (simp add: scheduled_rules_def distinct_map_filter)
  ultimately have "rules_of_id (snd (triggers_step env s)) (tr_id r) = [stamp_rule (e_now env) r]"
    using triggers_stamp [OF _ assms(3) _ assms(4,5,6)] by (simp add: triggers_step_def bindC_get)
  then have "rules_of_id s' (tr_id r) = [stamp_rule (e_now env) r]" using pass_rules [OF assms(1)] by simp
  then have only: "x = stamp_rule (e_now env) r" if "x \<in> set (d_triggers s')" "tr_id x = tr_id r" for x
  proof -
    have "x \<in> set (rules_of_id s' (tr_id r))" using that by (simp add: rules_of_id_def)
    with \<open>rules_of_id s' (tr_id r) = [stamp_rule (e_now env) r]\<close> show ?thesis by simp
  qed
  have "filter (\<lambda>x. tr_id x = tr_id r \<and> is_due tr_last_run_at m t x) (d_triggers s') = []"
    using only assms(7) by (force simp: filter_empty_conv stamp_rule_def is_due_def claim_cutoff_def)
  then show ?thesis by (simp add: claim_trigger_def claim_due_def Let_def case_prod_unfold)
qed


subsection \<open>Instances and findings\<close>

definition timed_rule :: trigger_rule where
  "timed_rule = \<lparr>tr_id = 1, tr_table_id = 1, tr_name = ''r'', tr_active = True, tr_event = ''scheduled'',
     tr_field_id = None, tr_from_state = None, tr_to_state = None, tr_cond_field_id = None,
     tr_cond_op = None, tr_cond_value = None, tr_in_app = True, tr_notify_target = Some ''user'',
     tr_notify_user_id = Some 7, tr_message = None, tr_email_to = None, tr_email_subject = None,
     tr_email_body = None, tr_webhook_url = None, tr_set_field_id = None, tr_set_value = None,
     tr_create_table_id = None, tr_create_field_map = JEmpty, tr_webhook_format = None,
     tr_schedule_minutes = Some 5, tr_last_run_at = None\<rparr>"

definition weekly :: recurring_record where
  "weekly = \<lparr>rr_id = 1, rr_name = ''weekly'', rr_table_id = 1, rr_field_values = JDoc (VDict [(''x'', VStr ''5'')]),
     rr_schedule_minutes = 5, rr_active = True, rr_last_run_at = None\<rparr>"

definition work_db :: db where
  "work_db = items_db\<lparr>d_triggers := [timed_rule], d_recurring := [weekly], d_conns := [sample_conn],
     d_feeds := [sample_feed\<lparr>fd_schedule_minutes := None\<rparr>]\<rparr>"

lemma second_pass_idle_witness:
  "\<not> fst (claim_trigger (case run_due plain_env inc_io work_db of Some (_, s') \<Rightarrow> s' | None \<Rightarrow> work_db) 1 (Some 5) 1)"
proof -
  have "case run_due plain_env inc_io work_db of Some (Inr su, s') \<Rightarrow> True | _ \<Rightarrow> False" by code_simp
  then obtain su s' where run: "run_due plain_env inc_io work_db = Some (Inr su, s')"
    by (auto split: option.splits sum.splits prod.splits)
  have "\<not> fst (claim_trigger s' (tr_id timed_rule) (Some 5) 1)"
  proof (rule second_pass_idle [OF run])
    show "timed_rule \<in> set (scheduled_rules work_db)"
      by (simp add: work_db_def items_db_def empty_db_def scheduled_rules_def timed_rule_def)
  qed code_simp+
  then show ?thesis by (simp add: run timed_rule_def)
qed

lemma pass_completes_witness:
  "\<exists>su s'. run_due plain_env inc_io work_db = Some (Inr su, s') \<and> same_users work_db s' \<and> same_approvals work_db s'"
proof (rule pass_completes)
  have "case pulls_step plain_env (snd (before_polls plain_env work_db)) of None \<Rightarrow> False | Some _ \<Rightarrow> True" by code_simp
  then show "pulls_step plain_env (snd (before_polls plain_env work_db)) \<noteq> None" by (auto split: option.splits)
qed

text \<open>
  Finding: a poll leaves \<open>g.via_api\<close> set for the rest of the pass. The record a recurring job creates is offered
  to a feed that skips API writes in a pass without a poll, and not in a pass with one.
\<close>

lemma poll_silences_feeds:
  "let offered = (\<lambda>s. case run_due (remote_env (VList [])) inc_io s of
         None \<Rightarrow> 0 | Some (_, s') \<Rightarrow> length (filter (\<lambda>n. n_channel n = ''feed'') (d_notifs s')))
   in offered (work_db\<lparr>d_pulls := []\<rparr>) = 1 \<and> offered work_db = 0"
  by code_simp

end
