(* ===== verification/Forms.thy ===== *)
theory Forms
  imports Reporting Form_Rules
begin

text \<open>
  \<open>app/forms/builder.py\<close> and \<open>bind\<close> of \<open>app/form_rules.py\<close>: the form a user gets for a stored form
  definition, and what its submission writes. \<open>build_form\<close> gives the items of the form, in order, and the
  WTForms control of each field; \<open>bind_form\<close> evaluates the conditional rules on a submission; \<open>validate_form\<close> and
  \<open>collect\<close> accept it and read it.

  WTForms itself is not in the repository: how it reads a submission into the data of the controls
  and what its own validators accept are the record \<open>wtf\<close>, an argument. A control keeps what the code passes to WTForms
  and reads again. Help texts and the attributes of the HTML elements are left out.

  Shown: an item exists only for a field the user may see, and one that is not read-only
  only for a field the user may write; the choices of a picker are rows of the companies the user may see; and what
  a submission stores is for columns the user may write and the rules leave open.
\<close>

subsection \<open>Controls\<close>

datatype validator =
    VRequired | VOptional | VLength int int | VPattern pystr
  | VRange "pyfloat option" "pyfloat option" | VEmail | VUrl | VPhone | VJson

datatype widget =
    WString | WTextArea | WInteger | WDecimal int | WFloat | WBoolean
  | WDate | WDateTime | WTime | WSelect | WMulti

datatype coercion = CoText | CoInt | CoFk | CoStrFk

text \<open>A choice: its value, its label and, for a dependent picker, the value of the parent.\<close>

type_synonym choice = "pyval \<times> pyval \<times> pystr option"

record control =
  ct_widget :: widget
  ct_validators :: "validator list"
  ct_choices :: "choice list"
  ct_coerce :: coercion
  ct_parent_field :: "pystr option"
  ct_locked :: bool

record form_item =
  bi_name :: pystr
  bi_label :: pystr
  bi_kind :: pystr
  bi_readonly :: bool
  bi_hidden :: bool
  bi_column :: "pystr option"
  bi_junction :: "pystr option"
  bi_this_col :: pystr
  bi_other_col :: pystr
  bi_field :: "meta_field option"
  bi_rel :: "meta_relation option"

definition NO_CHOICE :: choice where
  "NO_CHOICE = (VStr [], VStr ''- none -'', None)"

definition fk_coerce :: "pyval \<Rightarrow> exn + pyval" where
  "fk_coerce v = (if v = VNone \<or> v = VStr [] \<or> v = VStr ''None'' then Inr VNone
     else case int_or_none v of Some i \<Rightarrow> Inr (VInt i) | None \<Rightarrow> Inl (ValueErr (py_str v)))"

definition str_fk_coerce :: "pyval \<Rightarrow> pyval" where
  "str_fk_coerce v = (if v = VNone \<or> v = VStr [] \<or> v = VStr ''None'' then VNone else VStr (py_str v))"

text \<open>What a picker makes of the text of a choice.\<close>

definition coerce_choice :: "coercion \<Rightarrow> pyval \<Rightarrow> exn + pyval" where
  "coerce_choice co v = (case co of
     CoText \<Rightarrow> Inr (VStr (py_str v))
   | CoInt \<Rightarrow> (case int_or_none v of Some i \<Rightarrow> Inr (VInt i) | None \<Rightarrow> Inl (ValueErr (py_str v)))
   | CoFk \<Rightarrow> fk_coerce v
   | CoStrFk \<Rightarrow> Inr (str_fk_coerce v))"

definition target_pk_is_int :: "meta_table \<Rightarrow> bool" where
  "target_pk_is_int t =
     (t_pk_col t = ''id'' \<or>
      (case find (\<lambda>f. f_phys_name f = t_pk_col t) (t_fields t) of
         None \<Rightarrow> True | Some f \<Rightarrow> f_data_type f \<in> {''integer'', ''bigint''}))"

definition text_rules :: "meta_field \<Rightarrow> validator list" where
  "text_rules f =
     (let lmin = (case f_min_length f of Some n \<Rightarrow> n | None \<Rightarrow> -1);
          lmax = (case f_max_length f of Some n \<Rightarrow> n
                  | None \<Rightarrow> (case some_id (f_length f) of Some n \<Rightarrow> n | None \<Rightarrow> -1))
      in (if lmin \<noteq> -1 \<or> lmax \<noteq> -1 then [VLength lmin lmax] else []) @
         (if filled (f_pattern f) then [VPattern (text_or (f_pattern f) [])] else []))"

definition number_rules :: "meta_field \<Rightarrow> validator list" where
  "number_rules f =
     (let nmin = to_float_opt (f_min_value f); nmax = to_float_opt (f_max_value f)
      in if nmin \<noteq> None \<or> nmax \<noteq> None then [VRange nmin nmax] else [])"

definition control_of :: "widget \<Rightarrow> validator list \<Rightarrow> bool \<Rightarrow> control" where
  "control_of w vs lck = \<lparr>ct_widget = w, ct_validators = vs, ct_choices = [], ct_coerce = CoText,
     ct_parent_field = None, ct_locked = lck\<rparr>"

definition enum_choices :: "meta_field \<Rightarrow> exn + choice list" where
  "enum_choices f = (case loads_or (VList []) (f_enum_options f) of
     None \<Rightarrow> Inl (ValueErr ''json'')
   | Some v \<Rightarrow> map_sum id (map (\<lambda>x. (x, x, None))) (py_iter v))"

definition scalar_field :: "meta_field \<Rightarrow> bool \<Rightarrow> bool \<Rightarrow> exn + control" where
  "scalar_field f required lck =
     (let dt = f_data_type f; req = (if required then VRequired else VOptional);
          ctl = (\<lambda>w vs. Inr (control_of w vs lck))
      in if dt = ''string'' then ctl WString (req # text_rules f)
         else if dt \<in> {''text'', ''markdown''} then ctl WTextArea (req # text_rules f)
         else if dt \<in> {''integer'', ''bigint''} then ctl WInteger (req # number_rules f)
         else if dt \<in> {''decimal'', ''currency'', ''percent''}
           then ctl (WDecimal (case f_scale f of Some n \<Rightarrow> n | None \<Rightarrow> 2)) (req # number_rules f)
         else if dt = ''float'' then ctl WFloat (req # number_rules f)
         else if dt = ''boolean'' then ctl WBoolean [VOptional]
         else if dt = ''date'' then ctl WDate [req]
         else if dt = ''datetime'' then ctl WDateTime [req]
         else if dt = ''time'' then ctl WTime [req]
         else if dt = ''email'' then ctl WString [req, VEmail]
         else if dt = ''url'' then ctl WString [req, VUrl]
         else if dt = ''phone'' then ctl WString [req, VPhone]
         else if dt = ''json'' then ctl WTextArea [req, VJson]
         else if dt \<in> {''autonumber'', ''formula''} then Inr (control_of WString [VOptional] True)
         else if dt \<in> {''enum'', ''tags''} then
           (case enum_choices f of
              Inl e \<Rightarrow> Inl e
            | Inr cs \<Rightarrow>
              if dt = ''tags'' then Inr ((control_of WMulti [VOptional] lck)\<lparr>ct_choices := cs\<rparr>)
              else Inr ((control_of WSelect [req] lck)\<lparr>ct_choices := (if required then cs else NO_CHOICE # cs)\<rparr>))
         else Inl (ValueErr ''Unsupported field type''))"

subsection \<open>Pickers\<close>

definition load_options_with ::
  "pystr \<Rightarrow> pystr list \<Rightarrow> pystr \<Rightarrow> (pystr \<times> pyval list) option \<Rightarrow> (pyval \<times> pystr \<times> pyval) list comp" where
  "load_options_with t cols extra where_in = read_phys t (\<lambda>p.
     let cs = as_columns p cols;
         keep = (case where_in of
            Some (c, vs) \<Rightarrow> (\<lambda>r. has_col p c \<longrightarrow> list_ex (sql_eq (rget r c)) vs)
          | None \<Rightarrow> (\<lambda>r. True))
     in Inr (map (\<lambda>r. (rget r (ph_pk p), compose_label (rget r (ph_pk p)) (map (rget r) cs),
                       if has_col p extra then rget r extra else VNone))
              (order_by (hd cs) False (filter keep (ph_rows p)))))"

text \<open>The controlling field of a dependent picker and the field of the target that must match it.\<close>

definition dependency :: "db \<Rightarrow> meta_form_field \<Rightarrow> meta_table \<Rightarrow> (pystr \<times> meta_field) option" where
  "dependency s it target =
     (case (case some_id (ff_parent_field_id it) of None \<Rightarrow> None | Some i \<Rightarrow> get_field s i) of
        None \<Rightarrow> None
      | Some parent \<Rightarrow>
        if f_data_type parent \<noteq> RELATION_TYPE then None
        else map_option (\<lambda>m. (f_phys_name parent, m))
          (case (case some_id (ff_filter_field_id it) of None \<Rightarrow> None | Some i \<Rightarrow> get_field s i) of
             Some m \<Rightarrow> Some m
           | None \<Rightarrow>
             (case filter (\<lambda>f. f_data_type f = RELATION_TYPE \<and> f_related_table_id f = f_related_table_id parent)
                     (t_fields target) of
                [c] \<Rightarrow> Some c | _ \<Rightarrow> None)))"

definition parent_value :: "pyval \<Rightarrow> pystr" where
  "parent_value v = (if v = VNone then [] else py_str v)"

definition with_none :: "bool \<Rightarrow> choice list \<Rightarrow> choice list" where
  "with_none required cs = (if required then cs else NO_CHOICE # cs)"

definition picker :: "bool \<Rightarrow> bool \<Rightarrow> coercion \<Rightarrow> choice list \<Rightarrow> control" where
  "picker required lck co cs = \<lparr>ct_widget = WSelect,
     ct_validators = [if required then VRequired else VOptional],
     ct_choices = with_none required cs, ct_coerce = co, ct_parent_field = None, ct_locked = lck\<rparr>"

text \<open>The picker of a relation to one record.\<close>

definition m1_control :: "app_user option \<Rightarrow> meta_form_field \<Rightarrow> meta_field \<Rightarrow> bool \<Rightarrow> bool \<Rightarrow> control comp" where
  "m1_control user it f required lck =
     bindC (getC (\<lambda>s. map_option (\<lambda>(t, cols). (t, cols, company_where s user t, dependency s it t)) (m1_target s f))) (\<lambda>tg.
     case tg of
       None \<Rightarrow> failC TypeErr
     | Some (t, cols, scope, dep) \<Rightarrow>
       let co = (if target_pk_is_int t then CoFk else CoStrFk) in
       (case (case dep of Some (p, m) \<Rightarrow> if p = [] then None else dep | None \<Rightarrow> None) of
          Some (pname, m) \<Rightarrow>
            bindC (load_options_with (t_phys_name t) cols (f_phys_name m) scope) (\<lambda>opts.
            retC ((picker required lck co
              (map (\<lambda>(i, l, pv). (VStr (py_str i), VStr l, Some (parent_value pv))) opts))\<lparr>ct_parent_field := Some pname\<rparr>))
        | None \<Rightarrow>
            bindC (load_options (t_phys_name t) cols scope) (\<lambda>opts.
            retC (picker required lck co (map (\<lambda>(i, l). (VStr (py_str i), VStr l, None)) opts)))))"

text \<open>The picker of an account or a company.\<close>

definition account_choices :: "db \<Rightarrow> meta_field \<Rightarrow> choice list" where
  "account_choices s f =
     (if f_data_type f = ''user'' then
        map (\<lambda>u. (VStr (str_int (u_id u)), VStr (u_username u), None))
          (sort_by (\<lambda>a b. \<not> text_lt (u_username b) (u_username a)) (filter is_active (d_users s)))
      else map (\<lambda>c. (VStr (str_int (co_id c)), VStr (co_name c), None))
          (sort_by (\<lambda>a b. \<not> text_lt (co_name b) (co_name a)) (d_companies s)))"

subsection \<open>The form\<close>

record built_form =
  bf_items :: "form_item list"
  bf_controls :: "(pystr, control) dict"

definition add_item :: "form_item \<Rightarrow> control option \<Rightarrow> built_form \<Rightarrow> built_form" where
  "add_item it c b = b\<lparr>bf_items := bf_items b @ [it],
     bf_controls := (case c of None \<Rightarrow> bf_controls b | Some k \<Rightarrow> dset (bi_name it) k (bf_controls b))\<rparr>"

definition plain_item :: "pystr \<Rightarrow> pystr \<Rightarrow> pystr \<Rightarrow> form_item" where
  "plain_item nm lbl knd = \<lparr>bi_name = nm, bi_label = lbl, bi_kind = knd, bi_readonly = False, bi_hidden = False,
     bi_column = None, bi_junction = None, bi_this_col = [], bi_other_col = [], bi_field = None, bi_rel = None\<rparr>"

definition field_item :: "meta_field \<Rightarrow> pystr \<Rightarrow> pystr \<Rightarrow> bool \<Rightarrow> form_item" where
  "field_item f lbl knd lck = (plain_item (f_phys_name f) lbl knd)\<lparr>bi_readonly := lck,
     bi_column := Some (f_phys_name f), bi_field := Some f\<rparr>"

text \<open>\<open>fperm\<close>: the permissions of the user's role, none of them for a designer or without a user.\<close>

definition form_perms :: "db \<Rightarrow> app_user option \<Rightarrow> (int, pystr) dict" where
  "form_perms s user = (case user of
     None \<Rightarrow> [] | Some u \<Rightarrow> if is_designer u then [] else field_perm_map s (u_role u))"

definition item_locked :: "meta_form_field \<Rightarrow> meta_field \<Rightarrow> pystr \<Rightarrow> bool" where
  "item_locked it f facc = (ff_readonly it \<or> facc = access_read \<or> f_data_type f \<in> {''autonumber'', ''formula''})"

definition build_field ::
  "app_user option \<Rightarrow> meta_form_field \<Rightarrow> meta_field \<Rightarrow> pystr \<Rightarrow> built_form \<Rightarrow> built_form comp" where
  "build_field user it f facc b =
     (let label = text_or (ff_label_override it) (f_label f);
          required = (ff_required it \<or> \<not> f_nullable f);
          lck = item_locked it f facc in
      if f_data_type f \<in> set FILE_TYPES then retC (add_item (field_item f label ''file'' lck) None b)
      else if f_data_type f = RELATION_TYPE then
        bindC (m1_control user it f required lck) (\<lambda>c.
        retC (add_item (field_item f label ''relation_m1'' lck) (Some c) b))
      else if f_data_type f \<in> {''user'', ''company''} then
        bindC (getC (\<lambda>s. account_choices s f)) (\<lambda>cs.
        retC (add_item (field_item f label ''field'' lck) (Some (picker required lck CoFk cs)) b))
      else
        bindC (liftC (scalar_field f required lck)) (\<lambda>c.
        retC (add_item (field_item f label ''field'' lck) (Some c) b)))"

text \<open>A link table between two tables: the other table, the columns of both sides.\<close>

definition link_sides :: "db \<Rightarrow> meta_form \<Rightarrow> meta_relation \<Rightarrow> (meta_table \<times> pystr \<times> pystr \<times> jcol) option" where
  "link_sides s mf rel =
     (let this_id = fm_table_id mf;
          other_id = (if r_from_table_id rel = this_id then r_to_table_id rel else r_from_table_id rel)
      in case (get_table s this_id, get_table s other_id) of
           (Some this, Some other) \<Rightarrow>
             (let this_col = t_phys_name this @ ''_id''; other_col = t_phys_name other @ ''_id'' in
              Some (other, this_col, if this_col = other_col then t_phys_name other @ ''_id_2'' else other_col,
                if other_id = r_to_table_id rel then r_to_display_field_ids rel else r_from_display_field_ids rel))
         | _ \<Rightarrow> None)"

definition build_link ::
  "app_user option \<Rightarrow> meta_form \<Rightarrow> meta_form_field \<Rightarrow> meta_relation \<Rightarrow> built_form \<Rightarrow> built_form comp" where
  "build_link user mf it rel b =
     bindC (getC (\<lambda>s. map_option (\<lambda>(other, tc, oc, j). (other, tc, oc, display_columns s other j, company_where s user other))
       (link_sides s mf rel))) (\<lambda>sides.
     case sides of
       None \<Rightarrow> failC TypeErr
     | Some (other, this_col, other_col, cols, scope) \<Rightarrow>
       bindC (load_options (t_phys_name other) cols scope) (\<lambda>opts.
       retC (add_item
         ((plain_item (''rel_'' @ str_int (r_id rel)) (text_or (ff_label_override it) (r_name rel)) ''relation_mn'')
            \<lparr>bi_readonly := ff_readonly it, bi_junction := r_junction_phys_name rel, bi_this_col := this_col,
             bi_other_col := other_col, bi_rel := Some rel\<rparr>)
         (Some ((control_of WMulti [VOptional] False)
            \<lparr>ct_choices := map (\<lambda>(i, l). (VStr (py_str i), VStr l, None)) opts, ct_coerce := CoInt\<rparr>)) b)))"

definition build_item ::
  "app_user option \<Rightarrow> (int, pystr) dict \<Rightarrow> meta_form \<Rightarrow> meta_form_field \<Rightarrow> built_form \<Rightarrow> built_form comp" where
  "build_item user fperm mf it b =
     (if ff_kind it = ''section'' then
        retC (add_item (plain_item (''section_'' @ str_int (ff_id it)) (text_or (ff_label_override it) ''Section'') ''section'') None b)
      else case (if ff_kind it = ''field'' then some_id (ff_field_id it) else None) of
        Some i \<Rightarrow>
          bindC (getC (\<lambda>s. get_field s i)) (\<lambda>fo. case fo of
            None \<Rightarrow> retC b
          | Some f \<Rightarrow> if perm_of fperm f = access_none then retC b
                      else build_field user it f (perm_of fperm f) b)
      | None \<Rightarrow>
        (case (if ff_kind it = ''relation'' then some_id (ff_relation_id it) else None) of
           None \<Rightarrow> retC b
         | Some i \<Rightarrow>
           bindC (getC (\<lambda>s. find (\<lambda>r. r_id r = i) (d_rels s))) (\<lambda>ro. case ro of
             None \<Rightarrow> retC b
           | Some rel \<Rightarrow> if r_kind rel \<noteq> ''mn'' then retC b else build_link user mf it rel b)))"

definition build_items :: "app_user option \<Rightarrow> meta_form \<Rightarrow> built_form comp" where
  "build_items user mf =
     bindC (getC (\<lambda>s. form_perms s user)) (\<lambda>fperm.
     foldC (build_item user fperm mf) (fm_items mf) \<lparr>bf_items = [], bf_controls = []\<rparr>)"

subsection \<open>Conditional rules\<close>

text \<open>The definition of a field: the last one of the form.\<close>

definition definition_of :: "meta_form \<Rightarrow> meta_field \<Rightarrow> meta_form_field option" where
  "definition_of mf f = find (\<lambda>d. ff_kind d = ''field'' \<and> ff_field_id d = Some (f_id f)) (rev (fm_items mf))"

definition parse_rules :: "env \<Rightarrow> jcol \<Rightarrow> exn + rules" where
  "parse_rules env j = (case j of
     JEmpty \<Rightarrow> parse env VNone
   | JBad \<Rightarrow> Inl (ValueErr ''json'')
   | JDoc v \<Rightarrow> check_rules_dict v)"

definition ruled_kind :: "form_item \<Rightarrow> bool" where
  "ruled_kind it = (bi_kind it \<in> {''field'', ''relation_m1'', ''file''})"

fun rules_config :: "env \<Rightarrow> meta_form \<Rightarrow> form_item list \<Rightarrow> rule_config \<Rightarrow> exn + rule_config" where
  "rules_config env mf [] cfg = Inr cfg"
| "rules_config env mf (it # its) cfg =
     (case (if ruled_kind it then bi_field it else None) of
        None \<Rightarrow> rules_config env mf its cfg
      | Some f \<Rightarrow>
        (case definition_of mf f of
           None \<Rightarrow> rules_config env mf its cfg
         | Some d \<Rightarrow> bindE (parse_rules env (ff_rules_json d)) (\<lambda>rls.
             rules_config env mf its (dset (bi_name it) \<lparr>ri_rules = rls, ri_type = f_data_type f,
               ri_locked = bi_readonly it, ri_required = ff_required d \<or> \<not> f_nullable f\<rparr> cfg))))"

definition has_rules :: "rule_config \<Rightarrow> bool" where
  "has_rules cfg = list_ex (\<lambda>(n, c). ri_rules c \<noteq> []) cfg"

definition build_form :: "env \<Rightarrow> app_user option \<Rightarrow> meta_form \<Rightarrow> (built_form \<times> rule_config) comp" where
  "build_form env user mf =
     bindC (build_items user mf) (\<lambda>b.
     bindC (liftC (rules_config env mf (bf_items b) [])) (\<lambda>cfg.
     retC (b, cfg)))"

subsection \<open>A submission\<close>

text \<open>
  WTForms: the data of the controls, from the values the form is opened with and the request, and whether the
  validators of the controls accept the data.
\<close>

record wtf =
  w_data :: "(pystr, control) dict \<Rightarrow> row \<Rightarrow> row"
  w_valid :: "(pystr, control) dict \<Rightarrow> row \<Rightarrow> bool"

definition initial_value :: "env \<Rightarrow> db \<Rightarrow> int option \<Rightarrow> meta_field \<Rightarrow> row \<Rightarrow> exn + row" where
  "initial_value env s user_id f r =
     (if \<not> filled (f_default_value f) then Inr r
      else if default_token f \<in> set DEFAULT_TOKENS
        then Inr (dset (f_phys_name f) (eval_default_token env s f user_id) r)
      else (case coerce_value env f (f_default_value f) None of
              Inr v \<Rightarrow> Inr (dset (f_phys_name f) v r)
            | Inl (ValueErr _) \<Rightarrow> Inr r
            | Inl e \<Rightarrow> Inl e))"

fun initial_values :: "env \<Rightarrow> db \<Rightarrow> int option \<Rightarrow> rule_config \<Rightarrow> form_item list \<Rightarrow> row \<Rightarrow> exn + row" where
  "initial_values env s user_id cfg [] r = Inr r"
| "initial_values env s user_id cfg (it # its) r =
     (case (if dhas cfg (bi_name it) \<and> \<not> dhas r (bi_name it) then bi_field it else None) of
        None \<Rightarrow> initial_values env s user_id cfg its r
      | Some f \<Rightarrow>
        if f_data_type f \<in> {''formula'', ''autonumber''} then initial_values env s user_id cfg its r
        else bindE (initial_value env s user_id f r) (initial_values env s user_id cfg its))"

definition trusted_text :: "pyval \<Rightarrow> pyval" where
  "trusted_text v = (case v of VStr _ \<Rightarrow> v | VBool _ \<Rightarrow> v | VNone \<Rightarrow> v | _ \<Rightarrow> VStr (rule_text v))"

definition trusted_of :: "rule_config \<Rightarrow> row \<Rightarrow> row" where
  "trusted_of cfg initial = List.map_filter (\<lambda>(n, _). map_option (\<lambda>v. (n, trusted_text v)) (dget initial n)) cfg"

definition rule_item_state :: "(pystr, rule_state) dict \<Rightarrow> form_item \<Rightarrow> form_item" where
  "rule_item_state sts it = (case dget sts (bi_name it) of
     None \<Rightarrow> it
   | Some st \<Rightarrow> it\<lparr>bi_hidden := \<not> rs_visible st, bi_readonly := rs_readonly st \<or> \<not> rs_visible st\<rparr>)"

definition rule_control :: "(pystr, rule_state) dict \<Rightarrow> pystr \<times> control \<Rightarrow> pystr \<times> control" where
  "rule_control sts nc = (case dget sts (fst nc) of
     None \<Rightarrow> nc
   | Some st \<Rightarrow> (fst nc, (snd nc)\<lparr>ct_validators := (if rs_required st then VRequired else VOptional) #
       filter (\<lambda>v. v \<noteq> VRequired \<and> v \<noteq> VOptional) (ct_validators (snd nc))\<rparr>))"

record bound_form =
  bo_items :: "form_item list"
  bo_controls :: "(pystr, control) dict"
  bo_data :: row
  bo_trusted :: row
  bo_states :: "(pystr, rule_state) dict"
  bo_ruled :: bool

definition bind_form ::
  "env \<Rightarrow> db \<Rightarrow> app_user option \<Rightarrow> wtf \<Rightarrow> built_form \<Rightarrow> rule_config \<Rightarrow> row \<Rightarrow> exn + bound_form" where
  "bind_form env s user w b cfg opened =
     bindE (initial_values env s (map_option u_id user) cfg (bf_items b) opened) (\<lambda>initial.
     let trusted = trusted_of cfg initial; data = w_data w (bf_controls b) opened in
     bindE (states cfg data trusted) (\<lambda>sts.
     Inr \<lparr>bo_items = map (rule_item_state sts) (bf_items b),
          bo_controls = (if has_rules cfg then map (rule_control sts) (bf_controls b) else bf_controls b),
          bo_data = data, bo_trusted = trusted, bo_states = sts, bo_ruled = has_rules cfg\<rparr>))"

text \<open>The fields that the rules hide or lock are not validated.\<close>

definition closed_by_rules :: "bound_form \<Rightarrow> pystr \<Rightarrow> bool" where
  "closed_by_rules b n = (bo_ruled b \<and> (case dget (bo_states b) n of
     None \<Rightarrow> False | Some st \<Rightarrow> \<not> rs_visible st \<or> rs_readonly st))"

definition parent_data :: "bound_form \<Rightarrow> pystr \<Rightarrow> pyval" where
  "parent_data b p = (case dget (bo_states b) p of
     Some st \<Rightarrow> if rs_readonly st \<or> \<not> rs_visible st then rget (bo_trusted b) p else rget (bo_data b) p
   | None \<Rightarrow> rget (bo_data b) p)"

text \<open>A dependent picker must hold a record of the chosen parent.\<close>

definition child_matches :: "bound_form \<Rightarrow> pystr \<Rightarrow> control \<Rightarrow> bool" where
  "child_matches b n c = (case ct_parent_field c of
     None \<Rightarrow> True
   | Some p \<Rightarrow>
     if p = [] \<or> closed_by_rules b n \<or> \<not> truthy (rget (bo_data b) n) \<or> \<not> dhas (bo_controls b) p then True
     else if blank (parent_data b p) then True
     else (case find (\<lambda>(v, _, _). rule_text v = rule_text (rget (bo_data b) n)) (ct_choices c) of
             Some (_, _, Some expected) \<Rightarrow> expected = [] \<or> expected = rule_text (parent_data b p)
           | _ \<Rightarrow> True))"

definition validate_form :: "wtf \<Rightarrow> bound_form \<Rightarrow> bool" where
  "validate_form w b =
     (w_valid w (filter (\<lambda>(n, c). \<not> closed_by_rules b n) (bo_controls b)) (bo_data b) \<and>
      list_all (\<lambda>(n, c). child_matches b n c) (bo_controls b))"

text \<open>\<open>_collect\<close> of \<open>app/user/routes.py\<close>: the values of the columns and the sets of links.\<close>

definition collect_item :: "row \<Rightarrow> form_item \<Rightarrow> row \<times> (form_item \<times> pyval) list \<Rightarrow> row \<times> (form_item \<times> pyval) list" where
  "collect_item data it acc =
     (let v = rget data (bi_name it); col = text_or (bi_column it) [] in
      if bi_kind it \<notin> {''field'', ''relation_m1'', ''relation_mn''} \<or> bi_readonly it then acc
      else if bi_kind it = ''field'' \<and> map_option f_data_type (bi_field it) = Some ''tags''
        then (dset col (VStr (json_dumps (if truthy v then v else VList []))) (fst acc), snd acc)
      else if bi_kind it \<in> {''field'', ''relation_m1''} then (dset col v (fst acc), snd acc)
      else (fst acc, snd acc @ [(it, v)]))"

definition collect :: "bound_form \<Rightarrow> row \<times> (form_item \<times> pyval) list" where
  "collect b = fold (collect_item (bo_data b)) (bo_items b) ([], [])"

subsection \<open>Items are permitted\<close>

definition field_level :: "db \<Rightarrow> app_user option \<Rightarrow> meta_field \<Rightarrow> pystr" where
  "field_level s user f = perm_of (form_perms s user) f"

definition open_field :: "db \<Rightarrow> app_user option \<Rightarrow> meta_field \<Rightarrow> bool" where
  "open_field s user f = (get_field s (f_id f) = Some f \<and> field_level s user f \<notin> {access_none, access_read} \<and>
     f_data_type f \<notin> {''autonumber'', ''formula''})"

definition item_ok :: "db \<Rightarrow> app_user option \<Rightarrow> form_item \<Rightarrow> bool" where
  "item_ok s user it = (ruled_kind it \<longrightarrow> (case bi_field it of
     None \<Rightarrow> False
   | Some f \<Rightarrow> bi_name it = f_phys_name f \<and> bi_column it = Some (f_phys_name f) \<and>
       field_level s user f \<noteq> access_none \<and> (\<not> bi_readonly it \<longrightarrow> open_field s user f)))"

lemma get_field_id: "get_field s i = Some f \<Longrightarrow> get_field s (f_id f) = Some f"
  by (auto simp: get_field_def dest: find_Some_set)

lemma field_item_ok:
  assumes "get_field s i = Some f" "perm_of (form_perms s user) f \<noteq> access_none"
  shows "item_ok s user (field_item f lbl knd (item_locked it f (perm_of (form_perms s user) f)))"
  using assms by (auto simp: item_ok_def field_item_def plain_item_def open_field_def field_level_def item_locked_def get_field_id)

lemma plain_item_ok: "knd \<notin> {''field'', ''relation_m1'', ''file''} \<Longrightarrow> item_ok s user (plain_item nm lbl knd)"
  by (simp add: item_ok_def ruled_kind_def plain_item_def)

lemma add_item_items [simp]: "bf_items (add_item it c b) = bf_items b @ [it]"
  by (simp add: add_item_def)

text \<open>Building reads only.\<close>

lemma keeps_m1: "keeps (=) (m1_control user it f required lck)"
  unfolding m1_control_def Let_def load_options_def load_options_with_def
  by (intro reads.keeps reads.keeps_read)

lemma keeps_build_item: "keeps (=) (build_item user fperm mf it b)"
  unfolding build_item_def build_field_def build_link_def Let_def load_options_def
  by (intro reads.keeps reads.keeps_read keeps_m1)

lemma m1_control_state: "snd (m1_control user it f required lck s) = s"
  using keeps_m1 [of user it f required lck] by (simp add: keeps_def)

lemma build_field_items:
  assumes "build_field user it f facc b s = (Inr b', s')"
  obtains lbl knd where "bf_items b' = bf_items b @ [field_item f lbl knd (item_locked it f facc)]"
proof -
  let ?new = "\<lambda>knd. bf_items b @ [field_item f (text_or (ff_label_override it) (f_label f)) knd (item_locked it f facc)]"
  have "bf_items b' = ?new ''file'' \<or> bf_items b' = ?new ''relation_m1'' \<or> bf_items b' = ?new ''field''"
    using assms unfolding build_field_def Let_def
    by (auto simp: comp_run elim!: bindC_InrE split: if_splits)
  then show ?thesis using that by blast
qed

lemma build_link_items:
  assumes "build_link user mf it rel b s = (Inr b', s')"
  shows "\<exists>x. bf_items b' = bf_items b @ [x] \<and> bi_kind x = ''relation_mn''"
  using assms unfolding build_link_def
  by (auto simp: comp_run plain_item_def elim!: bindC_InrE split: option.splits)

lemma build_item_ok:
  assumes "build_item user (form_perms s user) mf it b s = (Inr b', s')" "list_all (item_ok s user) (bf_items b)"
  shows "list_all (item_ok s user) (bf_items b')"
proof (cases "ff_kind it = ''section''")
  case True
  with assms show ?thesis by (auto simp: build_item_def comp_run plain_item_ok)
next
  case False
  show ?thesis
  proof (cases "if ff_kind it = ''field'' then some_id (ff_field_id it) else None")
    case (Some i)
    with assms False consider "b' = b"
      | f where "get_field s i = Some f" "perm_of (form_perms s user) f \<noteq> access_none"
          "build_field user it f (perm_of (form_perms s user) f) b s = (Inr b', s')"
      by (auto simp: build_item_def comp_run bindC_get split: option.splits if_splits)
    then show ?thesis
    proof cases
      case 2
      from 2(3) obtain lbl knd where
        "bf_items b' = bf_items b @ [field_item f lbl knd (item_locked it f (perm_of (form_perms s user) f))]"
        by (rule build_field_items)
      then show ?thesis using assms(2) field_item_ok [OF 2(1,2)] by simp
    qed (use assms(2) in simp)
  next
    case None
    with assms(1) False consider "b' = b" | rel where "build_link user mf it rel b s = (Inr b', s')"
      by (auto simp: build_item_def comp_run bindC_get split: option.splits if_splits)
    then show ?thesis
    proof cases
      case 2
      from build_link_items [OF 2] show ?thesis using assms(2) by (auto simp: item_ok_def ruled_kind_def)
    qed (use assms(2) in simp)
  qed
qed

lemma build_items_ok:
  "foldC (build_item user (form_perms s user) mf) its b s = (Inr b', s') \<Longrightarrow>
   list_all (item_ok s user) (bf_items b) \<Longrightarrow> s' = s \<and> list_all (item_ok s user) (bf_items b')"
proof (induction its arbitrary: b)
  case Nil
  then show ?case by (simp add: comp_run)
next
  case (Cons it its)
  from Cons.prems(1) obtain b1 s1 where 1: "build_item user (form_perms s user) mf it b s = (Inr b1, s1)"
    and 2: "foldC (build_item user (form_perms s user) mf) its b1 s1 = (Inr b', s')"
    by (auto elim!: bindC_InrE)
  have "s1 = s" using keeps_build_item [of user "form_perms s user" mf it b] 1 by (auto simp: keeps_def dest: spec [of _ s])
  with 2 have "foldC (build_item user (form_perms s user) mf) its b1 s = (Inr b', s')" by simp
  then show ?case using Cons.IH build_item_ok [OF 1 Cons.prems(2)] by blast
qed

lemma build_form_ok:
  assumes "build_form env user mf s = (Inr (b, cfg), s')"
  shows "s' = s" "list_all (item_ok s user) (bf_items b)" "rules_config env mf (bf_items b) [] = Inr cfg"
proof -
  from assms obtain s1 where 1: "build_items user mf s = (Inr b, s1)"
    and 2: "rules_config env mf (bf_items b) [] = Inr cfg" "s' = s1"
    by (auto simp: build_form_def comp_run elim!: bindC_InrE)
  from 1 have "foldC (build_item user (form_perms s user) mf) (fm_items mf) \<lparr>bf_items = [], bf_controls = []\<rparr> s = (Inr b, s1)"
    by (simp add: build_items_def bindC_get)
  from build_items_ok [OF this] 2 show "s' = s" "list_all (item_ok s user) (bf_items b)"
    "rules_config env mf (bf_items b) [] = Inr cfg" by simp_all
qed

subsection \<open>Submissions are permitted\<close>

lemma rules_config_locked:
  "rules_config env mf its cfg = Inr cfg' \<Longrightarrow> dget cfg' n = Some c \<Longrightarrow>
   dget cfg n = Some c \<or> (\<exists>it\<in>set its. ruled_kind it \<and> bi_name it = n \<and> ri_locked c = bi_readonly it)"
proof (induction its arbitrary: cfg)
  case (Cons it its)
  show ?case
  proof (cases "\<exists>f d. ruled_kind it \<and> bi_field it = Some f \<and> definition_of mf f = Some d")
    case False
    then have "rules_config env mf (it # its) cfg = rules_config env mf its cfg"
      by (auto split: option.splits)
    with Cons show ?thesis by auto
  next
    case True
    then obtain f d where fd: "ruled_kind it" "bi_field it = Some f" "definition_of mf f = Some d" by blast
    with Cons.prems(1) obtain rls where "rules_config env mf its (dset (bi_name it) \<lparr>ri_rules = rls, ri_type = f_data_type f,
        ri_locked = bi_readonly it, ri_required = ff_required d \<or> \<not> f_nullable f\<rparr> cfg) = Inr cfg'"
      by (auto elim!: bindE_InrE)
    from Cons.IH [OF this Cons.prems(2)] fd(1) show ?thesis by (auto split: if_splits)
  qed
qed simp

lemma item_state_locked: "item_state types vals item = Inr st \<Longrightarrow> ri_locked item \<Longrightarrow> rs_readonly st"
  by (auto simp: item_state_def split: sum.splits if_splits)

lemma settle_locked:
  "settle cfg trusted ns vals acc = Inr (acc', vals') \<Longrightarrow> dget acc' n = Some st \<Longrightarrow>
   dget acc n = Some st \<or> (\<exists>c. dget cfg n = Some c \<and> (ri_locked c \<longrightarrow> rs_readonly st))"
proof (induction ns arbitrary: vals acc)
  case (Cons m ns)
  from Cons.prems(1) obtain item st' vs where m: "dget cfg m = Some item" "item_state (rule_types cfg) vals item = Inr st'"
    and run: "settle cfg trusted ns vs (dset m st' acc) = Inr (acc', vals')"
    by (auto split: option.splits sum.splits)
  from Cons.IH [OF run Cons.prems(2)] m item_state_locked [OF m(2)] show ?case by (auto split: if_splits)
qed simp

lemma map_sum_Inr: "map_sum id f x = Inr y \<longleftrightarrow> (\<exists>z. x = Inr z \<and> y = f z)"
  by (cases x) auto

lemma states_locked:
  assumes "states cfg vals trusted = Inr sts" "dget sts n = Some st"
  obtains c where "dget cfg n = Some c" "ri_locked c \<Longrightarrow> rs_readonly st"
proof -
  from assms(1) obtain ns vs where "settle cfg trusted ns (lock_values cfg trusted vals) [] = Inr (sts, vs)"
    by (auto simp: states_def states_run_def map_sum_Inr split: sum.splits)
  from settle_locked [OF this assms(2)] that show ?thesis by auto
qed

definition rules_open :: "bound_form \<Rightarrow> pystr \<Rightarrow> bool" where
  "rules_open b n = (case dget (bo_states b) n of None \<Rightarrow> True | Some st \<Rightarrow> rs_visible st \<and> \<not> rs_readonly st)"

lemma bind_formD:
  assumes "bind_form env s user w b cfg opened = Inr bo"
  shows "bo_items bo = map (rule_item_state (bo_states bo)) (bf_items b)"
    and "states cfg (bo_data bo) (bo_trusted bo) = Inr (bo_states bo)"
  using assms by (auto simp: bind_form_def Let_def elim!: bindE_InrE)

lemma open_item:
  assumes "list_all (item_ok s user) (bf_items b)" "rules_config env mf (bf_items b) [] = Inr cfg"
    and "bind_form env s user w b cfg opened = Inr bo"
    and "x \<in> set (bo_items bo)" "\<not> bi_readonly x" "ruled_kind x"
  shows "(\<exists>f. bi_column x = Some (f_phys_name f) \<and> open_field s user f) \<and> (\<forall>c. bi_column x = Some c \<longrightarrow> rules_open bo c)"
proof -
  note bd = bind_formD [OF assms(3)]
  from assms(4) bd(1) obtain it where it: "it \<in> set (bf_items b)" "x = rule_item_state (bo_states bo) it" by auto
  have same: "bi_name x = bi_name it \<and> bi_kind x = bi_kind it \<and> bi_column x = bi_column it \<and> bi_field x = bi_field it"
    by (simp add: it(2) rule_item_state_def split: option.split)
  have ok: "item_ok s user it" using assms(1) it(1) by (auto simp: list_all_iff)
  then obtain f where f: "bi_field it = Some f" "bi_name it = f_phys_name f" "bi_column it = Some (f_phys_name f)"
    using assms(6) same by (auto simp: item_ok_def ruled_kind_def split: option.splits)
  show ?thesis
  proof (cases "dget (bo_states bo) (bi_name it)")
    case None
    then have "\<not> bi_readonly it" using assms(5) it(2) by (simp add: rule_item_state_def)
    then have "open_field s user f" using ok f assms(6) same by (auto simp: item_ok_def ruled_kind_def)
    then show ?thesis using f same None by (auto simp: rules_open_def)
  next
    case (Some st)
    then have st: "rs_visible st" "\<not> rs_readonly st" using assms(5) it(2) by (simp_all add: rule_item_state_def)
    from states_locked [OF bd(2) Some] obtain c where c: "dget cfg (bi_name it) = Some c" "\<not> ri_locked c" using st by blast
    from rules_config_locked [OF assms(2) c(1)] c(2) obtain y where
      y: "y \<in> set (bf_items b)" "ruled_kind y" "bi_name y = bi_name it" "\<not> bi_readonly y" by auto
    have "item_ok s user y" using assms(1) y(1) by (auto simp: list_all_iff)
    with y obtain g where "f_phys_name g = bi_name it" "open_field s user g"
      by (auto simp: item_ok_def split: option.splits)
    then show ?thesis using f same Some st by (auto simp: rules_open_def intro: exI [of _ g])
  qed
qed

lemma collect_keys:
  "set (dkeys (fst (fold (collect_item data) its acc))) \<subseteq>
   set (dkeys (fst acc)) \<union> {text_or (bi_column x) [] |x. x \<in> set its \<and> \<not> bi_readonly x \<and> bi_kind x \<in> {''field'', ''relation_m1''}}"
proof (induction its arbitrary: acc)
  case (Cons x its)
  have "set (dkeys (fst (collect_item data x acc))) \<subseteq> set (dkeys (fst acc)) \<union>
      (if \<not> bi_readonly x \<and> bi_kind x \<in> {''field'', ''relation_m1''} then {text_or (bi_column x) []} else {})"
    by (auto simp: collect_item_def Let_def)
  moreover have "(if \<not> bi_readonly x \<and> bi_kind x \<in> {''field'', ''relation_m1''} then {text_or (bi_column x) []} else {}) \<subseteq>
      {text_or (bi_column y) [] |y. y \<in> set (x # its) \<and> \<not> bi_readonly y \<and> bi_kind y \<in> {''field'', ''relation_m1''}}"
    by (auto intro!: exI [of _ x])
  ultimately show ?case using Cons.IH [of "collect_item data x acc"] by (fastforce simp del: fold_simps simp: fold_simps(2))
qed simp

text \<open>
  C31: Whatever is submitted, the columns a form stores belong to fields the user may write, none of them an automatic number or a formula, and
  the conditional rules leave them visible and unlocked.
\<close>

theorem stored_columns_permitted:
  assumes "build_form env user mf s = (Inr (b, cfg), s')" "bind_form env s user w b cfg opened = Inr bo"
    and "c \<in> set (dkeys (fst (collect bo)))"
  shows "(\<exists>f. f_phys_name f = c \<and> open_field s user f) \<and> rules_open bo c"
proof -
  note b = build_form_ok [OF assms(1)]
  from assms(3) collect_keys [where data = "bo_data bo" and its = "bo_items bo" and acc = "([], [])"] obtain x where
    x: "x \<in> set (bo_items bo)" "\<not> bi_readonly x" "bi_kind x \<in> {''field'', ''relation_m1''}" "c = text_or (bi_column x) []"
    by (auto simp: collect_def)
  from x(3) have "ruled_kind x" by (auto simp: ruled_kind_def)
  from open_item [OF b(2,3) assms(2) x(1,2) this] x(4) show ?thesis
    by (auto simp: text_or_def split: if_splits)
qed

text \<open>The rows a picker offers.\<close>

definition in_companies :: "phys \<Rightarrow> (pystr \<times> pyval list) option \<Rightarrow> row \<Rightarrow> bool" where
  "in_companies p scope r = (case scope of
     None \<Rightarrow> True | Some (c, ids) \<Rightarrow> has_col p c \<longrightarrow> list_ex (sql_eq (rget r c)) ids)"

lemma load_options_rows:
  assumes "load_options t cols scope s = (Inr opts, s')" "(i, l) \<in> set opts" "dget (d_phys s) t = Some p"
  shows "\<exists>r\<in>set (ph_rows p). i = rget r (ph_pk p) \<and> in_companies p scope r"
  using assms by (cases scope) (auto simp: load_options_def read_phys_def reflect_def in_companies_def Let_def split: if_splits)

lemma load_options_with_rows:
  assumes "load_options_with t cols extra scope s = (Inr opts, s')" "(i, l, pv) \<in> set opts" "dget (d_phys s) t = Some p"
  shows "\<exists>r\<in>set (ph_rows p). i = rget r (ph_pk p) \<and> in_companies p scope r"
  using assms by (cases scope) (auto simp: load_options_with_def read_phys_def reflect_def in_companies_def Let_def split: if_splits)

lemma m1_controlE:
  assumes "m1_control user it f required lck s = (Inr ctl, s')" "m1_target s f = Some (t, cols)"
  obtains opts co where "load_options (t_phys_name t) cols (company_where s user t) s = (Inr opts, s')"
      "ctl = picker required lck co (map (\<lambda>(i, l). (VStr (py_str i), VStr l, None)) opts)"
    | opts co c q where "load_options_with (t_phys_name t) cols c (company_where s user t) s = (Inr opts, s')"
      "ctl = (picker required lck co (map (\<lambda>(i, l, pv). (VStr (py_str i), VStr l, Some (parent_value pv))) opts))
        \<lparr>ct_parent_field := q\<rparr>"
  using assms
  by (auto simp: m1_control_def bindC_get Let_def comp_run elim!: bindC_InrE split: option.splits if_splits prod.splits)

text \<open>
  A picker of related records offers, beside no record at all, keys of rows of the related table that belong to the companies
  its user may see.
\<close>

theorem picker_in_companies:
  assumes "m1_control user it f required lck s = (Inr ctl, s')" "m1_target s f = Some (t, cols)"
    and "dget (d_phys s) (t_phys_name t) = Some p" "(v, l, pv) \<in> set (ct_choices ctl)"
  shows "(v, l, pv) = NO_CHOICE \<or>
    (\<exists>r\<in>set (ph_rows p). v = VStr (py_str (rget r (ph_pk p))) \<and> in_companies p (company_where s user t) r)"
  using assms(1,2)
proof (cases rule: m1_controlE)
  case (1 opts co)
  then show ?thesis using assms(4) load_options_rows [OF 1(1) _ assms(3)]
    by (auto simp: picker_def with_none_def split: if_splits)
next
  case (2 opts co c q)
  then show ?thesis using assms(4) load_options_with_rows [OF 2(1) _ assms(3)]
    by (auto simp: picker_def with_none_def split: if_splits)
qed

subsection \<open>An example\<close>

definition clerk :: app_user where
  "clerk = \<lparr>u_id = 7, u_username = ''clerk'', u_password_hash = [], u_role = ''clerk'', u_is_active_flag = True,
     u_company_id = None, u_email = None, u_notify_email = False, u_totp_secret = None, u_mfa_enabled = False,
     u_mfa_backup_codes = JEmpty, u_oidc_subject = None\<rparr>"

definition desk_table :: meta_table where
  "desk_table = sample_table\<lparr>t_id := 3, t_phys_name := ''desk'', t_fields :=
     [(sample_field ''string'')\<lparr>f_id := 1, f_phys_name := ''state''\<rparr>,
      (sample_field ''string'')\<lparr>f_id := 2, f_phys_name := ''reason''\<rparr>,
      (sample_field ''string'')\<lparr>f_id := 3, f_phys_name := ''salary''\<rparr>,
      (sample_field RELATION_TYPE)\<lparr>f_id := 4, f_phys_name := ''desk_id'', f_related_table_id := Some 3\<rparr>]\<rparr>"

definition desk_item :: "int \<Rightarrow> jcol \<Rightarrow> meta_form_field" where
  "desk_item i rls = \<lparr>ff_id = i, ff_form_id = 5, ff_kind = ''field'', ff_field_id = Some i, ff_relation_id = None,
     ff_rules_json = rls, ff_parent_field_id = None, ff_filter_field_id = None, ff_label_override = None,
     ff_widget = None, ff_required = False, ff_readonly = False, ff_help_text = None, ff_position = i\<rparr>"

definition desk_form :: meta_form where
  "desk_form = wages_form\<lparr>fm_id := 5, fm_table_id := 3, fm_items :=
     [desk_item 1 JEmpty, desk_item 2 (JDoc (VDict [(''show'', closed_rule)])), desk_item 3 JEmpty, desk_item 4 JEmpty]\<rparr>"

definition desk_phys :: phys where
  "desk_phys = \<lparr>ph_cols = [(''id'', CInt, False), (''state'', CStr, True), (''reason'', CStr, True), (''desk_id'', CInt, True)],
     ph_pk = ''id'', ph_rows = [[(''id'', VInt 1), (''state'', VStr ''open'')]], ph_uniq = [], ph_next = 2\<rparr>"

definition desk_db :: db where
  "desk_db = empty_db\<lparr>d_tables := [desk_table], d_forms := [desk_form], d_users := [clerk],
     d_fperms := [\<lparr>fp_id = 1, fp_role = ''clerk'', fp_field_id = 3, fp_access = access_read\<rparr>],
     d_phys := [(''desk'', desk_phys)]\<rparr>"

definition typed :: wtf where
  "typed = \<lparr>w_data = (\<lambda>cs opened. [(''state'', VStr ''open''), (''reason'', VStr ''x''), (''salary'', VStr ''9'')]),
     w_valid = (\<lambda>cs data. True)\<rparr>"

definition desk_built :: "built_form \<times> rule_config" where
  "desk_built = (case fst (build_form plain_env (Some clerk) desk_form desk_db) of
     Inr x \<Rightarrow> x | Inl _ \<Rightarrow> (\<lparr>bf_items = [], bf_controls = []\<rparr>, []))"

definition desk_bound :: bound_form where
  "desk_bound = (case bind_form plain_env desk_db (Some clerk) typed (fst desk_built) (snd desk_built) [] of
     Inr bo \<Rightarrow> bo
   | Inl _ \<Rightarrow> \<lparr>bo_items = [], bo_controls = [], bo_data = [], bo_trusted = [], bo_states = [], bo_ruled = False\<rparr>)"

lemma desk_built: "build_form plain_env (Some clerk) desk_form desk_db = (Inr (fst desk_built, snd desk_built), desk_db)"
  by code_simp

lemma desk_bound: "bind_form plain_env desk_db (Some clerk) typed (fst desk_built) (snd desk_built) [] = Inr desk_bound"
  by code_simp

lemma stored_columns_permitted_witness:
  "dkeys (fst (collect desk_bound)) = [''state'', ''desk_id''] \<and>
   (\<exists>f. f_phys_name f = ''state'' \<and> open_field desk_db (Some clerk) f) \<and> rules_open desk_bound ''state''"
proof -
  have keys: "dkeys (fst (collect desk_bound)) = [''state'', ''desk_id'']" by code_simp
  then have "''state'' \<in> set (dkeys (fst (collect desk_bound)))" by simp
  from keys stored_columns_permitted [OF desk_built desk_bound this] show ?thesis by blast
qed

definition desk_picker :: control where
  "desk_picker = picker False False CoFk [(VStr ''1'', VStr ''open'', None)]"

lemma picker_in_companies_witness:
  "(VStr ''1'', VStr ''open'', None) = NO_CHOICE \<or>
    (\<exists>r\<in>set (ph_rows desk_phys). VStr ''1'' = VStr (py_str (rget r (ph_pk desk_phys))) \<and>
      in_companies desk_phys (company_where desk_db (Some clerk) desk_table) r)"
proof -
  have "m1_control (Some clerk) (desk_item 4 JEmpty) (t_fields desk_table ! 3) False False desk_db = (Inr desk_picker, desk_db)"
    by code_simp
  moreover have "m1_target desk_db (t_fields desk_table ! 3) = Some (desk_table, [''state''])" by code_simp
  moreover have "dget (d_phys desk_db) (t_phys_name desk_table) = Some desk_phys" by code_simp
  moreover have "(VStr ''1'', VStr ''open'', None) \<in> set (ct_choices desk_picker)" by code_simp
  ultimately show ?thesis by (rule picker_in_companies)
qed

end
