(* ===== verification/Record_Forms.thy ===== *)
theory Record_Forms
  imports Forms Rest_Api Mailbox Csv
begin

text \<open>
  The part of \<open>app/user/routes.py\<close> that writes records: the form of a record, the editing of one cell and of many
  rows, deletion and the trash, watching, assignment, comments, attachments, sending and import. The account is
  that of the session; \<open>user_request\<close> is the guard of the blueprint followed by the handler. What the user
  is shown is the \<open>outcome\<close>: a redirect with a message, the form again, or a JSON answer; an
  \<open>abort\<close> is the exception with its status. Where a browser is sent after a handler is left out.

  Shown: a request changes nothing without an account that may do what it asks; what is edited is a row
  the account sees; and a bulk edit accounts for every row. Findings: deletion
  and the trash ask for no row in sight, and assignment asks for no permission on the field.
\<close>

subsection \<open>Guards\<close>

datatype outcome = Message pystr | Again pystr | Json int row | Portal_Home | Imported import_result

definition get_form :: "db \<Rightarrow> int \<Rightarrow> meta_form option" where
  "get_form s i = find (\<lambda>f. fm_id f = i) (d_forms s)"

definition with_form :: "app_user \<Rightarrow> int \<Rightarrow> (pystr \<Rightarrow> bool) \<Rightarrow> (meta_form \<Rightarrow> meta_table \<Rightarrow> 'a comp) \<Rightarrow> 'a comp" where
  "with_form u form_id ok f =
     bindC (getC (\<lambda>s. map_option (\<lambda>mf. (mf, form_access s (Some u) form_id, get_table s (fm_table_id mf))) (get_form s form_id))) (\<lambda>x.
     case x of
       None \<Rightarrow> failC (Abort 404)
     | Some (mf, acc, t) \<Rightarrow>
       if \<not> ok acc then failC (Abort 403)
       else (case t of None \<Rightarrow> failC TypeErr | Some tb \<Rightarrow> f mf tb))"

definition table_view_form :: "db \<Rightarrow> int \<Rightarrow> meta_form option" where
  "table_view_form s table_id =
     find (\<lambda>f. fm_table_id f = table_id \<and> fm_purpose f = ''view'') (sort_key fm_id (d_forms s))"

text \<open>The record page and what hangs on it: a table with a view form the account may read, and a row it may see.\<close>

definition with_view :: "app_user \<Rightarrow> int \<Rightarrow> pyval \<Rightarrow> (meta_table \<Rightarrow> meta_form \<Rightarrow> row \<Rightarrow> 'a comp) \<Rightarrow> 'a comp" where
  "with_view u table_id pk f =
     bindC (getC (\<lambda>s. case (get_table s table_id, table_view_form s table_id) of
         (Some t, Some vf) \<Rightarrow> Some (t, vf, form_access s (Some u) (fm_id vf)) | _ \<Rightarrow> None)) (\<lambda>x.
     case x of
       None \<Rightarrow> failC (Abort 404)
     | Some (t, vf, acc) \<Rightarrow>
       if \<not> can_read acc then failC (Abort 403)
       else bindC (get_record t pk (Some (u_id u)) (is_designer u) True) (\<lambda>r.
            case r of None \<Rightarrow> failC (Abort 404) | Some x \<Rightarrow> if x = [] then failC (Abort 404) else f t vf x))"

subsection \<open>Attachments\<close>

record files_sent =
  fs_removed :: "int \<Rightarrow> pystr list"
  fs_added :: "int \<Rightarrow> mail_file list"

definition attachment_of :: "int \<Rightarrow> pyval \<Rightarrow> attachment \<Rightarrow> bool" where
  "attachment_of fid pk a = (am_field_id a = fid \<and> sql_eq (am_row_pk a) (coerce_col CInt pk))"

definition removed_ids :: "files_sent \<Rightarrow> int \<Rightarrow> int list" where
  "removed_ids fs fid = List.map_filter parse_int (filter py_isdigit (fs_removed fs fid))"

definition add_upload :: "mail_io \<Rightarrow> meta_field \<Rightarrow> pyval \<Rightarrow> int option \<Rightarrow> mail_file \<Rightarrow> db \<Rightarrow> db" where
  "add_upload io f pk by_user x s =
     (let i = next_id am_id (d_attachments s) in
      if \<not> filled (mf_filename x) then s
      else case save_file io f i x of
          Inl _ \<Rightarrow> s
        | Inr (stored, original, ct, bytes) \<Rightarrow> s\<lparr>d_attachments := d_attachments s @
            [\<lparr>am_id = i, am_field_id = f_id f, am_row_pk = coerce_col CInt pk, am_stored_name = stored,
              am_original_name = original, am_content_type = Some ct, am_size = Some bytes, am_uploaded_by = by_user\<rparr>]\<rparr>)"

definition save_uploads :: "mail_io \<Rightarrow> files_sent \<Rightarrow> app_user \<Rightarrow> pyval \<Rightarrow> form_item \<Rightarrow> unit comp" where
  "save_uploads io fs u pk it = (case bi_field it of
     None \<Rightarrow> failC TypeErr
   | Some f \<Rightarrow> modC (\<lambda>s. fold (add_upload io f pk (Some (u_id u))) (fs_added fs (f_id f))
       (s\<lparr>d_attachments := filter (\<lambda>a. \<not> (attachment_of (f_id f) pk a \<and> am_id a \<in> set (removed_ids fs (f_id f))))
            (d_attachments s)\<rparr>)))"

subsection \<open>The form of a record\<close>

definition save_links :: "pyval \<Rightarrow> form_item \<times> pyval \<Rightarrow> unit comp" where
  "save_links pk p = bindC (liftC (py_iter (snd p))) (\<lambda>ids.
     set_links (text_or (bi_junction (fst p)) []) (bi_this_col (fst p)) pk (bi_other_col (fst p)) ids)"

definition after_save :: "mail_io \<Rightarrow> files_sent \<Rightarrow> app_user \<Rightarrow> bound_form \<Rightarrow> (form_item \<times> pyval) list \<Rightarrow> pyval \<Rightarrow> unit comp" where
  "after_save io fs u bo links pk =
     bindC (eachC (save_links pk) links) (\<lambda>_.
     eachC (save_uploads io fs u pk) (filter (\<lambda>it. bi_kind it = ''file'' \<and> \<not> bi_readonly it) (bo_items bo)))"

definition submitted_text :: "diversion list \<Rightarrow> pystr" where
  "submitted_text ds = (if ds = [] then ''Saved.''
     else ''Submitted for approval: '' @ join_with '', '' (map (\<lambda>d. py_str (dv_frm d) @ '' -> '' @ py_str (dv_to d)) ds))"

definition store_new :: "env \<Rightarrow> app_user \<Rightarrow> mail_io \<Rightarrow> files_sent \<Rightarrow> meta_table \<Rightarrow> bound_form \<Rightarrow> pyval comp" where
  "store_new env u io fs t bo = (case collect bo of (vs, links) \<Rightarrow>
     bindC (create env t vs (Some (u_id u))) (\<lambda>pk.
     bindC (after_save io fs u bo links pk) (\<lambda>_. retC pk)))"

definition store_edit ::
  "env \<Rightarrow> app_user \<Rightarrow> mail_io \<Rightarrow> files_sent \<Rightarrow> meta_table \<Rightarrow> pyval \<Rightarrow> bound_form \<Rightarrow> outcome comp" where
  "store_edit env u io fs t pk bo = (case collect bo of (vs, links) \<Rightarrow>
     bindC (record_of u t pk) (\<lambda>old.
     bindC (getC (\<lambda>s. gate s t (old_or_empty old) vs u)) (\<lambda>g. case g of
       Inl e \<Rightarrow> retC (Again (workflow_text e))
     | Inr (ds, rest) \<Rightarrow>
       bindC (whenC (rest \<noteq> []) (update env t pk rest (Some (u_id u)))) (\<lambda>_.
       bindC (request_all t pk u ds) (\<lambda>_.
       bindC (after_save io fs u bo links pk) (\<lambda>_.
       retC (Message (submitted_text ds))))))))"

text \<open>The row the form is opened with: none for a new record, else the one the account sees.\<close>

definition opened_row :: "app_user \<Rightarrow> meta_table \<Rightarrow> pyval option \<Rightarrow> row comp" where
  "opened_row u t pk = (case pk of
     None \<Rightarrow> retC []
   | Some k \<Rightarrow> bindC (record_of u t k) (\<lambda>r. case r of
       None \<Rightarrow> failC (Abort 404) | Some x \<Rightarrow> if x = [] then failC (Abort 404) else retC x))"

definition submitted :: "env \<Rightarrow> app_user \<Rightarrow> wtf \<Rightarrow> meta_form \<Rightarrow> meta_table \<Rightarrow> pyval option \<Rightarrow> bound_form comp" where
  "submitted env u w mf t pk =
     bindC (build_form env (Some u) mf) (\<lambda>(b, cfg).
     bindC (opened_row u t pk) (\<lambda>r.
     bindC (getC (\<lambda>s. bind_form env s (Some u) w b cfg r)) liftC))"

definition save_record ::
  "env \<Rightarrow> app_user \<Rightarrow> wtf \<Rightarrow> mail_io \<Rightarrow> files_sent \<Rightarrow> meta_form \<Rightarrow> meta_table \<Rightarrow> pyval option \<Rightarrow> outcome comp" where
  "save_record env u w io fs mf t pk =
     bindC (submitted env u w mf t pk) (\<lambda>bo.
     if \<not> validate_form w bo then retC (Again [])
     else case pk of
       None \<Rightarrow> bindC (store_new env u io fs t bo) (\<lambda>_. retC (Message ''Saved.''))
     | Some k \<Rightarrow> store_edit env u io fs t k bo)"

subsection \<open>Opening a form\<close>

text \<open>The values of an existing record, or of the one that is cloned (without its links).\<close>

definition edit_value :: "env \<Rightarrow> bool \<Rightarrow> pyval \<Rightarrow> row \<Rightarrow> form_item \<Rightarrow> row \<Rightarrow> row comp" where
  "edit_value env clone pk r it d =
     (let v = rget r (text_or (bi_column it) []) in
      if bi_kind it = ''field'' \<and> map_option f_data_type (bi_field it) = Some ''tags'' then
        retC (dset (bi_name it) (if truthy v then (case v of
            VStr x \<Rightarrow> (case e_loads env x of JDoc j \<Rightarrow> j | _ \<Rightarrow> VList []) | _ \<Rightarrow> VList []) else VList []) d)
      else if bi_kind it \<in> {''field'', ''relation_m1''} then retC (dset (bi_name it) v d)
      else if bi_kind it = ''relation_mn'' \<and> \<not> clone then
        bindC (get_links (text_or (bi_junction it) []) (bi_this_col it) pk (bi_other_col it)) (\<lambda>ids.
        retC (dset (bi_name it) (VList ids) d))
      else retC d)"

definition default_value :: "env \<Rightarrow> form_item \<Rightarrow> row \<Rightarrow> exn + row" where
  "default_value env it d = (case bi_field it of
     None \<Rightarrow> Inr d
   | Some f \<Rightarrow>
     if bi_kind it = ''field'' \<and> filled (f_default_value f) \<and> default_token f \<notin> set DEFAULT_TOKENS
     then (case coerce_value env f (f_default_value f) None of
             Inr v \<Rightarrow> Inr (dset (bi_name it) v d) | Inl (ValueErr _) \<Rightarrow> Inr d | Inl e \<Rightarrow> Inl e)
     else Inr d)"

definition prefill_value :: "env \<Rightarrow> args \<Rightarrow> form_item \<Rightarrow> row \<Rightarrow> exn + row" where
  "prefill_value env args it d = (case bi_field it of
     None \<Rightarrow> Inr d
   | Some f \<Rightarrow>
     (let raw = get_arg args (bi_name it) in
      if bi_kind it \<in> {''field'', ''relation_m1''} \<and> raw \<noteq> []
      then (case coerce_value env f (Some raw) None of
              Inr v \<Rightarrow> Inr (dset (bi_name it) v d)
            | Inl (ValueErr _) \<Rightarrow> Inr (dset (bi_name it) (VStr raw) d)
            | Inl e \<Rightarrow> Inl e)
      else Inr d))"

fun foldE :: "('a \<Rightarrow> 'b \<Rightarrow> exn + 'b) \<Rightarrow> 'a list \<Rightarrow> 'b \<Rightarrow> exn + 'b" where
  "foldE f [] y = Inr y"
| "foldE f (x # xs) y = bindE (f x y) (foldE f xs)"

definition open_form :: "env \<Rightarrow> app_user \<Rightarrow> meta_table \<Rightarrow> form_item list \<Rightarrow> pyval option \<Rightarrow> bool \<Rightarrow> args \<Rightarrow> row comp" where
  "open_form env u t its source clone args = (case source of
     Some pk \<Rightarrow> bindC (record_of u t pk) (\<lambda>r. case r of
       None \<Rightarrow> retC []
     | Some x \<Rightarrow> if x = [] then retC [] else foldC (edit_value env clone pk x) its [])
   | None \<Rightarrow> liftC (bindE (foldE (default_value env) its []) (foldE (prefill_value env args) its)))"

text \<open>The choices of a field under a workflow: where its state may go; a new record starts in the initial state.\<close>

definition workflow_choices :: "db \<Rightarrow> app_user \<Rightarrow> workflow \<Rightarrow> pyval \<Rightarrow> pyval list" where
  "workflow_choices s u w cur =
     fold (\<lambda>c out. if py_in c out then out else out @ [c]) (extra_choices s w cur) (allowed_choices w cur u)"

datatype field_change = Choices "pyval list" | Preset pystr

definition change_of :: "app_user \<Rightarrow> db \<Rightarrow> (int, workflow) dict \<Rightarrow> row \<Rightarrow> bool \<Rightarrow> row \<Rightarrow> form_item \<Rightarrow> (pystr \<times> field_change) option" where
  "change_of u s wfs current editing data it = (case bi_field it of
     None \<Rightarrow> None
   | Some f \<Rightarrow>
     (if bi_kind it \<noteq> ''field'' \<or> f_data_type f \<noteq> ''enum'' then None
      else case dget wfs (f_id f) of
        None \<Rightarrow> None
      | Some w \<Rightarrow>
        if editing then Some (bi_name it, Choices (workflow_choices s u w (rget current (text_or (bi_column it) []))))
        else if filled (wf_initial_state w) \<and> \<not> truthy (rget data (bi_name it))
          then Some (bi_name it, Preset (text_or (wf_initial_state w) []))
        else None))"

definition apply_workflow_choices ::
  "app_user \<Rightarrow> meta_form \<Rightarrow> meta_table \<Rightarrow> form_item list \<Rightarrow> pyval option \<Rightarrow> row \<Rightarrow> (pystr \<times> field_change) list comp" where
  "apply_workflow_choices u mf t its pk data =
     bindC (getC (\<lambda>s. workflows_for s (fm_table_id mf))) (\<lambda>wfs.
     if wfs = [] then retC []
     else bindC (case pk of None \<Rightarrow> retC None | Some k \<Rightarrow> record_of u t k) (\<lambda>r.
          getC (\<lambda>s. List.map_filter (change_of u s wfs (old_or_empty r) (pk \<noteq> None) data) its)))"

text \<open>The sections of a form; a form without section breaks has none.\<close>

definition close_group :: "pystr \<times> form_item list \<Rightarrow> (pystr \<times> form_item list) list" where
  "close_group g = (if snd g = [] then [] else [g])"

fun split_groups :: "form_item list \<Rightarrow> pystr \<times> form_item list \<Rightarrow> (pystr \<times> form_item list) list" where
  "split_groups [] cur = close_group cur"
| "split_groups (it # its) cur =
     (if bi_kind it = ''section'' then close_group cur @ split_groups its (bi_label it, [])
      else split_groups its (fst cur, snd cur @ [it]))"

definition split_sections :: "form_item list \<Rightarrow> (pystr \<times> form_item list) list" where
  "split_sections its =
     (if list_ex (\<lambda>it. bi_kind it = ''section'') its then split_groups its (''General'', []) else [])"

subsection \<open>One cell\<close>

definition INLINE_TYPES :: "pystr list" where
  "INLINE_TYPES = [''string'', ''text'', ''integer'', ''bigint'', ''decimal'', ''float'', ''boolean'', ''date'',
     ''datetime'', ''time'', ''enum'', ''email'', ''url'', ''phone'', ''currency'', ''percent'']"

definition BOOL_TRUE :: "pystr list" where
  "BOOL_TRUE = [''1'', ''true'', ''yes'', ''on'']"

definition cell_display :: "meta_field \<Rightarrow> pyval \<Rightarrow> pystr" where
  "cell_display f v = (if f_data_type f = ''boolean'' then (if truthy v then ''yes'' else ''no'')
     else if blank v then ''-'' else py_str v)"

definition cell_text :: "meta_field \<Rightarrow> pyval \<Rightarrow> pystr" where
  "cell_text f v = (if f_data_type f = ''boolean'' then (if truthy v then ''1'' else ''0'')
     else if v = VNone then [] else py_str v)"

definition refuse :: "int \<Rightarrow> pystr \<Rightarrow> outcome" where
  "refuse n m = Json n [(''ok'', VBool False), (''error'', VStr m)]"

definition cell_shown :: "meta_field \<Rightarrow> pyval \<Rightarrow> row" where
  "cell_shown f v = [(''display'', VStr (cell_display f v)), (''value'', VStr (cell_text f v))]"

definition has_form_rules :: "meta_form \<Rightarrow> bool" where
  "has_form_rules mf = list_ex (\<lambda>it. ff_rules_json it \<noteq> JEmpty) (fm_items mf)"

definition cell_field :: "built_form \<Rightarrow> pystr \<Rightarrow> pystr \<Rightarrow> meta_field option" where
  "cell_field b disp col =
     (case find (\<lambda>it. bi_kind it = ''field'' \<and> bi_column it = Some col \<and> \<not> bi_readonly it \<and>
         (case bi_field it of None \<Rightarrow> False | Some f \<Rightarrow> f_data_type f \<in> set INLINE_TYPES) \<and> bi_column it \<noteq> Some disp)
        (bf_items b) of
        None \<Rightarrow> None | Some it \<Rightarrow> bi_field it)"

definition cell_value :: "env \<Rightarrow> meta_field \<Rightarrow> pystr \<Rightarrow> exn + pyval" where
  "cell_value env f raw = (if f_data_type f = ''boolean'' then Inr (VBool (py_lower raw \<in> set BOOL_TRUE))
     else coerce_value env f (Some raw) None)"

definition write_cell :: "env \<Rightarrow> app_user \<Rightarrow> meta_table \<Rightarrow> pyval \<Rightarrow> pystr \<Rightarrow> meta_field \<Rightarrow> pyval \<Rightarrow> row \<Rightarrow> outcome comp" where
  "write_cell env u t pk col f v old =
     bindC (getC (\<lambda>s. gate s t old [(col, v)] u)) (\<lambda>g. case g of
       Inl e \<Rightarrow> retC (refuse 409 (workflow_text e))
     | Inr (ds, rest) \<Rightarrow>
       bindC (request_all t pk u ds) (\<lambda>_.
       bindC (whenC (rest \<noteq> []) (update env t pk rest (Some (u_id u)))) (\<lambda>_.
       retC (Json 200 (if ds \<noteq> [] \<and> \<not> dhas rest col
         then [(''ok'', VBool True), (''pending'', VBool True)] @ cell_shown f (rget old col)
         else (''ok'', VBool True) # cell_shown f v)))))"

definition cell_update :: "env \<Rightarrow> app_user \<Rightarrow> meta_form \<Rightarrow> meta_table \<Rightarrow> pyval \<Rightarrow> pystr \<Rightarrow> pystr \<Rightarrow> outcome comp" where
  "cell_update env u mf t pk col raw0 =
     (if has_form_rules mf then failC (Abort 400)
      else bindC (build_form env (Some u) mf) (\<lambda>(b, cfg).
        bindC (getC (\<lambda>s. display_field_name s (Some t))) (\<lambda>disp.
        case cell_field b disp col of
          None \<Rightarrow> retC (refuse 400 ''This field can't be edited here.'')
        | Some f \<Rightarrow>
          (case cell_value env f (py_strip raw0) of
             Inl (ValueErr m) \<Rightarrow> retC (refuse 400 m)
           | Inl e \<Rightarrow> failC e
           | Inr v \<Rightarrow>
             if v = VNone \<and> \<not> f_nullable f then retC (refuse 400 (f_label f @ '' is required.''))
             else bindC (opened_row u t (Some pk)) (write_cell env u t pk col f v)))))"

subsection \<open>Many rows\<close>

definition BULK_SKIP_TYPES :: "pystr list" where
  "BULK_SKIP_TYPES = [''json'', ''tags'', ''autonumber'', ''formula'', ''file'', ''image'']"

definition bulk_editable_fields :: "db \<Rightarrow> app_user \<Rightarrow> meta_table \<Rightarrow> meta_field list" where
  "bulk_editable_fields s u t = filter (\<lambda>f. f_data_type f \<notin> set BULK_SKIP_TYPES \<and> f_phys_name f \<noteq> t_pk_col t \<and>
     perm_of (form_perms s (Some u)) f = access_write) (t_fields t)"

definition bulk_resolver :: "meta_field \<Rightarrow> resolver option comp" where
  "bulk_resolver f =
     (if f_data_type f = RELATION_TYPE then bindC (make_relation_resolver f) (\<lambda>r. retC (Some r))
      else if f_data_type f = ''user''
        then getC (\<lambda>s. Some (user_resolver (map (\<lambda>u. (u_id u, u_username u)) (d_users s))))
      else if f_data_type f = ''company''
        then getC (\<lambda>s. Some (user_resolver (map (\<lambda>c. (co_id c, co_name c)) (d_companies s))))
      else retC None)"

text \<open>The new value, or the message that refuses it.\<close>

definition bulk_value :: "env \<Rightarrow> meta_field \<Rightarrow> bool \<Rightarrow> pystr option \<Rightarrow> (pystr + pyval) comp" where
  "bulk_value env f clear raw =
     (if clear then retC (if f_nullable f then Inr VNone else Inl ''That field is required - it can't be cleared.'')
      else bindC (bulk_resolver f) (\<lambda>res. case coerce_value env f raw res of
        Inl (ValueErr m) \<Rightarrow> retC (Inl m)
      | Inl e \<Rightarrow> failC e
      | Inr v \<Rightarrow> retC (if v = VNone \<and> \<not> f_nullable f then Inl ''Enter a value.'' else Inr v)))"

text \<open>One row: whether it was changed.\<close>

definition bulk_row :: "env \<Rightarrow> app_user \<Rightarrow> meta_table \<Rightarrow> pystr \<Rightarrow> pyval \<Rightarrow> pyval \<Rightarrow> bool comp" where
  "bulk_row env u t col v pk =
     bindC (record_of u t pk) (\<lambda>r. case r of
       None \<Rightarrow> retC False
     | Some old \<Rightarrow>
       if old = [] \<or> py_eq (rget old col) v then retC False
       else bindC (getC (\<lambda>s. plan_diversions s t (Some old) [(col, v)])) (\<lambda>(ds, rest).
            if ds \<noteq> [] \<or> rest = [] then retC False
            else bindC (getC (\<lambda>s. check s t old rest u)) (\<lambda>c. case c of
              Inl _ \<Rightarrow> retC False
            | Inr _ \<Rightarrow> bindC (update env t pk rest (Some (u_id u))) (\<lambda>_. retC True))))"

definition bulk_count :: "env \<Rightarrow> app_user \<Rightarrow> meta_table \<Rightarrow> pystr \<Rightarrow> pyval \<Rightarrow> pyval \<Rightarrow> int \<times> int \<Rightarrow> (int \<times> int) comp" where
  "bulk_count env u t col v pk n =
     bindC (bulk_row env u t col v pk) (\<lambda>ok. retC (if ok then (fst n + 1, snd n) else (fst n, snd n + 1)))"

definition bulk_text :: "int \<times> int \<Rightarrow> pystr" where
  "bulk_text n = ''Updated '' @ str_int (fst n) @ '' record(s)'' @
     (if snd n \<noteq> 0 then '' - '' @ str_int (snd n) @ '' skipped.'' else ''.'')"

definition bulk_edit_apply ::
  "env \<Rightarrow> app_user \<Rightarrow> meta_form \<Rightarrow> meta_table \<Rightarrow> pyval list \<Rightarrow> pystr \<Rightarrow> bool \<Rightarrow> pystr option \<Rightarrow> outcome comp" where
  "bulk_edit_apply env u mf t ids col clear raw =
     (if has_form_rules mf then failC (Abort 400)
      else bindC (getC (\<lambda>s. find (\<lambda>f. f_phys_name f = col) (bulk_editable_fields s u t))) (\<lambda>fo.
        case fo of
          None \<Rightarrow> retC (Message ''Pick a field to change.'')
        | Some f \<Rightarrow>
          if ids = [] then retC (Message ''Pick a field to change.'')
          else bindC (bulk_value env f clear raw) (\<lambda>x. case x of
            Inl m \<Rightarrow> retC (Message m)
          | Inr v \<Rightarrow> bindC (foldC (bulk_count env u t (f_phys_name f) v) ids (0, 0)) (\<lambda>n.
              retC (Message (bulk_text n))))))"

definition selected_ids :: "args \<Rightarrow> pyval list" where
  "selected_ids form = map VStr (filter (\<lambda>i. i \<noteq> []) (getlist form ''ids''))"

definition bulk_delete_run :: "env \<Rightarrow> app_user \<Rightarrow> meta_table \<Rightarrow> pyval list \<Rightarrow> outcome comp" where
  "bulk_delete_run env u t ids =
     bindC (foldC (\<lambda>pk n. bindC (attempt (remove env t pk (Some (u_id u)))) (\<lambda>r.
         retC (case r of Inr _ \<Rightarrow> (fst n + 1, snd n) | Inl _ \<Rightarrow> (fst n, snd n + 1)))) ids (0, 0)) (\<lambda>n.
     retC (Message (''Deleted '' @ str_int (fst n) @
       (if snd n = 0 then ''.'' else '', failed '' @ str_int (snd n) @ ''.''))))"

subsection \<open>Deletion and the trash\<close>

definition record_delete :: "env \<Rightarrow> app_user \<Rightarrow> meta_table \<Rightarrow> pyval \<Rightarrow> outcome comp" where
  "record_delete env u t pk = bindC (attempt (remove env t pk (Some (u_id u)))) (\<lambda>r. retC (Message (case r of
     Inr _ \<Rightarrow> if t_soft_delete t then ''Moved to Trash.'' else ''Deleted.''
   | Inl e \<Rightarrow> ''Could not delete: '' @ e_msg env e)))"

definition form_trash :: "app_user \<Rightarrow> meta_table \<Rightarrow> (row list \<times> int) option comp" where
  "form_trash u t =
     (if \<not> t_soft_delete t then retC None
      else bindC (list_records t (Some (u_id u)) (is_designer u) True [] None ''asc'' 1 (Some 200)) (\<lambda>x. retC (Some x)))"

definition record_label :: "meta_table \<Rightarrow> pyval \<Rightarrow> pystr comp" where
  "record_label t pk = bindC (get_row (t_phys_name t) pk) (\<lambda>r. getC (\<lambda>s. case r of
     None \<Rightarrow> ''#'' @ py_str pk
   | Some x \<Rightarrow> (let v = rget x (display_field_name s (Some t)) in
       if x = [] \<or> blank v then ''#'' @ py_str pk else py_str v)))"

definition row_label :: "db \<Rightarrow> meta_table \<Rightarrow> row \<Rightarrow> pyval \<Rightarrow> pystr" where
  "row_label s t r pk = (let v = rget r (display_field_name s (Some t)) in if blank v then ''#'' @ py_str pk else py_str v)"

definition delete_confirm :: "meta_table \<Rightarrow> pyval \<Rightarrow> bool \<Rightarrow> (impact \<times> pystr) comp" where
  "delete_confirm t pk hard =
     bindC (delete_impact t pk hard) (\<lambda>i. bindC (record_label t pk) (\<lambda>l. retC (i, l)))"

subsection \<open>On a record\<close>

definition watch_toggle :: "app_user \<Rightarrow> int \<Rightarrow> pyval \<Rightarrow> outcome comp" where
  "watch_toggle u table_id pk = with_view u table_id pk (\<lambda>t vf r s.
     (case toggle (u_id u) (t_phys_name t) pk s of
        (now_watching, s') \<Rightarrow> (Inr (Message (if now_watching then ''Watching this record.'' else ''Stopped watching.'')), s')))"

definition comment_add :: "env \<Rightarrow> app_user \<Rightarrow> int \<Rightarrow> pyval \<Rightarrow> pystr option \<Rightarrow> bool \<Rightarrow> outcome comp" where
  "comment_add env u table_id pk body internal = with_view u table_id pk (\<lambda>t vf r.
     bindC (getC (\<lambda>s. t_label t @ '': '' @ row_label s t r pk)) (\<lambda>label.
     tryC (bindC (add_comment env (t_phys_name t) pk (Some u) body internal (Some r) (Some label)) (\<lambda>_.
           retC (Message ''Comment added.'')))
       (\<lambda>e. case e of ValueErr m \<Rightarrow> retC (Message m) | _ \<Rightarrow> failC e)))"

definition edit_forms :: "db \<Rightarrow> int \<Rightarrow> meta_form list" where
  "edit_forms s table_id = filter (\<lambda>f. fm_table_id f = table_id \<and> fm_purpose f \<noteq> ''view'') (d_forms s)"

definition assign_to_me :: "env \<Rightarrow> app_user \<Rightarrow> int \<Rightarrow> pyval \<Rightarrow> outcome comp" where
  "assign_to_me env u table_id pk =
     bindC (getC (\<lambda>s. map_option (\<lambda>t. (t, list_ex (\<lambda>f. can_write (form_access s (Some u) (fm_id f))) (edit_forms s table_id)))
       (get_table s table_id))) (\<lambda>x. case x of
       None \<Rightarrow> failC (Abort 404)
     | Some (t, writable) \<Rightarrow>
       (case find (\<lambda>f. f_data_type f = ''user'') (t_fields t) of
          None \<Rightarrow> failC (Abort 404)
        | Some uf \<Rightarrow>
          if \<not> writable then failC (Abort 403)
          else bindC (opened_row u t (Some pk)) (\<lambda>_.
               bindC (update env t pk [(f_phys_name uf, VInt (u_id u))] (Some (u_id u))) (\<lambda>_.
               retC (Message ''Assigned to you.'')))))"

definition manual_feeds :: "db \<Rightarrow> int \<Rightarrow> feed list" where
  "manual_feeds s table_id = sort_key fd_id (filter (\<lambda>f. fd_source_table_id f = table_id \<and> fd_active f \<and> fd_allow_manual f) (d_feeds s))"

definition feed_send :: "env \<Rightarrow> meta_table \<Rightarrow> pyval list \<Rightarrow> outcome comp" where
  "feed_send env t ids =
     (if ids = [] then retC (Message ''No rows selected.'')
      else bindC (getC (\<lambda>s. manual_feeds s (t_id t))) (\<lambda>fds.
        if fds = [] then retC (Message ''No manual feeds are configured for this table.'')
        else bindC (foldC (\<lambda>f acc. bindC (feed_manual env f t ids) (\<lambda>sts. retC (acc @ sts))) fds []) (\<lambda>sts.
          let sent = int (length (filter (\<lambda>x. x = ''sent'') sts)); failed = int (length (filter (\<lambda>x. x = ''failed'') sts))
          in retC (Message (''Sent '' @ str_int sent @ '' record(s) to connected tools.'' @
               (if failed = 0 then [] else '' '' @ str_int failed @ '' failed.''))))))"

subsection \<open>Import\<close>

definition key_choices :: "meta_table \<Rightarrow> pystr list" where
  "key_choices t = t_pk_col t # map f_phys_name (filter f_is_unique (t_fields t))"

text \<open>
  A file as its header and rows (\<^const>\<open>None\<close> when it is not UTF-8). The form checks neither
  the mode nor the key against what it offers.
\<close>

record import_form =
  if_mode :: pystr
  if_key :: pystr
  if_skip_invalid :: bool
  if_content :: "(pystr list \<times> cells list) option"

definition run_import :: "env \<Rightarrow> app_user \<Rightarrow> meta_table \<Rightarrow> import_form \<Rightarrow> pystr list \<times> cells list \<Rightarrow> outcome comp" where
  "run_import env u t form x =
     bindC (getC (\<lambda>s. if is_designer u then None else Some (writable_fields s (Some u) t))) (\<lambda>allowed.
     bindC (import_rows env t (fst x) (snd x) (if_skip_invalid form) (if_mode form)
         (if if_mode form = ''upsert'' then Some (if_key form) else None) allowed) (\<lambda>res.
     bindC (recompute_table env t) (\<lambda>_. retC (Imported res))))"

definition import_run :: "env \<Rightarrow> app_user \<Rightarrow> int \<Rightarrow> import_form \<Rightarrow> outcome comp" where
  "import_run env u table_id form =
     bindC (getC (\<lambda>s. map_option (\<lambda>t. (t, table_writable s (Some u) t)) (get_table s table_id))) (\<lambda>x. case x of
       None \<Rightarrow> failC (Abort 404)
     | Some (t, ok) \<Rightarrow>
       if \<not> ok then failC (Abort 403)
       else if if_mode form = ''upsert'' \<and> if_key form = [] then retC (Again ''Choose a key column to match existing rows for upsert.'')
       else (case if_content form of
               None \<Rightarrow> retC (Again ''Could not read the file as UTF-8 CSV.'')
             | Some x \<Rightarrow> run_import env u t form x))"

definition import_template :: "app_user \<Rightarrow> int \<Rightarrow> meta_table comp" where
  "import_template u table_id =
     bindC (getC (\<lambda>s. map_option (\<lambda>t. (t, table_writable s (Some u) t)) (get_table s table_id))) (\<lambda>x. case x of
       None \<Rightarrow> failC (Abort 404) | Some (t, ok) \<Rightarrow> if ok then retC t else failC (Abort 403))"

subsection \<open>Requests\<close>

datatype user_call =
    NewRecord int files_sent
  | EditRecord int pyval files_sent
  | CloneRecord int pyval files_sent
  | UpdateCell int pyval pystr pystr
  | BulkEdit int "pyval list" pystr bool "pystr option"
  | BulkRemove int args
  | RemoveRecord int pyval
  | RestoreRecord int pyval
  | DestroyRecord int pyval
  | SendRows int args
  | ToggleWatch int pyval
  | AssignMe int pyval
  | AddComment int pyval "pystr option" bool
  | ImportFile int import_form

record client =
  cl_forms :: wtf
  cl_files :: mail_io

definition user_route :: "env \<Rightarrow> client \<Rightarrow> app_user \<Rightarrow> user_call \<Rightarrow> outcome comp" where
  "user_route env cl u c = (case c of
     NewRecord i fs \<Rightarrow> with_form u i can_write (\<lambda>mf t. save_record env u (cl_forms cl) (cl_files cl) fs mf t None)
   | EditRecord i pk fs \<Rightarrow> with_form u i can_write (\<lambda>mf t. save_record env u (cl_forms cl) (cl_files cl) fs mf t (Some pk))
   | CloneRecord i pk fs \<Rightarrow> with_form u i can_write (\<lambda>mf t. save_record env u (cl_forms cl) (cl_files cl) fs mf t None)
   | UpdateCell i pk col raw \<Rightarrow> with_form u i can_write (\<lambda>mf t. cell_update env u mf t pk col raw)
   | BulkEdit i ids col clear raw \<Rightarrow> with_form u i can_write (\<lambda>mf t. bulk_edit_apply env u mf t ids col clear raw)
   | BulkRemove i form \<Rightarrow> with_form u i can_write (\<lambda>mf t. bulk_delete_run env u t (selected_ids form))
   | RemoveRecord i pk \<Rightarrow> with_form u i can_write (\<lambda>mf t. record_delete env u t pk)
   | RestoreRecord i pk \<Rightarrow> with_form u i can_write (\<lambda>mf t.
       bindC (restore t pk (Some (u_id u))) (\<lambda>_. retC (Message ''Restored.'')))
   | DestroyRecord i pk \<Rightarrow> with_form u i can_write (\<lambda>mf t.
       bindC (destroy t pk (Some (u_id u))) (\<lambda>_. retC (Message ''Permanently deleted.'')))
   | SendRows i form \<Rightarrow> with_form u i can_read (\<lambda>mf t. feed_send env t (selected_ids form))
   | ToggleWatch i pk \<Rightarrow> watch_toggle u i pk
   | AssignMe i pk \<Rightarrow> assign_to_me env u i pk
   | AddComment i pk body internal \<Rightarrow> comment_add env u i pk body internal
   | ImportFile i form \<Rightarrow> import_run env u i form)"

definition user_request :: "env \<Rightarrow> client \<Rightarrow> app_user option \<Rightarrow> user_call \<Rightarrow> outcome comp" where
  "user_request env cl user c = (case user of
     None \<Rightarrow> failC (Abort 401)
   | Some u \<Rightarrow> if is_portal u then retC Portal_Home else user_route env cl u c)"

subsection \<open>What a request needs\<close>

definition form_permits :: "db \<Rightarrow> app_user \<Rightarrow> int \<Rightarrow> (pystr \<Rightarrow> bool) \<Rightarrow> bool" where
  "form_permits s u i ok = (get_form s i \<noteq> None \<and> ok (form_access s (Some u) i))"

definition sees_row :: "db \<Rightarrow> app_user \<Rightarrow> meta_table \<Rightarrow> pyval \<Rightarrow> bool \<Rightarrow> bool" where
  "sees_row s u t pk del = (\<exists>r. r \<noteq> [] \<and> get_record t pk (Some (u_id u)) (is_designer u) del s = (Inr (Some r), s))"

definition form_row_permits :: "db \<Rightarrow> app_user \<Rightarrow> int \<Rightarrow> pyval \<Rightarrow> bool" where
  "form_row_permits s u i pk = (\<exists>mf t. get_form s i = Some mf \<and> get_table s (fm_table_id mf) = Some t \<and>
     can_write (form_access s (Some u) i) \<and> sees_row s u t pk False)"

definition view_permits :: "db \<Rightarrow> app_user \<Rightarrow> int \<Rightarrow> pyval \<Rightarrow> bool" where
  "view_permits s u i pk = (\<exists>t vf. get_table s i = Some t \<and> table_view_form s i = Some vf \<and>
     can_read (form_access s (Some u) (fm_id vf)) \<and> sees_row s u t pk True)"

definition permitted :: "db \<Rightarrow> app_user \<Rightarrow> user_call \<Rightarrow> bool" where
  "permitted s u c = (case c of
     NewRecord i fs \<Rightarrow> form_permits s u i can_write
   | CloneRecord i pk fs \<Rightarrow> form_permits s u i can_write
   | EditRecord i pk fs \<Rightarrow> form_row_permits s u i pk
   | UpdateCell i pk col raw \<Rightarrow> form_row_permits s u i pk
   | BulkEdit i ids col clear raw \<Rightarrow> form_permits s u i can_write
   | BulkRemove i form \<Rightarrow> form_permits s u i can_write
   | RemoveRecord i pk \<Rightarrow> form_permits s u i can_write
   | RestoreRecord i pk \<Rightarrow> form_permits s u i can_write
   | DestroyRecord i pk \<Rightarrow> form_permits s u i can_write
   | SendRows i form \<Rightarrow> form_permits s u i can_read
   | ToggleWatch i pk \<Rightarrow> view_permits s u i pk
   | AddComment i pk body internal \<Rightarrow> view_permits s u i pk
   | AssignMe i pk \<Rightarrow> (\<exists>t. get_table s i = Some t \<and> sees_row s u t pk False \<and>
       list_ex (\<lambda>f. can_write (form_access s (Some u) (fm_id f))) (edit_forms s i))
   | ImportFile i form \<Rightarrow> (\<exists>t. get_table s i = Some t \<and> table_writable s (Some u) t))"

lemma with_form_change:
  assumes "with_form u i ok f s = (r, s')" "s' \<noteq> s"
  obtains mf t where "get_form s i = Some mf" "get_table s (fm_table_id mf) = Some t"
    "ok (form_access s (Some u) i)" "f mf t s = (r, s')"
  using assms by (auto simp: with_form_def bindC_get failC_def split: option.splits if_splits)

lemma with_form_permits: "with_form u i ok f s = (r, s') \<Longrightarrow> s' \<noteq> s \<Longrightarrow> form_permits s u i ok"
  by (erule (1) with_form_change) (simp add: form_permits_def)

lemma with_view_change:
  assumes "with_view u i pk f s = (r, s')" "s' \<noteq> s" shows "view_permits s u i pk"
proof -
  from assms obtain t vf where t: "get_table s i = Some t" "table_view_form s i = Some vf"
    "can_read (form_access s (Some u) (fm_id vf))"
    and run: "bindC (get_record t pk (Some (u_id u)) (is_designer u) True) (\<lambda>r.
      case r of None \<Rightarrow> failC (Abort 404) | Some x \<Rightarrow> if x = [] then failC (Abort 404) else f t vf x) s = (r, s')"
    by (auto simp: with_view_def bindC_get failC_def split: option.splits if_splits)
  obtain g where g: "get_record t pk (Some (u_id u)) (is_designer u) True s = (g, s)"
    by (metis get_record_state prod.collapse)
  with run assms(2) obtain x where "g = Inr (Some x)" "x \<noteq> []"
    by (cases g) (auto simp: bindC_def failC_def split: option.splits if_splits)
  with t g show ?thesis by (auto simp: view_permits_def sees_row_def)
qed

lemma opened_row_some:
  assumes "opened_row u t (Some pk) s = (x, s')"
  shows "s' = s \<and> (\<forall>r. x = Inr r \<longrightarrow> sees_row s u t pk False)"
proof -
  obtain g where g: "record_of u t pk s = (g, s)" by (metis get_record_state prod.collapse)
  with assms show ?thesis
    by (cases g) (auto simp: opened_row_def bindC_def failC_def retC_def sees_row_def split: option.splits if_splits)
qed

lemma keeps_opened: "keeps (=) (opened_row u t pk)"
  unfolding opened_row_def by (intro reads.keeps reads_record)

lemma keeps_build_form: "keeps (=) (build_form env user mf)"
  unfolding build_form_def build_items_def by (intro reads.keeps keeps_build_item)

lemma keeps_submitted: "keeps (=) (submitted env u w mf t pk)"
  unfolding submitted_def by (intro reads.keeps keeps_build_form keeps_opened)

lemma submitted_some:
  assumes "submitted env u w mf t (Some pk) s = (Inr bo, s')" shows "sees_row s u t pk False"
proof -
  from assms obtain b s1 r s2 where "build_form env (Some u) mf s = (Inr b, s1)" "opened_row u t (Some pk) s1 = (Inr r, s2)"
    by (auto simp: submitted_def case_prod_unfold elim!: bindC_InrE)
  moreover from this(1) keeps_build_form [of env "Some u" mf] have "s1 = s" by (auto simp: keeps_def dest: spec [of _ s])
  ultimately show ?thesis using opened_row_some by blast
qed

lemma save_edit_sees:
  assumes "save_record env u w io fs mf t (Some pk) s = (r, s')" "s' \<noteq> s" shows "sees_row s u t pk False"
proof -
  obtain x where x: "submitted env u w mf t (Some pk) s = (x, s)"
    using keeps_submitted [of env u w mf t "Some pk"] by (metis keeps_def prod.collapse)
  with assms obtain bo where "x = Inr bo" by (cases x) (auto simp: save_record_def bindC_Inl)
  with x show ?thesis using submitted_some by blast
qed

lemma cell_update_sees:
  assumes "cell_update env u mf t pk col raw s = (r, s')" "s' \<noteq> s" shows "sees_row s u t pk False"
proof -
  have rules: "\<not> has_form_rules mf" using assms by (auto simp: cell_update_def failC_def)
  obtain b where b: "build_form env (Some u) mf s = (b, s)"
    using keeps_build_form [of env "Some u" mf] by (metis keeps_def prod.collapse)
  with assms rules obtain b1 cfg where "b = Inr (b1, cfg)"
    by (cases b) (auto simp: cell_update_def bindC_Inl)
  with assms b rules obtain f v where "bindC (opened_row u t (Some pk)) (write_cell env u t pk col f v) s = (r, s')"
    by (auto simp: cell_update_def bindC_Inr bindC_get comp_run split: option.splits sum.splits exn.splits if_splits)
  moreover obtain x s1 where "opened_row u t (Some pk) s = (x, s1)" by fastforce
  moreover note opened_row_some [OF this]
  ultimately show ?thesis using assms(2) by (cases x) (auto simp: bindC_Inl)
qed

lemma assign_change:
  assumes "assign_to_me env u i pk s = (r, s')" "s' \<noteq> s"
  obtains t uf where "get_table s i = Some t" "find (\<lambda>f. f_data_type f = ''user'') (t_fields t) = Some uf"
    "list_ex (\<lambda>f. can_write (form_access s (Some u) (fm_id f))) (edit_forms s i)" "sees_row s u t pk False"
proof -
  from assms obtain t uf where t: "get_table s i = Some t" "find (\<lambda>f. f_data_type f = ''user'') (t_fields t) = Some uf"
      "list_ex (\<lambda>f. can_write (form_access s (Some u) (fm_id f))) (edit_forms s i)"
    and run: "bindC (opened_row u t (Some pk)) (\<lambda>_.
      bindC (update env t pk [(f_phys_name uf, VInt (u_id u))] (Some (u_id u))) (\<lambda>_. retC (Message ''Assigned to you.''))) s = (r, s')"
    by (auto simp: assign_to_me_def bindC_get failC_def split: option.splits if_splits)
  obtain x s1 where x: "opened_row u t (Some pk) s = (x, s1)" by fastforce
  from opened_row_some [OF this] x run assms(2) have "sees_row s u t pk False"
    by (cases x) (auto simp: bindC_Inl)
  with t that show thesis by blast
qed

lemma import_change:
  assumes "import_run env u i form s = (r, s')" "s' \<noteq> s"
  shows "\<exists>t. get_table s i = Some t \<and> table_writable s (Some u) t"
  using assms by (auto simp: import_run_def bindC_get failC_def retC_def split: option.splits if_splits)


subsection \<open>Bulk edits\<close>

lemma bulk_counted:
  "foldC (bulk_count env u t col v) ids n s = (Inr m, s') \<Longrightarrow> fst n \<ge> 0 \<Longrightarrow> snd n \<ge> 0 \<Longrightarrow>
   fst m \<ge> 0 \<and> snd m \<ge> 0 \<and> fst m + snd m = fst n + snd n + int (length ids)"
proof (induction ids arbitrary: n s)
  case (Cons pk ids)
  from Cons.prems(1) obtain k s1 where 1: "bulk_count env u t col v pk n s = (Inr k, s1)"
    and 2: "foldC (bulk_count env u t col v) ids k s1 = (Inr m, s')"
    by (auto elim!: bindC_InrE)
  from 1 have "fst k + snd k = fst n + snd n + 1" "fst k \<ge> fst n" "snd k \<ge> snd n"
    by (auto simp: bulk_count_def retC_def elim!: bindC_InrE split: if_splits)
  with Cons.IH [OF 2] Cons.prems(2,3) show ?case by auto
qed (simp add: retC_def)

lemma writable_bulk:
  assumes "f \<in> set (bulk_editable_fields s u t)" "\<not> is_portal u"
  shows "f_phys_name f \<in> set (writable_fields s (Some u) t)"
  using assms by (auto simp: bulk_editable_fields_def writable_fields_def fields_with_def form_perms_def Let_def)

text \<open>
  A bulk edit writes one column only, which the account may write and which is not the key, and only without
  conditional rules on the form; and it tells how many of the chosen rows it changed and how many it left, which are
  all of them.
\<close>

theorem bulk_edit_accounts:
  assumes "bulk_edit_apply env u mf t ids col clear raw s = (Inr x, s')" "\<not> is_portal u"
  shows "s' = s \<or> (\<not> has_form_rules mf \<and> col \<in> set (writable_fields s (Some u) t) \<and> col \<noteq> t_pk_col t \<and>
    (\<exists>done skipped. 0 \<le> done \<and> 0 \<le> skipped \<and> done + skipped = int (length ids) \<and> x = Message (bulk_text (done, skipped))))"
proof (cases "find (\<lambda>f. f_phys_name f = col) (bulk_editable_fields s u t)")
  case None
  with assms(1) show ?thesis by (auto simp: bulk_edit_apply_def bindC_get failC_def retC_def split: if_splits)
next
  case (Some f)
  have reads: "keeps (=) (bulk_value env f clear raw)"
    unfolding bulk_value_def bulk_resolver_def make_relation_resolver_def load_options_def
    by (auto intro!: reads.keeps reads.keeps_read split: sum.split exn.split)
  from Some assms(1) consider "s' = s" | v n s1 where "\<not> has_form_rules mf"
      "foldC (bulk_count env u t (f_phys_name f) v) ids (0, 0) s1 = (Inr n, s')" "x = Message (bulk_text n)"
    | s1 where "bulk_value env f clear raw s = (s1, s')"
    by (auto simp: bulk_edit_apply_def bindC_get failC_def retC_def elim!: bindC_InrE split: if_splits sum.splits)
  then show ?thesis
  proof cases
    case 2
    from find_Some_set [OF Some] have f: "f \<in> set (bulk_editable_fields s u t)" "f_phys_name f = col" by auto
    then have "col \<noteq> t_pk_col t" by (auto simp: bulk_editable_fields_def)
    with 2 f writable_bulk [OF f(1) assms(2)] bulk_counted [OF 2(2)] show ?thesis by (cases n) auto
  next
    case 3
    with reads have "s' = s" by (auto simp: keeps_def dest: spec [of _ s])
    then show ?thesis ..
  qed simp
qed

text \<open>The sections of a form hold each of its items, in order.\<close>

lemma split_groups_items:
  "concat (map snd (split_groups its cur)) = snd cur @ filter (\<lambda>it. bi_kind it \<noteq> ''section'') its"
  by (induction its arbitrary: cur) (auto simp: close_group_def)

lemma split_sections_items:
  "split_sections its = [] \<or> concat (map snd (split_sections its)) = filter (\<lambda>it. bi_kind it \<noteq> ''section'') its"
  by (simp add: split_sections_def split_groups_items)

subsection \<open>Examples\<close>

text \<open>An account that sees the rows it created, on a table with rows of others.\<close>

definition ann :: app_user where
  "ann = sample_user ''user''"

definition mine_db :: db where
  "mine_db = owned_db\<lparr>d_users := [ann], d_tables := [owned_table], d_forms := [portal_form]\<rparr>"

definition no_client :: client where
  "no_client = \<lparr>cl_forms = typed, cl_files = \<lparr>mo_fetch = (\<lambda>_. None), mo_message = (\<lambda>_.
     \<lparr>ml_from = None, ml_auto_submitted = None, ml_precedence = None, ml_suppress = None, ml_subject = None,
      ml_body = None, ml_files = []\<rparr>),
     mo_addr = (\<lambda>x. x), mo_secure = (\<lambda>x. x), mo_token = (\<lambda>_. ''t'')\<rparr>\<rparr>"

text \<open>A row that the account does not see is deleted by it all the same.\<close>

lemma delete_out_of_sight:
  "fst (record_of ann owned_table (VStr ''1'') mine_db) = Inr None \<and>
   fst (user_request plain_env no_client (Some ann) (RemoveRecord 1 (VStr ''1'')) mine_db) = Inr (Message ''Deleted.'') \<and>
   map_option (\<lambda>p. map (\<lambda>r. rget r ''id'') (ph_rows p))
     (dget (d_phys (snd (user_request plain_env no_client (Some ann) (RemoveRecord 1 (VStr ''1'')) mine_db))) ''tickets'') = Some [VInt 2]"
  by code_simp


text \<open>A field that the account may not even read is set by assignment.\<close>

definition seat_table :: meta_table where
  "seat_table = desk_table\<lparr>t_fields := [(sample_field ''user'')\<lparr>f_id := 6, f_phys_name := ''owner''\<rparr>]\<rparr>"

definition seat_db :: db where
  "seat_db = desk_db\<lparr>d_tables := [seat_table],
     d_fperms := [\<lparr>fp_id = 1, fp_role = ''clerk'', fp_field_id = 6, fp_access = access_none\<rparr>],
     d_phys := [(''desk'', desk_phys\<lparr>ph_cols := [(''id'', CInt, False), (''owner'', CInt, True)], ph_rows := [[(''id'', VInt 1)]]\<rparr>)]\<rparr>"

lemma assign_ignores_permission:
  "''owner'' \<notin> set (readable_fields seat_db (Some clerk) seat_table) \<and>
   map_option (\<lambda>p. map (\<lambda>r. rget r ''owner'') (ph_rows p))
     (dget (d_phys (snd (user_request plain_env no_client (Some clerk) (AssignMe 3 (VStr ''1'')) seat_db))) ''desk'') = Some [VInt 7]"
  by code_simp

definition plain_desk :: meta_table where
  "plain_desk = desk_table\<lparr>t_track_audit := False\<rparr>"

definition plain_db :: db where
  "plain_db = desk_db\<lparr>d_phys := [(''desk'', desk_phys\<lparr>ph_rows :=
     [[(''id'', VInt 1), (''state'', VStr ''open''), (''reason'', VNone), (''desk_id'', VNone)]]\<rparr>)]\<rparr>"

lemma bulk_edit_accounts_witness:
  "\<exists>done skipped. 0 \<le> done \<and> 0 \<le> skipped \<and> done + skipped = int (length [VStr ''1'', VStr ''5'']) \<and>
     bulk_text (1, 1) = bulk_text (done, skipped)"
proof -
  let ?m = "bulk_edit_apply plain_env clerk wages_form plain_desk [VStr ''1'', VStr ''5''] ''state'' False (Some ''closed'') plain_db"
  have "fst ?m = Inr (Message (bulk_text (1, 1)))" by code_simp
  then have run: "?m = (Inr (Message (bulk_text (1, 1))), snd ?m)" by (metis prod.collapse)
  have "d_phys (snd ?m) \<noteq> d_phys plain_db" by code_simp
  then have "snd ?m \<noteq> plain_db" by auto
  moreover have "\<not> is_portal clerk" by code_simp
  ultimately show ?thesis using bulk_edit_accounts [OF run] by simp
qed

end
