(* ===== verification/Record_Lists.thy ===== *)
theory Record_Lists
  imports Record_Forms Maintenance
begin

text \<open>
  The part of \<open>app/user/routes.py\<close> that shows records: lists with their filters, their exports, the board and
  the search, the page of a record with its related lists and history, and the panels of the home page; with the panels of
  \<open>app/sla.py\<close> and \<open>app/list_export.py\<close>. The arguments of the request are a list of pairs. Links between pages, colours and the
  calendar's grid are not modelled.

  Shown: a list holds rows of the account's scope and columns it may see; its export is its pages, one after the
  other; a board loses no row; and the panels show readable tables only. Findings: the export of selected rows
  ignores the companies, search matches columns hidden from the account, and a report does not know who
  \<open>me\<close> is.
\<close>

subsection \<open>The query of a list\<close>

abbreviation PER_PAGE :: int where "PER_PAGE \<equiv> 25"

definition ALLOWED_PER_PAGE :: "int list" where
  "ALLOWED_PER_PAGE = [25, 50, 100]"

definition is_text_search :: "pystr \<Rightarrow> bool" where
  "is_text_search dt = (dt \<in> {''string'', ''text'', ''markdown'', ''enum'', ''email'', ''url'', ''phone'', ''json'', ''tags'',
     ''autonumber'', ''formula''})"

definition rcol_of_item :: "form_item \<Rightarrow> rcol option" where
  "rcol_of_item it = map_option (\<lambda>f. \<lparr>rk_kind = bi_kind it, rk_column = text_or (bi_column it) [],
     rk_label = bi_label it, rk_meta = f\<rparr>) (bi_field it)"

definition list_items :: "form_item list \<Rightarrow> form_item list" where
  "list_items its = filter (\<lambda>it. bi_kind it \<in> {''field'', ''relation_m1''}) its"

definition q_filter :: "db \<Rightarrow> meta_table \<Rightarrow> pystr \<Rightarrow> filt" where
  "q_filter s t q =
     (let cols = map f_phys_name (filter (\<lambda>f. is_text_search (f_data_type f)) (t_fields t));
          cs = (if cols = [] then [display_field_name s (Some t)] else cols)
      in FAny (map (\<lambda>c. FCond c (Some ''contains'') (VStr q) True) cs))"

text \<open>A condition with its place in the lists of the request; \<open>me\<close> stands for the viewer.\<close>

definition list_condition :: "app_user \<Rightarrow> (pystr, filter_meta) dict \<Rightarrow> condition \<Rightarrow> filt option" where
  "list_condition u meta cnd = (case cnd of (c, op, v) \<Rightarrow>
     (case dget meta c of
        None \<Rightarrow> None
      | Some m \<Rightarrow> if op \<in> set NO_VALUE_OPS \<or> v \<noteq> []
          then Some (FCond c (Some op) (if fi_kind m = ''user'' \<and> v = ''me'' then VInt (u_id u) else VStr v) (fi_kind m = ''text''))
          else None))"

definition list_conditions :: "args \<Rightarrow> (pystr, filter_meta) dict \<Rightarrow> (nat \<times> condition) list" where
  "list_conditions args meta = filter (\<lambda>(i, cnd). condition_valid meta cnd)
     (enumerate 0 (zip (getlist args ''fcol'') (zip (getlist args ''fop'') (getlist args ''fval''))))"

definition page_arg :: "args \<Rightarrow> exn + int" where
  "page_arg args = (let x = (case getlist args ''page'' of [] \<Rightarrow> ''1'' | p # _ \<Rightarrow> p) in
     if x = [] then Inr 1 else case parse_int x of Some n \<Rightarrow> Inr n | None \<Rightarrow> Inl (ValueErr x))"

definition per_page_arg :: "args \<Rightarrow> meta_form \<Rightarrow> int" where
  "per_page_arg args mf =
     (let n = (if get_arg args ''per_page'' \<noteq> [] then parse_int (get_arg args ''per_page'')
               else case some_id (fm_default_per_page mf) of Some n \<Rightarrow> Some n | None \<Rightarrow> Some PER_PAGE)
      in case n of Some k \<Rightarrow> (if k \<in> set ALLOWED_PER_PAGE then k else PER_PAGE) | None \<Rightarrow> PER_PAGE)"

definition sort_arg :: "args \<Rightarrow> meta_form \<Rightarrow> meta_table \<Rightarrow> pystr option" where
  "sort_arg args mf t =
     (if get_arg args ''sort'' \<noteq> [] then Some (get_arg args ''sort'')
      else case fm_default_sort mf of
        None \<Rightarrow> None
      | Some c \<Rightarrow> if c \<in> set (t_pk_col t # map f_phys_name (t_fields t)) then Some c else None)"

definition order_arg :: "args \<Rightarrow> meta_form \<Rightarrow> pystr" where
  "order_arg args mf = (if get_arg args ''order'' \<noteq> [] then get_arg args ''order'' else text_or (fm_default_order mf) ''asc'')"

record list_query =
  lq_columns :: "form_item list"
  lq_meta :: report_meta
  lq_q :: pystr
  lq_page :: int
  lq_per_page :: int
  lq_sort :: "pystr option"
  lq_order :: pystr
  lq_conditions :: "(nat \<times> condition) list"
  lq_filters :: "filt list"

definition list_query :: "env \<Rightarrow> app_user \<Rightarrow> meta_form \<Rightarrow> meta_table \<Rightarrow> args \<Rightarrow> list_query comp" where
  "list_query env u mf t args =
     bindC (build_form env (Some u) mf) (\<lambda>(b, cfg).
     let cols = list_items (bf_items b); q = py_strip (get_arg args ''q'') in
     bindC (build_meta (Some u) (List.map_filter rcol_of_item cols)) (\<lambda>m.
     bindC (liftC (page_arg args)) (\<lambda>page.
     let conds = list_conditions args (rp_meta m) in
     getC (\<lambda>s. \<lparr>lq_columns = cols, lq_meta = m, lq_q = q, lq_page = page, lq_per_page = per_page_arg args mf,
       lq_sort = sort_arg args mf t, lq_order = order_arg args mf, lq_conditions = conds,
       lq_filters = (if q = [] then [] else [q_filter s t q]) @
         List.map_filter (\<lambda>(i, cnd). list_condition u (rp_meta m) cnd) conds\<rparr>))))"

definition list_found :: "app_user \<Rightarrow> meta_table \<Rightarrow> list_query \<Rightarrow> int \<Rightarrow> int option \<Rightarrow> (row list \<times> int) comp" where
  "list_found u t lq page per_page =
     list_records t (Some (u_id u)) (is_designer u) False (lq_filters lq) (lq_sort lq) (lq_order lq) page per_page"

subsection \<open>The service-level column\<close>

definition token_rank :: "pystr \<Rightarrow> nat" where
  "token_rank t = (if t = BREACHED then 0 else if t = DUE_SOON then 1 else if t = PAUSED then 2
     else if t = ON_TRACK then 3 else if t = MET then 4 else 9)"

record sla_entry =
  se_token :: pystr
  se_due :: "int option"
  se_text :: pystr

text \<open>A clock that is breached comes first, then the one due soonest; no due date is the last.\<close>

definition worse :: "sla_entry \<Rightarrow> sla_entry \<Rightarrow> bool" where
  "worse a b = (token_rank (se_token a) < token_rank (se_token b) \<or>
     (token_rank (se_token a) = token_rank (se_token b) \<and>
      (case (se_due a, se_due b) of (Some x, Some y) \<Rightarrow> x < y | (Some _, None) \<Rightarrow> True | _ \<Rightarrow> False)))"

definition clock_entry :: "env \<Rightarrow> db \<Rightarrow> sla_policy \<Rightarrow> sla_clock \<Rightarrow> exn + sla_entry option" where
  "clock_entry env s p c = map_sum id (map_option (\<lambda>tok. \<lparr>se_token = tok, se_due = ck_due_at c,
     se_text = (case humanize (remaining_of c (e_now env)) of Some x \<Rightarrow> x
                | None \<Rightarrow> map (\<lambda>ch. if ch = CHR ''_'' then CHR '' '' else ch) tok)\<rparr>)) (state_token env s c p (e_now env))"

definition put_worst :: "pystr \<Rightarrow> sla_entry \<Rightarrow> (pystr, sla_entry) dict \<Rightarrow> (pystr, sla_entry) dict" where
  "put_worst pk e d = (case dget d pk of None \<Rightarrow> dset pk e d | Some cur \<Rightarrow> if worse e cur then dset pk e d else d)"

fun worst_clocks :: "env \<Rightarrow> db \<Rightarrow> sla_policy list \<Rightarrow> sla_clock list \<Rightarrow> (pystr, sla_entry) dict \<Rightarrow> exn + (pystr, sla_entry) dict" where
  "worst_clocks env s ps [] d = Inr d"
| "worst_clocks env s ps (c # cs) d =
     (case find (\<lambda>p. sp_id p = ck_policy_id c) (rev ps) of
        None \<Rightarrow> worst_clocks env s ps cs d
      | Some p \<Rightarrow> bindE (clock_entry env s p c) (\<lambda>e. worst_clocks env s ps cs
          (case e of None \<Rightarrow> d | Some x \<Rightarrow> put_worst (ck_row_pk c) x d)))"

definition clocks_for_rows :: "env \<Rightarrow> db \<Rightarrow> int \<Rightarrow> pystr \<Rightarrow> pyval list \<Rightarrow> exn + (pystr, sla_entry) dict" where
  "clocks_for_rows env s table_id t pks =
     (let ps = policies_for s table_id in
      if ps = [] \<or> pks = [] then Inr []
      else worst_clocks env s ps (filter (\<lambda>c. ck_table_phys c = t \<and> ck_row_pk c \<in> py_str ` set pks) (d_clocks s)) [])"

text \<open>The clocks due next, on the home page.\<close>

record next_clock =
  nx_table :: meta_table
  nx_pk :: pystr
  nx_policy :: pystr
  nx_text :: "pystr option"

definition open_clocks :: "db \<Rightarrow> nat \<Rightarrow> sla_clock list" where
  "open_clocks s limit = take (limit * 5) (sort_key (\<lambda>c. case ck_due_at c of Some d \<Rightarrow> d | None \<Rightarrow> 0)
     (filter (\<lambda>c. ck_state c \<in> {''running'', ''paused'', ''breached''} \<and> ck_due_at c \<noteq> None) (d_clocks s)))"

definition next_clock_of :: "env \<Rightarrow> db \<Rightarrow> app_user \<Rightarrow> sla_clock \<Rightarrow> next_clock option" where
  "next_clock_of env s u c =
     (case find (\<lambda>p. sp_id p = ck_policy_id c \<and> sp_active p) (d_policies s) of
        None \<Rightarrow> None
      | Some p \<Rightarrow> (case get_table s (sp_table_id p) of
          None \<Rightarrow> None
        | Some t \<Rightarrow> if table_readable s (Some u) t
            then Some \<lparr>nx_table = t, nx_pk = ck_row_pk c, nx_policy = sp_name p, nx_text = humanize (remaining_of c (e_now env))\<rparr>
            else None))"

definition breaching_next :: "env \<Rightarrow> db \<Rightarrow> app_user \<Rightarrow> nat \<Rightarrow> next_clock list" where
  "breaching_next env s u limit = take (max 1 limit) (List.map_filter (next_clock_of env s u) (open_clocks s limit))"

subsection \<open>A list and its exports\<close>

record list_page =
  lp_query :: list_query
  lp_rows :: "row list"
  lp_total :: int
  lp_pages :: int
  lp_can_edit :: bool
  lp_states :: "(pyval \<times> (pystr \<times> pyval list) list) list"
  lp_sla :: "(pystr, sla_entry) dict"
  lp_maint :: "maintenance_window option"
  lp_views :: "saved_view list"

text \<open>The columns under a workflow, and where each row's state may go from there.\<close>

definition workflow_columns :: "db \<Rightarrow> meta_form \<Rightarrow> form_item list \<Rightarrow> (pystr \<times> workflow) list" where
  "workflow_columns s mf cols = List.map_filter (\<lambda>it. case bi_field it of
     None \<Rightarrow> None
   | Some f \<Rightarrow> if bi_kind it = ''field'' \<and> f_data_type f = ''enum''
       then map_option (\<lambda>w. (text_or (bi_column it) [], w)) (dget (workflows_for s (fm_table_id mf)) (f_id f)) else None) cols"

definition cell_options :: "app_user \<Rightarrow> meta_table \<Rightarrow> (pystr \<times> workflow) list \<Rightarrow> row list \<Rightarrow> (pyval \<times> (pystr \<times> pyval list) list) list" where
  "cell_options u t wcols rows = map (\<lambda>r. (rget r (t_pk_col t), map (\<lambda>(c, w). (c, allowed_choices w (rget r c) u)) wcols)) rows"

definition form_list :: "env \<Rightarrow> app_user \<Rightarrow> args \<Rightarrow> meta_form \<Rightarrow> meta_table \<Rightarrow> list_page comp" where
  "form_list env u args mf t =
     bindC (list_query env u mf t args) (\<lambda>lq.
     bindC (list_found u t lq (lq_page lq) (Some (lq_per_page lq))) (\<lambda>(rows, total).
     bindC (bindC (getC (\<lambda>s. clocks_for_rows env s (fm_table_id mf) (t_phys_name t) (map (\<lambda>r. rget r (t_pk_col t)) rows))) liftC) (\<lambda>clocks.
     getC (\<lambda>s. \<lparr>lp_query = lq, lp_rows = rows, lp_total = total,
       lp_pages = max 1 ((total + lq_per_page lq - 1) div lq_per_page lq),
       lp_can_edit = can_write (form_access s (Some u) (fm_id mf)),
       lp_states = cell_options u t (workflow_columns s mf (lq_columns lq)) rows, lp_sla = clocks,
       lp_maint = maint_active s t (e_now env),
       lp_views = sort_by (\<lambda>a b. \<not> text_lt (vw_name b) (vw_name a))
         (filter (\<lambda>v. vw_user_id v = u_id u \<and> vw_form_id v = fm_id mf) (d_views s))\<rparr>))))"

definition export_cell :: "(pystr, (pyval \<times> pystr) list) dict \<Rightarrow> row \<Rightarrow> form_item \<Rightarrow> pystr" where
  "export_cell lmaps r it =
     (let c = text_or (bi_column it) []; v = rget r c in
      case dget lmaps c of
        Some l \<Rightarrow> if v = VNone then [] else py_str (relabel (Some l) v)
      | None \<Rightarrow>
        if v = VNone then []
        else if map_option f_data_type (bi_field it) = Some ''boolean'' then (if truthy v then ''yes'' else ''no'')
        else py_str v)"

definition list_csv :: "form_item list \<Rightarrow> row list \<Rightarrow> (pystr, (pyval \<times> pystr) list) dict \<Rightarrow> pystr" where
  "list_csv cols rows lmaps =
     csv_text (map (\<lambda>it. text_or (bi_column it) []) cols # map (\<lambda>r. map (export_cell lmaps r) cols) rows)"

definition export_list_csv :: "env \<Rightarrow> app_user \<Rightarrow> args \<Rightarrow> meta_form \<Rightarrow> meta_table \<Rightarrow> pystr comp" where
  "export_list_csv env u args mf t =
     bindC (list_query env u mf t args) (\<lambda>lq.
     bindC (list_found u t lq 1 None) (\<lambda>(rows, total).
     retC (list_csv (lq_columns lq) rows (rp_labels (lq_meta lq)))))"

text \<open>The export of selected rows.\<close>

definition selected_visible :: "app_user \<Rightarrow> meta_table \<Rightarrow> row \<Rightarrow> bool" where
  "selected_visible u t r =
     (if t_soft_delete t \<and> rget r ''deleted_at'' \<noteq> VNone then False
      else if t_row_owned t \<and> \<not> is_designer u \<and> \<not> (rget r ''created_by'' = VNone \<or> py_eq (rget r ''created_by'') (VInt (u_id u)))
        then False
      else True)"

definition bulk_export :: "env \<Rightarrow> app_user \<Rightarrow> args \<Rightarrow> args \<Rightarrow> meta_form \<Rightarrow> meta_table \<Rightarrow> pystr comp" where
  "bulk_export env u args form mf t =
     bindC (list_query env u mf t args) (\<lambda>lq.
     bindC (rows_by_ids (t_phys_name t) (selected_ids form)) (\<lambda>rows.
     retC (list_csv (lq_columns lq) (filter (selected_visible u t) rows) (rp_labels (lq_meta lq)))))"

subsection \<open>The board\<close>

record board_column =
  bc_value :: pyval
  bc_count :: nat
  bc_cards :: "(pyval \<times> pystr \<times> pyval list) list"

abbreviation BOARD_CAP :: nat where "BOARD_CAP \<equiv> 200"

definition card :: "meta_table \<Rightarrow> pystr \<Rightarrow> pystr list \<Rightarrow> row \<Rightarrow> pyval \<times> pystr \<times> pyval list" where
  "card t disp extra r =
     (let pk = rget r (t_pk_col t); title = rget r disp
      in (pk, if blank title then ''#'' @ py_str pk else py_str title, filter (\<lambda>v. \<not> blank v) (map (rget r) extra)))"

definition board_columns :: "(row \<Rightarrow> pyval \<times> pystr \<times> pyval list) \<Rightarrow> pyval list \<Rightarrow> pystr \<Rightarrow> row list \<Rightarrow> board_column list" where
  "board_columns mk opts col rows =
     (let bucket = (\<lambda>p. filter (\<lambda>r. p (rget r col)) rows);
          column = (\<lambda>v rs. \<lparr>bc_value = v, bc_count = length rs, bc_cards = map mk (take BOARD_CAP rs)\<rparr>);
          unset = bucket (\<lambda>v. \<not> py_in v opts)
      in map (\<lambda>opt. column opt (bucket (\<lambda>v. py_eq v opt))) opts @ (if unset = [] then [] else [column (VStr []) unset]))"

definition BOARD_EXTRA :: "pystr list" where
  "BOARD_EXTRA = [''string'', ''integer'', ''bigint'', ''decimal'', ''float'', ''date'', ''datetime'', ''time'', ''boolean'']"

text \<open>The choice fields the viewer may read; the one asked for, else one under a workflow, else the first.\<close>

definition board_fields :: "db \<Rightarrow> app_user \<Rightarrow> meta_table \<Rightarrow> meta_field list" where
  "board_fields s u t = filter (\<lambda>f. f_data_type f = ''enum'' \<and> f_phys_name f \<in> set (readable_fields s (Some u) t)) (t_fields t)"

definition board_field :: "db \<Rightarrow> meta_form \<Rightarrow> pystr option \<Rightarrow> meta_field list \<Rightarrow> meta_field option" where
  "board_field s mf grp fs = (case fs of
     [] \<Rightarrow> None
   | f # _ \<Rightarrow> (case find (\<lambda>x. Some (f_phys_name x) = grp) fs of
       Some x \<Rightarrow> Some x
     | None \<Rightarrow> (case find (\<lambda>x. dhas (workflows_for s (fm_table_id mf)) (f_id x)) fs of Some x \<Rightarrow> Some x | None \<Rightarrow> Some f)))"

definition board_extra :: "db \<Rightarrow> app_user \<Rightarrow> meta_table \<Rightarrow> pystr \<Rightarrow> pystr \<Rightarrow> pystr list" where
  "board_extra s u t disp col = take 2 (map f_phys_name (filter (\<lambda>f. f_data_type f \<in> set BOARD_EXTRA \<and>
     f_phys_name f \<notin> {disp, col} \<and> f_phys_name f \<in> set (readable_fields s (Some u) t)) (t_fields t)))"

definition form_kanban :: "app_user \<Rightarrow> pystr option \<Rightarrow> meta_form \<Rightarrow> meta_table \<Rightarrow> board_column list option comp" where
  "form_kanban u grp mf t =
     bindC (getC (\<lambda>s. board_field s mf grp (board_fields s u t))) (\<lambda>fo. case fo of
       None \<Rightarrow> retC None
     | Some f \<Rightarrow>
       bindC (liftC (enum_choices f)) (\<lambda>ch.
       bindC (list_records t (Some (u_id u)) (is_designer u) False [] None ''asc'' 1 None) (\<lambda>(rows, total).
       getC (\<lambda>s. let disp = display_field_name s (Some t) in
         Some (board_columns (card t disp (board_extra s u t disp (f_phys_name f))) (map fst ch) (f_phys_name f) rows)))))"

subsection \<open>Search\<close>

definition sub_at :: "pystr \<Rightarrow> pystr \<Rightarrow> nat \<Rightarrow> bool" where
  "sub_at q x i = (take (length q) (drop i x) = q)"

definition find_sub :: "pystr \<Rightarrow> pystr \<Rightarrow> nat option" where
  "find_sub q x = find (sub_at q x) [0..<Suc (length x)]"

definition snippet :: "pystr \<Rightarrow> pystr \<Rightarrow> nat \<Rightarrow> pystr \<times> pystr \<times> pystr" where
  "snippet x q i =
     (let start = i - 40; fin = min (length x) (i + length q + 40)
      in ((if start \<noteq> 0 then ''...'' else []) @ drop start (take i x),
          take (length q) (drop i x),
          drop (i + length q) (take fin x) @ (if fin < length x then ''...'' else [])))"

definition match_snippet :: "db \<Rightarrow> meta_table \<Rightarrow> row \<Rightarrow> pystr \<Rightarrow> (pystr \<times> pystr \<times> pystr \<times> pystr) option" where
  "match_snippet s t r q =
     (let disp = display_field_name s (Some t);
          fs = filter (\<lambda>f. is_text_search (f_data_type f)) (t_fields t)
      in first_some (\<lambda>f. let x = text_of (rget r (f_phys_name f)) in
           map_option (\<lambda>i. (f_label f, snippet x q i)) (find_sub (py_lower q) (py_lower x)))
         (filter (\<lambda>f. f_phys_name f = disp) fs @ filter (\<lambda>f. f_phys_name f \<noteq> disp) fs))"

definition first_readable_form :: "db \<Rightarrow> app_user \<Rightarrow> int \<Rightarrow> meta_form option" where
  "first_readable_form s u table_id =
     find (\<lambda>f. can_read (form_access s (Some u) (fm_id f))) (sort_key fm_id (edit_forms s table_id))"

record search_group =
  sg_table :: meta_table
  sg_records :: "(pyval \<times> pystr \<times> (pystr \<times> pystr \<times> pystr \<times> pystr) option) list"
  sg_total :: int
  sg_form :: "int option"

definition search_table :: "app_user \<Rightarrow> pystr \<Rightarrow> meta_table \<Rightarrow> search_group list comp" where
  "search_table u q t =
     bindC (getC (\<lambda>s. (case table_view_form s (t_id t) of
         None \<Rightarrow> False | Some vf \<Rightarrow> can_read (form_access s (Some u) (fm_id vf)), q_filter s t q))) (\<lambda>(ok, flt).
     if \<not> ok then retC []
     else bindC (list_records t (Some (u_id u)) (is_designer u) False [flt] None ''asc'' 1 (Some 10)) (\<lambda>(rows, total).
          getC (\<lambda>s. if rows = [] then [] else [\<lparr>sg_table = t, sg_records = map (\<lambda>r. (rget r (t_pk_col t),
            row_label s t r (rget r (t_pk_col t)), match_snippet s t r q)) rows, sg_total = total,
            sg_form = map_option fm_id (first_readable_form s u (t_id t))\<rparr>])))"

definition all_tables :: "db \<Rightarrow> meta_table list" where
  "all_tables s = sort_by (\<lambda>a b. \<not> text_lt (t_label b) (t_label a)) (d_tables s)"

definition search :: "app_user \<Rightarrow> pystr \<Rightarrow> search_group list comp" where
  "search u q0 =
     (let q = py_strip q0 in
      if q = [] then retC []
      else bindC (getC all_tables) (\<lambda>ts.
           foldC (\<lambda>t acc. bindC (search_table u q t) (\<lambda>g. retC (acc @ g))) ts []))"

subsection \<open>The home page\<close>

record work_item =
  wi_table :: meta_table
  wi_pk :: pyval
  wi_label :: pystr
  wi_status :: pyval

definition status_of :: "meta_table \<Rightarrow> row \<Rightarrow> pyval" where
  "status_of t r = (case find (\<lambda>f. f_data_type f = ''enum'') (t_fields t) of None \<Rightarrow> VNone | Some f \<Rightarrow> rget r (f_phys_name f))"

definition work_row :: "db \<Rightarrow> meta_table \<Rightarrow> row \<Rightarrow> work_item" where
  "work_row s t r = \<lparr>wi_table = t, wi_pk = rget r (t_pk_col t), wi_label = row_label s t r (rget r (t_pk_col t)), wi_status = status_of t r\<rparr>"

text \<open>Rows whose first user field is the account; a source that fails is left out.\<close>

definition my_work_table :: "app_user \<Rightarrow> nat \<Rightarrow> meta_table \<Rightarrow> work_item list comp" where
  "my_work_table u limit t =
     bindC (getC (\<lambda>s. if table_readable s (Some u) t then find (\<lambda>f. f_data_type f = ''user'') (t_fields t) else None)) (\<lambda>uf.
     case uf of
       None \<Rightarrow> retC []
     | Some f \<Rightarrow>
       bindC (attempt (list_records t (Some (u_id u)) (is_designer u) False
           [FCond (f_phys_name f) (Some ''eq'') (VInt (u_id u)) False]
           (if t_track_audit t then Some ''updated_at'' else None) ''desc'' 1 (Some (int limit)))) (\<lambda>x. case x of
         Inl _ \<Rightarrow> retC []
       | Inr (rows, n) \<Rightarrow> getC (\<lambda>s. map (work_row s t) rows)))"

definition my_work :: "app_user \<Rightarrow> nat \<Rightarrow> work_item list comp" where
  "my_work u limit = bindC (getC d_tables) (\<lambda>ts.
     bindC (foldC (\<lambda>t acc. bindC (my_work_table u limit t) (\<lambda>x. retC (acc @ x))) ts []) (\<lambda>out. retC (take limit out)))"

definition recent_entry :: "app_user \<Rightarrow> audit_log \<Rightarrow> work_item option comp" where
  "recent_entry u a =
     bindC (getC (\<lambda>s. case table_by_phys s (al_table_phys a) of
         None \<Rightarrow> None | Some t \<Rightarrow> if table_readable s (Some u) t then Some t else None)) (\<lambda>x. case x of
       None \<Rightarrow> retC None
     | Some t \<Rightarrow> bindC (attempt (get_row (t_phys_name t) (al_row_pk a))) (\<lambda>r. case r of
         Inr (Some x) \<Rightarrow> getC (\<lambda>s. if x = [] \<or> truthy (rget x ''deleted_at'') then None
           else Some \<lparr>wi_table = t, wi_pk = al_row_pk a, wi_label = row_label s t x (al_row_pk a), wi_status = VNone\<rparr>)
       | _ \<Rightarrow> retC None))"

fun recent_loop :: "app_user \<Rightarrow> nat \<Rightarrow> audit_log list \<Rightarrow> (pystr \<times> pystr) list \<Rightarrow> work_item list \<Rightarrow> work_item list comp" where
  "recent_loop u limit [] seen out = retC out"
| "recent_loop u limit (a # as) seen out =
     (let key = (al_table_phys a, py_str (al_row_pk a)) in
      if al_row_pk a = VNone \<or> key \<in> set seen then recent_loop u limit as seen out
      else bindC (recent_entry u a) (\<lambda>e. case e of
        None \<Rightarrow> recent_loop u limit as (key # seen) out
      | Some x \<Rightarrow> if limit \<le> length out + 1 then retC (out @ [x]) else recent_loop u limit as (key # seen) (out @ [x])))"

definition recent_records :: "app_user \<Rightarrow> nat \<Rightarrow> work_item list comp" where
  "recent_records u limit =
     bindC (getC (\<lambda>s. take 60 (rev (sort_key al_id (filter (\<lambda>a. al_user_id a = Some (u_id u) \<and> al_action a \<in> {''create'', ''update''})
       (d_audit s)))))) (\<lambda>logs. recent_loop u limit logs [] [])"

definition sla_next :: "env \<Rightarrow> app_user \<Rightarrow> nat \<Rightarrow> (next_clock \<times> pystr) list comp" where
  "sla_next env u limit =
     bindC (getC (\<lambda>s. breaching_next env s u limit)) (\<lambda>es.
     foldC (\<lambda>e acc. bindC (attempt (get_row (t_phys_name (nx_table e)) (VStr (nx_pk e)))) (\<lambda>r. case r of
         Inr (Some x) \<Rightarrow> getC (\<lambda>s. if x = [] \<or> truthy (rget x ''deleted_at'') then acc
           else acc @ [(e, row_label s (nx_table e) x (VStr (nx_pk e)))])
       | _ \<Rightarrow> retC acc)) es [])"

record home_page =
  hm_tiles :: "(report_def \<times> meta_table \<times> report) list"
  hm_personal :: "dashboard list"
  hm_shared :: "dashboard list"
  hm_work :: "work_item list"
  hm_sla :: "(next_clock \<times> pystr) list"
  hm_recent :: "work_item list"

definition pinned_tile :: "env \<Rightarrow> app_user \<Rightarrow> report_def \<Rightarrow> (report_def \<times> meta_table \<times> report) list comp" where
  "pinned_tile env u r =
     bindC (getC (\<lambda>s. case get_table s (rd_table_id r) of
         None \<Rightarrow> None
       | Some t \<Rightarrow> if table_readable s (Some u) t then Some (t, scope_filters s t (Some (u_id u)) (is_designer u) False) else None)) (\<lambda>x.
     case x of
       None \<Rightarrow> retC []
     | Some (t, scope) \<Rightarrow> bindC (build_report env t (parse_qsl (rd_query r)) scope (Some u)) (\<lambda>ctx. retC [(r, t, ctx)]))"

definition home :: "env \<Rightarrow> app_user \<Rightarrow> home_page comp" where
  "home env u =
     bindC (getC (\<lambda>s. sort_by (\<lambda>a b. \<not> text_lt (rd_name b) (rd_name a))
       (filter (\<lambda>r. rd_user_id r = u_id u \<and> rd_pinned r) (d_reports s)))) (\<lambda>pinned.
     bindC (foldC (\<lambda>r acc. bindC (pinned_tile env u r) (\<lambda>x. retC (acc @ x))) pinned []) (\<lambda>tiles.
     bindC (my_work u 12) (\<lambda>work.
     bindC (sla_next env u 8) (\<lambda>due.
     bindC (recent_records u 8) (\<lambda>recent.
     getC (\<lambda>s. \<lparr>hm_tiles = tiles,
       hm_personal = sort_key da_position (sort_key da_id (filter (\<lambda>d. da_owner_user_id d = Some (u_id u)) (d_dashboards s))),
       hm_shared = filter (dash_visible s (Some u)) (sort_by (\<lambda>a b. \<not> text_lt (da_name b) (da_name a))
         (filter (\<lambda>d. da_owner_user_id d = None) (d_dashboards s))),
       hm_work = work, hm_sla = due, hm_recent = recent\<rparr>))))))"

subsection \<open>The page of a record\<close>

datatype view_item =
    ViewFiles pystr bool "attachment list"
  | ViewScalar pystr pyval pystr
  | ViewOne pystr int pyval "pystr option"
  | ViewMany pystr int "(pyval \<times> pystr) list"

definition view_one :: "meta_field \<Rightarrow> pystr \<Rightarrow> pyval \<Rightarrow> view_item list comp" where
  "view_one f lbl rid =
     bindC (getC (\<lambda>s. m1_target s f)) (\<lambda>tg. case tg of
       None \<Rightarrow> failC TypeErr
     | Some (t, cols) \<Rightarrow>
       bindC (if truthy rid then labels_for (t_phys_name t) [rid] cols else retC []) (\<lambda>ls.
       retC [ViewOne lbl (t_id t) rid (case ls of l # _ \<Rightarrow> Some l | [] \<Rightarrow> if truthy rid then Some (py_str rid) else None)]))"

definition view_many :: "meta_form \<Rightarrow> form_item \<Rightarrow> meta_relation \<Rightarrow> pyval \<Rightarrow> view_item list comp" where
  "view_many vf it rel pk =
     (let other_id = (if r_from_table_id rel = fm_table_id vf then r_to_table_id rel else r_from_table_id rel) in
      bindC (getC (\<lambda>s. map_option (\<lambda>t. (t, display_field_name s (Some t))) (get_table s other_id))) (\<lambda>ot.
      bindC (get_links (text_or (bi_junction it) []) (bi_this_col it) pk (bi_other_col it)) (\<lambda>ids. case ot of
        None \<Rightarrow> failC TypeErr
      | Some (other, disp) \<Rightarrow>
        bindC (labels_for (t_phys_name other) ids [disp]) (\<lambda>ls.
        retC [ViewMany (bi_label it) other_id (zip ids ls)]))))"

definition view_item_of :: "meta_form \<Rightarrow> meta_table \<Rightarrow> row \<Rightarrow> form_item \<Rightarrow> view_item list comp" where
  "view_item_of vf t r it =
     (let pk = rget r (t_pk_col t); v = rget r (text_or (bi_column it) []) in
      case (bi_field it, bi_rel it) of
        (Some f, _) \<Rightarrow>
          if bi_kind it = ''file'' then getC (\<lambda>s. [ViewFiles (bi_label it) (f_data_type f = ''image'')
            (sort_key am_id (filter (attachment_of (f_id f) pk) (d_attachments s)))])
          else if bi_kind it = ''field'' then retC [ViewScalar (bi_label it) v (f_data_type f)]
          else if bi_kind it = ''relation_m1'' then view_one f (bi_label it) v
          else retC []
      | (None, Some rel) \<Rightarrow> if bi_kind it = ''relation_mn'' then view_many vf it rel pk else retC []
      | _ \<Rightarrow> retC [])"

definition view_items :: "meta_form \<Rightarrow> meta_table \<Rightarrow> form_item list \<Rightarrow> row \<Rightarrow> view_item list comp" where
  "view_items vf t its r = foldC (\<lambda>it acc. bindC (view_item_of vf t r it) (\<lambda>x. retC (acc @ x))) its []"

definition attachments_map :: "db \<Rightarrow> form_item list \<Rightarrow> pyval option \<Rightarrow> (int, attachment list) dict" where
  "attachments_map s its pk = (case pk of
     None \<Rightarrow> []
   | Some k \<Rightarrow> if \<not> truthy k then []
       else fold (\<lambda>it d. case (if bi_kind it = ''file'' then bi_field it else None) of
              None \<Rightarrow> d
            | Some f \<Rightarrow> dset (f_id f) (sort_key am_id (filter (attachment_of (f_id f) k) (d_attachments s))) d) its [])"

record related_list =
  rl_table :: meta_table
  rl_form :: int
  rl_columns :: "pystr list"
  rl_rows :: "row list"
  rl_total :: int
  rl_can_edit :: bool

definition child_form :: "db \<Rightarrow> int \<Rightarrow> meta_form option" where
  "child_form s table_id = find (\<lambda>f. fm_table_id f = table_id) (sort_key fm_id (d_forms s))"

definition child_of :: "db \<Rightarrow> app_user \<Rightarrow> meta_relation \<Rightarrow> (meta_table \<times> meta_field \<times> meta_form) option" where
  "child_of s u rel =
     (case (get_table s (r_from_table_id rel), (case some_id (r_from_field_id rel) of None \<Rightarrow> None | Some i \<Rightarrow> get_field s i)) of
        (Some c, Some fk) \<Rightarrow> (case child_form s (t_id c) of
            None \<Rightarrow> None | Some cf \<Rightarrow> if can_read (form_access s (Some u) (fm_id cf)) then Some (c, fk, cf) else None)
      | _ \<Rightarrow> None)"

definition related_list_of :: "app_user \<Rightarrow> pyval \<Rightarrow> meta_relation \<Rightarrow> related_list list comp" where
  "related_list_of u pk rel =
     bindC (getC (\<lambda>s. child_of s u rel)) (\<lambda>x. case x of
       None \<Rightarrow> retC []
     | Some (c, fk, cf) \<Rightarrow>
       bindC (list_records c (Some (u_id u)) (is_designer u) False [FCond (f_phys_name fk) (Some ''eq'') pk False]
         None ''asc'' 1 (Some 50)) (\<lambda>(rows, total).
       getC (\<lambda>s. [\<lparr>rl_table = c, rl_form = fm_id cf,
         rl_columns = take 4 (map f_phys_name (filter (\<lambda>f. f_data_type f \<noteq> RELATION_TYPE) (t_fields c))),
         rl_rows = rows, rl_total = total, rl_can_edit = can_write (form_access s (Some u) (fm_id cf))\<rparr>])))"

definition related_lists :: "app_user \<Rightarrow> meta_form \<Rightarrow> pyval \<Rightarrow> related_list list comp" where
  "related_lists u mf pk =
     bindC (getC (\<lambda>s. filter (\<lambda>r. r_kind r = ''m1'' \<and> r_to_table_id r = fm_table_id mf) (d_rels s))) (\<lambda>rels.
     foldC (\<lambda>rel acc. bindC (related_list_of u pk rel) (\<lambda>x. retC (acc @ x))) rels [])"

definition history :: "db \<Rightarrow> meta_table \<Rightarrow> pyval \<Rightarrow> (audit_log \<times> pystr) list" where
  "history s t pk = map (\<lambda>a. (a, case al_user_id a of
       None \<Rightarrow> ''-'' | Some i \<Rightarrow> (case get_user s i of None \<Rightarrow> ''-'' | Some u \<Rightarrow> u_username u)))
     (take 50 (rev (sort_key al_id (filter (\<lambda>a. al_table_phys a = t_phys_name t \<and> sql_eq (al_row_pk a) (coerce_col CInt pk)) (d_audit s)))))"

record record_page =
  rg_label :: pystr
  rg_items :: "view_item list"
  rg_edit_form :: "int option"
  rg_can_send :: bool
  rg_can_assign :: bool
  rg_deleted :: bool
  rg_watching :: bool
  rg_related :: "related_list list"
  rg_history :: "(audit_log \<times> pystr) list"
  rg_clocks :: "clock_panel list"
  rg_approvals :: "(request_view \<times> bool) list"
  rg_thread :: "(comment \<times> pystr) list"
  rg_maint :: "maintenance_window option"
  rg_windows :: "(maintenance_window \<times> mw_status) list"
  rg_list :: "int option"

definition edit_form_of :: "db \<Rightarrow> app_user \<Rightarrow> int \<Rightarrow> int option" where
  "edit_form_of s u table_id = map_option fm_id
     (find (\<lambda>f. can_write (form_access s (Some u) (fm_id f))) (sort_key fm_id (edit_forms s table_id)))"

definition record_view :: "env \<Rightarrow> app_user \<Rightarrow> int \<Rightarrow> pyval \<Rightarrow> record_page comp" where
  "record_view env u table_id pk = with_view u table_id pk (\<lambda>t vf r.
     bindC (build_form env (Some u) vf) (\<lambda>(b, cfg).
     bindC (view_items vf t (bf_items b) r) (\<lambda>items.
     bindC (related_lists u vf pk) (\<lambda>related.
     bindC (bindC (getC (\<lambda>s. clocks_for_record env s table_id (t_phys_name t) pk)) liftC) (\<lambda>clocks.
     getC (\<lambda>s. \<lparr>rg_label = row_label s t r pk, rg_items = items, rg_edit_form = edit_form_of s u table_id,
       rg_can_send = (manual_feeds s table_id \<noteq> []),
       rg_can_assign = (case find (\<lambda>f. f_data_type f = ''user'') (t_fields t) of
          None \<Rightarrow> False
        | Some f \<Rightarrow> edit_form_of s u table_id \<noteq> None \<and> \<not> py_eq (rget r (f_phys_name f)) (VInt (u_id u))),
       rg_deleted = truthy (rget r ''deleted_at''), rg_watching = is_watching s (u_id u) (t_phys_name t) pk,
       rg_related = related, rg_history = (if t_track_audit t then history s t pk else []), rg_clocks = clocks,
       rg_approvals = map (\<lambda>v. (v, can_act s (rv_req v) u)) (requests_for_record s (t_phys_name t) pk),
       rg_thread = list_for s (t_phys_name t) pk True, rg_maint = maint_active s t (e_now env),
       rg_windows = map (\<lambda>w. (w, maint_status w (e_now env))) (maint_for_record s table_id pk),
       rg_list = map_option fm_id (first_readable_form s u table_id)\<rparr>))))))"

subsection \<open>What a list shows\<close>

lemmas list_frames = list_records_def list_rows_def list_found_def build_meta_def meta_column_def load_options_def

lemma keeps_list_found: "keeps (=) (list_found u t lq page per)"
  unfolding list_frames by (intro reads.keeps reads.keeps_read)

lemma keeps_list_records: "keeps (=) (list_records t u d del fs c ord pg per)"
  unfolding list_frames by (intro reads.keeps reads.keeps_read)

lemma keeps_build_meta: "keeps (=) (build_meta user cols)"
  unfolding list_frames by (intro reads.keeps reads.keeps_read)

lemma list_query_parts:
  assumes "list_query env u mf t args s = (Inr lq, s')"
  obtains b cfg m where "build_form env (Some u) mf s = (Inr (b, cfg), s)"
    "build_meta (Some u) (List.map_filter rcol_of_item (lq_columns lq)) s = (Inr m, s)"
    "lq_columns lq = list_items (bf_items b)" "lq_meta lq = m" "lq_conditions lq = list_conditions args (rp_meta m)"
    "lq_per_page lq = per_page_arg args mf" "s' = s"
proof -
  from assms obtain b cfg s1 m s2 where 1: "build_form env (Some u) mf s = (Inr (b, cfg), s1)"
    and 2: "build_meta (Some u) (List.map_filter rcol_of_item (list_items (bf_items b))) s1 = (Inr m, s2)"
    and 3: "lq_columns lq = list_items (bf_items b)" "lq_meta lq = m" "lq_conditions lq = list_conditions args (rp_meta m)"
      "lq_per_page lq = per_page_arg args mf" "s' = s2"
    by (auto simp: list_query_def Let_def comp_run elim!: bindC_InrE)
  have "s1 = s" using build_form_ok(1) [OF 1] .
  moreover from 2 keeps_build_meta have "s2 = s1" by (metis keepsD)
  ultimately show ?thesis using that 1 2 3 by simp
qed

text \<open>The rows the account's scope leaves of a table.\<close>

definition scoped_row :: "db \<Rightarrow> app_user \<Rightarrow> meta_table \<Rightarrow> row \<Rightarrow> bool" where
  "scoped_row s u t r = (case dget (d_phys s) (t_phys_name t) of
     None \<Rightarrow> False
   | Some p \<Rightarrow> r \<in> set (apply_filters p (scope_filters s t (Some (u_id u)) (is_designer u) False) (ph_rows p)))"

lemma apply_more: "set (apply_filters p (fs @ es) rows) \<subseteq> set (apply_filters p es rows)"
  by (auto simp: apply_filters_def List.map_filter_def)

lemma set_page: "set (page_of pg per xs) \<subseteq> set xs"
  by (auto simp: page_of_def split: option.splits dest: in_set_takeD in_set_dropD)

lemma list_records_scoped:
  assumes "list_records t (Some (u_id u)) (is_designer u) False fs c ord pg per s = (Inr (rows, n), s')"
  shows "list_all (scoped_row s u t) rows"
proof -
  let ?e = "scope_filters s t (Some (u_id u)) (is_designer u) False"
  from assms obtain p xs where p: "dget (d_phys s) (t_phys_name t) = Some p"
    and rows: "rows = page_of pg per xs" and xs: "set xs = set (apply_filters p (fs @ ?e) (ph_rows p))"
    by (auto simp: list_records_def list_rows_def comp_simps read_phys_def reflect_def Let_def
        split: option.splits if_splits)
  with apply_more [of p fs ?e "ph_rows p"] set_page [of pg per xs]
  have "r \<in> set (apply_filters p ?e (ph_rows p))" if "r \<in> set rows" for r using that by blast
  with p show ?thesis by (simp add: scoped_row_def list_all_iff)
qed

text \<open>A column whose field the account may see.\<close>

definition shown_column :: "db \<Rightarrow> app_user \<Rightarrow> form_item \<Rightarrow> bool" where
  "shown_column s u it = (case bi_field it of
     None \<Rightarrow> False
   | Some f \<Rightarrow> bi_column it = Some (f_phys_name f) \<and> field_level s (Some u) f \<noteq> access_none)"

lemma list_items_shown:
  assumes "list_all (item_ok s (Some u)) its"
  shows "list_all (shown_column s u) (list_items its)"
  using assms by (auto simp: list_all_iff list_items_def shown_column_def item_ok_def ruled_kind_def split: option.splits)

lemma condition_columns:
  assumes "build_meta (Some u) (List.map_filter rcol_of_item cols) s = (Inr m, s')"
    and "(i, c, op, v) \<in> set (list_conditions args (rp_meta m))"
  shows "c \<in> (\<lambda>it. text_or (bi_column it) []) ` set cols"
proof -
  from assms(2) have "dhas (rp_meta m) c"
    by (auto simp: list_conditions_def condition_valid_def dhas_iff split: option.splits)
  with build_meta_keys [OF assms(1) [unfolded build_meta_def]]
  have "c \<in> rk_column ` set (List.map_filter rcol_of_item cols)" by (simp add: dhas_def)
  then show ?thesis by (auto simp: List.map_filter_def rcol_of_item_def)
qed

text \<open>
  C33: the list of a form shows what its account may see: the form must be readable, every row is one of the rows its
  scope leaves of the table (trash, own rows and companies included), whatever filters, order and page the request
  asks for, every column is a field the account may see, and the conditions on show are about those columns. Looking
  changes nothing.
\<close>

theorem list_shows_permitted:
  assumes "with_form u i can_read (form_list env u args) s = (Inr lp, s')"
  shows "\<exists>mf t. get_form s i = Some mf \<and> can_read (form_access s (Some u) i) \<and> get_table s (fm_table_id mf) = Some t \<and>
    list_all (scoped_row s u t) (lp_rows lp) \<and> list_all (shown_column s u) (lq_columns (lp_query lp)) \<and>
    list_all (\<lambda>(k, c, op, v). c \<in> (\<lambda>it. text_or (bi_column it) []) ` set (lq_columns (lp_query lp))) (lq_conditions (lp_query lp)) \<and>
    s' = s"
proof -
  from assms obtain mf t where 1: "get_form s i = Some mf" "can_read (form_access s (Some u) i)"
      "get_table s (fm_table_id mf) = Some t" and run: "form_list env u args mf t s = (Inr lp, s')"
    by (auto simp: with_form_def bindC_get failC_def split: option.splits if_splits)
  from run obtain lq s1 rows n s2 where q: "list_query env u mf t args s = (Inr lq, s1)"
    and r: "list_found u t lq (lq_page lq) (Some (lq_per_page lq)) s1 = (Inr (rows, n), s2)"
    and lp: "lp_query lp = lq" "lp_rows lp = rows" "s' = s2"
    by (auto simp: form_list_def comp_run bindC_get elim!: bindC_InrE)
  from keepsD [OF keeps_list_found r] have "s2 = s1" by simp
  moreover from q obtain b cfg m where b: "build_form env (Some u) mf s = (Inr (b, cfg), s)" "s1 = s"
    "lq_columns lq = list_items (bf_items b)" "build_meta (Some u) (List.map_filter rcol_of_item (lq_columns lq)) s = (Inr m, s)"
    "lq_conditions lq = list_conditions args (rp_meta m)"
    by (rule list_query_parts) auto
  moreover have "list_all (scoped_row s u t) rows"
    using list_records_scoped [OF r [unfolded list_found_def]] b(2) by simp
  moreover have "list_all (shown_column s u) (lq_columns lq)"
    using list_items_shown [OF build_form_ok(2) [OF b(1)]] b(3) by simp
  moreover have "list_all (\<lambda>(k, c, op, v). c \<in> (\<lambda>it. text_or (bi_column it) []) ` set (lq_columns lq)) (lq_conditions lq)"
    using condition_columns [OF b(4)] b(5) by (auto simp: list_all_iff)
  ultimately show ?thesis using 1 lp by blast
qed

text \<open>The rows of one page of a list.\<close>

definition page_rows :: "app_user \<Rightarrow> meta_table \<Rightarrow> list_query \<Rightarrow> nat \<Rightarrow> db \<Rightarrow> row list" where
  "page_rows u t lq k s = (case fst (list_found u t lq (int k) (Some (lq_per_page lq)) s) of Inr (rows, n) \<Rightarrow> rows | Inl _ \<Rightarrow> [])"

lemma per_page_pos: "0 < per_page_arg args mf"
  by (auto simp: per_page_arg_def ALLOWED_PER_PAGE_def Let_def split: option.splits)

lemma length_sort_by: "length (sort_by le xs) = length xs"
proof -
  have "length (insert_by le x ys) = Suc (length ys)" for x ys by (induction ys) auto
  then show ?thesis by (induction xs) (simp_all add: sort_by_def)
qed

lemma page_of_found:
  assumes "list_found u t lq 1 None s = (Inr (rows, n), s1)"
  shows "list_found u t lq pg (Some k) s = (Inr (page_of pg (Some k) rows, n), s)" "n = int (length rows)"
proof -
  let ?fs = "lq_filters lq @ scope_filters s t (Some (u_id u)) (is_designer u) False"
  have run: "list_found u t lq page per s = list_rows (t_phys_name t) ?fs (lq_sort lq) (lq_order lq) page per s" for page per
    by (simp add: list_found_def list_records_def comp_simps)
  from assms [unfolded run] obtain p where p: "dget (d_phys s) (t_phys_name t) = Some p"
    by (auto simp: list_rows_def read_phys_def reflect_def comp_simps split: option.splits)
  define found where "found = apply_filters p ?fs (ph_rows p)"
  define xs where "xs = (case lq_sort lq of
      Some c \<Rightarrow> if c \<noteq> [] \<and> has_col p c then order_by c (lq_order lq = ''desc'') found else order_by (ph_pk p) False found
    | None \<Rightarrow> order_by (ph_pk p) False found)"
  have all: "list_found u t lq page per s = (Inr (page_of page per xs, int (length found)), s)" for page per
    unfolding run by (simp add: list_rows_def read_phys_def reflect_def comp_simps p xs_def found_def Let_def split: option.split)
  have len: "length (order_by c d ys) = length ys" for c d ys
    unfolding order_by_def by (rule length_sort_by)
  have "length xs = length found" by (simp add: xs_def len split: option.split)
  with assms all [of 1 None] all [of pg "Some k"]
  show "list_found u t lq pg (Some k) s = (Inr (page_of pg (Some k) rows, n), s)" "n = int (length rows)"
    by (auto simp: page_of_def)
qed

lemma pages_enough:
  fixes n k :: int
  assumes "0 < k"
  shows "n \<le> max 1 ((n + k - 1) div k) * k"
proof -
  have "n \<le> (n + k - 1) div k * k"
    using pos_mod_bound [OF assms, of "n + k - 1"] unfolding minus_mod_eq_div_mult [symmetric] by linarith
  also have "\<dots> \<le> max 1 ((n + k - 1) div k) * k" using assms by (intro mult_right_mono) auto
  finally show ?thesis .
qed

text \<open>
  C34: the export of a list is its pages, one after the other: no row is lost, repeated or added between what the
  list shows and what the file holds, and the number of pages shown is enough.
\<close>

theorem export_is_pages:
  assumes "export_list_csv env u args mf t s = (Inr csv, s1)" "form_list env u args mf t s = (Inr lp, s2)"
  shows "csv = list_csv (lq_columns (lp_query lp))
    (concat (map (\<lambda>k. page_rows u t (lp_query lp) k s) [1 ..< Suc (nat (lp_pages lp))])) (rp_labels (lq_meta (lp_query lp)))"
proof -
  from assms(2) obtain lq s3 rows n s4 where q: "list_query env u mf t args s = (Inr lq, s3)"
    and r: "list_found u t lq (lq_page lq) (Some (lq_per_page lq)) s3 = (Inr (rows, n), s4)"
    and lp: "lp_query lp = lq" "lp_pages lp = max 1 ((n + lq_per_page lq - 1) div lq_per_page lq)"
    by (auto simp: form_list_def comp_run bindC_get elim!: bindC_InrE)
  from q have s3: "s3 = s" and per: "lq_per_page lq = per_page_arg args mf" by (auto elim: list_query_parts)
  from assms(1) q obtain found m where f: "list_found u t lq 1 None s = (Inr (found, m), s1)"
    and csv: "csv = list_csv (lq_columns lq) found (rp_labels (lq_meta lq))"
    by (auto simp: export_list_csv_def comp_run s3 elim!: bindC_InrE)
  note pos = per_page_pos [of args mf, folded per]
  note pg = page_of_found(1) [OF f]
  from r pg [of "lq_page lq" "lq_per_page lq"] page_of_found(2) [OF f] s3 have n: "n = int (length found)" by simp
  have "concat (map (\<lambda>k. page_rows u t lq k s) [1 ..< Suc (nat (lp_pages lp))]) =
      take (nat (lp_pages lp) * nat (lq_per_page lq)) found"
    using pages_partition [OF pos] by (simp add: page_rows_def pg del: upt_Suc)
  also have "\<dots> = found"
  proof -
    have "int (length found) \<le> lp_pages lp * lq_per_page lq" using pages_enough [OF pos, of n] n lp(2) by simp
    moreover have "0 \<le> lp_pages lp" using lp(2) by simp
    ultimately have "length found \<le> nat (lp_pages lp) * nat (lq_per_page lq)"
      unfolding nat_mult_distrib [OF \<open>0 \<le> lp_pages lp\<close>, symmetric] by linarith
    then show ?thesis by simp
  qed
  finally show ?thesis using csv lp by simp
qed

lemma foldC_all:
  assumes "foldC f xs acc s = (Inr out, s')" "list_all P acc" "\<And>x y. keeps (=) (f x y)"
    and "\<And>x y z. f x y s = (Inr z, s) \<Longrightarrow> x \<in> set xs \<Longrightarrow> list_all P y \<Longrightarrow> list_all P z"
  shows "list_all P out \<and> s' = s"
  using assms(1,2,4)
proof (induction xs arbitrary: acc)
  case Nil
  then show ?case by (simp add: retC_def)
next
  case (Cons x xs)
  from Cons.prems(1) obtain z s1 where 1: "f x acc s = (Inr z, s1)" and 2: "foldC f xs z s1 = (Inr out, s')"
    by (auto elim!: bindC_InrE)
  have s1: "s1 = s" using keepsD [OF assms(3) 1] by simp
  have "list_all P z" using Cons.prems(2,3) 1 s1 by simp
  with Cons.IH [of z] 2 s1 Cons.prems(3) show ?case by simp
qed

text \<open>A reading that adds to a list what it finds for each of a list of things.\<close>

lemma collected_all:
  assumes "foldC (\<lambda>x acc. bindC (f x) (\<lambda>y. retC (acc @ y))) xs [] s = (Inr out, s')" "\<And>x. keeps (=) (f x)"
    and "\<And>x y. f x s = (Inr y, s) \<Longrightarrow> x \<in> set xs \<Longrightarrow> list_all P y"
  shows "list_all P out" "s' = s"
proof -
  have "list_all P out \<and> s' = s"
  proof (rule foldC_all [OF assms(1)])
    show "keeps (=) (bindC (f x) (\<lambda>y. retC (acc @ y)))" for x acc
      by (intro reads.keeps assms(2))
    show "list_all P z" if "bindC (f x) (\<lambda>y. retC (acc @ y)) s = (Inr z, s)" "x \<in> set xs" "list_all P acc" for x acc z
    proof -
      from that(1) obtain y where y: "f x s = (Inr y, s)" and z: "z = acc @ y"
        using keepsD [OF assms(2) [of x]] by (auto simp: comp_run elim!: bindC_InrE)
      from assms(3) [OF y that(2)] that(3) z show ?thesis by simp
    qed
  qed simp
  then show "list_all P out" "s' = s" by simp_all
qed

subsection \<open>What search and the home page show\<close>

lemma keeps_get_row: "keeps (=) (get_row t k)"
  unfolding get_row_def by (intro reads.keeps reads.keeps_read)

lemma keeps_sum: "(\<And>e. keeps R (f e)) \<Longrightarrow> (\<And>x. keeps R (g x)) \<Longrightarrow> keeps R (case v of Inl e \<Rightarrow> f e | Inr x \<Rightarrow> g x)"
  by (cases v) simp_all

lemma keeps_panels:
  "keeps (=) (search_table u q t)" "keeps (=) (my_work_table u k t)" "keeps (=) (recent_entry u a)"
  "keeps (=) (recent_loop u k as seen out)" "keeps (=) (pinned_tile env u r)"
proof -
  show "keeps (=) (search_table u q t)" "keeps (=) (my_work_table u k t)" "keeps (=) (recent_entry u a)"
    unfolding search_table_def my_work_table_def recent_entry_def Let_def
    by (intro reads.keeps reads.keeps_read keeps_list_records keeps_attempt keeps_sum keeps_get_row)+
  have entry: "keeps (=) (recent_entry w a)" for w a
    unfolding recent_entry_def by (intro reads.keeps reads.keeps_read keeps_attempt keeps_sum keeps_get_row)
  show "keeps (=) (recent_loop u k as seen out)"
  proof (induction u k as seen out rule: recent_loop.induct)
    case (2 u k a as seen out)
    let ?seen = "(al_table_phys a, py_str (al_row_pk a)) # seen"
    have step: "keeps (=) (case e of None \<Rightarrow> recent_loop u k as ?seen out
      | Some x \<Rightarrow> if k \<le> length out + 1 then retC (out @ [x]) else recent_loop u k as ?seen (out @ [x]))"
      if "\<not> (al_row_pk a = VNone \<or> (al_table_phys a, py_str (al_row_pk a)) \<in> set seen)" for e
      using 2(2,3) [OF refl that] by (cases e) (auto simp: reads.keeps)
    show ?case
      unfolding recent_loop.simps Let_def
      using 2(1) [OF refl] by (intro reads.keeps_if reads.keeps_bind entry step)
  qed (simp add: reads.keeps)
  show "keeps (=) (pinned_tile env u r)"
    unfolding pinned_tile_def by (intro reads.keeps keeps_build_report)
qed

text \<open>A table the search may look into, with the rows it finds there.\<close>

definition group_shown :: "db \<Rightarrow> app_user \<Rightarrow> search_group \<Rightarrow> bool" where
  "group_shown s u g = ((case table_view_form s (t_id (sg_table g)) of
       None \<Rightarrow> False | Some vf \<Rightarrow> can_read (form_access s (Some u) (fm_id vf))) \<and> sg_table g \<in> set (d_tables s) \<and>
     (\<exists>rows. list_all (scoped_row s u (sg_table g)) rows \<and> map fst (sg_records g) = map (\<lambda>r. rget r (t_pk_col (sg_table g))) rows))"

lemma search_table_shown:
  assumes "search_table u q t s = (Inr gs, s)" "t \<in> set (d_tables s)"
  shows "list_all (group_shown s u) gs"
proof (cases "table_view_form s (t_id t)")
  case None
  with assms(1) show ?thesis by (simp add: search_table_def bindC_get retC_def)
next
  case (Some vf)
  show ?thesis
  proof (cases "can_read (form_access s (Some u) (fm_id vf))")
    case False
    with assms(1) Some show ?thesis by (simp add: search_table_def bindC_get retC_def)
  next
    case True
    with assms(1) Some obtain rows n s1 where
      r: "list_records t (Some (u_id u)) (is_designer u) False [q_filter s t q] None ''asc'' 1 (Some 10) s = (Inr (rows, n), s1)"
      and gs: "gs = [] \<or> (\<exists>g. gs = [g] \<and> sg_table g = t \<and> map fst (sg_records g) = map (\<lambda>r. rget r (t_pk_col t)) rows)"
      by (auto simp: search_table_def bindC_get comp_run comp_def elim!: bindC_InrE split: if_splits)
    from list_records_scoped [OF r] gs True Some assms(2) show ?thesis by (auto simp: group_shown_def)
  qed
qed

lemma set_sorted: "set (sort_by le xs) = set xs"
  by (metis mset_sort_by set_mset_mset)

lemma set_all_tables: "set (all_tables s) = set (d_tables s)"
  by (simp add: all_tables_def set_sorted)

text \<open>
  C35: a search finds records only in tables whose record page the account may read, and there only rows its scope
  leaves it.
\<close>

theorem search_stays_readable:
  assumes "search u q s = (Inr gs, s')"
  shows "list_all (group_shown s u) gs \<and> s' = s"
proof (cases "py_strip q = []")
  case True
  with assms show ?thesis by (simp add: search_def retC_def)
next
  case False
  with assms have run: "foldC (\<lambda>t acc. bindC (search_table u (py_strip q) t) (\<lambda>g. retC (acc @ g))) (all_tables s) [] s = (Inr gs, s')"
    by (simp add: search_def bindC_get)
  from collected_all [OF run keeps_panels(1), of "group_shown s u"] search_table_shown
  show ?thesis unfolding set_all_tables by blast
qed

text \<open>The panels of the home page.\<close>

definition item_readable :: "db \<Rightarrow> app_user \<Rightarrow> work_item \<Rightarrow> bool" where
  "item_readable s u w = table_readable s (Some u) (wi_table w)"

lemma my_work_readable:
  assumes "my_work u k s = (Inr out, s')"
  shows "list_all (item_readable s u) out" "s' = s"
proof -
  from assms obtain all where run: "foldC (\<lambda>t acc. bindC (my_work_table u k t) (\<lambda>x. retC (acc @ x))) (d_tables s) [] s = (Inr all, s')"
    and out: "out = take k all"
    by (auto simp: my_work_def bindC_get comp_run elim!: bindC_InrE)
  have one: "list_all (item_readable s u) ws" if "my_work_table u k t s = (Inr ws, s)" for t ws
    using that by (auto simp: my_work_table_def bindC_get comp_run work_row_def item_readable_def list_all_iff
        elim!: bindC_InrE split: if_splits option.splits sum.splits prod.splits)
  from collected_all [OF run keeps_panels(2) one] out
  show "list_all (item_readable s u) out" "s' = s" by (auto simp: list_all_iff dest: in_set_takeD)
qed

lemma recent_entry_readable: "recent_entry u a s = (Inr (Some w), s') \<Longrightarrow> item_readable s u w"
  by (auto simp: recent_entry_def bindC_get comp_run item_readable_def elim!: bindC_InrE
      split: if_splits option.splits sum.splits)

lemma recent_loop_readable:
  "recent_loop u k as seen out s = (Inr ws, s') \<Longrightarrow> list_all (item_readable s u) out \<Longrightarrow> list_all (item_readable s u) ws"
proof (induction u k as seen out arbitrary: s rule: recent_loop.induct)
  case (2 u k a as seen out)
  show ?case
  proof (cases "al_row_pk a = VNone \<or> (al_table_phys a, py_str (al_row_pk a)) \<in> set seen")
    case True
    with 2 show ?thesis by (simp add: Let_def)
  next
    case False
    with 2(4) have "bindC (recent_entry u a) (\<lambda>e. case e of None \<Rightarrow> recent_loop u k as ((al_table_phys a, py_str (al_row_pk a)) # seen) out
        | Some x \<Rightarrow> if k \<le> Suc (length out) then retC (out @ [x])
            else recent_loop u k as ((al_table_phys a, py_str (al_row_pk a)) # seen) (out @ [x])) s = (Inr ws, s')"
      by (simp add: Let_def)
    then obtain e s1 where e: "recent_entry u a s = (Inr e, s1)"
      and rest: "(case e of None \<Rightarrow> recent_loop u k as ((al_table_phys a, py_str (al_row_pk a)) # seen) out
        | Some x \<Rightarrow> if k \<le> Suc (length out) then retC (out @ [x])
            else recent_loop u k as ((al_table_phys a, py_str (al_row_pk a)) # seen) (out @ [x])) s1 = (Inr ws, s')"
      by (rule bindC_InrE)
    have s1: "s1 = s" using keepsD [OF keeps_panels(3) e] by simp
    show ?thesis
    proof (cases e)
      case None
      with 2(2) [OF refl] False rest s1 2(5) show ?thesis by simp
    next
      case (Some x)
      with e recent_entry_readable have "item_readable s u x" by blast
      with 2(3) [OF refl False, of x s] rest Some s1 2(5) show ?thesis by (auto simp: comp_run split: if_splits)
    qed
  qed
qed (simp add: comp_run)

lemma sla_next_readable:
  assumes "sla_next env u k s = (Inr out, s')"
  shows "list_all (\<lambda>(e, l). table_readable s (Some u) (nx_table e)) out \<and> s' = s"
proof -
  have src: "table_readable s (Some u) (nx_table e)" if "e \<in> set (breaching_next env s u k)" for e
  proof -
    from that obtain c where "next_clock_of env s u c = Some e"
      by (force simp: breaching_next_def List.map_filter_def dest!: in_set_takeD)
    then show ?thesis by (auto simp: next_clock_of_def split: option.splits if_splits)
  qed
  let ?f = "\<lambda>e acc. bindC (attempt (get_row (t_phys_name (nx_table e)) (VStr (nx_pk e)))) (\<lambda>r. case r of
         Inr (Some x) \<Rightarrow> getC (\<lambda>s. if x = [] \<or> truthy (rget x ''deleted_at'') then acc
           else acc @ [(e, row_label s (nx_table e) x (VStr (nx_pk e)))])
       | _ \<Rightarrow> retC acc)"
  from assms have "foldC ?f (breaching_next env s u k) [] s = (Inr out, s')" by (simp add: sla_next_def bindC_get)
  then show ?thesis
  proof (rule foldC_all)
    show "keeps (=) (?f e acc)" for e acc
      by (intro reads.keeps keeps_attempt keeps_sum keeps_get_row)
    show "list_all (\<lambda>(e, l). table_readable s (Some u) (nx_table e)) z"
      if "?f e acc s = (Inr z, s)" "e \<in> set (breaching_next env s u k)"
        "list_all (\<lambda>(e, l). table_readable s (Some u) (nx_table e)) acc" for e acc z
      using that src [OF that(2)] by (auto simp: comp_run elim!: bindC_InrE split: sum.splits option.splits if_splits)
  qed simp
qed

lemma home_parts:
  assumes "home env u s = (Inr h, s')"
  obtains tiles work due recent s1 s2 s3 where
    "foldC (\<lambda>r acc. bindC (pinned_tile env u r) (\<lambda>x. retC (acc @ x)))
       (sort_by (\<lambda>a b. \<not> text_lt (rd_name b) (rd_name a)) (filter (\<lambda>r. rd_user_id r = u_id u \<and> rd_pinned r) (d_reports s))) [] s = (Inr tiles, s1)"
    "my_work u 12 s1 = (Inr work, s2)" "sla_next env u 8 s2 = (Inr due, s3)" "recent_records u 8 s3 = (Inr recent, s')"
    "h = \<lparr>hm_tiles = tiles,
       hm_personal = sort_key da_position (sort_key da_id (filter (\<lambda>d. da_owner_user_id d = Some (u_id u)) (d_dashboards s'))),
       hm_shared = filter (dash_visible s' (Some u)) (sort_by (\<lambda>a b. \<not> text_lt (da_name b) (da_name a))
         (filter (\<lambda>d. da_owner_user_id d = None) (d_dashboards s'))),
       hm_work = work, hm_sla = due, hm_recent = recent\<rparr>"
  using assms unfolding home_def bindC_get
  by (elim bindC_InrE) (simp only: comp_run prod.inject sum.inject, elim conjE, hypsubst, rule that, (assumption | rule refl)+)


subsection \<open>Examples\<close>

text \<open>A table of two companies with a column hidden from the account, which is of the first company.\<close>

definition firm_table :: meta_table where
  "firm_table = desk_table\<lparr>t_track_audit := False, t_fields :=
     [(sample_field ''string'')\<lparr>f_id := 1, f_phys_name := ''state''\<rparr>,
      (sample_field ''string'')\<lparr>f_id := 2, f_phys_name := ''memo''\<rparr>,
      (sample_field ''user'')\<lparr>f_id := 6, f_phys_name := ''owner''\<rparr>,
      (sample_field ''company'')\<lparr>f_id := 7, f_phys_name := ''firm''\<rparr>]\<rparr>"

definition firm_row :: "int \<Rightarrow> pystr \<Rightarrow> int \<Rightarrow> row" where
  "firm_row k memo firm = [(''id'', VInt k), (''state'', VStr (if firm = 1 then ''open'' else ''closed'')), (''memo'', VStr memo), (''owner'', VInt 7), (''firm'', VInt firm)]"

definition firm_phys :: phys where
  "firm_phys = \<lparr>ph_cols = [(''id'', CInt, False), (''state'', CStr, True), (''memo'', CStr, True), (''owner'', CInt, True), (''firm'', CInt, True)],
     ph_pk = ''id'', ph_rows = [firm_row 1 ''secret'' 1, firm_row 2 ''plain'' 2, firm_row 3 ''other'' 1], ph_uniq = [], ph_next = 4\<rparr>"

definition member :: app_user where
  "member = clerk\<lparr>u_company_id := Some 1\<rparr>"

definition firm_db :: db where
  "firm_db = empty_db\<lparr>d_tables := [firm_table], d_users := [member],
     d_forms := [desk_form\<lparr>fm_items := [desk_item 1 JEmpty, desk_item 6 JEmpty]\<rparr>,
       desk_form\<lparr>fm_id := 6, fm_purpose := ''view'', fm_items := [desk_item 1 JEmpty]\<rparr>],
     d_companies := [\<lparr>co_id = 1, co_name = ''A'', co_parent_id = None\<rparr>, \<lparr>co_id = 2, co_name = ''B'', co_parent_id = None\<rparr>],
     d_fperms := [\<lparr>fp_id = 1, fp_role = ''clerk'', fp_field_id = 2, fp_access = access_none\<rparr>],
     d_phys := [(''desk'', firm_phys)]\<rparr>"

definition firm_list :: "exn + list_page" where
  "firm_list = fst (with_form member 5 can_read (form_list plain_env member [(''per_page'', ''50''), (''fcol'', ''owner''),
     (''fop'', ''eq''), (''fval'', ''me'')]) firm_db)"

text \<open>The list leaves out the row of the other company, the export of selected rows does not.\<close>

lemma export_ignores_companies:
  "map_sum id (\<lambda>lp. map (\<lambda>r. rget r ''id'') (lp_rows lp)) firm_list = Inr [VInt 1, VInt 3] \<and>
   fst (with_form member 5 can_read (bulk_export plain_env member [] [(''ids'', ''1''), (''ids'', ''2'')]) firm_db) =
     Inr (csv_text [[''state'', ''owner''], [''open'', ''7''], [''closed'', ''7'']])"
  by code_simp

text \<open>Search finds a record by a column hidden from the account, and shows it.\<close>

lemma search_shows_hidden:
  "''memo'' \<notin> set (readable_fields firm_db (Some member) firm_table) \<and>
   map_sum id (map sg_records) (fst (search member ''secr'' firm_db)) =
     Inr [[(VInt 1, ''open'', Some (''X'', [], ''secr'', ''et''))]]"
  by code_simp

lemma run_of: "fst p = Inr x \<Longrightarrow> p = (Inr x, snd p)"
  by (metis prod.collapse)

lemma list_shows_permitted_witness:
  "\<exists>lp. firm_list = Inr lp \<and> map (\<lambda>r. rget r ''id'') (lp_rows lp) = [VInt 1, VInt 3] \<and> lq_conditions (lp_query lp) \<noteq> [] \<and>
     list_all (scoped_row firm_db member firm_table) (lp_rows lp) \<and> list_all (shown_column firm_db member) (lq_columns (lp_query lp))"
proof -
  have ok: "(case firm_list of Inr lp \<Rightarrow> map (\<lambda>r. rget r ''id'') (lp_rows lp) = [VInt 1, VInt 3] \<and> lq_conditions (lp_query lp) \<noteq> []
    | Inl _ \<Rightarrow> False)" by code_simp
  then obtain lp where lp: "firm_list = Inr lp" by (auto split: sum.splits)
  have "get_form firm_db 5 = Some (hd (d_forms firm_db))" "get_table firm_db (fm_table_id (hd (d_forms firm_db))) = Some firm_table"
    by code_simp+
  with list_shows_permitted [OF run_of [OF lp [unfolded firm_list_def]]]
  have "list_all (scoped_row firm_db member firm_table) (lp_rows lp)" "list_all (shown_column firm_db member) (lq_columns (lp_query lp))"
    by auto
  moreover have "map (\<lambda>r. rget r ''id'') (lp_rows lp) = [VInt 1, VInt 3] \<and> lq_conditions (lp_query lp) \<noteq> []"
    using ok unfolding lp sum.case .
  ultimately have "firm_list = Inr lp \<and> map (\<lambda>r. rget r ''id'') (lp_rows lp) = [VInt 1, VInt 3] \<and> lq_conditions (lp_query lp) \<noteq> [] \<and>
     list_all (scoped_row firm_db member firm_table) (lp_rows lp) \<and> list_all (shown_column firm_db member) (lq_columns (lp_query lp))"
    using lp by (intro conjI) (simp_all only: simp_thms)
  then show ?thesis by (rule exI)
qed

lemma export_is_pages_witness:
  "\<exists>lp :: list_page. map (\<lambda>r. rget r ''id'') (lp_rows lp) = [VInt 1, VInt 3] \<and>
     csv_text [[''state'', ''owner''], [''open'', ''7''], [''open'', ''7'']] = list_csv (lq_columns (lp_query lp))
       (concat (map (\<lambda>k. page_rows member firm_table (lp_query lp) k firm_db) [1 ..< Suc (nat (lp_pages lp))]))
       (rp_labels (lq_meta (lp_query lp)))"
proof -
  let ?form = "hd (d_forms firm_db)"
  let ?list = "form_list plain_env member [] ?form firm_table"
  have csv: "fst (export_list_csv plain_env member [] ?form firm_table firm_db) =
      Inr (csv_text [[''state'', ''owner''], [''open'', ''7''], [''open'', ''7'']])" by code_simp
  have ok: "(case fst (?list firm_db) of Inr lp \<Rightarrow> map (\<lambda>r. rget r ''id'') (lp_rows lp) = [VInt 1, VInt 3] | Inl _ \<Rightarrow> False)"
    by code_simp
  then obtain lp where lp: "fst (?list firm_db) = Inr lp" by (auto split: sum.splits)
  have "map (\<lambda>r. rget r ''id'') (lp_rows lp) = [VInt 1, VInt 3]" using ok unfolding lp sum.case .
  from conjI [OF this export_is_pages [OF run_of [OF csv] run_of [OF lp]]] show ?thesis by (rule exI)
qed

lemma search_stays_readable_witness:
  "\<exists>gs :: search_group list. gs \<noteq> [] \<and> list_all (group_shown firm_db member) gs"
proof -
  have ok: "(case fst (search member ''op'' firm_db) of Inr gs \<Rightarrow> gs \<noteq> [] | Inl _ \<Rightarrow> False)" by code_simp
  then obtain gs where gs: "fst (search member ''op'' firm_db) = Inr gs" by (auto split: sum.splits)
  from ok gs have "gs \<noteq> []" by simp
  with search_stays_readable [OF run_of [OF gs]] show ?thesis by blast
qed


end
