(* ===== verification/Portal_Routes.thy ===== *)
theory Portal_Routes
  imports Record_Lists
begin

text \<open>
  The customer portal, \<open>app/portal/routes.py\<close>: requests submitted through the forms of the catalog, the tickets of an
  account's circle, public comments, and closing a ticket. The names of the shown colours and the links are not modelled;
  downloads are in \<open>Portal\<close>.

  Shown: a customer changes only what the portal gives it (a new request, its circle's tickets, its own notifications);
  the page of a ticket never shows an internal comment; and closing a ticket is a move the form of a member of staff
  with the same role would have stored.
\<close>

subsection \<open>The catalog\<close>

definition catalog_usable :: "db \<Rightarrow> meta_form \<Rightarrow> bool" where
  "catalog_usable s f = (fm_in_catalog f \<and> fm_purpose f \<noteq> ''view'' \<and>
     (case get_table s (fm_table_id f) of None \<Rightarrow> False | Some t \<Rightarrow> t_track_audit t \<or> t_row_owned t))"

definition catalog_forms :: "db \<Rightarrow> meta_form list" where
  "catalog_forms s = filter (catalog_usable s)
     (sort_by (\<lambda>a b. \<not> text_lt (fm_title b) (fm_title a)) (filter fm_in_catalog (d_forms s)))"

definition with_catalog :: "int \<Rightarrow> (meta_form \<Rightarrow> meta_table \<Rightarrow> 'a comp) \<Rightarrow> 'a comp" where
  "with_catalog form_id f =
     bindC (getC (\<lambda>s. case get_form s form_id of
         None \<Rightarrow> None
       | Some mf \<Rightarrow> if catalog_usable s mf then map_option (\<lambda>t. (mf, t)) (get_table s (fm_table_id mf)) else None)) (\<lambda>x.
     case x of None \<Rightarrow> failC (Abort 404) | Some (mf, t) \<Rightarrow> f mf t)"

definition status_field :: "meta_table \<Rightarrow> meta_field option" where
  "status_field t = find (\<lambda>f. f_data_type f = ''enum'') (t_fields t)"

text \<open>The state the customer may close the ticket with now.\<close>

definition close_allowed :: "db \<Rightarrow> app_user \<Rightarrow> meta_form \<Rightarrow> meta_table \<Rightarrow> row \<Rightarrow> exn + pystr option" where
  "close_allowed s u mf t r = (case (fm_portal_close_state mf, status_field t) of
     (Some close, Some f) \<Rightarrow>
       if close = [] then Inr None
       else bindE (enum_choices f) (\<lambda>opts.
         let cur = rget r (f_phys_name f) in
         if \<not> py_in (VStr close) (map fst opts) then Inr None
         else if py_eq cur (VStr close) then Inr None
         else case dget (workflows_for s (t_id t)) (f_id f) of
           None \<Rightarrow> Inr (Some close)
         | Some w \<Rightarrow>
           if \<not> py_in (VStr close) (allowed_choices w cur u) then Inr None
           else if fst (plan_diversions s t (Some r) [(f_phys_name f, VStr close)]) \<noteq> [] then Inr None
           else Inr (Some close))
   | _ \<Rightarrow> Inr None)"

subsection \<open>The tickets\<close>

record ticket_line =
  ti_table :: meta_table
  ti_pk :: pyval
  ti_label :: pystr
  ti_status :: pyval
  ti_created :: pyval
  ti_by :: "pystr option"

definition newest_first :: "ticket_line list \<Rightarrow> ticket_line list" where
  "newest_first xs = rev (sort_by (\<lambda>a b. (ti_created a = VNone \<longrightarrow> ti_created b = VNone) \<and>
     (ti_created b = VNone \<or> sql_le (ti_created a) (ti_created b))) (rev xs))"

definition author_name :: "db \<Rightarrow> int list \<Rightarrow> row \<Rightarrow> pystr option" where
  "author_name s members r = (if length members \<le> 1 then None
     else map_option u_username (find (\<lambda>u. u_id u \<in> set members \<and> py_eq (rget r ''created_by'') (VInt (u_id u))) (d_users s)))"

definition ticket_line_of :: "db \<Rightarrow> int list \<Rightarrow> meta_table \<Rightarrow> row \<Rightarrow> ticket_line" where
  "ticket_line_of s members t r = \<lparr>ti_table = t, ti_pk = rget r (t_pk_col t), ti_label = row_label s t r (rget r (t_pk_col t)),
     ti_status = (case status_field t of None \<Rightarrow> VNone | Some f \<Rightarrow> rget r (f_phys_name f)),
     ti_created = rget r ''created_at'', ti_by = author_name s members r\<rparr>"

definition circle_filter :: "int list \<Rightarrow> filt" where
  "circle_filter members = FCond ''created_by'' (Some ''in'') (VList (map VInt (sort (remdups members)))) False"

definition table_tickets :: "app_user \<Rightarrow> int list \<Rightarrow> meta_table \<Rightarrow> ticket_line list comp" where
  "table_tickets u members t =
     bindC (list_records t (Some (u_id u)) True False [circle_filter members] (Some ''created_at'') ''desc'' 1 (Some 50)) (\<lambda>(rows, n).
     getC (\<lambda>s. map (ticket_line_of s members t) rows))"

definition catalog_tables :: "db \<Rightarrow> meta_table list" where
  "catalog_tables s = fold (\<lambda>t ts. if t_id t \<in> t_id ` set ts then ts else ts @ [t])
     (List.map_filter (\<lambda>f. get_table s (fm_table_id f)) (catalog_forms s)) []"

definition my_tickets :: "app_user \<Rightarrow> ticket_line list comp" where
  "my_tickets u =
     bindC (getC (\<lambda>s. (portal_members s u, catalog_tables s))) (\<lambda>(members, ts).
     bindC (foldC (\<lambda>t acc. bindC (table_tickets u (remdups members) t) (\<lambda>x. retC (acc @ x))) ts []) (\<lambda>items.
     retC (newest_first items)))"

record portal_home =
  po_groups :: "(pystr \<times> meta_form list) list"
  po_tickets :: "ticket_line list"
  po_org :: pystr

definition catalog_groups :: "meta_form list \<Rightarrow> (pystr \<times> meta_form list) list" where
  "catalog_groups fs = sort_by (\<lambda>a b. \<not> text_lt (fst b) (fst a))
     (fold (\<lambda>f d. let g = text_or (fm_catalog_group f) ''General'' in
        dset g ((case dget d g of None \<Rightarrow> [] | Some xs \<Rightarrow> xs) @ [f]) d) fs [])"

definition portal_home :: "app_user \<Rightarrow> portal_home comp" where
  "portal_home u =
     bindC (my_tickets u) (\<lambda>ts.
     getC (\<lambda>s. \<lparr>po_groups = catalog_groups (catalog_forms s), po_tickets = ts,
       po_org = (case some_id (u_company_id u) of None \<Rightarrow> []
         | Some i \<Rightarrow> (case find (\<lambda>c. co_id c = i) (d_companies s) of None \<Rightarrow> [] | Some c \<Rightarrow> co_name c))\<rparr>))"

text \<open>A ticket is reached through a catalog form of its table, as a record of the account's circle.\<close>

definition catalog_form_of :: "db \<Rightarrow> int \<Rightarrow> meta_form option" where
  "catalog_form_of s table_id = find (\<lambda>f. fm_table_id f = table_id) (catalog_forms s)"

definition with_ticket :: "app_user \<Rightarrow> int \<Rightarrow> pyval \<Rightarrow> (meta_table \<Rightarrow> meta_form \<Rightarrow> row \<Rightarrow> 'a comp) \<Rightarrow> 'a comp" where
  "with_ticket u table_id pk f =
     bindC (getC (\<lambda>s. case (get_table s table_id, catalog_form_of s table_id) of (Some t, Some mf) \<Rightarrow> Some (t, mf) | _ \<Rightarrow> None)) (\<lambda>x.
     case x of
       None \<Rightarrow> failC (Abort 404)
     | Some (t, mf) \<Rightarrow> bindC (portal_record u t pk) (f t mf))"

record ticket_page =
  tk_label :: pystr
  tk_items :: "view_item list"
  tk_thread :: "(comment \<times> pystr) list"
  tk_status :: pyval
  tk_created :: pyval
  tk_by :: pyval
  tk_close :: "pystr option"

definition ticket :: "env \<Rightarrow> app_user \<Rightarrow> int \<Rightarrow> pyval \<Rightarrow> ticket_page comp" where
  "ticket env u table_id pk = with_ticket u table_id pk (\<lambda>t mf r.
     bindC (build_form env (Some u) mf) (\<lambda>(b, cfg).
     bindC (view_items mf t (bf_items b) r) (\<lambda>items.
     bindC (bindC (getC (\<lambda>s. close_allowed s u mf t r)) liftC) (\<lambda>close.
     getC (\<lambda>s. \<lparr>tk_label = row_label s t r pk, tk_items = items, tk_thread = list_for s (t_phys_name t) pk False,
       tk_status = (case status_field t of None \<Rightarrow> VNone | Some f \<Rightarrow> rget r (f_phys_name f)),
       tk_created = rget r ''created_at'', tk_by = rget r ''created_by'', tk_close = close\<rparr>)))))"

subsection \<open>What a customer does\<close>

definition portal_new :: "env \<Rightarrow> app_user \<Rightarrow> wtf \<Rightarrow> mail_io \<Rightarrow> files_sent \<Rightarrow> meta_form \<Rightarrow> meta_table \<Rightarrow> outcome comp" where
  "portal_new env u w io fs mf t =
     bindC (submitted env u w mf t None) (\<lambda>bo.
     if validate_form w bo
     then bindC (store_new env u io fs t bo) (\<lambda>_. retC (Message ''Request submitted - you can follow it here.''))
     else retC (Again []))"

definition portal_blank :: "env \<Rightarrow> app_user \<Rightarrow> meta_form \<Rightarrow> meta_table \<Rightarrow> (row \<times> (pystr \<times> field_change) list) comp" where
  "portal_blank env u mf t =
     bindC (build_form env (Some u) mf) (\<lambda>(b, cfg).
     bindC (liftC (foldE (default_value env) (bf_items b) [])) (\<lambda>d.
     bindC (apply_workflow_choices u mf t (bf_items b) None d) (\<lambda>ch. retC (d, ch))))"

definition ticket_comment :: "env \<Rightarrow> app_user \<Rightarrow> int \<Rightarrow> pyval \<Rightarrow> pystr option \<Rightarrow> outcome comp" where
  "ticket_comment env u table_id pk body = with_ticket u table_id pk (\<lambda>t mf r.
     bindC (getC (\<lambda>s. t_label t @ '': '' @ row_label s t r pk)) (\<lambda>label.
     tryC (bindC (add_comment env (t_phys_name t) pk (Some u) body False (Some r) (Some label)) (\<lambda>_.
           retC (Message ''Comment added.'')))
       (\<lambda>e. case e of ValueErr m \<Rightarrow> retC (Message m) | _ \<Rightarrow> failC e)))"

definition closing_text :: "pystr option \<Rightarrow> pystr" where
  "closing_text reason = (let x = py_strip (text_or reason []) in
     if x = [] then ''Closed by customer.'' else ''Closed by customer: '' @ x)"

definition close_ticket :: "env \<Rightarrow> app_user \<Rightarrow> meta_table \<Rightarrow> pyval \<Rightarrow> row \<Rightarrow> row \<Rightarrow> pystr option \<Rightarrow> outcome comp" where
  "close_ticket env u t pk r vs reason =
     bindC (getC (\<lambda>s. check s t r vs u)) (\<lambda>c. case c of
       Inl e \<Rightarrow> retC (Message (workflow_text e))
     | Inr _ \<Rightarrow>
       bindC (update env t pk vs (Some (u_id u))) (\<lambda>_.
       bindC (getC (\<lambda>s. t_label t @ '': '' @ row_label s t r pk)) (\<lambda>label.
       bindC (add_comment env (t_phys_name t) pk (Some u) (Some (closing_text reason)) False (Some r) (Some label)) (\<lambda>_.
       retC (Message ''Ticket closed - thank you!'')))))"

definition ticket_close :: "env \<Rightarrow> app_user \<Rightarrow> int \<Rightarrow> pyval \<Rightarrow> pystr option \<Rightarrow> outcome comp" where
  "ticket_close env u table_id pk reason = with_ticket u table_id pk (\<lambda>t mf r.
     bindC (bindC (getC (\<lambda>s. close_allowed s u mf t r)) liftC) (\<lambda>close. case (close, status_field t) of
       (Some x, Some f) \<Rightarrow> close_ticket env u t pk r [(f_phys_name f, VStr x)] reason
     | _ \<Rightarrow> retC (Message ''This ticket can't be closed from the portal right now.'')))"

definition own_unread :: "app_user \<Rightarrow> notification \<Rightarrow> bool" where
  "own_unread u n = (n_channel n = ''in_app'' \<and> n_user_id n = VInt (u_id u) \<and> n_status n = ''unread'')"

definition read_notes :: "app_user \<Rightarrow> db \<Rightarrow> db" where
  "read_notes u s = s\<lparr>d_notifs := map (\<lambda>n. if own_unread u n then n\<lparr>n_status := ''read''\<rparr> else n) (d_notifs s)\<rparr>"

definition own_notes :: "db \<Rightarrow> app_user \<Rightarrow> notification list" where
  "own_notes s u = take 100 (rev (sort_key n_id (filter (\<lambda>n. n_channel n = ''in_app'' \<and> n_user_id n = VInt (u_id u)) (d_notifs s))))"

text \<open>The ticket a notification leads to.\<close>

definition note_links :: "db \<Rightarrow> app_user \<Rightarrow> (int \<times> int \<times> pyval) list" where
  "note_links s u = List.map_filter (\<lambda>n. case n_table_phys n of
       None \<Rightarrow> None
     | Some p \<Rightarrow> (case find (\<lambda>t. t_phys_name t = p) (rev (catalog_tables s)) of
         None \<Rightarrow> None | Some t \<Rightarrow> if n_row_pk n = VNone then None else Some (n_id n, t_id t, n_row_pk n))) (own_notes s u)"

datatype portal_call =
    NewTicket int files_sent
  | AddNote int pyval "pystr option"
  | CloseTicket int pyval "pystr option"
  | ReadNotes

definition portal_route :: "env \<Rightarrow> client \<Rightarrow> app_user \<Rightarrow> portal_call \<Rightarrow> outcome comp" where
  "portal_route env cl u c = (case c of
     NewTicket i fs \<Rightarrow> with_catalog i (portal_new env u (cl_forms cl) (cl_files cl) fs)
   | AddNote i pk body \<Rightarrow> ticket_comment env u i pk body
   | CloseTicket i pk reason \<Rightarrow> ticket_close env u i pk reason
   | ReadNotes \<Rightarrow> bindC (modC (read_notes u)) (\<lambda>_. retC (Message [])))"

text \<open>Staff is sent to the start page (no outcome).\<close>

definition portal_request :: "env \<Rightarrow> client \<Rightarrow> app_user option \<Rightarrow> portal_call \<Rightarrow> outcome option comp" where
  "portal_request env cl user c = (case user of
     None \<Rightarrow> failC (Abort 401)
   | Some u \<Rightarrow> if \<not> (is_portal u \<or> is_designer u) then retC None
       else bindC (portal_route env cl u c) (\<lambda>x. retC (Some x)))"

subsection \<open>What a customer may change\<close>

text \<open>A ticket the account may open: of a table in the catalog, and of its circle unless it is a designer.\<close>

definition ticket_shown :: "db \<Rightarrow> app_user \<Rightarrow> int \<Rightarrow> pyval \<Rightarrow> bool" where
  "ticket_shown s u table_id pk = (\<exists>t r. get_table s table_id = Some t \<and> in_portal s t \<and>
     portal_record u t pk s = (Inr r, s) \<and> (is_designer u \<or> in_circle s u r))"

lemma catalog_form_portal:
  assumes "catalog_form_of s i = Some mf" "get_table s i = Some t"
  shows "in_portal s t"
proof -
  from assms(1) have mf: "mf \<in> set (catalog_forms s)" "fm_table_id mf = i"
    by (auto simp: catalog_form_of_def dest: find_Some_set)
  have "t_id t = i" using assms(2) by (auto simp: get_table_def dest: find_Some_set)
  with mf assms(2) show ?thesis
    by (auto simp: catalog_forms_def set_sorted catalog_usable_def in_portal_def list_ex_iff split: option.splits)
qed

lemma keeps_portal_record: "keeps (=) (portal_record u t pk)"
proof -
  have "keeps (=) (get_record t pk a b c)" for a b c
    by (simp add: keeps_def)
  then show ?thesis unfolding portal_record_def by (intro reads.keeps)
qed

lemma with_ticket_change:
  assumes "with_ticket u i pk f s = (x, s')" "s' \<noteq> s"
  obtains t mf r where "get_table s i = Some t" "catalog_form_of s i = Some mf" "portal_record u t pk s = (Inr r, s)"
    "f t mf r s = (x, s')" "ticket_shown s u i pk"
proof -
  from assms obtain t mf where t: "get_table s i = Some t" "catalog_form_of s i = Some mf"
    and run: "bindC (portal_record u t pk) (f t mf) s = (x, s')"
    by (auto simp: with_ticket_def bindC_get failC_def split: option.splits)
  obtain y s1 where y: "portal_record u t pk s = (y, s1)" by (cases "portal_record u t pk s") auto
  then have s1: "s1 = s" using keepsD [OF keeps_portal_record] by metis
  show ?thesis
  proof (cases y)
    case (Inl e)
    with run y s1 assms(2) show ?thesis by (simp add: bindC_def)
  next
    case (Inr r)
    with run y s1 have "portal_record u t pk s = (Inr r, s)" "f t mf r s = (x, s')" by (simp_all add: bindC_def)
    with t catalog_form_portal [OF t(2,1)] portal_record_cases [OF this(1)] show ?thesis
      by (intro that [of t mf r]) (auto simp: ticket_shown_def)
  qed
qed

definition portal_may :: "db \<Rightarrow> app_user \<Rightarrow> portal_call \<Rightarrow> bool" where
  "portal_may s u c = (case c of
     NewTicket i fs \<Rightarrow> (case get_form s i of None \<Rightarrow> False | Some mf \<Rightarrow> catalog_usable s mf)
   | AddNote i pk body \<Rightarrow> ticket_shown s u i pk
   | CloseTicket i pk reason \<Rightarrow> ticket_shown s u i pk
   | ReadNotes \<Rightarrow> True)"

lemma with_catalog_change:
  assumes "with_catalog i f s = (x, s')" "s' \<noteq> s"
  shows "case get_form s i of None \<Rightarrow> False | Some mf \<Rightarrow> catalog_usable s mf"
  using assms by (auto simp: with_catalog_def bindC_get failC_def split: option.splits if_splits)


subsection \<open>Closing follows the workflow\<close>

lemma plan_step_kept:
  "plan_step s t old p (out, vs) = ([], vs') \<Longrightarrow> out = [] \<and> vs' = vs"
  by (auto simp: plan_step_def split: option.splits)

lemma plan_fold_kept:
  "fold (plan_step s t old) ps (out, vs) = ([], vs') \<Longrightarrow> out = [] \<and> vs' = vs"
proof (induction ps arbitrary: out vs)
  case (Cons p ps)
  obtain o1 v1 where 1: "plan_step s t old p (out, vs) = (o1, v1)" by (cases "plan_step s t old p (out, vs)")
  with Cons.prems have "o1 = [] \<and> vs' = v1" by (intro Cons.IH) simp
  with 1 plan_step_kept show ?case by blast
qed simp

lemma no_diversion: "fst (plan_diversions s t old vs) = [] \<Longrightarrow> plan_diversions s t old vs = ([], vs)"
  unfolding plan_diversions_def using plan_fold_kept by (metis prod.collapse)

lemma close_allowedD:
  assumes "close_allowed s u mf t r = Inr (Some x)" "status_field t = Some f"
  shows "fm_portal_close_state mf = Some x" "\<not> py_eq (rget r (f_phys_name f)) (VStr x)"
    "dhas (workflows_for s (t_id t)) (f_id f) \<Longrightarrow> plan_diversions s t (Some r) [(f_phys_name f, VStr x)] = ([], [(f_phys_name f, VStr x)])"
  using assms by (auto simp: close_allowed_def Let_def dhas_iff bindE_def intro!: no_diversion split: option.splits if_splits sum.splits)

text \<open>
  C38: A ticket the portal closes is moved to the close state of its form, which it is not in yet, and the move is
  one the workflow lets the account's role make; under a workflow it is stored at once by the form of a record as well,
  so no approval is passed by.
\<close>

theorem close_follows_workflow:
  assumes "ticket_close env u i pk reason s = (x, s')" "s' \<noteq> s"
  shows "\<exists>t mf r f c. get_table s i = Some t \<and> catalog_form_of s i = Some mf \<and> portal_record u t pk s = (Inr r, s) \<and>
    status_field t = Some f \<and> fm_portal_close_state mf = Some c \<and> \<not> py_eq (rget r (f_phys_name f)) (VStr c) \<and>
    check s t r [(f_phys_name f, VStr c)] u = Inr () \<and>
    (dhas (workflows_for s (t_id t)) (f_id f) \<longrightarrow> gate s t r [(f_phys_name f, VStr c)] u = Inr ([], [(f_phys_name f, VStr c)]))"
proof -
  from assms obtain t mf r where t: "get_table s i = Some t" "catalog_form_of s i = Some mf" "portal_record u t pk s = (Inr r, s)"
    and run: "bindC (bindC (getC (\<lambda>s. close_allowed s u mf t r)) liftC) (\<lambda>close. case (close, status_field t) of
       (Some x, Some f) \<Rightarrow> close_ticket env u t pk r [(f_phys_name f, VStr x)] reason
     | _ \<Rightarrow> retC (Message ''This ticket can't be closed from the portal right now.'')) s = (x, s')"
    unfolding ticket_close_def by (rule with_ticket_change)
  obtain c f where c: "close_allowed s u mf t r = Inr (Some c)" and f: "status_field t = Some f"
    and cl: "close_ticket env u t pk r [(f_phys_name f, VStr c)] reason s = (x, s')"
    using run assms(2) by (cases "close_allowed s u mf t r") (auto simp: bindC_def comp_defs split: option.splits)
  note ok = close_allowedD [OF c f]
  have chk: "check s t r [(f_phys_name f, VStr c)] u = Inr ()"
    using cl assms(2) by (auto simp: close_ticket_def bindC_get retC_def split: sum.splits)
  with t f ok show ?thesis by (auto simp: gate_def)
qed

lemma with_ticket_shown:
  assumes "with_ticket u i pk f s = (Inr y, s')"
  obtains t mf r where "ticket_shown s u i pk" "get_table s i = Some t" "f t mf r s = (Inr y, s')"
proof -
  from assms obtain t mf r s1 where t: "get_table s i = Some t" "catalog_form_of s i = Some mf"
    and r: "portal_record u t pk s = (Inr r, s1)" "f t mf r s1 = (Inr y, s')"
    by (auto simp: with_ticket_def bindC_get failC_def elim!: bindC_InrE split: option.splits)
  from portal_record_cases [OF r(1)] r catalog_form_portal [OF t(2,1)] t show ?thesis
    by (intro that [of t mf r]) (auto simp: ticket_shown_def)
qed

text \<open>
  C39: the page of a ticket is shown to its circle only and never shows an internal comment.
\<close>

theorem ticket_page_public:
  assumes "ticket env u i pk s = (Inr p, s')"
  shows "ticket_shown s u i pk \<and> list_all (\<lambda>(c, who). \<not> cm_internal c) (tk_thread p)"
proof -
  from assms [unfolded ticket_def] obtain t mf r where 1: "ticket_shown s u i pk"
    and 2: "bindC (build_form env (Some u) mf) (\<lambda>(b, cfg).
     bindC (view_items mf t (bf_items b) r) (\<lambda>items.
     bindC (bindC (getC (\<lambda>s. close_allowed s u mf t r)) liftC) (\<lambda>close.
     getC (\<lambda>s. \<lparr>tk_label = row_label s t r pk, tk_items = items, tk_thread = list_for s (t_phys_name t) pk False,
       tk_status = (case status_field t of None \<Rightarrow> VNone | Some f \<Rightarrow> rget r (f_phys_name f)),
       tk_created = rget r ''created_at'', tk_by = rget r ''created_by'', tk_close = close\<rparr>)))) s = (Inr p, s')"
    by (rule with_ticket_shown)
  from 2 have "tk_thread p = list_for s' (t_phys_name t) pk False"
    by (auto simp: comp_run elim!: bindC_InrE)
  with 1 show ?thesis by (auto simp: list_for_def list_all_iff)
qed

subsection \<open>Examples\<close>

text \<open>The ticket of a customer, with a comment of a customer and a note of staff, and a state to close it with.\<close>

definition desk_ticket :: meta_table where
  "desk_ticket = owned_table\<lparr>t_track_audit := False, t_fields := [(sample_field ''enum'')\<lparr>f_phys_name := ''state'',
     f_enum_options := JDoc (VList [VStr ''open'', VStr ''closed''])\<rparr>]\<rparr>"

definition ticket_db :: db where
  "ticket_db = portal_db\<lparr>d_tables := [desk_ticket], d_forms := [portal_form\<lparr>fm_portal_close_state := Some ''closed''\<rparr>],
     d_comments := [
       \<lparr>cm_id = 1, cm_table_phys = ''tickets'', cm_row_pk = ''1'', cm_user_id = Some 7, cm_body = ''help'', cm_internal = False\<rparr>,
       \<lparr>cm_id = 2, cm_table_phys = ''tickets'', cm_row_pk = ''1'', cm_user_id = Some 9, cm_body = ''later'', cm_internal = True\<rparr>],
     d_phys := [(''tickets'', owned_phys\<lparr>ph_cols := [(''id'', CInt, False), (''created_by'', CInt, True), (''state'', CStr, True)],
       ph_rows := [[(''id'', VInt 1), (''created_by'', VInt 7), (''state'', VStr ''open'')]]\<rparr>)]\<rparr>"


lemma close_follows_workflow_witness:
  "\<exists>t (mf :: meta_form) r f c. get_table ticket_db 1 = Some t \<and> fm_portal_close_state mf = Some c \<and> status_field t = Some f \<and>
     portal_record (portal_user 7) t (VStr ''1'') ticket_db = (Inr r, ticket_db) \<and> check ticket_db t r [(f_phys_name f, VStr c)] (portal_user 7) = Inr ()"
proof -
  let ?m = "ticket_close plain_env (portal_user 7) 1 (VStr ''1'') None ticket_db"
  have "d_phys (snd ?m) \<noteq> d_phys ticket_db" by code_simp
  then have "snd ?m \<noteq> ticket_db" by auto
  from close_follows_workflow [OF prod.collapse [symmetric] this] show ?thesis by blast
qed

lemma ticket_page_public_witness:
  "\<exists>p :: ticket_page. map (\<lambda>(c, who). cm_id c) (tk_thread p) = [1] \<and> list_all (\<lambda>(c, who). \<not> cm_internal c) (tk_thread p)"
proof -
  let ?m = "ticket plain_env (portal_user 8) 1 (VStr ''1'') ticket_db"
  have ok: "(case fst ?m of Inr p \<Rightarrow> map (\<lambda>(c, who). cm_id c) (tk_thread p) = [1] | Inl _ \<Rightarrow> False)" by code_simp
  then obtain p where p: "fst ?m = Inr p" by (auto split: sum.splits)
  have "map (\<lambda>(c, who). cm_id c) (tk_thread p) = [1]" using ok unfolding p sum.case .
  from conjI [OF this conjunct2 [OF ticket_page_public [OF run_of [OF p]]]] show ?thesis by (rule exI)
qed

end
