(* ===== verification/Personal.thy ===== *)
theory Personal
  imports Record_Lists Scheduler
begin

text \<open>
  What an account keeps for itself: the handlers of \<open>app/user/routes.py\<close> for dashboards and their tiles, saved views,
  saved reports, tokens, notifications, the inbox of approvals, the catalog and its requests. The account is that of the
  session; a token's random part is an argument.

  Shown: such a request changes the account's own things only (and, for designers, the shared dashboards). Findings: a saved report
  with a schedule mails a table its owner may not read, and a page to return to is checked less strictly
  than at the sign-in.
\<close>

definition safe_return :: "pystr \<Rightarrow> pystr option \<Rightarrow> pystr" where
  "safe_return dflt nxt = (case nxt of
     Some (CHR ''/'' # CHR ''/'' # _) \<Rightarrow> dflt | Some (CHR ''/'' # x) \<Rightarrow> CHR ''/'' # x | _ \<Rightarrow> dflt)"

definition form_int :: "args \<Rightarrow> pystr \<Rightarrow> int option" where
  "form_int form k = (case getlist form k of [] \<Rightarrow> None | x # _ \<Rightarrow> parse_int x)"

definition form_text :: "args \<Rightarrow> pystr \<Rightarrow> pystr option" where
  "form_text form k = (let x = get_arg form k in if x = [] then None else Some x)"

definition stripped_text :: "args \<Rightarrow> pystr \<Rightarrow> pystr option" where
  "stripped_text form k = (let x = py_strip (get_arg form k) in if x = [] then None else Some x)"

definition replace_item :: "'a \<Rightarrow> 'a \<Rightarrow> 'a list \<Rightarrow> 'a list" where
  "replace_item x y xs = map (\<lambda>z. if z = x then y else z) xs"

subsection \<open>Dashboards\<close>

definition get_dash :: "db \<Rightarrow> int option \<Rightarrow> dashboard option" where
  "get_dash s i = find (\<lambda>d. Some (da_id d) = i) (d_dashboards s)"

definition my_dashboards :: "db \<Rightarrow> app_user \<Rightarrow> dashboard list" where
  "my_dashboards s u = sort_key da_position (sort_key da_id (filter (\<lambda>d. da_owner_user_id d = Some (u_id u)) (d_dashboards s)))"

definition dashboard_view :: "env \<Rightarrow> app_user \<Rightarrow> int \<Rightarrow> (dashboard \<times> tile list \<times> meta_table list) comp" where
  "dashboard_view env u i =
     bindC (getC (\<lambda>s. case get_dash s (Some i) of
         None \<Rightarrow> None | Some d \<Rightarrow> if dash_visible s (Some u) d then Some d else None)) (\<lambda>x. case x of
       None \<Rightarrow> failC (Abort 404)
     | Some d \<Rightarrow> bindC (render_dashboard env (Some u) d) (\<lambda>ts.
         getC (\<lambda>s. (d, ts, filter (table_readable s (Some u)) (all_tables s)))))"

definition new_dashboard :: "app_user \<Rightarrow> args \<Rightarrow> db \<Rightarrow> db" where
  "new_dashboard u form s = (let name = py_strip (get_arg form ''name'') in
     if name = [] then s
     else s\<lparr>d_dashboards := d_dashboards s @ [\<lparr>da_id = next_id da_id (d_dashboards s), da_name = name, da_description = None,
       da_owner_user_id = Some (u_id u), da_columns = 2, da_position = 0, da_widgets = []\<rparr>]\<rparr>)"

definition drop_dashboard :: "app_user \<Rightarrow> int \<Rightarrow> db \<Rightarrow> db" where
  "drop_dashboard u i s = (case get_dash s (Some i) of
     None \<Rightarrow> s
   | Some d \<Rightarrow> if da_owner_user_id d = Some (u_id u) then s\<lparr>d_dashboards := filter (\<lambda>x. x \<noteq> d) (d_dashboards s)\<rparr> else s)"

definition all_widgets :: "db \<Rightarrow> dashboard_widget list" where
  "all_widgets s = concat (map da_widgets (d_dashboards s))"

definition next_position :: "dashboard \<Rightarrow> int" where
  "next_position d = fold (\<lambda>w m. max m (dw_position w)) (da_widgets d) (- 1) + 1"

definition put_widget :: "dashboard \<Rightarrow> (int \<Rightarrow> dashboard_widget) \<Rightarrow> db \<Rightarrow> db" where
  "put_widget d w s = s\<lparr>d_dashboards :=
     replace_item d (d\<lparr>da_widgets := da_widgets d @ [w (next_id dw_id (all_widgets s))]\<rparr>) (d_dashboards s)\<rparr>"

definition widget_of :: "dashboard \<Rightarrow> args \<Rightarrow> int \<Rightarrow> dashboard_widget" where
  "widget_of d form i = \<lparr>dw_id = i, dw_dashboard_id = da_id d, dw_title = stripped_text form ''title'',
     dw_kind = text_or (form_text form ''kind'') ''chart'', dw_table_id = some_id (form_int form ''table_id''), dw_query = form_text form ''query'',
     dw_chart_type = text_or (form_text form ''chart_type'') ''bar'', dw_content = form_text form ''content'',
     dw_width = (case some_id (form_int form ''width'') of Some n \<Rightarrow> n | None \<Rightarrow> 1),
     dw_limit = (case some_id (form_int form ''limit'') of Some n \<Rightarrow> n | None \<Rightarrow> 5), dw_position = next_position d\<rparr>"

definition add_widget :: "app_user \<Rightarrow> int \<Rightarrow> args \<Rightarrow> outcome comp" where
  "add_widget u i form =
     bindC (getC (\<lambda>s. get_dash s (Some i))) (\<lambda>x. case x of
       None \<Rightarrow> failC (Abort 404)
     | Some d \<Rightarrow> if da_owner_user_id d \<noteq> Some (u_id u) then failC (Abort 404)
         else bindC (modC (put_widget d (widget_of d form))) (\<lambda>_. retC (Message ''Widget added.'')))"

definition drop_widget :: "app_user \<Rightarrow> int \<Rightarrow> int \<Rightarrow> db \<Rightarrow> db" where
  "drop_widget u i k s = (case (get_dash s (Some i), find (\<lambda>w. dw_id w = k) (all_widgets s)) of
     (Some d, Some w) \<Rightarrow>
       if da_owner_user_id d = Some (u_id u) \<and> dw_dashboard_id w = da_id d
       then s\<lparr>d_dashboards := replace_item d (d\<lparr>da_widgets := filter (\<lambda>x. dw_id x \<noteq> k) (da_widgets d)\<rparr>) (d_dashboards s)\<rparr>
       else s
   | _ \<Rightarrow> s)"

definition report_widget :: "meta_table \<Rightarrow> dashboard \<Rightarrow> args \<Rightarrow> int \<Rightarrow> dashboard_widget" where
  "report_widget t d form i = \<lparr>dw_id = i, dw_dashboard_id = da_id d, dw_title = Some (text_or (form_text form ''title'') (t_label t)),
     dw_kind = (if get_arg form ''as'' = ''number'' then ''number'' else ''chart''), dw_table_id = Some (t_id t),
     dw_query = Some (get_arg form ''query''), dw_chart_type = text_or (form_text form ''chart'') ''bar'', dw_content = None,
     dw_width = 1, dw_limit = 5, dw_position = next_position d\<rparr>"

text \<open>Only the owner may add to a personal dashboard, only a designer to a shared one.\<close>

definition may_extend :: "app_user \<Rightarrow> dashboard \<Rightarrow> bool" where
  "may_extend u d = (case da_owner_user_id d of None \<Rightarrow> is_designer u | Some i \<Rightarrow> i = u_id u)"

definition report_to_dashboard :: "app_user \<Rightarrow> int \<Rightarrow> args \<Rightarrow> outcome comp" where
  "report_to_dashboard u table_id form =
     bindC (getC (\<lambda>s. (get_table s table_id, get_dash s (form_int form ''dashboard_id'')))) (\<lambda>x. case x of
       (Some t, Some d) \<Rightarrow> if \<not> may_extend u d then failC (Abort 403)
         else bindC (modC (put_widget d (report_widget t d form))) (\<lambda>_. retC (Message (''Added to '' @ da_name d)))
     | _ \<Rightarrow> retC (Message ''Pick a dashboard.''))"

subsection \<open>Notifications, approvals and the catalog\<close>

definition badges :: "db \<Rightarrow> app_user \<Rightarrow> nat \<times> nat" where
  "badges s u = (length (filter (\<lambda>n. n_channel n = ''in_app'' \<and> n_user_id n = VInt (u_id u) \<and> n_status n = ''unread'') (d_notifs s)),
     pending_count_for_user s u)"

definition notifications :: "db \<Rightarrow> app_user \<Rightarrow> (notification \<times> int option) list" where
  "notifications s u = map (\<lambda>n. (n, case n_table_phys n of None \<Rightarrow> None | Some p \<Rightarrow> map_option t_id (table_by_phys s p)))
     (take 100 (rev (sort_key n_id (filter (\<lambda>n. n_channel n = ''in_app'' \<and> n_user_id n = VInt (u_id u)) (d_notifs s)))))"

definition notifications_read :: "app_user \<Rightarrow> int option \<Rightarrow> db \<Rightarrow> db" where
  "notifications_read u one s = s\<lparr>d_notifs := map (\<lambda>n.
     if n_channel n = ''in_app'' \<and> n_user_id n = VInt (u_id u) \<and> n_status n = ''unread'' \<and>
        (case some_id one of None \<Rightarrow> True | Some i \<Rightarrow> n_id n = i)
     then n\<lparr>n_status := ''read''\<rparr> else n) (d_notifs s)\<rparr>"

definition waiting_for :: "approval_step list \<Rightarrow> pystr" where
  "waiting_for sts = join_with '', '' (map (\<lambda>st. if filled (st_name st) then text_or (st_name st) []
     else text_or (if filled (st_approver_role st) then st_approver_role st else None) ''approver'') sts)"

definition approvals_inbox :: "db \<Rightarrow> app_user \<Rightarrow> (approval_request \<times> int option \<times> pystr \<times> int \<times> nat) list" where
  "approvals_inbox s u = map (\<lambda>q.
     let sts = steps_for s (rq_workflow_id q) (rq_from_state q) (rq_to_state q)
     in (q, map_option t_id (table_by_phys s (rq_table_phys q)),
         waiting_for (filter (\<lambda>st. st_position st = rq_current_position q) sts), rq_current_position q,
         length (remdups (map st_position sts)))) (pending_for_user s u)"

definition approval_act :: "env \<Rightarrow> app_user \<Rightarrow> int \<Rightarrow> pystr \<Rightarrow> pystr option \<Rightarrow> outcome comp" where
  "approval_act env u i decision msg =
     bindC (getC (\<lambda>s. find (\<lambda>q. rq_id q = i) (d_reqs s))) (\<lambda>x. case x of
       None \<Rightarrow> failC (Abort 404)
     | Some q \<Rightarrow> if decision \<notin> {''approve'', ''reject''} then failC (Abort 400)
         else tryC (bindC (act env q u decision msg) (\<lambda>_. retC (Message (''Request '' @ decision @ ''d.''))))
                (\<lambda>e. case e of ValueErr m \<Rightarrow> retC (Message m) | _ \<Rightarrow> failC e))"

definition request_forms :: "db \<Rightarrow> app_user \<Rightarrow> meta_form list" where
  "request_forms s u = filter (\<lambda>f. fm_purpose f \<noteq> ''view'' \<and> can_read (form_access s (Some u) (fm_id f)))
     (sort_by (\<lambda>a b. \<not> text_lt (fm_title b) (fm_title a)) (filter fm_in_catalog (d_forms s)))"

definition catalog :: "db \<Rightarrow> app_user \<Rightarrow> (pystr \<times> meta_form list) list" where
  "catalog s u = sort_by (\<lambda>a b. \<not> text_lt (fst b) (fst a))
     (fold (\<lambda>f d. let g = text_or (if filled (fm_catalog_group f) then fm_catalog_group f else None) ''General'' in
        dset g ((case dget d g of None \<Rightarrow> [] | Some xs \<Rightarrow> xs) @ [f]) d) (request_forms s u) [])"

record my_request =
  my_table :: meta_table
  my_pk :: pyval
  my_label :: pystr
  my_status :: pyval
  my_created :: pyval
  my_viewable :: bool

definition request_tables :: "db \<Rightarrow> app_user \<Rightarrow> meta_table list" where
  "request_tables s u = fold (\<lambda>t ts. if t_id t \<in> t_id ` set ts then ts else ts @ [t])
     (filter (\<lambda>t. t_track_audit t \<or> t_row_owned t) (List.map_filter (\<lambda>f. get_table s (fm_table_id f)) (request_forms s u))) []"

definition request_line :: "db \<Rightarrow> meta_table \<Rightarrow> row \<Rightarrow> my_request" where
  "request_line s t r = \<lparr>my_table = t, my_pk = rget r (t_pk_col t), my_label = row_label s t r (rget r (t_pk_col t)),
     my_status = status_of t r, my_created = rget r ''created_at'', my_viewable = (table_view_form s (t_id t) \<noteq> None)\<rparr>"

definition my_requests :: "app_user \<Rightarrow> my_request list comp" where
  "my_requests u =
     bindC (getC (\<lambda>s. request_tables s u)) (\<lambda>ts.
     bindC (foldC (\<lambda>t acc. bindC (list_records t (Some (u_id u)) True False
           [FCond ''created_by'' (Some ''eq'') (VInt (u_id u)) False] (Some ''created_at'') ''desc'' 1 (Some 50)) (\<lambda>(rows, n).
         getC (\<lambda>s. acc @ map (request_line s t) rows))) ts []) (\<lambda>items.
     retC (rev (sort_by (\<lambda>a b. (my_created a = VNone \<longrightarrow> my_created b = VNone) \<and>
       (my_created b = VNone \<or> sql_le (my_created a) (my_created b))) (rev items)))))"

subsection \<open>Views, reports and tokens\<close>

definition view_save :: "app_user \<Rightarrow> int \<Rightarrow> args \<Rightarrow> outcome comp" where
  "view_save u form_id form = with_form u form_id can_read (\<lambda>mf t.
     let name = py_strip (get_arg form ''name'') in
     if name = [] then retC (Message ''Give the view a name.'')
     else bindC (modC (\<lambda>s. s\<lparr>d_views := d_views s @ [\<lparr>vw_id = next_id vw_id (d_views s), vw_user_id = u_id u, vw_form_id = form_id,
            vw_name = name, vw_query = Some (get_arg form ''query'')\<rparr>]\<rparr>)) (\<lambda>_. retC (Message (''Saved view '' @ name))))"

definition own_view :: "db \<Rightarrow> app_user \<Rightarrow> int \<Rightarrow> int \<Rightarrow> saved_view option" where
  "own_view s u form_id i = (case find (\<lambda>v. vw_id v = i) (d_views s) of
     None \<Rightarrow> None | Some v \<Rightarrow> if vw_user_id v = u_id u \<and> vw_form_id v = form_id then Some v else None)"

definition view_apply :: "app_user \<Rightarrow> int \<Rightarrow> int \<Rightarrow> pystr comp" where
  "view_apply u form_id i = with_form u form_id can_read (\<lambda>mf t.
     bindC (getC (\<lambda>s. own_view s u form_id i)) (\<lambda>v. case v of
       None \<Rightarrow> failC (Abort 404) | Some x \<Rightarrow> retC (text_or (vw_query x) [])))"

definition view_delete :: "app_user \<Rightarrow> int \<Rightarrow> int \<Rightarrow> outcome comp" where
  "view_delete u form_id i = with_form u form_id can_read (\<lambda>mf t.
     bindC (getC (\<lambda>s. own_view s u form_id i)) (\<lambda>v. case v of
       None \<Rightarrow> retC (Message [])
     | Some x \<Rightarrow> bindC (modC (\<lambda>s. s\<lparr>d_views := filter (\<lambda>y. y \<noteq> x) (d_views s)\<rparr>)) (\<lambda>_. retC (Message ''View deleted.''))))"

datatype report_answer = ReportPage report "report_def list" "dashboard list" | ReportFile pystr

definition by_name :: "dashboard list \<Rightarrow> dashboard list" where
  "by_name ds = sort_by (\<lambda>a b. \<not> text_lt (da_name b) (da_name a)) ds"

definition report_page :: "env \<Rightarrow> app_user \<Rightarrow> int \<Rightarrow> args \<Rightarrow> report_answer comp" where
  "report_page env u table_id args =
     bindC (getC (\<lambda>s. map_option (\<lambda>t. (t, table_readable s (Some u) t, scope_filters s t (Some (u_id u)) (is_designer u) False))
       (get_table s table_id))) (\<lambda>x. case x of
       None \<Rightarrow> failC (Abort 404)
     | Some (t, ok, scope) \<Rightarrow>
       if \<not> ok then failC (Abort 403)
       else bindC (build_report env t args scope (Some u)) (\<lambda>ctx.
         if get_arg args ''export'' = ''csv'' then retC (ReportFile (report_csv (re_result ctx)))
         else getC (\<lambda>s. ReportPage ctx
           (sort_by (\<lambda>a b. \<not> text_lt (rd_name b) (rd_name a)) (filter (\<lambda>r. rd_user_id r = u_id u \<and> rd_table_id r = t_id t) (d_reports s)))
           (by_name (filter (\<lambda>d. da_owner_user_id d = Some (u_id u)) (d_dashboards s)) @
            (if is_designer u then by_name (filter (\<lambda>d. da_owner_user_id d = None) (d_dashboards s)) else [])))))"

definition report_save :: "app_user \<Rightarrow> int \<Rightarrow> args \<Rightarrow> db \<Rightarrow> db" where
  "report_save u table_id form s = (let name = py_strip (get_arg form ''name'') in
     if name = [] then s
     else s\<lparr>d_reports := d_reports s @ [\<lparr>rd_id = next_id rd_id (d_reports s), rd_user_id = u_id u, rd_table_id = table_id, rd_name = name,
       rd_query = Some (get_arg form ''query''), rd_pinned = False, rd_schedule_minutes = some_id (form_int form ''schedule_minutes''),
       rd_recipients = stripped_text form ''recipients'', rd_last_run_at = None\<rparr>]\<rparr>)"

definition own_report :: "db \<Rightarrow> app_user \<Rightarrow> int \<Rightarrow> report_def option" where
  "own_report s u i = (case find (\<lambda>r. rd_id r = i) (d_reports s) of
     None \<Rightarrow> None | Some r \<Rightarrow> if rd_user_id r = u_id u then Some r else None)"

definition change_report :: "app_user \<Rightarrow> int \<Rightarrow> (report_def \<Rightarrow> report_def) \<Rightarrow> db \<Rightarrow> db" where
  "change_report u i f s = (case own_report s u i of
     None \<Rightarrow> s | Some r \<Rightarrow> s\<lparr>d_reports := replace_item r (f r) (d_reports s)\<rparr>)"

definition report_delete :: "app_user \<Rightarrow> int \<Rightarrow> db \<Rightarrow> db" where
  "report_delete u i s = (case own_report s u i of
     None \<Rightarrow> s | Some r \<Rightarrow> s\<lparr>d_reports := filter (\<lambda>x. x \<noteq> r) (d_reports s)\<rparr>)"

definition reschedule :: "args \<Rightarrow> report_def \<Rightarrow> report_def" where
  "reschedule form r = r\<lparr>rd_schedule_minutes := some_id (form_int form ''schedule_minutes''), rd_recipients := stripped_text form ''recipients''\<rparr>"

definition toggle_pin :: "report_def \<Rightarrow> report_def" where
  "toggle_pin r = r\<lparr>rd_pinned := \<not> rd_pinned r\<rparr>"

definition new_token :: "app_user \<Rightarrow> args \<Rightarrow> pystr \<Rightarrow> outcome comp" where
  "new_token u form drawn = bindC (mint (u_id u) (text_or (stripped_text form ''name'') ''token'') drawn) (\<lambda>(tok, raw). retC (Message raw))"

definition my_tokens :: "db \<Rightarrow> app_user \<Rightarrow> api_token list" where
  "my_tokens s u = rev (sort_key at_id (filter (\<lambda>t. at_user_id t = u_id u) (d_tokens s)))"

definition token_revoke :: "app_user \<Rightarrow> int \<Rightarrow> db \<Rightarrow> db" where
  "token_revoke u i s = (case find (\<lambda>t. at_id t = i) (d_tokens s) of
     None \<Rightarrow> s
   | Some t \<Rightarrow> if at_user_id t = u_id u then s\<lparr>d_tokens := replace_item t (t\<lparr>at_revoked := True\<rparr>) (d_tokens s)\<rparr> else s)"

datatype personal_call =
    NewDashboard args
  | DropDashboard int
  | AddWidget int args
  | DropWidget int int
  | ReportToDashboard int args
  | NewToken args pystr
  | RevokeToken int
  | ReadNotifications "int option"
  | SaveView int args
  | DropView int int
  | SaveReport int args
  | ScheduleReport int args
  | DropReport int
  | PinReport int

definition changes :: "(db \<Rightarrow> db) \<Rightarrow> outcome comp" where
  "changes f = bindC (modC f) (\<lambda>_. retC (Message []))"

definition personal_route :: "app_user \<Rightarrow> personal_call \<Rightarrow> outcome comp" where
  "personal_route u c = (case c of
     NewDashboard form \<Rightarrow> changes (new_dashboard u form)
   | DropDashboard i \<Rightarrow> changes (drop_dashboard u i)
   | AddWidget i form \<Rightarrow> add_widget u i form
   | DropWidget i k \<Rightarrow> changes (drop_widget u i k)
   | ReportToDashboard i form \<Rightarrow> report_to_dashboard u i form
   | NewToken form drawn \<Rightarrow> new_token u form drawn
   | RevokeToken i \<Rightarrow> changes (token_revoke u i)
   | ReadNotifications one \<Rightarrow> changes (notifications_read u one)
   | SaveView i form \<Rightarrow> view_save u i form
   | DropView i k \<Rightarrow> view_delete u i k
   | SaveReport i form \<Rightarrow> changes (report_save u i form)
   | ScheduleReport i form \<Rightarrow> changes (change_report u i (reschedule form))
   | DropReport i \<Rightarrow> changes (report_delete u i)
   | PinReport i \<Rightarrow> changes (change_report u i toggle_pin))"

definition personal_request :: "app_user option \<Rightarrow> personal_call \<Rightarrow> outcome comp" where
  "personal_request user c = (case user of
     None \<Rightarrow> failC (Abort 401)
   | Some u \<Rightarrow> if is_portal u then retC Portal_Home else personal_route u c)"

subsection \<open>Only one's own\<close>

lemma filter_replaced: "\<not> P x \<Longrightarrow> \<not> P y \<Longrightarrow> filter P (replace_item x y xs) = filter P xs"
  by (induction xs) (auto simp: replace_item_def)

lemma filter_dropped: "\<not> P x \<Longrightarrow> filter P (filter (\<lambda>y. y \<noteq> x) xs) = filter P xs"
  by (induction xs) auto

lemma filter_mapped: "(\<And>x. P (f x) = P x) \<Longrightarrow> (\<And>x. P x \<Longrightarrow> f x = x) \<Longrightarrow> filter P (map f xs) = filter P xs"
  by (induction xs) auto

text \<open>Everything else is as it was, and so are the dashboards, views, reports, tokens and notifications of others.\<close>

definition others_kept :: "app_user \<Rightarrow> db \<Rightarrow> db \<Rightarrow> bool" where
  "others_kept u s s' \<longleftrightarrow>
     s' = s\<lparr>d_dashboards := d_dashboards s', d_views := d_views s', d_reports := d_reports s', d_tokens := d_tokens s', d_notifs := d_notifs s'\<rparr> \<and>
     filter (\<lambda>d. \<not> may_extend u d) (d_dashboards s') = filter (\<lambda>d. \<not> may_extend u d) (d_dashboards s) \<and>
     filter (\<lambda>v. vw_user_id v \<noteq> u_id u) (d_views s') = filter (\<lambda>v. vw_user_id v \<noteq> u_id u) (d_views s) \<and>
     filter (\<lambda>r. rd_user_id r \<noteq> u_id u) (d_reports s') = filter (\<lambda>r. rd_user_id r \<noteq> u_id u) (d_reports s) \<and>
     filter (\<lambda>t. at_user_id t \<noteq> u_id u) (d_tokens s') = filter (\<lambda>t. at_user_id t \<noteq> u_id u) (d_tokens s) \<and>
     filter (\<lambda>n. n_user_id n \<noteq> VInt (u_id u)) (d_notifs s') = filter (\<lambda>n. n_user_id n \<noteq> VInt (u_id u)) (d_notifs s)"

lemma others_refl [simp]: "others_kept u s s"
  by (simp add: others_kept_def)

lemma owner_may_extend: "da_owner_user_id d = Some (u_id u) \<Longrightarrow> may_extend u d"
  by (simp add: may_extend_def)

lemma may_extend_widgets [simp]: "may_extend u (d\<lparr>da_widgets := ws\<rparr>) = may_extend u d"
  by (simp add: may_extend_def)

lemma own_dashboards:
  "others_kept u s (new_dashboard u form s)" "others_kept u s (drop_dashboard u i s)" "others_kept u s (drop_widget u i k s)"
  "may_extend u d \<Longrightarrow> others_kept u s (put_widget d w s)"
  by (auto simp: others_kept_def new_dashboard_def drop_dashboard_def drop_widget_def put_widget_def owner_may_extend Let_def
      filter_replaced filter_dropped simp del: filter_filter split: option.splits)

lemma own_reports:
  assumes "\<And>r. rd_user_id (f r) = rd_user_id r"
  shows "others_kept u s (report_save u i form s)" "others_kept u s (report_delete u i s)" "others_kept u s (change_report u i f s)"
  using assms by (auto simp: others_kept_def report_save_def report_delete_def change_report_def own_report_def Let_def
      filter_replaced filter_dropped simp del: filter_filter split: option.splits if_splits)

lemma own_rest:
  "others_kept u s (token_revoke u i s)" "others_kept u s (notifications_read u one s)"
proof -
  show "others_kept u s (token_revoke u i s)"
    by (auto simp: others_kept_def token_revoke_def filter_replaced split: option.splits)
  show "others_kept u s (notifications_read u one s)"
    by (simp add: others_kept_def notifications_read_def, rule filter_mapped) auto
qed

lemma own_calls:
  "add_widget u i form s = (x, s') \<Longrightarrow> others_kept u s s'" "report_to_dashboard u i form s = (x, s') \<Longrightarrow> others_kept u s s'"
  "new_token u form drawn s = (x, s') \<Longrightarrow> others_kept u s s'" "view_save u i form s = (x, s') \<Longrightarrow> others_kept u s s'"
  "view_delete u i k s = (x, s') \<Longrightarrow> others_kept u s s'"
proof -
  show "add_widget u i form s = (x, s') \<Longrightarrow> others_kept u s s'"
    by (auto simp: add_widget_def bindC_get failC_def retC_def own_dashboards(4) owner_may_extend split: option.splits if_splits)
  show "report_to_dashboard u i form s = (x, s') \<Longrightarrow> others_kept u s s'"
    by (auto simp: report_to_dashboard_def bindC_get failC_def retC_def own_dashboards(4) split: option.splits if_splits)
  show "new_token u form drawn s = (x, s') \<Longrightarrow> others_kept u s s'"
    by (auto simp: new_token_def mint_def bindC_def retC_def Let_def others_kept_def)
  show "view_save u i form s = (x, s') \<Longrightarrow> others_kept u s s'"
    by (auto simp: view_save_def with_form_def bindC_get failC_def retC_def Let_def others_kept_def split: option.splits if_splits)
  show "view_delete u i k s = (x, s') \<Longrightarrow> others_kept u s s'"
    by (auto simp: view_delete_def with_form_def bindC_get failC_def retC_def own_view_def others_kept_def filter_dropped
        simp del: filter_filter split: option.splits if_splits)
qed

text \<open>
  C40: what an account does with its dashboards, views, reports, tokens and notifications changes its own only: those of
  other accounts, and for all but designers the shared dashboards, stay as they are, and so does everything else.
\<close>

theorem personal_touches_own:
  assumes "personal_request user c s = (x, s')"
  shows "s' = s \<or> (\<exists>u. user = Some u \<and> \<not> is_portal u \<and> others_kept u s s')"
proof -
  have kept: "others_kept u s s'" if "personal_route u c s = (x, s')" for u
    using that own_calls by (cases c) (auto simp: personal_route_def changes_def bindC_get retC_def own_dashboards own_reports own_rest
        reschedule_def toggle_pin_def)
  from assms show ?thesis
    by (auto simp: personal_request_def failC_def retC_def kept split: option.splits if_splits)
qed

subsection \<open>Examples\<close>

text \<open>A table that the account may not read, and two saved reports.\<close>

definition closed_db :: db where
  "closed_db = firm_db\<lparr>d_forms := [],
     d_reports := [\<lparr>rd_id = 1, rd_user_id = 7, rd_table_id = 3, rd_name = ''mine'', rd_query = None, rd_pinned = False,
         rd_schedule_minutes = None, rd_recipients = None, rd_last_run_at = None\<rparr>,
       \<lparr>rd_id = 2, rd_user_id = 8, rd_table_id = 3, rd_name = ''theirs'', rd_query = None, rd_pinned = False,
         rd_schedule_minutes = None, rd_recipients = None, rd_last_run_at = None\<rparr>]\<rparr>"

lemma personal_touches_own_witness:
  "map rd_pinned (d_reports (snd (personal_request (Some member) (PinReport 1) closed_db))) = [True, False] \<and>
   others_kept member closed_db (snd (personal_request (Some member) (PinReport 1) closed_db))"
proof -
  let ?m = "personal_request (Some member) (PinReport 1) closed_db"
  have pin: "map rd_pinned (d_reports (snd ?m)) = [True, False]" by code_simp
  moreover have "map rd_pinned (d_reports closed_db) = [False, False]" by code_simp
  ultimately have "snd ?m \<noteq> closed_db" by auto
  with personal_touches_own [OF prod.collapse [symmetric], of "Some member" "PinReport 1" closed_db] pin show ?thesis by auto
qed

definition digest_form :: args where
  "digest_form = [(''name'', ''all''), (''query'', ''group=memo''), (''schedule_minutes'', ''60''), (''recipients'', ''a@x.org'')]"

text \<open>The digest of such a table, with the values of a column hidden from the account, is sent all the same.\<close>

lemma digest_unchecked:
  "\<not> table_readable closed_db (Some member) firm_table \<and>
   map n_body (filter (\<lambda>n. n_channel n = ''report'') (d_notifs (snd (run_one_report plain_env 3
     (snd (personal_request (Some member) (SaveReport 3 digest_form) closed_db)))))) =
   [Some (csv_text [[''X'', ''Count''], [''secret'', ''1''], [''plain'', ''1''], [''other'', ''1''], [''Total'', ''3'']])]"
  by code_simp

text \<open>A page of another host, written with a backslash, is no page to return to at the sign-in.\<close>

lemma return_less_strict:
  "safe_return ''/u/'' (Some (''/'' @ [CHR 0x5C] @ ''evil.org'')) = ''/'' @ [CHR 0x5C] @ ''evil.org'' \<and>
   safe_next (Some (''/'' @ [CHR 0x5C] @ ''evil.org'')) = index_url"
  by code_simp

end
