(* ===== verification/Spec2Isabelle.thy ===== *)
theory Spec2Isabelle
  imports Approvals Record_Service Identifiers Rate_Limit Jobs Maintenance Workflow Settings
    Form_Rules Totp Serialization Reconcile Portal Rest_Api Sign_In Pull Hooks Csv Reporting Scheduler
    Mailbox Forms Record_Forms Record_Lists Portal_Routes Personal
begin

text \<open>
  Biggy: verification library of the application's core logic.

  Biggy is a server (Python, Flask) on which designers draw up tables, forms, workflows, trigger
  rules, service levels and feeds, and users keep records in them. The logic modelled here is that
  under \<open>src/app\<close>: what happens to a record when it is written, who may see and change it, and
  what a write sets off. The handlers of the pages, the portal and the REST interface call the services; every write of a record goes through
  \<open>record_service\<close>, which calls in turn the workflow gate (from the routes), the physical
  store (\<open>data_service\<close>), formulas, the audit log, SLA clocks, trigger rules, feeds and
  watchers; the scheduler calls the breach sweep, scheduled feeds and the sweep of the rate limiter.

  \<^bold>\<open>Theories and sources.\<close>

  \<^item> \<open>Prelude\<close>: dicts as association lists (insertion ordered, as in Python), the computations
    \<open>'a comp\<close> (a state of the database goes in, a result or an exception and the new state come out)
    with \<open>bindC\<close>, \<open>tryC\<close>, \<open>foldC\<close>, and the lemmas that carry the frame proofs.
  \<^item> \<open>PyStr\<close>, \<open>PyNum\<close>, \<open>PyVal\<close>, \<open>PyArith\<close>: the parts of Python the sources rest on: text methods,
    parsing and printing of numbers, values with their equality and truth, dates, decimal and float
    arithmetic.
  \<^item> \<open>Models\<close> (\<open>metadata/models.py\<close>): one record per ORM class, the database \<open>db\<close> with a list of rows per
    class and the physical tables \<open>d_phys\<close> with their columns and constraints.
  \<^item> \<open>Identifiers\<close> (\<open>identifiers.py\<close>), \<open>Rate_Limit\<close> (\<open>rate_limit.py\<close> and its sweep), \<open>Jobs\<close> (\<open>jobs.py\<close>),
    \<open>Companies\<close> (\<open>companies.py\<close>), \<open>Maintenance\<close> (\<open>maintenance.py\<close>), \<open>Settings\<close> (\<open>settings.py\<close>, \<open>mailer.py\<close>),
    \<open>Totp\<close> (\<open>totp.py\<close>): components that stand alone.
  \<^item> \<open>Filters\<close> (\<open>filters.py\<close>), \<open>Data_Service\<close> (\<open>data_service.py\<close>): the rows of physical tables.
  \<^item> \<open>Access\<close>, \<open>Portal\<close> (\<open>access.py\<close>), \<open>Workflow\<close> (\<open>workflow.py\<close>), \<open>Approvals\<close> (\<open>approvals.py\<close>): who may do what.
  \<^item> \<open>Effects\<close>: the environment \<open>env\<close> (clock, transport, parsers of the standard library that are left
    as parameters) and the notifications. \<open>Triggers\<close> (\<open>triggers.py\<close>), \<open>Sla\<close> (\<open>sla.py\<close>), \<open>Feeds\<close>
    (\<open>feeds.py\<close>, \<open>connectors.py\<close>), \<open>Watch\<close> (\<open>watch.py\<close>, \<open>comments.py\<close>): what a write sets off.
  \<^item> \<open>Formula\<close> (\<open>formula.py\<close>), \<open>Form_Rules\<close> (\<open>form_rules.py\<close>): the two small languages of the designer.
  \<^item> \<open>Record_Service\<close> (\<open>record_service.py\<close>): the composition of all these; \<open>Reconcile\<close> (\<open>reconcile.py\<close>):
    merging of duplicates by it.
  \<^item> \<open>Importer\<close> (\<open>importer.py\<close>), \<open>Serialization\<close> (\<open>api/serialization.py\<close>): values that come from outside;
    \<open>Rest_Api\<close> (\<open>api/routes.py\<close>): the handlers of the REST interface over all of it.
  \<^item> \<open>Pull\<close> (\<open>pull.py\<close>), \<open>Hooks\<close> (\<open>hooks/routes.py\<close>): records polled from other systems and pushed by them.
  \<^item> \<open>Csv\<close> (the \<open>csv\<close> module as the sources use it), \<open>Reporting\<close> (\<open>reporting.py\<close>, \<open>dashboards.py\<close>): reports,
    their exports and the tiles of dashboards.
  \<^item> \<open>Mailbox\<close> (\<open>mailbox.py\<close>, \<open>file_store.py\<close>): mail that becomes a record or a comment. \<open>Scheduler\<close> (\<open>scheduler.py\<close>): one
    pass over rules, feeds, polls, mail, recurring records, service levels and digests.
  \<^item> \<open>Forms\<close> (\<open>forms/builder.py\<close>, \<open>form_rules.bind\<close>): the form of a table as its user may fill it in. \<open>Record_Forms\<close>,
    \<open>Record_Lists\<close>, \<open>Personal\<close> (\<open>user/routes.py\<close>, \<open>list_export.py\<close>, the panels of \<open>sla.py\<close>): the handlers of the user interface that
    write records, that show them, and that keep an account's own dashboards, reports, views and tokens. \<open>Portal_Routes\<close>
    (\<open>portal/routes.py\<close>): what a customer sees and does.
  \<^item> \<open>Sign_In\<close> (\<open>auth/routes.py\<close>, \<open>api/tokens.py\<close>, the loaders of \<open>helpers.py\<close>): accounts, sessions and tokens.

  \<^bold>\<open>State and operations.\<close> An ORM object is a record whose fields carry the class's prefix
  (\<open>tr_\<close> of \<open>trigger_rule\<close>, \<open>ck_\<close> of \<open>sla_clock\<close>); a query is a filter of the list of its class, and a
  commit the new list in the returned state. A physical table holds rows as dicts, its columns with
  their NOT NULL and UNIQUE constraints; a statement that breaks one raises and leaves the table as it
  was. An exception is a value of \<open>exn\<close>; messages that only show values are clipped to their constructor
  and arguments. JSON columns are \<open>jcol\<close>: absent, a document, or text that does not parse.
  Times are microseconds, dates ordinals.

  \<^bold>\<open>What the lemmas show.\<close> Constraints and frames: whatever a write sets off, constraints hold,
  notifications and audit entries are only added, and accounts, design and approvals stay
  (\<open>action_frame\<close>, an interface interpreted for every operation). Errors: rules, SLA and feeds never
  break the write. State machines: SLA clocks and approval requests move along their steps only;
  \<open>act\<close> refines an abstract sign-off sheet and finishes after as many approvals as there are
  steps; a session is signed in only by a proof of identity (\<open>signing\<close>, an inductive set of histories).
  Confidentiality: a report does not depend on hidden columns, tiles show readable tables only.
  Authority: no handler of the REST interface, the user interface or the portal acts without it, a
  form stores only what its user may write, lists and exports stay in scope, and personal things are changed by their owner. Equivalences: the workflow gate, the inbox, list and single record, form rules in one pass.
  Types: coerced, computed and deserialised values. Bounds: the rate limiter, pauses, codes.

  \<^bold>\<open>Bounds and fuel.\<close> A rule that creates a record may fire rules in turn; \<open>create_at\<close> recurses on the
  depth left, from \<open>MAX_CREATE_DEPTH\<close> (3) down, which is the guard of the code itself. The endless loop of
  \<open>infer_schema\<close> is a \<open>partial_function\<close>, so that it has no value; so is the loop over the pages of a peer, which is shown
  to return where the peer states its total. A pass of the scheduler has no value when a poll in it has none. Every other loop is structural
  or has a measure. Text ranges over the code points 0 to 255: a message with a dash or an arrow
  outside of it is written in ASCII.

  \<^bold>\<open>Not modelled.\<close> The pages of the designer and the application factory, templates, and what WTForms does with the
  text of a request (glue over the services, and a third-party library: the reading of a form is the parameter
  \<open>wtf\<close>); the identity provider's signatures and
  the password hash (parameters); DDL, files and the mail and HTTP transports themselves (database and network
  I/O: transports are parameters); cryptography but for the hash functions the one-time codes use; the
  examples, help texts and item templates (data); topology and the XML/JSON
  exchange of designs. Foreign keys are not enforced, as SQLite does not. Regular expressions, the
  parser of Python expressions, JSON parsing, the parsing of dates and the decimal power are
  parameters of \<open>env\<close>. Requests are served one after another.
\<close>

end
